(* ===== verification/Prelude.thy ===== *)
theory Prelude
  imports Complex_Main "HOL-Library.Word" "HOL-Library.AList" "HOL-Library.Multiset"
begin

text \<open>
  The shared vocabulary of the development: the machine integer types of the Rust sources, clock
  readings, Rust's \<open>Ordering\<close> and the stable slice sort, the saturating operations, and the generic
  lemmas on lists, options and association lists that the component theories use.

  A \<open>HashMap\<close> of the sources is an association list with distinct keys. The order of the list stands
  for the iteration order, which the Rust documentation leaves unspecified: every theorem
  quantifies over the list, so none depends on it.

  An \<open>Instant\<close> is a number of nanoseconds on the monotonic clock (an integer, because subtracting a
  duration may go below the clock's origin); a \<open>Duration\<close> is a natural number of nanoseconds.
\<close>

section \<open>Collections of rewrite rules\<close>

named_theorems slot_simps \<open>projections of the per-commitment records\<close>
named_theorems health_simps \<open>what the health operations leave unchanged\<close>
named_theorems code_simps \<open>membership in the fixed status and error-code lists\<close>
named_theorems cursor_simps \<open>behaviour of the transaction byte cursor\<close>

section \<open>Machine types\<close>

type_synonym u8 = "8 word"
type_synonym u16 = "16 word"
type_synonym u32 = "32 word"
type_synonym u64 = "64 word"
type_synonym usize = "64 word"
type_synonym byte = "8 word"
type_synonym bytes = "8 word list"

type_synonym instant = int
type_synonym duration = nat

definition duration_from_secs :: "u64 \<Rightarrow> duration" where
  "duration_from_secs s = unat s * 1000000000"

definition duration_from_millis :: "u64 \<Rightarrow> duration" where
  "duration_from_millis s = unat s * 1000000"

definition saturating_duration_since :: "instant \<Rightarrow> instant \<Rightarrow> duration" where
  "saturating_duration_since later earlier = nat (later - earlier)"

definition u64_saturating_sub :: "u64 \<Rightarrow> u64 \<Rightarrow> u64" where
  "u64_saturating_sub a b = (if b \<le> a then a - b else 0)"

definition u64_MAX :: u64 where
  "u64_MAX = 18446744073709551615"

definition u64_saturating_add :: "u64 \<Rightarrow> u64 \<Rightarrow> u64" where
  "u64_saturating_add a b = (if unat a + unat b < 2 ^ 64 then a + b else u64_MAX)"

section \<open>Comparison and the stable slice sort\<close>

text \<open>
  \<open>std::cmp::Ordering\<close>, and \<open>slice::sort_by\<close>: a stable sort. On a comparison that is a total preorder
  on the elements of the slice the stable sort is determined, and insertion sort computes it; where the
  comparison is not one (a NaN among the keys) the Rust documentation leaves the order unspecified and
  allows a panic, so the ordering theorems below are stated on slices where it is one.
\<close>

datatype ordering = Less | Equal | Greater

fun insert_by :: "('a \<Rightarrow> 'a \<Rightarrow> ordering) \<Rightarrow> 'a \<Rightarrow> 'a list \<Rightarrow> 'a list" where
  "insert_by cmp x [] = [x]"
| "insert_by cmp x (y # ys) =
     (if cmp x y = Greater then y # insert_by cmp x ys else x # y # ys)"

definition sort_by :: "('a \<Rightarrow> 'a \<Rightarrow> ordering) \<Rightarrow> 'a list \<Rightarrow> 'a list" where
  "sort_by cmp xs = foldr (insert_by cmp) xs []"

text \<open>\<open>Iterator::position\<close>.\<close>

fun position :: "('a \<Rightarrow> bool) \<Rightarrow> 'a list \<Rightarrow> nat option" where
  "position P [] = None"
| "position P (x # xs) = (if P x then Some 0 else map_option Suc (position P xs))"

text \<open>\<open>Vec::remove\<close> at an index inside the vector.\<close>

definition remove_nth :: "nat \<Rightarrow> 'a list \<Rightarrow> 'a list" where
  "remove_nth i xs = take i xs @ drop (Suc i) xs"

text \<open>\<open>HashMap::entry(k).or_default()\<close> followed by an update of the entry in place.\<close>

definition entry_update :: "'v \<Rightarrow> ('v \<Rightarrow> 'v) \<Rightarrow> 'k \<Rightarrow> ('k \<times> 'v) list \<Rightarrow> ('k \<times> 'v) list" where
  "entry_update d f k m = AList.update k (f (case map_of m k of None \<Rightarrow> d | Some v \<Rightarrow> v)) m"

section \<open>Sorting\<close>

lemma mset_insert_by [simp]: "mset (insert_by cmp x xs) = add_mset x (mset xs)"
  by (induction xs) auto

lemma mset_sort_by [simp]: "mset (sort_by cmp xs) = mset xs"
  by (induction xs) (auto simp: sort_by_def)

lemma set_insert_by [simp]: "set (insert_by cmp x xs) = insert x (set xs)"
  by (induction xs) auto

lemma set_sort_by [simp]: "set (sort_by cmp xs) = set xs"
  by (metis mset_sort_by set_mset_mset)

lemma length_sort_by [simp]: "length (sort_by cmp xs) = length xs"
  by (metis mset_sort_by size_mset)

lemma insert_by_first:
  "(\<And>y. y \<in> set ys \<Longrightarrow> cmp x y \<noteq> Greater) \<Longrightarrow> insert_by cmp x ys = x # ys"
  by (cases ys) simp_all

lemma sort_by_sorted: "sorted_wrt (\<lambda>x y. cmp x y \<noteq> Greater) xs \<Longrightarrow> sort_by cmp xs = xs"
  by (induction xs) (simp_all add: sort_by_def insert_by_first)

text \<open>
  The interface a comparison has to meet for the sort to order a slice: totality and transitivity of
  \<open>cmp a b \<noteq> Greater\<close> on the elements that satisfy \<open>ok\<close>.
\<close>

locale comparison =
  fixes cmp :: "'a \<Rightarrow> 'a \<Rightarrow> ordering" and ok :: "'a \<Rightarrow> bool"
  assumes cmp_flip: "ok a \<Longrightarrow> ok b \<Longrightarrow> cmp a b = Greater \<Longrightarrow> cmp b a \<noteq> Greater"
    and cmp_trans: "ok a \<Longrightarrow> ok b \<Longrightarrow> ok c \<Longrightarrow> cmp a b \<noteq> Greater \<Longrightarrow> cmp b c \<noteq> Greater \<Longrightarrow>
      cmp a c \<noteq> Greater"
begin

lemma insert_by_ordered:
  assumes "ok x" "\<forall>y \<in> set ys. ok y" "sorted_wrt (\<lambda>a b. cmp a b \<noteq> Greater) ys"
  shows "sorted_wrt (\<lambda>a b. cmp a b \<noteq> Greater) (insert_by cmp x ys)"
  using assms
proof (induction ys)
  case Nil
  then show ?case by simp
next
  case (Cons y ys)
  show ?case
  proof (cases "cmp x y = Greater")
    case True
    with Cons cmp_flip[of x y] show ?thesis by auto
  next
    case False
    with Cons cmp_trans[of x y] show ?thesis by auto
  qed
qed

lemma sort_by_ordered:
  "\<forall>x \<in> set xs. ok x \<Longrightarrow> sorted_wrt (\<lambda>a b. cmp a b \<noteq> Greater) (sort_by cmp xs)"
proof (induction xs)
  case Nil
  then show ?case by (simp add: sort_by_def)
next
  case (Cons x xs)
  then have "sorted_wrt (\<lambda>a b. cmp a b \<noteq> Greater) (insert_by cmp x (sort_by cmp xs))"
    by (intro insert_by_ordered) auto
  then show ?case by (simp add: sort_by_def)
qed

lemma sort_by_head:
  assumes "\<forall>x \<in> set xs. ok x" "y \<in> set xs"
  shows "cmp (hd (sort_by cmp xs)) y \<noteq> Greater"
proof -
  obtain z zs where zs: "sort_by cmp xs = z # zs"
    using assms(2) by (metis list.exhaust set_sort_by empty_iff empty_set)
  have "y = z \<or> y \<in> set zs" using assms(2) zs by (metis set_ConsD set_sort_by)
  moreover have "cmp z z \<noteq> Greater" using assms(1) zs cmp_flip
    by (metis list.set_intros(1) set_sort_by)
  ultimately show ?thesis using sort_by_ordered[OF assms(1)] zs by auto
qed

end

section \<open>Bounded channels\<close>

text \<open>
  What the senders rely on of a bounded \<open>mpsc\<close> channel they send to without waiting: a message goes to the
  end of the queue if the channel is open and has a free place, and is refused otherwise.
\<close>

locale bounded_channel =
  fixes queue :: "'s \<Rightarrow> 'q list" and cap :: nat and accepting :: "'s \<Rightarrow> bool" and wrap :: "'m \<Rightarrow> 'q"
    and send :: "'m \<Rightarrow> 's \<Rightarrow> 's"
  assumes send_queue: "queue (send m s) =
      (if accepting s \<and> length (queue s) < cap then queue s @ [wrap m] else queue s)"
    and send_accepting: "accepting (send m s) = accepting s"
begin

lemma send_within: "length (queue s) \<le> cap \<Longrightarrow> length (queue (send m s)) \<le> cap"
  by (simp add: send_queue)

text \<open>Of a burst, the messages that still fit are queued in order and the later ones are refused.\<close>

lemma sends_fifo:
  "accepting s \<Longrightarrow> queue (fold send ms s) = queue s @ take (cap - length (queue s)) (map wrap ms)"
proof (induction ms arbitrary: s)
  case (Cons m ms)
  show ?case
  proof (cases "length (queue s) < cap")
    case True
    then have "cap - length (queue s) = Suc (cap - Suc (length (queue s)))" by simp
    with Cons True show ?thesis by (simp add: send_queue send_accepting)
  next
    case False
    with Cons show ?thesis by (simp add: send_queue send_accepting)
  qed
qed simp

end

section \<open>Lists and association lists\<close>

lemma position_Some:
  "position P xs = Some i \<Longrightarrow> i < length xs \<and> P (xs ! i) \<and> (\<forall>j < i. \<not> P (xs ! j))"
proof (induction xs arbitrary: i)
  case Nil
  then show ?case by simp
next
  case (Cons x xs)
  show ?case
  proof (cases "P x")
    case True
    with Cons.prems show ?thesis by auto
  next
    case False
    with Cons.prems obtain k where k: "position P xs = Some k" "i = Suc k" by auto
    have "\<forall>j < Suc k. \<not> P ((x # xs) ! j)"
      using Cons.IH[OF k(1)] False by (auto simp: less_Suc_eq_0_disj)
    with Cons.IH[OF k(1)] k(2) show ?thesis by simp
  qed
qed

lemma position_None: "position P xs = None \<longleftrightarrow> (\<forall>x \<in> set xs. \<not> P x)"
  by (induction xs) auto

lemma position_less_or_None:
  "(case position P xs of None \<Rightarrow> length xs | Some i \<Rightarrow> i) \<le> length xs"
  by (auto dest: position_Some split: option.split)

lemma mset_remove_nth: "i < length xs \<Longrightarrow> add_mset (xs ! i) (mset (remove_nth i xs)) = mset xs"
proof -
  assume i: "i < length xs"
  have "mset xs = mset (take i xs @ xs ! i # drop (Suc i) xs)"
    using id_take_nth_drop[OF i] by metis
  then show ?thesis by (simp add: remove_nth_def)
qed

lemma find_Some_set: "find P xs = Some x \<Longrightarrow> x \<in> set xs \<and> P x"
  by (induction xs) (auto split: if_splits)

lemma find_distinct_key:
  assumes "distinct (map key xs)" "x \<in> set xs"
  shows "find (\<lambda>y. key y = key x) xs = Some x"
  using assms by (induction xs) (auto simp: image_iff)

lemma map_of_update_self [simp]: "map_of (AList.update k v xs) k = Some v"
  by (simp add: update_conv')

lemma map_of_update_other [simp]: "k \<noteq> k' \<Longrightarrow> map_of (AList.update k v xs) k' = map_of xs k'"
  by (simp add: update_conv')

lemma map_of_delete_self [simp]: "map_of (AList.delete k xs) k = None"
  by (simp add: delete_conv')

lemma map_of_delete_other [simp]: "k \<noteq> k' \<Longrightarrow> map_of (AList.delete k xs) k' = map_of xs k'"
  by (simp add: delete_conv')

lemma keys_update [simp]: "fst ` set (AList.update k v xs) = insert k (fst ` set xs)"
  using dom_update[of k v xs] by (simp add: dom_map_of_conv_image_fst[symmetric])

lemma keys_delete [simp]: "fst ` set (AList.delete k xs) = fst ` set xs - {k}"
  using dom_map_of_conv_image_fst[of "AList.delete k xs"] dom_map_of_conv_image_fst[of xs]
  by (simp add: delete_conv')

lemma map_of_entry_update [simp]:
  "map_of (entry_update d f k m) k' =
     (if k' = k then Some (f (case map_of m k of None \<Rightarrow> d | Some v \<Rightarrow> v)) else map_of m k')"
  by (simp add: entry_update_def)

lemma distinct_entry_update [simp]:
  "distinct (map fst m) \<Longrightarrow> distinct (map fst (entry_update d f k m))"
  by (simp add: entry_update_def distinct_update)

section \<open>Ranges and saturating arithmetic\<close>

lemma u8_bound: "unat (x :: u8) < 256"
  using unsigned_less[of x, where ?'a = nat] by simp

lemma u16_bound: "unat (x :: u16) < 65536"
  using unsigned_less[of x, where ?'a = nat] by simp

lemma u32_bound: "unat (x :: u32) < 2 ^ 32"
  using unsigned_less[of x, where ?'a = nat] by simp

lemma u64_bound: "unat (x :: u64) < 2 ^ 64"
  using unsigned_less[of x, where ?'a = nat] by simp

lemma u64_saturating_sub_unat: "unat (u64_saturating_sub a b) = unat a - unat b"
  by (auto simp: u64_saturating_sub_def unat_sub_if' word_le_nat_alt)

lemma u64_saturating_sub_self [simp]: "u64_saturating_sub a a = 0"
  by (simp add: u64_saturating_sub_def)

lemma u64_saturating_sub_mono: "a \<le> a' \<Longrightarrow> u64_saturating_sub a b \<le> u64_saturating_sub a' b"
  by (simp add: word_le_nat_alt u64_saturating_sub_unat)

lemma u64_saturating_add_unat:
  "unat (u64_saturating_add a b) = min (unat a + unat b) (2 ^ 64 - 1)"
  by (auto simp: u64_saturating_add_def u64_MAX_def unat_word_ariths)

lemma dropWhile_sorted:
  "sorted (map fst xs) \<Longrightarrow> dropWhile (\<lambda>(t, _). t < k) xs = filter (\<lambda>x. k \<le> fst x) (xs :: (int \<times> 'b) list)"
proof (induction xs)
  case (Cons x xs)
  then have "\<not> fst x < k \<Longrightarrow> filter (\<lambda>x. k \<le> fst x) xs = xs" by (fastforce simp: filter_id_conv)
  with Cons show ?case by (auto simp: case_prod_beta)
qed simp

end
