(* ===== verification/F64.thy ===== *)
theory F64
  imports Prelude "HOL-Library.Log_Nat"
begin

text \<open>
  IEEE 754 binary64 as the sources use it: NaN, the two infinities, and finite values carried as
  rationals; every arithmetic operation is the exact rational operation followed by rounding to
  nearest, ties to even, with a 53-bit significand, subnormals down to \<open>2 powi (-1074)\<close> and overflow to
  an infinity. The two zeros are identified: the program never divides by a value that could be a
  negative zero and orders only non-negative samples with \<open>total_cmp\<close>.

  The laws the components rely on (monotonicity of rounding, exactness on the integers up to
  \<open>2 ^ 53\<close>) are the locale \<open>rounding\<close>; the bounds the health score and the token bucket need are
  proved in it once and interpreted for the binary64 rounding.
\<close>

section \<open>Rounding to binary64\<close>

datatype f64 = NaN | PInf | NInf | Fin rat

definition floor_log2 :: "rat \<Rightarrow> int" where
  "floor_log2 x =
     (case quotient_of x of (p, q) \<Rightarrow>
        let e = bitlen p - bitlen q in if 2 powi e \<le> x then e else e - 1)"

definition round_half_even :: "rat \<Rightarrow> int" where
  "round_half_even x =
     (let f = \<lfloor>x\<rfloor>; d = x - of_int f in
      if d < 1 / 2 then f else if 1 / 2 < d then f + 1 else if even f then f else f + 1)"

definition ulp_exp :: "rat \<Rightarrow> int" where
  "ulp_exp x = max (- 1074) (floor_log2 x - 52)"

definition round_mag :: "rat \<Rightarrow> rat" where
  "round_mag x =
     (if x \<le> 0 then 0
      else of_int (round_half_even (x / 2 powi ulp_exp x)) * 2 powi ulp_exp x)"

definition f64_MAX :: rat where
  "f64_MAX = (2 ^ 53 - 1) * 2 ^ 971"

definition rnd :: "rat \<Rightarrow> f64" where
  "rnd x =
     (if 0 \<le> x then (if round_mag x \<le> f64_MAX then Fin (round_mag x) else PInf)
      else (if round_mag (- x) \<le> f64_MAX then Fin (- round_mag (- x)) else NInf))"

section \<open>Operations\<close>

fun f64_neg :: "f64 \<Rightarrow> f64" where
  "f64_neg NaN = NaN"
| "f64_neg PInf = NInf"
| "f64_neg NInf = PInf"
| "f64_neg (Fin a) = Fin (- a)"

fun f64_add :: "f64 \<Rightarrow> f64 \<Rightarrow> f64" where
  "f64_add NaN y = NaN"
| "f64_add x NaN = NaN"
| "f64_add PInf NInf = NaN"
| "f64_add NInf PInf = NaN"
| "f64_add PInf y = PInf"
| "f64_add x PInf = PInf"
| "f64_add NInf y = NInf"
| "f64_add x NInf = NInf"
| "f64_add (Fin a) (Fin b) = rnd (a + b)"

definition f64_sub :: "f64 \<Rightarrow> f64 \<Rightarrow> f64" where
  "f64_sub x y = f64_add x (f64_neg y)"

definition inf_of_sign :: "rat \<Rightarrow> f64" where
  "inf_of_sign s = (if 0 < s then PInf else if s < 0 then NInf else NaN)"

fun f64_mul :: "f64 \<Rightarrow> f64 \<Rightarrow> f64" where
  "f64_mul NaN y = NaN"
| "f64_mul x NaN = NaN"
| "f64_mul PInf PInf = PInf"
| "f64_mul PInf NInf = NInf"
| "f64_mul NInf PInf = NInf"
| "f64_mul NInf NInf = PInf"
| "f64_mul PInf (Fin b) = inf_of_sign b"
| "f64_mul NInf (Fin b) = inf_of_sign (- b)"
| "f64_mul (Fin a) PInf = inf_of_sign a"
| "f64_mul (Fin a) NInf = inf_of_sign (- a)"
| "f64_mul (Fin a) (Fin b) = rnd (a * b)"

text \<open>Division by zero gives the infinity of the dividend's sign, and \<open>0 / 0\<close> is NaN.\<close>

fun f64_div :: "f64 \<Rightarrow> f64 \<Rightarrow> f64" where
  "f64_div NaN y = NaN"
| "f64_div x NaN = NaN"
| "f64_div (Fin a) (Fin b) = (if b = 0 then inf_of_sign a else rnd (a / b))"
| "f64_div PInf (Fin b) = (if b < 0 then NInf else PInf)"
| "f64_div NInf (Fin b) = (if b < 0 then PInf else NInf)"
| "f64_div (Fin a) y = Fin 0"
| "f64_div x y = NaN"

fun f64_lt :: "f64 \<Rightarrow> f64 \<Rightarrow> bool" where
  "f64_lt (Fin a) (Fin b) = (a < b)"
| "f64_lt NInf (Fin b) = True"
| "f64_lt NInf PInf = True"
| "f64_lt (Fin a) PInf = True"
| "f64_lt x y = False"

fun f64_eq :: "f64 \<Rightarrow> f64 \<Rightarrow> bool" where
  "f64_eq NaN y = False"
| "f64_eq x y = (x = y)"

definition f64_le :: "f64 \<Rightarrow> f64 \<Rightarrow> bool" where
  "f64_le x y = (f64_lt x y \<or> f64_eq x y)"

definition f64_partial_cmp :: "f64 \<Rightarrow> f64 \<Rightarrow> ordering option" where
  "f64_partial_cmp x y =
     (if f64_lt x y then Some Less else if f64_eq x y then Some Equal
      else if f64_lt y x then Some Greater else None)"

text \<open>\<open>f64::max\<close> and \<open>f64::min\<close> ignore a NaN operand.\<close>

definition f64_max :: "f64 \<Rightarrow> f64 \<Rightarrow> f64" where
  "f64_max x y = (if x = NaN then y else if y = NaN then x else if f64_lt x y then y else x)"

definition f64_min :: "f64 \<Rightarrow> f64 \<Rightarrow> f64" where
  "f64_min x y = (if x = NaN then y else if y = NaN then x else if f64_lt y x then y else x)"

definition f64_of_nat :: "nat \<Rightarrow> f64" where
  "f64_of_nat n = rnd (of_nat n)"

text \<open>\<open>Duration::as_secs_f64\<close>: whole seconds plus the sub-second nanoseconds over \<open>1e9\<close>.\<close>

definition as_secs_f64 :: "duration \<Rightarrow> f64" where
  "as_secs_f64 d = f64_add (f64_of_nat (d div 1000000000))
     (f64_div (f64_of_nat (d mod 1000000000)) (Fin 1000000000))"

text \<open>A value that the type \<open>f64\<close> can hold: finite payloads are fixed points of rounding.\<close>

fun is_f64 :: "f64 \<Rightarrow> bool" where
  "is_f64 (Fin a) = (rnd a = Fin a)"
| "is_f64 x = True"

text \<open>Non-negative and not NaN.\<close>

fun f64_nonneg :: "f64 \<Rightarrow> bool" where
  "f64_nonneg (Fin a) = (0 \<le> a)"
| "f64_nonneg PInf = True"
| "f64_nonneg x = False"

text \<open>Finite and in the unit interval.\<close>

fun f64_unit :: "f64 \<Rightarrow> bool" where
  "f64_unit (Fin a) = (0 \<le> a \<and> a \<le> 1)"
| "f64_unit x = False"

section \<open>Binary exponents and rounding on a grid\<close>

lemma powi_2_pos [simp]: "(0::rat) < 2 powi e"
  by simp

lemma powi_2_mono: "d \<le> e \<Longrightarrow> (2::rat) powi d \<le> 2 powi e"
  by (rule power_int_increasing) auto

lemma bitlen_powi:
  assumes "0 < p"
  shows "(2::rat) powi (bitlen p - 1) \<le> of_int p" "of_int p < (2::rat) powi bitlen p"
proof -
  have b: "1 \<le> bitlen p" using assms by (simp add: bitlen_ge_iff_power)
  from bitlen_bounds[OF assms]
  have "of_int (2 ^ nat (bitlen p - 1)) \<le> (of_int p :: rat)" "of_int p < (of_int (2 ^ nat (bitlen p)) :: rat)"
    by (simp_all only: of_int_le_iff of_int_less_iff)
  with b show "(2::rat) powi (bitlen p - 1) \<le> of_int p" "of_int p < (2::rat) powi bitlen p"
    by (simp_all add: power_int_def)
qed

lemma floor_log2_bounds:
  assumes "0 < x"
  shows "2 powi floor_log2 x \<le> x" "x < 2 powi (floor_log2 x + 1)"
proof -
  obtain p q where pq: "quotient_of x = (p, q)" by force
  have q: "0 < q" and x: "x = of_int p / of_int q"
    using pq quotient_of_denom_pos quotient_of_div by blast+
  with assms have p: "0 < p" by (simp add: zero_less_divide_iff)
  let ?e = "bitlen p - bitlen q"
  have lo: "2 powi (?e - 1) \<le> x"
  proof -
    have "2 powi (?e - 1) = 2 powi (bitlen p - 1) / (2::rat) powi bitlen q"
      by (subst power_int_diff[symmetric]) (auto simp: algebra_simps)
    also have "\<dots> \<le> of_int p / of_int q"
      using bitlen_powi[OF p] bitlen_powi[OF q] q p by (intro frac_le) auto
    finally show ?thesis using x by simp
  qed
  have hi: "x < 2 powi (?e + 1)"
  proof -
    have "x < 2 powi bitlen p / of_int q"
      unfolding x using bitlen_powi[OF p] q by (intro divide_strict_right_mono) auto
    also have "\<dots> \<le> 2 powi bitlen p / 2 powi (bitlen q - 1)"
      using bitlen_powi[OF q] q by (intro divide_left_mono mult_pos_pos) auto
    also have "\<dots> = 2 powi (?e + 1)"
      by (subst power_int_diff[symmetric]) (auto simp: algebra_simps)
    finally show ?thesis .
  qed
  show "2 powi floor_log2 x \<le> x" "x < 2 powi (floor_log2 x + 1)"
    using lo hi by (auto simp: floor_log2_def pq Let_def)
qed

lemma floor_log2_unique:
  assumes "0 < x" "2 powi e \<le> x" "x < 2 powi (e + 1)"
  shows "floor_log2 x = e"
proof (rule ccontr)
  assume "floor_log2 x \<noteq> e"
  then consider "floor_log2 x + 1 \<le> e" | "e + 1 \<le> floor_log2 x" by linarith
  then show False
    using floor_log2_bounds[OF assms(1)] assms(2,3) powi_2_mono
    by cases (meson leD le_less_trans order_trans)+
qed

lemma round_half_even_int [simp]: "round_half_even (of_int n) = n"
  by (simp add: round_half_even_def)

lemma round_half_even_mono: "x \<le> y \<Longrightarrow> round_half_even x \<le> round_half_even y"
proof -
  assume xy: "x \<le> y"
  show ?thesis
  proof (cases "\<lfloor>x\<rfloor> = \<lfloor>y\<rfloor>")
    case True
    then show ?thesis using xy by (auto simp: round_half_even_def Let_def)
  next
    case False
    then have "\<lfloor>x\<rfloor> + 1 \<le> \<lfloor>y\<rfloor>" using floor_mono[OF xy] by linarith
    moreover have "round_half_even x \<le> \<lfloor>x\<rfloor> + 1" "\<lfloor>y\<rfloor> \<le> round_half_even y"
      by (auto simp: round_half_even_def Let_def)
    ultimately show ?thesis by linarith
  qed
qed

lemma round_half_even_le_int: "x \<le> of_int n \<Longrightarrow> round_half_even x \<le> n"
  using round_half_even_mono[of x "of_int n"] by simp

lemma round_half_even_ge_int: "of_int n \<le> x \<Longrightarrow> n \<le> round_half_even x"
  using round_half_even_mono[of "of_int n" x] by simp

lemma round_mag_le_pow:
  assumes "0 < x"
  shows "round_mag x \<le> 2 powi max (- 1022) (floor_log2 x + 1)"
proof -
  let ?u = "ulp_exp x" and ?m = "max (- 1022) (floor_log2 x + 1)"
  have m: "?m = ?u + 52 \<or> ?m = ?u + 53" and m0: "x < 2 powi ?m"
    using floor_log2_bounds(2)[OF assms] powi_2_mono[of "floor_log2 x + 1" ?m]
    by (auto simp: ulp_exp_def)
  obtain k where k: "?m = ?u + int k" using m by (metis of_nat_numeral)
  have split: "(2::rat) powi ?m = 2 ^ k * 2 powi ?u"
    by (simp add: k power_int_add)
  have "x / 2 powi ?u \<le> of_int (2 ^ k)"
    using m0 unfolding split by (simp add: pos_divide_le_eq less_imp_le)
  then have "round_half_even (x / 2 powi ?u) \<le> 2 ^ k" by (rule round_half_even_le_int)
  then have "of_int (round_half_even (x / 2 powi ?u)) \<le> (of_int (2 ^ k) :: rat)"
    by (simp only: of_int_le_iff)
  then show ?thesis using assms by (simp add: round_mag_def split)
qed

lemma round_mag_ge_pow:
  assumes "2 powi e \<le> x" "- 1022 \<le> e"
  shows "2 powi e \<le> round_mag x"
proof -
  have x: "0 < x" using assms(1) powi_2_pos[of e] by linarith
  let ?u = "ulp_exp x"
  have "e \<le> floor_log2 x"
    using floor_log2_bounds(2)[OF x] assms(1) powi_2_mono[of "floor_log2 x + 1" e] by force
  then have u: "floor_log2 x = ?u + 52" using assms(2) by (simp add: ulp_exp_def)
  have split: "(2::rat) powi floor_log2 x = 2 ^ 52 * 2 powi ?u"
    by (subst u) (simp add: power_int_add)
  have "of_int (2 ^ 52) \<le> x / 2 powi ?u"
    using floor_log2_bounds(1)[OF x] unfolding split by (simp add: pos_le_divide_eq)
  then have "2 ^ 52 \<le> round_half_even (x / 2 powi ?u)" by (rule round_half_even_ge_int)
  then have "of_int (2 ^ 52) \<le> (of_int (round_half_even (x / 2 powi ?u)) :: rat)"
    by (simp only: of_int_le_iff)
  then have "2 ^ 52 * 2 powi ?u \<le> round_mag x" using x by (simp add: round_mag_def)
  then show ?thesis using \<open>e \<le> floor_log2 x\<close> powi_2_mono split by (metis order_trans)
qed

lemma round_mag_nonneg [simp]: "0 \<le> round_mag x"
proof (cases "0 < x")
  case True
  then have "0 \<le> round_half_even (x / 2 powi ulp_exp x)"
    by (intro round_half_even_ge_int) simp
  then show ?thesis by (simp add: round_mag_def)
qed (simp add: round_mag_def)

lemma round_mag_mono_same:
  assumes "0 < x" "x \<le> y" "ulp_exp x = ulp_exp y"
  shows "round_mag x \<le> round_mag y"
  using assms round_half_even_mono[of "x / 2 powi ulp_exp y" "y / 2 powi ulp_exp y"]
  by (simp add: round_mag_def divide_right_mono)

lemma round_mag_mono:
  assumes "x \<le> y"
  shows "round_mag x \<le> round_mag y"
proof (cases "0 < x")
  case False
  then show ?thesis by (simp add: round_mag_def[of x])
next
  case True
  with assms have y: "0 < y" by simp
  show ?thesis
  proof (cases "ulp_exp x = ulp_exp y")
    case True
    with \<open>0 < x\<close> assms show ?thesis by (rule round_mag_mono_same)
  next
    case False
    have "floor_log2 x \<le> floor_log2 y"
      using floor_log2_bounds(1)[OF \<open>0 < x\<close>] floor_log2_bounds(2)[OF y] assms
        powi_2_mono[of "floor_log2 y + 1" "floor_log2 x"] by force
    with False have *: "max (- 1022) (floor_log2 x + 1) \<le> floor_log2 y" "- 1022 \<le> floor_log2 y"
      by (auto simp: ulp_exp_def max_def split: if_splits)
    have "round_mag x \<le> 2 powi floor_log2 y"
      using round_mag_le_pow[OF \<open>0 < x\<close>] powi_2_mono[OF *(1)] by linarith
    also have "\<dots> \<le> round_mag y"
      by (rule round_mag_ge_pow) (use floor_log2_bounds(1)[OF y] *(2) in auto)
    finally show ?thesis .
  qed
qed

lemma round_mag_int:
  assumes "0 \<le> n" "n \<le> 2 ^ 53"
  shows "round_mag (of_int n) = of_int n"
proof (cases "n = 0")
  case True
  then show ?thesis by (simp add: round_mag_def)
next
  case False
  with assms have n: "0 < (of_int n :: rat)" by simp
  show ?thesis
  proof (cases "n = 2 ^ 53")
    case True
    have "floor_log2 (2 ^ 53) = 53" by (rule floor_log2_unique) (simp_all add: power_int_def)
    then have u: "ulp_exp (2 ^ 53) = 1" by (simp add: ulp_exp_def)
    have "round_half_even ((2 ^ 53) / 2) = 2 ^ 52"
      using round_half_even_int[of "2 ^ 52"] by simp
    then show ?thesis using u by (simp add: True round_mag_def)
  next
    case False
    have "n < 2 ^ 53" using False assms(2) by simp
    then have "(of_int n :: rat) < 2 powi 53" by (simp add: power_int_def)
    then have "floor_log2 (of_int n) \<le> 52"
      using floor_log2_bounds(1)[OF n] powi_2_mono[of 53 "floor_log2 (of_int n)"] by force
    then obtain k where k: "ulp_exp (of_int n) = - int k"
      by (metis ulp_exp_def diff_le_0_iff_le max.boundedI neg_le_0_iff_le nonneg_eq_int
          verit_minus_simplify(4) neg_0_le_iff_le zero_le_numeral)
    have "of_int n / 2 powi ulp_exp (of_int n) = (of_int (n * 2 ^ k) :: rat)"
      by (simp add: k power_int_minus field_simps)
    then have "round_half_even (of_int n / 2 powi ulp_exp (of_int n)) = n * 2 ^ k"
      by (simp only: round_half_even_int)
    then show ?thesis using n by (simp add: round_mag_def k power_int_minus)
  qed
qed

lemma rnd_not_NaN [simp]: "rnd x \<noteq> NaN"
  by (simp add: rnd_def)

lemma f64_MAX_pos: "2 ^ 53 \<le> f64_MAX"
  by (simp add: f64_MAX_def)

lemma rnd_mono: "x \<le> y \<Longrightarrow> f64_le (rnd x) (rnd y)"
proof -
  assume xy: "x \<le> y"
  have "- round_mag (- x) \<le> round_mag y"
    using round_mag_nonneg[of y] round_mag_nonneg[of "- x"] by linarith
  with xy round_mag_mono[of x y] round_mag_mono[of "- y" "- x"] show ?thesis
    by (auto simp: rnd_def f64_le_def)
qed

lemma rnd_int: "0 \<le> n \<Longrightarrow> n \<le> 2 ^ 53 \<Longrightarrow> rnd (of_int n) = Fin (of_int n)"
proof -
  assume n: "0 \<le> n" "n \<le> 2 ^ 53"
  then have "of_int n \<le> (2 ^ 53 :: rat)" by (simp flip: of_int_le_numeral_power_cancel_iff)
  then have "of_int n \<le> f64_MAX" using f64_MAX_pos by linarith
  with n show ?thesis by (simp add: rnd_def round_mag_int)
qed

section \<open>What rounding guarantees its clients\<close>

text \<open>
  The two laws the bounds of the program rest on: rounding is monotone, and the integers up to
  \<open>2 ^ 53\<close> are exact. Everything the components use of binary64 follows from them.
\<close>

locale rounding =
  fixes r :: "rat \<Rightarrow> f64"
  assumes r_mono: "x \<le> y \<Longrightarrow> f64_le (r x) (r y)"
    and r_int: "0 \<le> n \<Longrightarrow> n \<le> 2 ^ 53 \<Longrightarrow> r (of_int n) = Fin (of_int n)"
begin

lemma r_0: "r 0 = Fin 0"
  using r_int[of 0] by simp

lemma r_1: "r 1 = Fin 1"
  using r_int[of 1] by simp

lemma r_nonneg: "0 \<le> x \<Longrightarrow> f64_nonneg (r x)"
  using r_mono[of 0 x] by (cases "r x") (auto simp: r_0 f64_le_def)

lemma r_between:
  assumes "0 \<le> x" "x \<le> y" "r y = Fin b"
  obtains a where "r x = Fin a" "0 \<le> a" "a \<le> b"
  using r_mono[OF assms(1)] r_mono[OF assms(2)] assms(3) that
  by (cases "r x") (auto simp: r_0 f64_le_def)

lemma r_unit: "0 \<le> x \<Longrightarrow> x \<le> 1 \<Longrightarrow> f64_unit (r x)"
  using r_between[of x 1 1] r_1 by (metis f64_unit.simps(1))

lemma r_below_nat:
  assumes "0 \<le> x" "x \<le> of_nat n" "n \<le> 2 ^ 53"
  obtains a where "r x = Fin a" "0 \<le> a" "a \<le> of_nat n"
proof -
  have "r (of_nat n) = Fin (of_nat n)"
    using r_int[of "int n"] assms(3) by (simp flip: of_nat_le_numeral_power_cancel_iff)
  with r_between[OF assms(1,2)] that show ?thesis by blast
qed

end

interpretation binary64: rounding rnd
  by unfold_locales (auto intro: rnd_mono rnd_int)

section \<open>Operations on non-negative values\<close>

lemma f64_of_nat_exact: "n \<le> 2 ^ 53 \<Longrightarrow> f64_of_nat n = Fin (of_nat n)"
  using rnd_int[of "int n"] by (simp add: f64_of_nat_def flip: of_nat_le_numeral_power_cancel_iff)

lemma f64_of_nat_nonneg [simp]: "f64_nonneg (f64_of_nat n)"
  by (simp add: f64_of_nat_def binary64.r_nonneg)

lemma f64_add_nonneg: "f64_nonneg x \<Longrightarrow> f64_nonneg y \<Longrightarrow> f64_nonneg (f64_add x y)"
  by (cases x; cases y) (auto simp: binary64.r_nonneg)

lemma f64_mul_nonneg: "0 < w \<Longrightarrow> f64_nonneg y \<Longrightarrow> f64_nonneg (f64_mul (Fin w) y)"
  by (cases y) (auto simp: binary64.r_nonneg inf_of_sign_def)

lemma f64_div_nonneg: "f64_nonneg x \<Longrightarrow> 0 < b \<Longrightarrow> f64_nonneg (f64_div x (Fin b))"
  by (cases x) (auto simp: binary64.r_nonneg)

lemma f64_add_ge_left:
  assumes "f64_nonneg y" "is_f64 (Fin a)" "0 \<le> a"
  shows "f64_add (Fin a) y = PInf \<or> (\<exists>c. f64_add (Fin a) y = Fin c \<and> a \<le> c)"
proof (cases y)
  case (Fin b)
  then show ?thesis
    using assms rnd_mono[of a "a + b"] by (cases "rnd (a + b)") (auto simp: f64_le_def)
qed (use assms in auto)

lemma f64_div_unit:
  assumes "0 \<le> a" "a \<le> b" "0 < b"
  shows "f64_unit (f64_div (Fin a) (Fin b))"
  using assms by (auto intro!: binary64.r_unit simp: divide_le_eq_1)

lemma f64_one_minus_unit: "f64_unit x \<Longrightarrow> f64_unit (f64_sub (Fin 1) x)"
  by (cases x) (auto simp: f64_sub_def intro!: binary64.r_unit)

lemma f64_mul_weight:
  assumes "is_f64 (Fin w)" "0 \<le> w" "f64_unit x"
  obtains c where "f64_mul (Fin w) x = Fin c" "0 \<le> c" "c \<le> w"
proof -
  obtain a where a: "x = Fin a" "0 \<le> a" "a \<le> 1" using assms(3) by (cases x) auto
  have "0 \<le> w * a" "w * a \<le> w" using assms(2) a by (auto simp: mult_left_le)
  with assms(1) a(1) that show ?thesis by (auto elim: binary64.r_between)
qed

lemma f64_add_between:
  assumes "0 \<le> a" "a \<le> a'" "0 \<le> b" "b \<le> b'" "f64_add (Fin a') (Fin b') = Fin t"
  obtains s where "f64_add (Fin a) (Fin b) = Fin s" "0 \<le> s" "s \<le> t"
  using assms that binary64.r_between[of "a + b" "a' + b'" t] by auto

lemma as_secs_f64_nonneg [simp]: "f64_nonneg (as_secs_f64 d)"
  by (simp add: as_secs_f64_def f64_add_nonneg f64_div_nonneg)

lemma f64_le_Fin [simp]: "f64_le (Fin a) (Fin b) \<longleftrightarrow> a \<le> b"
  by (auto simp: f64_le_def)

lemma f64_lt_irrefl [simp]: "\<not> f64_lt x x"
  by (cases x) auto

lemma f64_lt_asym: "f64_lt x y \<Longrightarrow> \<not> f64_lt y x"
  by (cases x; cases y) auto

lemma f64_not_lt_trans: "y \<noteq> NaN \<Longrightarrow> \<not> f64_lt x y \<Longrightarrow> \<not> f64_lt y z \<Longrightarrow> \<not> f64_lt x z"
  by (cases x; cases y; cases z) auto

section \<open>Rounding error\<close>

lemma round_half_even_error: "of_int (round_half_even x) \<le> x + 1 / 2"
proof -
  have "of_int \<lfloor>x\<rfloor> \<le> x" by (rule of_int_floor_le)
  then have "x - of_int \<lfloor>x\<rfloor> < 1 / 2 \<or> of_int (\<lfloor>x\<rfloor> + 1) \<le> x + 1 / 2 \<or> of_int \<lfloor>x\<rfloor> \<le> x + 1 / 2"
    by linarith
  with \<open>of_int \<lfloor>x\<rfloor> \<le> x\<close> show ?thesis
    unfolding round_half_even_def Let_def by (simp split: if_split) linarith
qed

lemma round_mag_error:
  assumes "0 < x" "x \<le> 2 powi m" "- 1022 \<le> m"
  shows "round_mag x \<le> x + 2 powi (m - 53)"
proof -
  let ?u = "ulp_exp x"
  have "floor_log2 x \<le> m"
    using floor_log2_bounds(1)[OF assms(1)] assms(2) powi_2_mono[of "m + 1" "floor_log2 x"]
      power_int_strict_increasing[of m "m + 1" "2::rat"] by force
  then have u: "?u \<le> m - 52" using assms(3) by (simp add: ulp_exp_def)
  have "round_mag x \<le> (x / 2 powi ?u + 1 / 2) * 2 powi ?u"
    unfolding round_mag_def using assms(1) round_half_even_error by (simp add: mult_right_mono)
  also have "\<dots> = x + 2 powi ?u / 2" by (simp add: field_simps)
  also have "\<dots> \<le> x + 2 powi (m - 52) / 2" using powi_2_mono[OF u] by simp
  also have "2 powi (m - 52) / 2 = (2::rat) powi (m - 53)"
    by (subst power_int_diff[of 2 m 52], simp, subst power_int_diff[of 2 m 53]) simp_all
  finally show ?thesis .
qed

text \<open>Rounding a value of at most \<open>2 powi m\<close> adds at most half a unit in the last place.\<close>

lemma rnd_error:
  assumes "0 \<le> x" "x \<le> 2 powi m" "- 1022 \<le> m" "rnd x = Fin a"
  shows "a \<le> x + 2 powi (m - 53)"
proof (cases "x = 0")
  case True
  then show ?thesis using assms(4) binary64.r_0 by (simp add: less_imp_le)
next
  case False
  with assms have "0 < x" by simp
  with round_mag_error[OF _ assms(2,3)] assms(1,4) show ?thesis by (auto simp: rnd_def split: if_splits)
qed

section \<open>Rounding is idempotent\<close>

lemma round_mag_on_grid:
  assumes "0 < a" "a = of_int m * 2 powi v" "ulp_exp a \<le> v"
  shows "round_mag a = a"
proof -
  obtain k where k: "v = ulp_exp a + int k" using assms(3) by (metis zle_iff_zadd)
  have a: "a = of_int (m * 2 ^ k) * 2 powi ulp_exp a"
    using assms(2) by (simp add: k power_int_add mult_ac)
  then have "a / 2 powi ulp_exp a = of_int (m * 2 ^ k)"
    by (metis nonzero_mult_div_cancel_right powi_2_pos less_irrefl)
  then have "round_half_even (a / 2 powi ulp_exp a) = m * 2 ^ k" by (simp only: round_half_even_int)
  then show ?thesis using assms(1) a by (simp add: round_mag_def)
qed

lemma round_mag_idem: "round_mag (round_mag x) = round_mag x"
proof (cases "0 < round_mag x")
  case False
  then show ?thesis using round_mag_nonneg[of x] by (simp add: round_mag_def)
next
  case True
  then have x: "0 < x" by (auto simp: round_mag_def split: if_splits)
  let ?u = "ulp_exp x" and ?a = "round_mag x" and ?m = "round_half_even (x / 2 powi ulp_exp x)"
  have a: "?a = of_int ?m * 2 powi ?u" using x by (simp add: round_mag_def)
  have split: "(2::rat) powi (?u + 53) = of_int (2 ^ 53) * 2 powi ?u" by (simp add: power_int_add)
  have "floor_log2 x + 1 \<le> ?u + 53" by (simp add: ulp_exp_def max_def)
  then have "x < 2 powi (?u + 53)"
    using floor_log2_bounds(2)[OF x] powi_2_mono by (meson less_le_trans)
  then have "?m \<le> 2 ^ 53"
    unfolding split by (intro round_half_even_le_int) (simp add: pos_divide_le_eq less_imp_le)
  then consider "?m < 2 ^ 53" | "?m = 2 ^ 53" by linarith
  then show ?thesis
  proof cases
    case 1
    then have "of_int ?m < (of_int (2 ^ 53) :: rat)" by (simp only: of_int_less_iff)
    then have "?a < 2 powi (?u + 53)" unfolding a split by (rule mult_strict_right_mono) simp
    then have "floor_log2 ?a \<le> ?u + 52"
      using floor_log2_bounds(1)[OF True] powi_2_mono[of "?u + 53" "floor_log2 ?a"] by force
    then have "ulp_exp ?a \<le> ?u" by (simp add: ulp_exp_def)
    with True a show ?thesis by (rule round_mag_on_grid)
  next
    case 2
    have p: "?a = 2 powi (?u + 53)" unfolding a split by (simp only: 2)
    then have "floor_log2 ?a = ?u + 53"
      using floor_log2_unique[OF True, of "?u + 53"]
      by (simp add: power_int_strict_increasing)
    then have "ulp_exp ?a = ?u + 1" by (simp add: ulp_exp_def)
    moreover have "?a = of_int (2 ^ 52) * 2 powi (?u + 1)"
      unfolding p by (simp add: power_int_add)
    ultimately show ?thesis using True by (intro round_mag_on_grid[of _ "2 ^ 52" "?u + 1"]) auto
  qed
qed

text \<open>Results of rounding are values of the type.\<close>

lemma is_f64_rnd [simp]: "is_f64 (rnd x)"
proof (cases "0 \<le> x")
  case True
  then show ?thesis by (simp add: rnd_def round_mag_idem)
next
  case False
  have "round_mag (- x) = 0 \<or> 0 < round_mag (- x)" using round_mag_nonneg[of "- x"] by linarith
  with False show ?thesis by (auto simp: rnd_def round_mag_idem binary64.r_0 round_mag_def[of 0])
qed

lemma rnd_positive:
  assumes "2 powi e \<le> x" "x \<le> 1" "- 1022 \<le> e"
  obtains a where "rnd x = Fin a" "0 < a" "a \<le> 1"
proof -
  have x: "0 < x" using assms(1) powi_2_pos[of e] by linarith
  obtain a where a: "rnd x = Fin a" "a \<le> 1"
    using binary64.r_unit[of x] x assms(2) by (cases "rnd x") auto
  moreover have "0 < a"
    using a(1) x less_le_trans[OF powi_2_pos round_mag_ge_pow[OF assms(1,3)]]
    by (auto simp: rnd_def split: if_splits)
  ultimately show ?thesis using that by blast
qed

lemma rnd_dyadic:
  assumes "0 < m" "m < 2 ^ 53" "k \<le> 1000"
  shows "rnd (of_int m / 2 ^ k) = Fin (of_int m / 2 ^ k)"
proof -
  let ?a = "of_int m / 2 ^ k :: rat"
  have pos: "0 < ?a" using assms(1) by simp
  have a: "?a = of_int m * 2 powi (- int k)" by (simp add: power_int_minus divide_inverse)
  have "?a < 2 powi (53 - int k)"
  proof -
    have "of_int m < (of_int (2 ^ 53) :: rat)" using assms(2) by (simp only: of_int_less_iff)
    then have "?a < of_int (2 ^ 53) / 2 ^ k" by (rule divide_strict_right_mono) simp
    also have "\<dots> = 2 powi (53 - int k)" by (simp add: power_int_diff)
    finally show ?thesis .
  qed
  then have "floor_log2 ?a \<le> 52 - int k"
    using floor_log2_bounds(1)[OF pos] powi_2_mono[of "53 - int k" "floor_log2 ?a"] by force
  then have "ulp_exp ?a \<le> - int k" using assms(3) by (simp add: ulp_exp_def)
  with pos a have r: "round_mag ?a = ?a" by (rule round_mag_on_grid)
  have "?a \<le> of_int m" using assms(1) by (simp add: divide_le_eq)
  also have "of_int m \<le> (of_int (2 ^ 53) :: rat)" using assms(2) by (simp only: of_int_le_iff less_imp_le)
  also have "\<dots> \<le> f64_MAX" using f64_MAX_pos by simp
  finally show ?thesis using pos r by (simp add: rnd_def)
qed

lemma rnd_lt:
  assumes "f64_lt (rnd x) (rnd y)"
  shows "x < y"
proof (rule ccontr)
  assume "\<not> x < y"
  then have "f64_le (rnd y) (rnd x)" by (intro rnd_mono) simp
  with assms show False by (cases "rnd x"; cases "rnd y"; simp add: f64_le_def)
qed

lemma f64_NaN_right [simp]: "f64_add x NaN = NaN" "f64_mul x NaN = NaN" "f64_div x NaN = NaN"
  by (cases x; simp)+

lemma not_lt_rnd: "x \<le> y \<Longrightarrow> \<not> f64_lt (rnd y) (rnd x)"
  using rnd_lt leD by blast

lemma f64_of_nat_pos:
  assumes "0 < n"
  shows "f64_of_nat n = PInf \<or> (\<exists>c. f64_of_nat n = Fin c \<and> 0 < c \<and> is_f64 (Fin c))"
proof -
  have "f64_le (rnd 1) (rnd (of_nat n))" using assms by (intro rnd_mono) simp
  then show ?thesis using is_f64_rnd[of "of_nat n"]
    by (cases "rnd (of_nat n)") (auto simp: f64_of_nat_def binary64.r_1 f64_le_def)
qed

lemma f64_of_u64_finite: "\<exists>c. f64_of_nat (unat (x :: u64)) = Fin c \<and> 0 \<le> c"
proof -
  have "rnd (of_nat (2 ^ 64)) = Fin (2 ^ 64)"
  proof -
    have "floor_log2 (2 ^ 64) = 64" by (rule floor_log2_unique) (simp_all add: power_int_def)
    then have "round_mag (2 ^ 64) = 2 ^ 64"
      by (intro round_mag_on_grid[of _ 1 64]) (simp_all add: ulp_exp_def power_int_def)
    then show ?thesis by (simp add: rnd_def f64_MAX_def)
  qed
  moreover have "(of_nat (unat x) :: rat) \<le> of_nat (2 ^ 64)"
    using u64_bound[of x] by (simp only: of_nat_le_iff)
  ultimately show ?thesis
    using binary64.r_between[of "of_nat (unat x)" "of_nat (2 ^ 64)" "2 ^ 64"]
    unfolding f64_of_nat_def by (metis of_nat_0_le_iff)
qed

lemma f64_ratio_unit:
  assumes "a \<le> b" "0 < b" "b \<le> 2 ^ 53"
  shows "f64_unit (f64_div (f64_of_nat a) (f64_of_nat b))"
  using assms by (auto simp: f64_of_nat_exact divide_le_eq_1 intro!: binary64.r_unit)

lemma rnd_half_unit: "f64_unit (rnd (1 / 2))"
  by (rule binary64.r_unit) auto

text \<open>A double is the rounding of whatever is nearer to it than half its last place.\<close>

lemma round_half_even_nearest: "\<bar>y - of_int n\<bar> < 1 / 2 \<Longrightarrow> round_half_even y = n"
proof -
  assume near: "\<bar>y - of_int n\<bar> < 1 / 2"
  then have "\<lfloor>y\<rfloor> = n \<or> \<lfloor>y\<rfloor> = n - 1" by (cases "of_int n \<le> y") (simp_all add: floor_eq_iff abs_if split: if_splits)
  then show ?thesis using near by (auto simp: round_half_even_def Let_def abs_less_iff)
qed

lemma rnd_nearest:
  assumes "2 powi e \<le> x" "x < 2 powi (e + 1)" "- 1022 \<le> e" "x \<le> 2 ^ 53"
    "\<bar>x / 2 powi (e - 52) - of_int n\<bar> < 1 / 2"
  shows "rnd x = Fin (of_int n * 2 powi (e - 52))"
proof -
  have pos: "0 < x" using assms(1) powi_2_pos[of e] by linarith
  have "ulp_exp x = e - 52" using floor_log2_unique[OF pos assms(1,2)] assms(3) by (simp add: ulp_exp_def)
  with pos round_half_even_nearest[OF assms(5)] have mag: "round_mag x = of_int n * 2 powi (e - 52)"
    by (simp add: round_mag_def)
  have "round_mag x \<le> f64_MAX"
    using round_mag_mono[OF assms(4)] round_mag_int[of "2 ^ 53"] f64_MAX_pos by simp
  with pos mag show ?thesis by (simp add: rnd_def)
qed

end
