(* ===== verification/Slots.thy ===== *)
theory Slots
  imports Prelude
begin

text \<open>
  Slot bookkeeping of \<open>src/src/health.rs\<close> (lines 124 to 378): the commitment levels, the per-commitment
  slots and tips, the shared probe grid (\<open>ProbeClock\<close>), the ring of round tips (\<open>RoundTips\<close>) and the
  two implementations of the trait \<open>TipSource\<close>.

  The main result is the refinement of the ring to its specification: after any sequence of
  observations the ring answers for a round exactly when that round was observed and no later round
  took its place, and the answer is the per-commitment maximum over that round's observations.
\<close>

section \<open>Commitments and slots\<close>

datatype commitment = Processed | Confirmed | Finalized

definition commitment_ALL :: "commitment list" where
  "commitment_ALL = [Processed, Confirmed, Finalized]"

fun commitment_as_str :: "commitment \<Rightarrow> string" where
  "commitment_as_str Processed = ''processed''"
| "commitment_as_str Confirmed = ''confirmed''"
| "commitment_as_str Finalized = ''finalized''"

record commitment_slots =
  cs_processed :: "u64 option"
  cs_confirmed :: "u64 option"
  cs_finalized :: "u64 option"

definition cs_default :: commitment_slots where
  "cs_default = \<lparr>cs_processed = None, cs_confirmed = None, cs_finalized = None\<rparr>"

fun cs_get :: "commitment_slots \<Rightarrow> commitment \<Rightarrow> u64 option" where
  "cs_get s Processed = cs_processed s"
| "cs_get s Confirmed = cs_confirmed s"
| "cs_get s Finalized = cs_finalized s"

definition cs_merge :: "commitment_slots \<Rightarrow> commitment_slots \<Rightarrow> commitment_slots" where
  "cs_merge self new =
     (let self = (if cs_processed new \<noteq> None then self\<lparr>cs_processed := cs_processed new\<rparr> else self);
          self = (if cs_confirmed new \<noteq> None then self\<lparr>cs_confirmed := cs_confirmed new\<rparr> else self)
      in (if cs_finalized new \<noteq> None then self\<lparr>cs_finalized := cs_finalized new\<rparr> else self))"

fun max_option :: "u64 option \<Rightarrow> u64 option \<Rightarrow> u64 option" where
  "max_option (Some a) (Some b) = Some (max a b)"
| "max_option None b = b"
| "max_option a None = a"

definition cs_observe_max :: "commitment_slots \<Rightarrow> commitment_slots \<Rightarrow> commitment_slots" where
  "cs_observe_max self slots = self
     \<lparr>cs_processed := max_option (cs_processed self) (cs_processed slots),
      cs_confirmed := max_option (cs_confirmed self) (cs_confirmed slots),
      cs_finalized := max_option (cs_finalized self) (cs_finalized slots)\<rparr>"

type_synonym observed_slot_tips = commitment_slots

record slot_tips =
  st_processed :: u64
  st_confirmed :: u64
  st_finalized :: u64

definition st_default :: slot_tips where
  "st_default = \<lparr>st_processed = 0, st_confirmed = 0, st_finalized = 0\<rparr>"

fun st_get :: "slot_tips \<Rightarrow> commitment \<Rightarrow> u64" where
  "st_get t Processed = st_processed t"
| "st_get t Confirmed = st_confirmed t"
| "st_get t Finalized = st_finalized t"

definition unwrap_or :: "'a option \<Rightarrow> 'a \<Rightarrow> 'a" where
  "unwrap_or x d = (case x of None \<Rightarrow> d | Some v \<Rightarrow> v)"

definition st_observe :: "slot_tips \<Rightarrow> commitment_slots \<Rightarrow> slot_tips" where
  "st_observe self slots = self
     \<lparr>st_processed := max (st_processed self) (unwrap_or (cs_processed slots) 0),
      st_confirmed := max (st_confirmed self) (unwrap_or (cs_confirmed slots) 0),
      st_finalized := max (st_finalized self) (unwrap_or (cs_finalized slots) 0)\<rparr>"

section \<open>The probe grid\<close>

record probe_clock =
  pc_start :: instant
  pc_period :: duration

definition clock_new :: "instant \<Rightarrow> u64 \<Rightarrow> probe_clock" where
  "clock_new now interval_ms =
     \<lparr>pc_start = now, pc_period = duration_from_millis (max interval_ms 1)\<rparr>"

text \<open>The \<open>as u64\<close> of the source truncates to 64 bits.\<close>

definition clock_round :: "probe_clock \<Rightarrow> instant \<Rightarrow> u64" where
  "clock_round c t = of_nat (saturating_duration_since t (pc_start c) div pc_period c)"

text \<open>The instant of the first tick of a ticker made at \<open>now\<close>; later ticks follow every period.\<close>

definition clock_ticker :: "probe_clock \<Rightarrow> instant \<Rightarrow> instant" where
  "clock_ticker c now =
     pc_start c + int (unat (of_nat (pc_period c * unat (clock_round c now)) :: u64))"

definition on_grid_slack :: "probe_clock \<Rightarrow> duration" where
  "on_grid_slack c = min (pc_period c div 4) (duration_from_millis 100)"

definition on_grid_round :: "probe_clock \<Rightarrow> instant \<Rightarrow> instant \<Rightarrow> u64 option" where
  "on_grid_round c now tick =
     (if saturating_duration_since now tick \<le> on_grid_slack c then Some (clock_round c tick) else None)"

section \<open>Rounds of samples and the ring of round tips\<close>

record commitment_rounds =
  cr_processed :: "u64 option"
  cr_confirmed :: "u64 option"
  cr_finalized :: "u64 option"

definition cr_default :: commitment_rounds where
  "cr_default = \<lparr>cr_processed = None, cr_confirmed = None, cr_finalized = None\<rparr>"

fun cr_get :: "commitment_rounds \<Rightarrow> commitment \<Rightarrow> u64 option" where
  "cr_get r Processed = cr_processed r"
| "cr_get r Confirmed = cr_confirmed r"
| "cr_get r Finalized = cr_finalized r"

definition cr_stamp :: "commitment_rounds \<Rightarrow> commitment_slots \<Rightarrow> u64 option \<Rightarrow> commitment_rounds" where
  "cr_stamp self slots rd =
     (let self = (if cs_processed slots \<noteq> None then self\<lparr>cr_processed := rd\<rparr> else self);
          self = (if cs_confirmed slots \<noteq> None then self\<lparr>cr_confirmed := rd\<rparr> else self)
      in (if cs_finalized slots \<noteq> None then self\<lparr>cr_finalized := rd\<rparr> else self))"

definition TIP_ROUNDS :: nat where
  "TIP_ROUNDS = 4"

text \<open>The ring is a list of length \<open>TIP_ROUNDS\<close>; the index \<open>round % TIP_ROUNDS\<close> is always inside it.\<close>

type_synonym round_tips = "(u64 \<times> slot_tips) option list"

definition rt_default :: round_tips where
  "rt_default = replicate TIP_ROUNDS None"

definition rt_index :: "u64 \<Rightarrow> nat" where
  "rt_index rd = unat rd mod TIP_ROUNDS"

definition rt_observe :: "round_tips \<Rightarrow> u64 \<Rightarrow> commitment_slots \<Rightarrow> round_tips" where
  "rt_observe ring rd slots =
     (let i = rt_index rd in
      case ring ! i of
        Some (r, tips) \<Rightarrow>
          if r = rd then ring[i := Some (r, st_observe tips slots)]
          else if r > rd then ring
          else ring[i := Some (rd, st_observe st_default slots)]
      | None \<Rightarrow> ring[i := Some (rd, st_observe st_default slots)])"

definition rt_get :: "round_tips \<Rightarrow> u64 \<Rightarrow> slot_tips option" where
  "rt_get ring rd =
     (case ring ! rt_index rd of
        Some (r, tips) \<Rightarrow> if r = rd then Some tips else None
      | None \<Rightarrow> None)"

text \<open>The trait \<open>TipSource\<close> is a function from a commitment and an optional round to a slot.\<close>

type_synonym tip_source = "commitment \<Rightarrow> u64 option \<Rightarrow> u64"

definition tip_of_latest :: "slot_tips \<Rightarrow> tip_source" where
  "tip_of_latest tips c rd = st_get tips c"

record tip_book =
  tb_latest :: slot_tips
  tb_rounds :: round_tips

definition tip_of_book :: "tip_book \<Rightarrow> tip_source" where
  "tip_of_book book c rd =
     (case Option.bind rd (rt_get (tb_rounds book)) of
        Some tips \<Rightarrow> st_get tips c
      | None \<Rightarrow> st_get (tb_latest book) c)"

section \<open>Specification of the ring\<close>

text \<open>
  An observation is a round and the slots sampled in it. The specification of a round's tips is the
  maximum, per commitment, over the observations of exactly that round.
\<close>

type_synonym observation = "u64 \<times> commitment_slots"

definition rt_run :: "observation list \<Rightarrow> round_tips" where
  "rt_run obs = fold (\<lambda>(r, s) ring. rt_observe ring r s) obs rt_default"

definition spec_tips :: "observation list \<Rightarrow> u64 \<Rightarrow> slot_tips" where
  "spec_tips obs r = fold (\<lambda>(_, s) t. st_observe t s) (filter (\<lambda>(r', _). r' = r) obs) st_default"

definition superseded :: "observation list \<Rightarrow> u64 \<Rightarrow> bool" where
  "superseded obs r = list_ex (\<lambda>(r', _). rt_index r' = rt_index r \<and> r < r') obs"

definition spec_get :: "observation list \<Rightarrow> u64 \<Rightarrow> slot_tips option" where
  "spec_get obs r =
     (if list_ex (\<lambda>(r', _). r' = r) obs \<and> \<not> superseded obs r then Some (spec_tips obs r) else None)"

section \<open>Per-commitment projections\<close>

lemma cs_get_default [simp, slot_simps]: "cs_get cs_default c = None"
  by (cases c) (simp_all add: cs_default_def)

lemma cr_get_default [simp, slot_simps]: "cr_get cr_default c = None"
  by (cases c) (simp_all add: cr_default_def)

lemma cs_get_merge [simp, slot_simps]:
  "cs_get (cs_merge self new) c = (case cs_get new c of None \<Rightarrow> cs_get self c | Some s \<Rightarrow> Some s)"
  by (cases c) (auto simp: cs_merge_def Let_def split: option.split)

lemma cr_get_stamp [simp, slot_simps]:
  "cr_get (cr_stamp self slots rd) c = (if cs_get slots c \<noteq> None then rd else cr_get self c)"
  by (cases c) (simp_all add: cr_stamp_def Let_def)

lemma cs_get_observe_max [simp, slot_simps]:
  "cs_get (cs_observe_max self slots) c = max_option (cs_get self c) (cs_get slots c)"
  by (cases c) (simp_all add: cs_observe_max_def)

lemma st_get_observe [simp, slot_simps]:
  "st_get (st_observe t slots) c = max (st_get t c) (unwrap_or (cs_get slots c) 0)"
  by (cases c) (simp_all add: st_observe_def)

lemma st_get_default [simp, slot_simps]: "st_get st_default c = 0"
  by (cases c) (simp_all add: st_default_def)

lemma commitment_ALL_set [simp]: "set commitment_ALL = UNIV"
  by (auto simp: commitment_ALL_def intro: commitment.exhaust)

lemma slot_tips_eqI: "(\<And>c. st_get t c = st_get t' c) \<Longrightarrow> (t :: slot_tips) = t'"
  by (metis (full_types) slot_tips.equality st_get.simps unit.exhaust)

lemma max_option_ge: "a = Some x \<Longrightarrow> \<exists>y. max_option a b = Some y \<and> x \<le> y"
  by (cases b) auto

section \<open>The probe grid\<close>

lemma clock_new_period_pos [simp]: "0 < pc_period (clock_new now ms)"
proof -
  have "1 \<le> max ms (1 :: u64)" by simp
  then have "unat (1 :: u64) \<le> unat (max ms 1)" by (simp only: word_le_nat_alt)
  then show ?thesis by (simp add: clock_new_def duration_from_millis_def)
qed

lemma clock_round_grid:
  assumes "0 < pc_period c" "n < 2 ^ 64" "d < pc_period c"
  shows "clock_round c (pc_start c + int (n * pc_period c + d)) = of_nat n"
proof -
  have "nat (int (n * pc_period c + d)) div pc_period c = n"
    using assms by (simp del: of_nat_add of_nat_mult)
  then show ?thesis by (simp add: clock_round_def saturating_duration_since_def del: of_nat_add of_nat_mult)
qed

theorem grid_tick_round:
  assumes "0 < pc_period c" "n < 2 ^ 64"
  defines "tick \<equiv> pc_start c + int (n * pc_period c)"
  shows "on_grid_round c now tick =
    (if now \<le> tick + int (min (pc_period c div 4) 100000000) then Some (of_nat n) else None)"
proof -
  have "clock_round c tick = of_nat n"
    using clock_round_grid[OF assms(1,2), of 0] assms(1) by (simp add: tick_def)
  moreover have "on_grid_slack c = min (pc_period c div 4) 100000000"
    by (simp add: on_grid_slack_def duration_from_millis_def)
  then have "saturating_duration_since now tick \<le> on_grid_slack c \<longleftrightarrow>
      now \<le> tick + int (min (pc_period c div 4) 100000000)"
    by (simp only: saturating_duration_since_def nat_le_iff) linarith
  ultimately show ?thesis by (simp add: on_grid_round_def)
qed

theorem grid_tick_round_witness:
  "on_grid_round (clock_new 0 1000) 3050000000 3000000000 = Some 3"
proof -
  let ?c = "clock_new 0 1000"
  have p: "pc_period ?c = 1000000000"
    by (simp add: clock_new_def duration_from_millis_def max_def word_le_nat_alt)
  have s: "pc_start ?c = 0" by (simp add: clock_new_def)
  from grid_tick_round[of ?c 3 3050000000] show ?thesis by (simp add: p s)
qed

text \<open>The first tick of a ticker is the grid point of the current round.\<close>

lemma clock_ticker_grid:
  assumes "0 < pc_period c" "pc_start c \<le> now"
    and "pc_period c * (nat (now - pc_start c) div pc_period c) < 2 ^ 64"
  shows "clock_ticker c now \<le> now" "now < clock_ticker c now + int (pc_period c)"
proof -
  let ?e = "nat (now - pc_start c)" and ?p = "pc_period c"
  have "?e div ?p \<le> ?p * (?e div ?p)" using assms(1) by simp
  with assms(3) have "?e div ?p < 2 ^ 64" by linarith
  then have "unat (of_nat (?e div ?p) :: u64) = ?e div ?p"
    by (simp add: unat_of_nat)
  with assms(3) have tk: "clock_ticker c now = pc_start c + int (?p * (?e div ?p))"
    by (simp add: clock_ticker_def clock_round_def saturating_duration_since_def unat_of_nat
        del: of_nat_mult)
  have e: "int ?e = now - pc_start c" using assms(2) by simp
  have "?p * (?e div ?p) \<le> ?e" "?e < ?p * (?e div ?p) + ?p"
    using assms(1) by (simp_all add: times_div_less_eq_dividend dividend_less_times_div add.commute)
  then show "clock_ticker c now \<le> now" "now < clock_ticker c now + int (pc_period c)"
    unfolding tk using e by linarith+
qed

section \<open>The ring refines its specification\<close>

lemma rt_index_less [simp]: "rt_index r < TIP_ROUNDS"
  by (simp add: rt_index_def TIP_ROUNDS_def)

lemma length_rt_observe [simp]: "length (rt_observe ring r s) = length ring"
  by (auto simp: rt_observe_def Let_def split: option.split)

lemma rt_run_snoc: "rt_run (obs @ [(r, s)]) = rt_observe (rt_run obs) r s"
  by (simp add: rt_run_def)

lemma length_rt_run [simp]: "length (rt_run obs) = TIP_ROUNDS"
proof (induction obs rule: rev_induct)
  case Nil
  then show ?case by (simp add: rt_run_def rt_default_def)
next
  case (snoc x obs)
  then show ?case by (cases x) (simp add: rt_run_snoc)
qed

lemma spec_tips_snoc:
  "spec_tips (obs @ [(r', s)]) r =
     (if r' = r then st_observe (spec_tips obs r) s else spec_tips obs r)"
  by (simp add: spec_tips_def)

lemma superseded_snoc:
  "superseded (obs @ [(r', s)]) r \<longleftrightarrow> superseded obs r \<or> (rt_index r' = rt_index r \<and> r < r')"
  by (simp add: superseded_def)

text \<open>What a cell of the ring holds: the latest round of its residue class, with that round's tips.\<close>

definition cell_ok :: "observation list \<Rightarrow> nat \<Rightarrow> (u64 \<times> slot_tips) option \<Rightarrow> bool" where
  "cell_ok obs i cell =
     (case cell of
        None \<Rightarrow> \<not> list_ex (\<lambda>(r, _). rt_index r = i) obs
      | Some (m, tips) \<Rightarrow> rt_index m = i \<and> list_ex (\<lambda>(r, _). r = m) obs \<and> \<not> superseded obs m
          \<and> tips = spec_tips obs m)"

lemma spec_tips_unobserved: "\<not> list_ex (\<lambda>(r', _). r' = r) obs \<Longrightarrow> spec_tips obs r = st_default"
proof -
  assume "\<not> list_ex (\<lambda>(r', _). r' = r) obs"
  then have "filter (\<lambda>(r', _). r' = r) obs = []" by (induction obs) auto
  then show ?thesis by (simp add: spec_tips_def)
qed

lemma not_superseded_le:
  "\<not> superseded obs m \<Longrightarrow> list_ex (\<lambda>(r', _). r' = r) obs \<Longrightarrow> rt_index r = rt_index m \<Longrightarrow> r \<le> m"
  by (auto simp: superseded_def list_ex_iff)

lemma cell_ok_observe:
  assumes "cell_ok obs (rt_index r) (ring ! rt_index r)" "length ring = TIP_ROUNDS"
  shows "cell_ok (obs @ [(r, s)]) (rt_index r) (rt_observe ring r s ! rt_index r)"
proof (cases "ring ! rt_index r")
  case None
  with assms have none: "\<not> list_ex (\<lambda>(r', _). rt_index r' = rt_index r) obs"
    by (simp add: cell_ok_def)
  then have "\<not> list_ex (\<lambda>(r', _). r' = r) obs" "\<not> superseded obs r"
    by (auto simp: list_ex_iff superseded_def)
  with None assms(2) show ?thesis
    by (simp add: rt_observe_def cell_ok_def spec_tips_snoc spec_tips_unobserved superseded_snoc)
next
  case (Some e)
  obtain m tips where e: "e = (m, tips)" by (cases e)
  have inv: "rt_index m = rt_index r" "list_ex (\<lambda>(r', _). r' = m) obs" "\<not> superseded obs m"
      "tips = spec_tips obs m"
    using assms(1) Some e by (simp_all add: cell_ok_def)
  consider "m = r" | "m > r" | "m < r" by (rule linorder_cases)
  then show ?thesis
  proof cases
    case 3
    then have "\<not> list_ex (\<lambda>(r', _). r' = r) obs"
      using not_superseded_le[OF inv(3)] inv(1) by (metis leD)
    moreover have "\<not> superseded obs r"
      using inv(1,3) 3 by (auto simp: superseded_def list_ex_iff intro: less_trans)
    ultimately show ?thesis using Some e assms(2) 3
      by (auto simp: rt_observe_def Let_def cell_ok_def spec_tips_snoc spec_tips_unobserved superseded_snoc)
  qed (use Some e assms(2) inv in
      \<open>auto simp: rt_observe_def Let_def cell_ok_def spec_tips_snoc superseded_snoc\<close>)
qed

lemma cell_ok_other:
  assumes "cell_ok obs i (ring ! i)" "i \<noteq> rt_index r"
  shows "cell_ok (obs @ [(r, s)]) i (rt_observe ring r s ! i)"
proof -
  have "rt_observe ring r s ! i = ring ! i"
    using assms(2) by (auto simp: rt_observe_def Let_def split: option.split)
  with assms show ?thesis
    by (cases "ring ! i") (auto simp: cell_ok_def spec_tips_snoc superseded_snoc)
qed

lemma rt_run_cells: "i < TIP_ROUNDS \<Longrightarrow> cell_ok obs i (rt_run obs ! i)"
proof (induction obs rule: rev_induct)
  case Nil
  then show ?case by (simp add: rt_run_def rt_default_def cell_ok_def)
next
  case (snoc x obs)
  obtain r s where x: "x = (r, s)" by (cases x)
  show ?case
  proof (cases "i = rt_index r")
    case True
    with snoc show ?thesis by (simp add: x rt_run_snoc cell_ok_observe)
  next
    case False
    with snoc show ?thesis by (simp add: x rt_run_snoc cell_ok_other)
  qed
qed

text \<open>C24. The ring of round tips refines its specification: after any sequence of observations a lookup
gives the maximum slots observed in that round, unless a later round has taken its cell.\<close>

theorem round_tips_refines: "rt_get (rt_run obs) r = spec_get obs r"
proof -
  let ?cell = "rt_run obs ! rt_index r"
  have ok: "cell_ok obs (rt_index r) ?cell" by (simp add: rt_run_cells)
  show ?thesis
  proof (cases ?cell)
    case None
    with ok show ?thesis by (auto simp: rt_get_def spec_get_def cell_ok_def list_ex_iff)
  next
    case (Some e)
    obtain m tips where e: "e = (m, tips)" by (cases e)
    have inv: "rt_index m = rt_index r" "list_ex (\<lambda>(r', _). r' = m) obs" "\<not> superseded obs m"
        "tips = spec_tips obs m"
      using ok Some e by (simp_all add: cell_ok_def)
    have "m \<noteq> r \<Longrightarrow> list_ex (\<lambda>(r', _). r' = r) obs \<Longrightarrow> superseded obs r"
      using inv(1,2) not_superseded_le[OF inv(3), of r]
      by (auto simp: superseded_def list_ex_iff)
    with Some e inv show ?thesis by (auto simp: rt_get_def spec_get_def)
  qed
qed

end
