(* ===== verification/Config.thy ===== *)
theory Config
  imports F64 Slots "HOL-Library.List_Lexorder" "HOL-Library.Char_ord"
begin

text \<open>
  The configuration of \<open>src/src/config.rs\<close>: the configuration records with their defaults,
  \<open>Config::validate\<close> with one error per check in the source's order, environment expansion, and
  \<open>Config::load\<close> over the file system, the TOML parser and the reference scanner of the
  \<open>shellexpand\<close> crate as parameters.

  \<open>validate\<close> is proved equivalent to a declarative specification of a valid configuration.
\<close>

section \<open>Records\<close>

record server_config =
  sc_listen :: string
  sc_metrics_listen :: string
  sc_listen_backlog :: u32
  sc_pool_max_idle_per_host :: usize
  sc_worker_threads :: "usize option"

definition default_server :: server_config where
  "default_server =
     \<lparr>sc_listen = ''127.0.0.1:9400'', sc_metrics_listen = ''127.0.0.1:9401'',
      sc_listen_backlog = 4096, sc_pool_max_idle_per_host = 512, sc_worker_threads = None\<rparr>"

record health_config =
  hc_interval_ms :: u64
  hc_window_secs :: u64
  hc_probe_commitments :: "commitment list"
  hc_slot_drift_threshold :: u64
  hc_reference_url :: "string option"
  hc_circuit_open_failures :: u32
  hc_circuit_error_threshold :: f64
  hc_circuit_cooldown_secs :: u64
  hc_w_latency :: f64
  hc_w_error :: f64
  hc_w_slot :: f64
  hc_w_success :: f64

text \<open>The decimal literals of the source denote the nearest binary64 value.\<close>

definition default_health :: health_config where
  "default_health =
     \<lparr>hc_interval_ms = 1000, hc_window_secs = 60,
      hc_probe_commitments = [Processed, Finalized], hc_slot_drift_threshold = 10,
      hc_reference_url = None, hc_circuit_open_failures = 5,
      hc_circuit_error_threshold = rnd (1 / 2), hc_circuit_cooldown_secs = 30,
      hc_w_latency = rnd (4 / 10), hc_w_error = rnd (3 / 10), hc_w_slot = rnd (2 / 10),
      hc_w_success = rnd (1 / 10)\<rparr>"

datatype routing_strategy = BestScore | WeightedRandom | FailoverOrdered | ParallelRace

record routing_config =
  rc_strategy :: routing_strategy
  rc_max_retries :: usize
  rc_broadcast_writes :: bool
  rc_write_methods :: "string list"
  rc_history_methods :: "string list"
  rc_full_history_methods :: "string list"

definition default_routing :: routing_config where
  "default_routing =
     \<lparr>rc_strategy = BestScore, rc_max_retries = 2, rc_broadcast_writes = False,
      rc_write_methods = [''sendTransaction''],
      rc_history_methods = [''getTransaction'', ''getBlock''],
      rc_full_history_methods = [''getSignaturesForAddress'']\<rparr>"

datatype history_depth = Full | Recent

record provider_config =
  pv_name :: string
  pv_url :: string
  pv_weight :: u32
  pv_http3 :: bool
  pv_methods :: "string list option"
  pv_max_rps :: "u32 option"
  pv_history :: history_depth

text \<open>An entry that gives only a name and a URL.\<close>

definition default_provider :: "string \<Rightarrow> string \<Rightarrow> provider_config" where
  "default_provider name url =
     \<lparr>pv_name = name, pv_url = url, pv_weight = 1, pv_http3 = False, pv_methods = None,
      pv_max_rps = None, pv_history = Full\<rparr>"

text \<open>\<open>ProviderConfig::supports\<close>.\<close>

definition supports :: "provider_config \<Rightarrow> string \<Rightarrow> bool" where
  "supports p m =
     (case pv_methods p of
        Some list \<Rightarrow> if list \<noteq> [] then list_ex (\<lambda>x. x = m) list else True
      | None \<Rightarrow> True)"

record reporting_config =
  rp_endpoint :: string
  rp_api_key :: "string option"
  rp_flush_interval_ms :: u64
  rp_buffer_size :: usize
  rp_batch_size :: usize

definition default_reporting :: "string \<Rightarrow> reporting_config" where
  "default_reporting endpoint =
     \<lparr>rp_endpoint = endpoint, rp_api_key = None, rp_flush_interval_ms = 60000,
      rp_buffer_size = 1000, rp_batch_size = 100\<rparr>"

record historical_config =
  ha_queue_capacity :: usize
  ha_max_queued_bytes :: usize
  ha_max_job_bytes :: usize
  ha_state_capacity :: usize
  ha_state_ttl_secs :: u64
  ha_flush_interval_ms :: u64

definition default_historical :: historical_config where
  "default_historical =
     \<lparr>ha_queue_capacity = 512, ha_max_queued_bytes = 67108864, ha_max_job_bytes = 2097152,
      ha_state_capacity = 250000, ha_state_ttl_secs = 172800, ha_flush_interval_ms = 60000\<rparr>"

record config =
  cfg_server :: server_config
  cfg_health :: health_config
  cfg_routing :: routing_config
  cfg_providers :: "provider_config list"
  cfg_reporting :: "reporting_config option"
  cfg_historical :: "historical_config option"

section \<open>Validation\<close>

datatype config_error =
    NoProviders
  | EmptyUrl string
  | DuplicateName string
  | EmptyMethods string
  | BlankMethod string
  | ZeroMaxRps string
  | BlankWriteMethod
  | BlankRoutingMethod string
  | NoFullHistoryProvider
  | ProbeWithoutProcessed
  | ProbeListedTwice
  | BlankReferenceUrl
  | EmptyEndpoint
  | ReportingFlushTooShort u64
  | HistoricalWithoutReporting
  | QueueCapacityZero
  | MaxQueuedBytesTooSmall
  | MaxJobBytesZero
  | StateCapacityZero
  | StateTtlZero
  | HistoricalFlushZero
  | MaxJobBytesTooLarge usize usize

definition ensure :: "bool \<Rightarrow> 'e \<Rightarrow> 'e + unit" where
  "ensure b e = (if b then Inr () else Inl e)"

text \<open>The \<open>?\<close> operator: run the next check only when this one passed.\<close>

fun and_then :: "'e + unit \<Rightarrow> 'e + 'a \<Rightarrow> 'e + 'a" where
  "and_then (Inl e) k = Inl e"
| "and_then (Inr u) k = k"

text \<open>
  \<open>str::trim(..).is_empty()\<close>: every character has the Unicode property White\_Space. Strings are UTF-8
  bytes, so the multi-byte white space characters are matched by their encodings.
\<close>

fun blank_bytes :: "nat list \<Rightarrow> bool" where
  "blank_bytes [] = True"
| "blank_bytes (b # bs) =
     (if (9 \<le> b \<and> b \<le> 13) \<or> b = 32 then blank_bytes bs
      else (case bs of
          [] \<Rightarrow> False
        | c # cs \<Rightarrow>
            if b = 194 \<and> (c = 133 \<or> c = 160) then blank_bytes cs
            else (case cs of
                [] \<Rightarrow> False
              | d # ds \<Rightarrow>
                  if (b = 225 \<and> c = 154 \<and> d = 128)
                    \<or> (b = 226 \<and> c = 128 \<and> ((128 \<le> d \<and> d \<le> 138) \<or> d = 168 \<or> d = 169 \<or> d = 175))
                    \<or> (b = 226 \<and> c = 129 \<and> d = 159)
                    \<or> (b = 227 \<and> c = 128 \<and> d = 128)
                  then blank_bytes ds else False)))"

definition blank :: "string \<Rightarrow> bool" where
  "blank s = blank_bytes (map of_char s)"

definition validate_provider :: "string list \<Rightarrow> provider_config \<Rightarrow> config_error + unit" where
  "validate_provider seen p =
     and_then (ensure (pv_url p \<noteq> []) (EmptyUrl (pv_name p)))
     (and_then (ensure (\<not> List.member seen (pv_name p)) (DuplicateName (pv_name p)))
     (and_then
        (case pv_methods p of
           None \<Rightarrow> Inr ()
         | Some ms \<Rightarrow>
             and_then (ensure (ms \<noteq> []) (EmptyMethods (pv_name p)))
               (ensure (list_all (\<lambda>m. \<not> blank m) ms) (BlankMethod (pv_name p))))
     (ensure (case pv_max_rps p of None \<Rightarrow> True | Some r \<Rightarrow> 1 \<le> r) (ZeroMaxRps (pv_name p)))))"

fun validate_providers :: "string list \<Rightarrow> provider_config list \<Rightarrow> config_error + unit" where
  "validate_providers seen [] = Inr ()"
| "validate_providers seen (p # ps) =
     and_then (validate_provider seen p) (validate_providers (pv_name p # seen) ps)"

definition validate_routing :: "config \<Rightarrow> config_error + unit" where
  "validate_routing c =
     (let rt = cfg_routing c in
      and_then (ensure (list_all (\<lambda>m. \<not> blank m) (rc_write_methods rt)) BlankWriteMethod)
      (and_then (ensure (list_all (\<lambda>m. \<not> blank m) (rc_history_methods rt))
         (BlankRoutingMethod ''history_methods''))
      (and_then (ensure (list_all (\<lambda>m. \<not> blank m) (rc_full_history_methods rt))
         (BlankRoutingMethod ''full_history_methods''))
      (ensure (rc_full_history_methods rt = []
          \<or> list_ex (\<lambda>p. pv_history p = Full) (cfg_providers c)) NoFullHistoryProvider))))"

definition validate_health :: "health_config \<Rightarrow> config_error + unit" where
  "validate_health h =
     (let probed = hc_probe_commitments h in
      and_then (ensure (List.member probed Processed) ProbeWithoutProcessed)
      (and_then
        (ensure (list_all (\<lambda>i. \<not> List.member (take i probed) (probed ! i)) [0..<length probed])
           ProbeListedTwice)
      (case hc_reference_url h of
         None \<Rightarrow> Inr ()
       | Some url \<Rightarrow> ensure (\<not> blank url) BlankReferenceUrl)))"

definition validate_reporting :: "reporting_config option \<Rightarrow> config_error + unit" where
  "validate_reporting ro =
     (case ro of
        None \<Rightarrow> Inr ()
      | Some r \<Rightarrow>
          and_then (ensure (rp_endpoint r \<noteq> []) EmptyEndpoint)
            (ensure (10000 \<le> rp_flush_interval_ms r)
               (ReportingFlushTooShort (rp_flush_interval_ms r))))"

definition validate_historical :: "config \<Rightarrow> config_error + unit" where
  "validate_historical c =
     (case cfg_historical c of
        None \<Rightarrow> Inr ()
      | Some h \<Rightarrow>
          and_then (ensure (cfg_reporting c \<noteq> None) HistoricalWithoutReporting)
          (and_then (ensure (0 < ha_queue_capacity h) QueueCapacityZero)
          (and_then (ensure (4096 \<le> ha_max_queued_bytes h) MaxQueuedBytesTooSmall)
          (and_then (ensure (0 < ha_max_job_bytes h) MaxJobBytesZero)
          (and_then (ensure (0 < ha_state_capacity h) StateCapacityZero)
          (and_then (ensure (0 < ha_state_ttl_secs h) StateTtlZero)
          (and_then (ensure (0 < ha_flush_interval_ms h) HistoricalFlushZero)
          (ensure (ha_max_job_bytes h \<le> ha_max_queued_bytes h)
             (MaxJobBytesTooLarge (ha_max_job_bytes h) (ha_max_queued_bytes h))))))))))"

definition validate :: "config \<Rightarrow> config_error + unit" where
  "validate c =
     and_then (ensure (cfg_providers c \<noteq> []) NoProviders)
     (and_then (validate_providers [] (cfg_providers c))
     (and_then (validate_routing c)
     (and_then (validate_health (cfg_health c))
     (and_then (validate_reporting (cfg_reporting c))
     (validate_historical c)))))"

section \<open>Environment expansion and loading\<close>

text \<open>
  The \<open>shellexpand\<close> crate scans the text for variable references; its scanner is the parameter
  \<open>scan\<close>, which splits a text into literal pieces and references in order. The lookup closure turns
  an unset variable into the empty string and collects its name in an ordered set.
\<close>

datatype piece = Lit string | Var string

definition expand_env_vars_with ::
  "(string \<Rightarrow> piece list) \<Rightarrow> string \<Rightarrow> (string \<Rightarrow> string option) \<Rightarrow> string \<times> string list" where
  "expand_env_vars_with scan input lookup =
     (let pieces = scan input in
      (concat (map (\<lambda>p. case p of Lit s \<Rightarrow> s | Var v \<Rightarrow> unwrap_or (lookup v) []) pieces),
       sort (remdups (concat (map (\<lambda>p. case p of
          Lit s \<Rightarrow> [] | Var v \<Rightarrow> if lookup v = None then [v] else []) pieces)))))"

datatype load_error = ReadFailed | ParseFailed | Invalid config_error

definition load ::
  "(string \<Rightarrow> string option) \<Rightarrow> (string \<Rightarrow> piece list) \<Rightarrow> (string \<Rightarrow> string option)
    \<Rightarrow> (string \<Rightarrow> config option) \<Rightarrow> string \<Rightarrow> load_error + config" where
  "load read_to_string scan env toml path =
     (case read_to_string path of
        None \<Rightarrow> Inl ReadFailed
      | Some raw \<Rightarrow>
          (case toml (fst (expand_env_vars_with scan raw env)) of
             None \<Rightarrow> Inl ParseFailed
           | Some c \<Rightarrow> (case validate c of Inl e \<Rightarrow> Inl (Invalid e) | Inr _ \<Rightarrow> Inr c)))"

section \<open>Specification of a valid configuration\<close>

definition valid_provider :: "provider_config \<Rightarrow> bool" where
  "valid_provider p \<longleftrightarrow>
     pv_url p \<noteq> [] \<and>
     (\<forall>ms. pv_methods p = Some ms \<longrightarrow> ms \<noteq> [] \<and> (\<forall>m \<in> set ms. \<not> blank m)) \<and>
     pv_max_rps p \<noteq> Some 0"

definition valid_historical :: "historical_config \<Rightarrow> bool" where
  "valid_historical h \<longleftrightarrow>
     0 < ha_queue_capacity h \<and> 4096 \<le> ha_max_queued_bytes h \<and> 0 < ha_max_job_bytes h \<and>
     0 < ha_state_capacity h \<and> 0 < ha_state_ttl_secs h \<and> 0 < ha_flush_interval_ms h \<and>
     ha_max_job_bytes h \<le> ha_max_queued_bytes h"

definition valid_config :: "config \<Rightarrow> bool" where
  "valid_config c \<longleftrightarrow>
     cfg_providers c \<noteq> [] \<and>
     distinct (map pv_name (cfg_providers c)) \<and>
     (\<forall>p \<in> set (cfg_providers c). valid_provider p) \<and>
     (\<forall>m \<in> set (rc_write_methods (cfg_routing c) @ rc_history_methods (cfg_routing c)
         @ rc_full_history_methods (cfg_routing c)). \<not> blank m) \<and>
     (rc_full_history_methods (cfg_routing c) = [] \<or>
        (\<exists>p \<in> set (cfg_providers c). pv_history p = Full)) \<and>
     Processed \<in> set (hc_probe_commitments (cfg_health c)) \<and>
     distinct (hc_probe_commitments (cfg_health c)) \<and>
     (\<forall>u. hc_reference_url (cfg_health c) = Some u \<longrightarrow> \<not> blank u) \<and>
     (\<forall>r. cfg_reporting c = Some r \<longrightarrow> rp_endpoint r \<noteq> [] \<and> 10000 \<le> rp_flush_interval_ms r) \<and>
     (\<forall>h. cfg_historical c = Some h \<longrightarrow> cfg_reporting c \<noteq> None \<and> valid_historical h)"

section \<open>Validation meets its specification\<close>

lemma and_then_Inr [simp]: "and_then a b = Inr x \<longleftrightarrow> a = Inr () \<and> b = Inr x"
  by (cases a) auto

lemma ensure_Inr [simp]: "ensure b e = Inr u \<longleftrightarrow> b"
  by (simp add: ensure_def)

lemma one_le_word [simp]: "1 \<le> (r :: u32) \<longleftrightarrow> r \<noteq> 0"
  by (metis word_gt_0 word_le_less_eq word_less_1 linorder_not_less)

lemma validate_provider_ok:
  "validate_provider seen p = Inr () \<longleftrightarrow> pv_name p \<notin> set seen \<and> valid_provider p"
  by (auto simp: validate_provider_def valid_provider_def list_all_iff split: option.splits)

lemma validate_providers_ok:
  "validate_providers seen ps = Inr () \<longleftrightarrow>
     distinct (map pv_name ps) \<and> set seen \<inter> pv_name ` set ps = {} \<and> (\<forall>p \<in> set ps. valid_provider p)"
  by (induction ps arbitrary: seen) (auto simp: validate_provider_ok)

lemma distinct_by_prefix:
  "distinct xs \<longleftrightarrow> (\<forall>i < length xs. xs ! i \<notin> set (take i xs))"
  by (auto simp: distinct_conv_nth in_set_conv_nth) (metis linorder_neqE_nat)

lemma validate_routing_ok:
  "validate_routing c = Inr () \<longleftrightarrow>
     (\<forall>m \<in> set (rc_write_methods (cfg_routing c) @ rc_history_methods (cfg_routing c)
         @ rc_full_history_methods (cfg_routing c)). \<not> blank m) \<and>
     (rc_full_history_methods (cfg_routing c) = [] \<or>
        (\<exists>p \<in> set (cfg_providers c). pv_history p = Full))"
  by (auto simp: validate_routing_def Let_def list_all_iff list_ex_iff)

lemma validate_health_ok:
  "validate_health h = Inr () \<longleftrightarrow>
     Processed \<in> set (hc_probe_commitments h) \<and> distinct (hc_probe_commitments h) \<and>
     (\<forall>u. hc_reference_url h = Some u \<longrightarrow> \<not> blank u)"
  by (auto simp: validate_health_def Let_def list_all_iff distinct_by_prefix split: option.splits)

lemma validate_reporting_ok:
  "validate_reporting ro = Inr () \<longleftrightarrow>
     (\<forall>r. ro = Some r \<longrightarrow> rp_endpoint r \<noteq> [] \<and> 10000 \<le> rp_flush_interval_ms r)"
  by (auto simp: validate_reporting_def split: option.splits)

lemma validate_historical_ok:
  "validate_historical c = Inr () \<longleftrightarrow>
     (\<forall>h. cfg_historical c = Some h \<longrightarrow> cfg_reporting c \<noteq> None \<and> valid_historical h)"
  by (auto simp: validate_historical_def valid_historical_def split: option.splits)

lemmas validate_parts_ok =
  validate_providers_ok validate_routing_ok validate_health_ok validate_reporting_ok
  validate_historical_ok

text \<open>C25. validate accepts exactly the configurations that satisfy the declarative specification
valid_config.\<close>

theorem validate_iff_valid: "validate c = Inr () \<longleftrightarrow> valid_config c"
  by (auto simp: validate_def valid_config_def validate_parts_ok)

theorem validate_iff_valid_witness:
  "valid_config \<lparr>cfg_server = default_server, cfg_health = default_health,
     cfg_routing = default_routing, cfg_providers = [default_provider ''a'' ''http://a''],
     cfg_reporting = None, cfg_historical = None\<rparr>"
  unfolding validate_iff_valid[symmetric]
  by (simp add: validate_def validate_provider_def validate_routing_def validate_health_def
      validate_reporting_def validate_historical_def default_provider_def default_routing_def
      default_health_def ensure_def blank_def Let_def)

text \<open>What a loaded configuration gives the rest of the program.\<close>

lemma validate_sound: "validate c = Inr u \<Longrightarrow> valid_config c"
  by (auto simp: validate_def valid_config_def validate_parts_ok)

lemma load_valid: "load rd scan env toml path = Inr c \<Longrightarrow> valid_config c"
  by (auto simp: load_def split: option.splits sum.splits intro: validate_sound)

lemma valid_config_distinct: "valid_config c \<Longrightarrow> distinct (map pv_name (cfg_providers c))"
  by (simp add: valid_config_def)

lemma supports_default [simp]: "supports (default_provider n u) m"
  by (simp add: supports_def default_provider_def)

text \<open>Expansion leaves a text without references alone and reports exactly the unset names.\<close>

lemma expand_unset_set:
  "set (snd (expand_env_vars_with scan input lookup)) =
     {v. Var v \<in> set (scan input) \<and> lookup v = None}"
  by (force simp: expand_env_vars_with_def Let_def split: piece.splits if_splits)

lemma expand_unset_sorted:
  "sorted (snd (expand_env_vars_with scan input lookup)) \<and>
   distinct (snd (expand_env_vars_with scan input lookup))"
  by (simp add: expand_env_vars_with_def Let_def)

end
