(* ===== verification/Decode.thy ===== *)
theory Decode
  imports Config "HOL-Library.Monad_Syntax"
begin

text \<open>
  How a configuration text becomes a \<open>Config\<close>: the tree a TOML document is, the readers that serde derives for the
  structs and enums of \<open>config.rs\<close> (field names, defaults, missing and unknown keys, integers out of range), and the
  partial reader of \<open>peek_worker_threads\<close> in \<open>main.rs\<close>. The text-to-tree parser and two choices of the \<open>toml\<close> crate
  are parameters.

  Reading is checked against writing: a writer for every section, and the locale \<open>value_codec\<close> of a reader that undoes
  a writer, interpreted for the scalar types and closed under lists, so that each section is one more codec. The
  round trip of whole documents, the indifference to unknown keys and the agreement of the partial reader follow.
\<close>

section \<open>Documents\<close>

text \<open>
  The tree the \<open>toml\<close> crate parses a text into. No field of the configuration holds a date, so the trees have none.
  TOML demands distinct keys and 64-bit signed integers.
\<close>

datatype toml =
    TStr string
  | TInt int
  | TFloat f64
  | TBool bool
  | TArr "toml list"
  | TTable "(string \<times> toml) list"

fun toml_ok :: "toml \<Rightarrow> bool" where
  "toml_ok (TInt i) \<longleftrightarrow> - (2 ^ 63) \<le> i \<and> i < 2 ^ 63"
| "toml_ok (TArr xs) \<longleftrightarrow> (\<forall>x \<in> set xs. toml_ok x)"
| "toml_ok (TTable t) \<longleftrightarrow> distinct (map fst t) \<and> (\<forall>kv \<in> set t. toml_ok (snd kv))"
| "toml_ok v \<longleftrightarrow> True"

text \<open>
  What the crate decides on its own: the name of the unit variant it reads from a value, and whether an array that is
  read as a struct may have more elements than the struct has fields.
\<close>

record toml_crate =
  tc_variant :: "toml \<Rightarrow> string option"
  tc_trailing :: bool

section \<open>Derived readers\<close>

definition de_text :: "toml \<Rightarrow> string option" where
  "de_text v = (case v of TStr s \<Rightarrow> Some s | _ \<Rightarrow> None)"

definition de_flag :: "toml \<Rightarrow> bool option" where
  "de_flag v = (case v of TBool b \<Rightarrow> Some b | _ \<Rightarrow> None)"

definition de_word :: "toml \<Rightarrow> 'w::len word option" where
  "de_word v = (case v of TInt i \<Rightarrow> if 0 \<le> i \<and> i < 2 ^ LENGTH('w) then Some (word_of_int i) else None | _ \<Rightarrow> None)"

text \<open>A double is also read from an integer, rounded.\<close>

definition de_f64 :: "toml \<Rightarrow> f64 option" where
  "de_f64 v = (case v of TFloat x \<Rightarrow> Some x | TInt i \<Rightarrow> Some (rnd (of_int i)) | _ \<Rightarrow> None)"

definition de_seq :: "(toml \<Rightarrow> 'a option) \<Rightarrow> toml \<Rightarrow> 'a list option" where
  "de_seq de v = (case v of TArr xs \<Rightarrow> those (map de xs) | _ \<Rightarrow> None)"

text \<open>The value of an \<open>Option\<close> field that is present: TOML has no null.\<close>

definition de_present :: "(toml \<Rightarrow> 'a option) \<Rightarrow> toml \<Rightarrow> 'a option option" where
  "de_present de v = map_option Some (de v)"

definition de_variant :: "(string \<times> 'a) list \<Rightarrow> toml_crate \<Rightarrow> toml \<Rightarrow> 'a option" where
  "de_variant names c v = Option.bind (tc_variant c v) (map_of names)"

text \<open>
  A derived struct reader takes its fields by name from a table, where unknown keys are ignored, and by position from
  an array.
\<close>

record struct_input =
  si_table :: bool
  si_field :: "nat \<Rightarrow> string \<Rightarrow> toml option"

definition de_struct :: "toml_crate \<Rightarrow> nat \<Rightarrow> toml \<Rightarrow> struct_input option" where
  "de_struct c n v =
     (case v of
        TTable t \<Rightarrow> Some \<lparr>si_table = True, si_field = (\<lambda>i k. map_of t k)\<rparr>
      | TArr xs \<Rightarrow>
          if length xs \<le> n \<or> tc_trailing c
          then Some \<lparr>si_table = False, si_field = (\<lambda>i k. if i < length xs then Some (xs ! i) else None)\<rparr>
          else None
      | _ \<Rightarrow> None)"

text \<open>A field without default, with the default \<open>d\<close>, and an \<open>Option\<close> field without \<open>serde(default)\<close>.\<close>

definition field_req :: "(toml \<Rightarrow> 'a option) \<Rightarrow> nat \<Rightarrow> string \<Rightarrow> struct_input \<Rightarrow> 'a option" where
  "field_req de i k s = Option.bind (si_field s i k) de"

definition field_or :: "'a \<Rightarrow> (toml \<Rightarrow> 'a option) \<Rightarrow> nat \<Rightarrow> string \<Rightarrow> struct_input \<Rightarrow> 'a option" where
  "field_or d de i k s = (case si_field s i k of None \<Rightarrow> Some d | Some v \<Rightarrow> de v)"

definition field_opt :: "(toml \<Rightarrow> 'a option) \<Rightarrow> nat \<Rightarrow> string \<Rightarrow> struct_input \<Rightarrow> 'a option option" where
  "field_opt de i k s =
     (case si_field s i k of None \<Rightarrow> if si_table s then Some None else None | Some v \<Rightarrow> de_present de v)"

section \<open>The sections of the configuration\<close>

definition commitment_names :: "(string \<times> commitment) list" where
  "commitment_names = [(''processed'', Processed), (''confirmed'', Confirmed), (''finalized'', Finalized)]"

definition strategy_names :: "(string \<times> routing_strategy) list" where
  "strategy_names =
     [(''best_score'', BestScore), (''weighted_random'', WeightedRandom), (''failover_ordered'', FailoverOrdered),
      (''parallel_race'', ParallelRace)]"

definition history_names :: "(string \<times> history_depth) list" where
  "history_names = [(''full'', Full), (''recent'', Recent)]"

definition de_server :: "toml_crate \<Rightarrow> toml \<Rightarrow> server_config option" where
  "de_server c v = do {
     s \<leftarrow> de_struct c 5 v;
     listen \<leftarrow> field_or (sc_listen default_server) de_text 0 ''listen'' s;
     metrics_listen \<leftarrow> field_or (sc_metrics_listen default_server) de_text 1 ''metrics_listen'' s;
     backlog \<leftarrow> field_or (sc_listen_backlog default_server) de_word 2 ''listen_backlog'' s;
     pool \<leftarrow> field_or (sc_pool_max_idle_per_host default_server) de_word 3 ''pool_max_idle_per_host'' s;
     threads \<leftarrow> field_or None (de_present de_word) 4 ''worker_threads'' s;
     Some \<lparr>sc_listen = listen, sc_metrics_listen = metrics_listen, sc_listen_backlog = backlog,
       sc_pool_max_idle_per_host = pool, sc_worker_threads = threads\<rparr> }"

definition de_health :: "toml_crate \<Rightarrow> toml \<Rightarrow> health_config option" where
  "de_health c v = do {
     s \<leftarrow> de_struct c 12 v;
     interval \<leftarrow> field_or (hc_interval_ms default_health) de_word 0 ''interval_ms'' s;
     window \<leftarrow> field_or (hc_window_secs default_health) de_word 1 ''window_secs'' s;
     commitments \<leftarrow> field_or (hc_probe_commitments default_health) (de_seq (de_variant commitment_names c)) 2
       ''probe_commitments'' s;
     threshold \<leftarrow> field_or (hc_slot_drift_threshold default_health) de_word 3 ''slot_drift_threshold'' s;
     reference \<leftarrow> field_or None (de_present de_text) 4 ''reference_url'' s;
     failures \<leftarrow> field_or (hc_circuit_open_failures default_health) de_word 5 ''circuit_open_failures'' s;
     error_threshold \<leftarrow> field_or (hc_circuit_error_threshold default_health) de_f64 6 ''circuit_error_threshold'' s;
     cooldown \<leftarrow> field_or (hc_circuit_cooldown_secs default_health) de_word 7 ''circuit_cooldown_secs'' s;
     w_latency \<leftarrow> field_or (hc_w_latency default_health) de_f64 8 ''w_latency'' s;
     w_error \<leftarrow> field_or (hc_w_error default_health) de_f64 9 ''w_error'' s;
     w_slot \<leftarrow> field_or (hc_w_slot default_health) de_f64 10 ''w_slot'' s;
     w_success \<leftarrow> field_or (hc_w_success default_health) de_f64 11 ''w_success'' s;
     Some \<lparr>hc_interval_ms = interval, hc_window_secs = window, hc_probe_commitments = commitments,
       hc_slot_drift_threshold = threshold, hc_reference_url = reference, hc_circuit_open_failures = failures,
       hc_circuit_error_threshold = error_threshold, hc_circuit_cooldown_secs = cooldown, hc_w_latency = w_latency,
       hc_w_error = w_error, hc_w_slot = w_slot, hc_w_success = w_success\<rparr> }"

definition de_routing :: "toml_crate \<Rightarrow> toml \<Rightarrow> routing_config option" where
  "de_routing c v = do {
     s \<leftarrow> de_struct c 6 v;
     strategy \<leftarrow> field_or (rc_strategy default_routing) (de_variant strategy_names c) 0 ''strategy'' s;
     retries \<leftarrow> field_or (rc_max_retries default_routing) de_word 1 ''max_retries'' s;
     broadcast \<leftarrow> field_or False de_flag 2 ''broadcast_writes'' s;
     writes \<leftarrow> field_or (rc_write_methods default_routing) (de_seq de_text) 3 ''write_methods'' s;
     history \<leftarrow> field_or (rc_history_methods default_routing) (de_seq de_text) 4 ''history_methods'' s;
     full \<leftarrow> field_or (rc_full_history_methods default_routing) (de_seq de_text) 5 ''full_history_methods'' s;
     Some \<lparr>rc_strategy = strategy, rc_max_retries = retries, rc_broadcast_writes = broadcast,
       rc_write_methods = writes, rc_history_methods = history, rc_full_history_methods = full\<rparr> }"

definition de_provider :: "toml_crate \<Rightarrow> toml \<Rightarrow> provider_config option" where
  "de_provider c v = do {
     s \<leftarrow> de_struct c 7 v;
     name \<leftarrow> field_req de_text 0 ''name'' s;
     url \<leftarrow> field_req de_text 1 ''url'' s;
     weight \<leftarrow> field_or 1 de_word 2 ''weight'' s;
     http3 \<leftarrow> field_or False de_flag 3 ''http3'' s;
     methods \<leftarrow> field_or None (de_present (de_seq de_text)) 4 ''methods'' s;
     max_rps \<leftarrow> field_or None (de_present de_word) 5 ''max_rps'' s;
     history \<leftarrow> field_or Full (de_variant history_names c) 6 ''history'' s;
     Some \<lparr>pv_name = name, pv_url = url, pv_weight = weight, pv_http3 = http3, pv_methods = methods,
       pv_max_rps = max_rps, pv_history = history\<rparr> }"

definition de_reporting :: "toml_crate \<Rightarrow> toml \<Rightarrow> reporting_config option" where
  "de_reporting c v = do {
     s \<leftarrow> de_struct c 5 v;
     endpoint \<leftarrow> field_req de_text 0 ''endpoint'' s;
     api_key \<leftarrow> field_opt de_text 1 ''api_key'' s;
     flush \<leftarrow> field_or 60000 de_word 2 ''flush_interval_ms'' s;
     buffer \<leftarrow> field_or 1000 de_word 3 ''buffer_size'' s;
     batch \<leftarrow> field_or 100 de_word 4 ''batch_size'' s;
     Some \<lparr>rp_endpoint = endpoint, rp_api_key = api_key, rp_flush_interval_ms = flush, rp_buffer_size = buffer,
       rp_batch_size = batch\<rparr> }"

definition de_historical :: "toml_crate \<Rightarrow> toml \<Rightarrow> historical_config option" where
  "de_historical c v = do {
     s \<leftarrow> de_struct c 6 v;
     queue \<leftarrow> field_or (ha_queue_capacity default_historical) de_word 0 ''queue_capacity'' s;
     queued \<leftarrow> field_or (ha_max_queued_bytes default_historical) de_word 1 ''max_queued_bytes'' s;
     job \<leftarrow> field_or (ha_max_job_bytes default_historical) de_word 2 ''max_job_bytes'' s;
     capacity \<leftarrow> field_or (ha_state_capacity default_historical) de_word 3 ''state_capacity'' s;
     ttl \<leftarrow> field_or (ha_state_ttl_secs default_historical) de_word 4 ''state_ttl_secs'' s;
     flush \<leftarrow> field_or (ha_flush_interval_ms default_historical) de_word 5 ''flush_interval_ms'' s;
     Some \<lparr>ha_queue_capacity = queue, ha_max_queued_bytes = queued, ha_max_job_bytes = job,
       ha_state_capacity = capacity, ha_state_ttl_secs = ttl, ha_flush_interval_ms = flush\<rparr> }"

definition de_config :: "toml_crate \<Rightarrow> toml \<Rightarrow> config option" where
  "de_config c v = do {
     s \<leftarrow> de_struct c 6 v;
     server \<leftarrow> field_or default_server (de_server c) 0 ''server'' s;
     health \<leftarrow> field_or default_health (de_health c) 1 ''health'' s;
     routing \<leftarrow> field_or default_routing (de_routing c) 2 ''routing'' s;
     providers \<leftarrow> field_or [] (de_seq (de_provider c)) 3 ''providers'' s;
     reporting \<leftarrow> field_or None (de_present (de_reporting c)) 4 ''reporting'' s;
     historical \<leftarrow> field_or None (de_present (de_historical c)) 5 ''historical_analytics'' s;
     Some \<lparr>cfg_server = server, cfg_health = health, cfg_routing = routing, cfg_providers = providers,
       cfg_reporting = reporting, cfg_historical = historical\<rparr> }"

text \<open>\<open>toml::from_str\<close> is the parser of the crate, then the derived reader.\<close>

definition config_from_str :: "toml_crate \<Rightarrow> (string \<Rightarrow> toml option) \<Rightarrow> string \<Rightarrow> config option" where
  "config_from_str c parse text = Option.bind (parse text) (de_config c)"

text \<open>The part of the document that \<open>peek_worker_threads\<close> reads.\<close>

definition de_peek_server :: "toml_crate \<Rightarrow> toml \<Rightarrow> usize option option" where
  "de_peek_server c v = Option.bind (de_struct c 1 v) (field_opt de_word 0 ''worker_threads'')"

definition de_peek :: "toml_crate \<Rightarrow> toml \<Rightarrow> usize option option" where
  "de_peek c v = Option.bind (de_struct c 1 v) (field_or None (de_peek_server c) 0 ''server'')"

section \<open>Writing a configuration as a document\<close>

text \<open>
  A key may be left out when its value is the default: \<open>keep\<close> says which of those keys are written all the same.
\<close>

definition entry :: "bool \<Rightarrow> string \<Rightarrow> ('a \<Rightarrow> toml) \<Rightarrow> 'a \<Rightarrow> 'a \<Rightarrow> (string \<times> toml) list" where
  "entry keep k en d x = (if keep \<or> x \<noteq> d then [(k, en x)] else [])"

definition entry_opt :: "string \<Rightarrow> ('a \<Rightarrow> toml) \<Rightarrow> 'a option \<Rightarrow> (string \<times> toml) list" where
  "entry_opt k en x = (case x of None \<Rightarrow> [] | Some y \<Rightarrow> [(k, en y)])"

definition en_word :: "'w::len word \<Rightarrow> toml" where
  "en_word w = TInt (uint w)"

definition en_seq :: "('a \<Rightarrow> toml) \<Rightarrow> 'a list \<Rightarrow> toml" where
  "en_seq en xs = TArr (map en xs)"

definition en_variant :: "(string \<times> 'a) list \<Rightarrow> 'a \<Rightarrow> toml" where
  "en_variant names x = TStr (unwrap_or (map_option fst (find (\<lambda>(k, y). y = x) names)) [])"

definition server_doc :: "(string \<Rightarrow> bool) \<Rightarrow> server_config \<Rightarrow> toml" where
  "server_doc keep x = TTable
     (entry (keep ''listen'') ''listen'' TStr (sc_listen default_server) (sc_listen x) @
      entry (keep ''metrics_listen'') ''metrics_listen'' TStr (sc_metrics_listen default_server) (sc_metrics_listen x) @
      entry (keep ''listen_backlog'') ''listen_backlog'' en_word (sc_listen_backlog default_server) (sc_listen_backlog x) @
      entry (keep ''pool_max_idle_per_host'') ''pool_max_idle_per_host'' en_word
        (sc_pool_max_idle_per_host default_server) (sc_pool_max_idle_per_host x) @
      entry_opt ''worker_threads'' en_word (sc_worker_threads x))"

definition health_doc :: "(string \<Rightarrow> bool) \<Rightarrow> health_config \<Rightarrow> toml" where
  "health_doc keep x = TTable
     (entry (keep ''interval_ms'') ''interval_ms'' en_word (hc_interval_ms default_health) (hc_interval_ms x) @
      entry (keep ''window_secs'') ''window_secs'' en_word (hc_window_secs default_health) (hc_window_secs x) @
      entry (keep ''probe_commitments'') ''probe_commitments'' (en_seq (en_variant commitment_names))
        (hc_probe_commitments default_health) (hc_probe_commitments x) @
      entry (keep ''slot_drift_threshold'') ''slot_drift_threshold'' en_word
        (hc_slot_drift_threshold default_health) (hc_slot_drift_threshold x) @
      entry_opt ''reference_url'' TStr (hc_reference_url x) @
      entry (keep ''circuit_open_failures'') ''circuit_open_failures'' en_word
        (hc_circuit_open_failures default_health) (hc_circuit_open_failures x) @
      entry (keep ''circuit_error_threshold'') ''circuit_error_threshold'' TFloat
        (hc_circuit_error_threshold default_health) (hc_circuit_error_threshold x) @
      entry (keep ''circuit_cooldown_secs'') ''circuit_cooldown_secs'' en_word
        (hc_circuit_cooldown_secs default_health) (hc_circuit_cooldown_secs x) @
      entry (keep ''w_latency'') ''w_latency'' TFloat (hc_w_latency default_health) (hc_w_latency x) @
      entry (keep ''w_error'') ''w_error'' TFloat (hc_w_error default_health) (hc_w_error x) @
      entry (keep ''w_slot'') ''w_slot'' TFloat (hc_w_slot default_health) (hc_w_slot x) @
      entry (keep ''w_success'') ''w_success'' TFloat (hc_w_success default_health) (hc_w_success x))"

definition routing_doc :: "(string \<Rightarrow> bool) \<Rightarrow> routing_config \<Rightarrow> toml" where
  "routing_doc keep x = TTable
     (entry (keep ''strategy'') ''strategy'' (en_variant strategy_names) (rc_strategy default_routing) (rc_strategy x) @
      entry (keep ''max_retries'') ''max_retries'' en_word (rc_max_retries default_routing) (rc_max_retries x) @
      entry (keep ''broadcast_writes'') ''broadcast_writes'' TBool False (rc_broadcast_writes x) @
      entry (keep ''write_methods'') ''write_methods'' (en_seq TStr) (rc_write_methods default_routing) (rc_write_methods x) @
      entry (keep ''history_methods'') ''history_methods'' (en_seq TStr) (rc_history_methods default_routing)
        (rc_history_methods x) @
      entry (keep ''full_history_methods'') ''full_history_methods'' (en_seq TStr) (rc_full_history_methods default_routing)
        (rc_full_history_methods x))"

definition provider_doc :: "(string \<Rightarrow> bool) \<Rightarrow> provider_config \<Rightarrow> toml" where
  "provider_doc keep x = TTable
     ([(''name'', TStr (pv_name x)), (''url'', TStr (pv_url x))] @
      entry (keep ''weight'') ''weight'' en_word 1 (pv_weight x) @
      entry (keep ''http3'') ''http3'' TBool False (pv_http3 x) @
      entry_opt ''methods'' (en_seq TStr) (pv_methods x) @
      entry_opt ''max_rps'' en_word (pv_max_rps x) @
      entry (keep ''history'') ''history'' (en_variant history_names) Full (pv_history x))"

definition reporting_doc :: "(string \<Rightarrow> bool) \<Rightarrow> reporting_config \<Rightarrow> toml" where
  "reporting_doc keep x = TTable
     ([(''endpoint'', TStr (rp_endpoint x))] @
      entry_opt ''api_key'' TStr (rp_api_key x) @
      entry (keep ''flush_interval_ms'') ''flush_interval_ms'' en_word 60000 (rp_flush_interval_ms x) @
      entry (keep ''buffer_size'') ''buffer_size'' en_word 1000 (rp_buffer_size x) @
      entry (keep ''batch_size'') ''batch_size'' en_word 100 (rp_batch_size x))"

definition historical_doc :: "(string \<Rightarrow> bool) \<Rightarrow> historical_config \<Rightarrow> toml" where
  "historical_doc keep x = TTable
     (entry (keep ''queue_capacity'') ''queue_capacity'' en_word (ha_queue_capacity default_historical) (ha_queue_capacity x) @
      entry (keep ''max_queued_bytes'') ''max_queued_bytes'' en_word (ha_max_queued_bytes default_historical)
        (ha_max_queued_bytes x) @
      entry (keep ''max_job_bytes'') ''max_job_bytes'' en_word (ha_max_job_bytes default_historical) (ha_max_job_bytes x) @
      entry (keep ''state_capacity'') ''state_capacity'' en_word (ha_state_capacity default_historical)
        (ha_state_capacity x) @
      entry (keep ''state_ttl_secs'') ''state_ttl_secs'' en_word (ha_state_ttl_secs default_historical)
        (ha_state_ttl_secs x) @
      entry (keep ''flush_interval_ms'') ''flush_interval_ms'' en_word (ha_flush_interval_ms default_historical)
        (ha_flush_interval_ms x))"

text \<open>\<open>keep\<close> is asked for the section and for the key in it.\<close>

definition config_doc :: "(string \<Rightarrow> string \<Rightarrow> bool) \<Rightarrow> config \<Rightarrow> toml" where
  "config_doc keep x = TTable
     (entry (keep [] ''server'') ''server'' (server_doc (keep ''server'')) default_server (cfg_server x) @
      entry (keep [] ''health'') ''health'' (health_doc (keep ''health'')) default_health (cfg_health x) @
      entry (keep [] ''routing'') ''routing'' (routing_doc (keep ''routing'')) default_routing (cfg_routing x) @
      entry (keep [] ''providers'') ''providers'' (en_seq (provider_doc (keep ''providers''))) [] (cfg_providers x) @
      entry_opt ''reporting'' (reporting_doc (keep ''reporting'')) (cfg_reporting x) @
      entry_opt ''historical_analytics'' (historical_doc (keep ''historical_analytics'')) (cfg_historical x))"

text \<open>The 64-bit numbers of a configuration; TOML has no integer above \<open>2 ^ 63 - 1\<close>.\<close>

definition config_numbers :: "config \<Rightarrow> u64 list" where
  "config_numbers c =
     (let h = cfg_health c in
      [sc_pool_max_idle_per_host (cfg_server c), hc_interval_ms h, hc_window_secs h, hc_slot_drift_threshold h,
       hc_circuit_cooldown_secs h, rc_max_retries (cfg_routing c)] @
      (case sc_worker_threads (cfg_server c) of None \<Rightarrow> [] | Some n \<Rightarrow> [n]) @
      (case cfg_reporting c of None \<Rightarrow> [] | Some r \<Rightarrow> [rp_flush_interval_ms r, rp_buffer_size r, rp_batch_size r]) @
      (case cfg_historical c of None \<Rightarrow> []
       | Some a \<Rightarrow> [ha_queue_capacity a, ha_max_queued_bytes a, ha_max_job_bytes a, ha_state_capacity a,
           ha_state_ttl_secs a, ha_flush_interval_ms a]))"

definition expressible :: "config \<Rightarrow> bool" where
  "expressible c \<longleftrightarrow> list_all (\<lambda>n. n < 2 ^ 63) (config_numbers c)"

text \<open>What the documentation of the \<open>toml\<close> crate promises of a unit variant.\<close>

definition variant_by_name :: "toml_crate \<Rightarrow> bool" where
  "variant_by_name c \<longleftrightarrow> (\<forall>s. tc_variant c (TStr s) = Some s)"

section \<open>Codecs\<close>

definition first_found :: "'a option \<Rightarrow> 'a option \<Rightarrow> 'a option" where
  "first_found x y = (case x of None \<Rightarrow> y | Some v \<Rightarrow> Some v)"

text \<open>What a lookup finds of an entry.\<close>

definition written :: "bool \<Rightarrow> ('a \<Rightarrow> toml) \<Rightarrow> 'a \<Rightarrow> 'a \<Rightarrow> toml option" where
  "written keep en d x = (if keep \<or> x \<noteq> d then Some (en x) else None)"

definition written_option :: "('a \<Rightarrow> toml) \<Rightarrow> 'a option \<Rightarrow> toml option" where
  "written_option en x = map_option en x"

definition unused_key :: "string \<Rightarrow> (string \<times> toml) list \<Rightarrow> bool" where
  "unused_key k t \<longleftrightarrow> k \<notin> fst ` set t"

definition table_ok :: "(string \<times> toml) list \<Rightarrow> bool" where
  "table_ok t \<longleftrightarrow> toml_ok (TTable t)"

definition plain_crate :: toml_crate where
  "plain_crate = \<lparr>tc_variant = (\<lambda>v. case v of TStr s \<Rightarrow> Some s | _ \<Rightarrow> None), tc_trailing = False\<rparr>"

definition small_config :: config where
  "small_config =
     \<lparr>cfg_server = default_server, cfg_health = default_health\<lparr>hc_interval_ms := 500\<rparr>, cfg_routing = default_routing,
      cfg_providers = [default_provider ''a'' ''http://a''], cfg_reporting = None, cfg_historical = None\<rparr>"

text \<open>A reader and a writer of the same values, the reader undoing the writer.\<close>

locale value_codec =
  fixes de :: "toml \<Rightarrow> 'a option" and en :: "'a \<Rightarrow> toml"
  assumes de_en: "de (en x) = Some x"

begin

lemma present: "de_present de (en x) = Some (Some x)"
  by (simp add: de_present_def de_en)

lemma seq: "de_seq de (en_seq en xs) = Some xs"
  by (induction xs) (simp_all add: de_seq_def en_seq_def de_en)

lemma seq_codec: "value_codec (de_seq de) (en_seq en)"
  by unfold_locales (rule seq)

text \<open>A field that was written unless it has its default is read back.\<close>

lemma written: "(case written b en d x of None \<Rightarrow> Some d | Some v \<Rightarrow> de v) = Some x"
  by (auto simp: written_def de_en)

lemma written_option: "(case written_option en x of None \<Rightarrow> Some None | Some v \<Rightarrow> de_present de v) = Some x"
  by (cases x) (simp_all add: written_option_def present)

end

interpretation str: value_codec de_text TStr
  by unfold_locales (simp add: de_text_def)

interpretation flag: value_codec de_flag TBool
  by unfold_locales (simp add: de_flag_def)

interpretation double: value_codec de_f64 TFloat
  by unfold_locales (simp add: de_f64_def)

interpretation num: value_codec "de_word :: toml \<Rightarrow> 'w::len word option" en_word
proof unfold_locales
  fix x :: "'w word"
  have "uint x < 2 ^ LENGTH('w)" using unsigned_less[of x, where 'a = int] by simp
  then show "de_word (en_word x) = Some x" by (simp add: de_word_def en_word_def)
qed

interpretation strs: value_codec "de_seq de_text" "en_seq TStr"
  by unfold_locales (rule str.seq)

lemma en_variant_names:
  "en_variant strategy_names BestScore = TStr ''best_score''" "en_variant strategy_names WeightedRandom = TStr ''weighted_random''"
  "en_variant strategy_names FailoverOrdered = TStr ''failover_ordered''"
  "en_variant strategy_names ParallelRace = TStr ''parallel_race''"
  "en_variant history_names Full = TStr ''full''" "en_variant history_names Recent = TStr ''recent''"
  "en_variant commitment_names Processed = TStr ''processed''" "en_variant commitment_names Confirmed = TStr ''confirmed''"
  "en_variant commitment_names Finalized = TStr ''finalized''"
  by (simp_all add: en_variant_def strategy_names_def history_names_def commitment_names_def unwrap_or_def)

lemma de_variant_name: "variant_by_name c \<Longrightarrow> de_variant names c (TStr s) = map_of names s"
  by (simp add: de_variant_def variant_by_name_def)

lemma strategy_codec: "variant_by_name c \<Longrightarrow> value_codec (de_variant strategy_names c) (en_variant strategy_names)"
proof unfold_locales
  fix x assume "variant_by_name c"
  then show "de_variant strategy_names c (en_variant strategy_names x) = Some x"
    by (cases x) (simp_all add: en_variant_names de_variant_name, simp_all add: strategy_names_def)
qed

lemma history_codec: "variant_by_name c \<Longrightarrow> value_codec (de_variant history_names c) (en_variant history_names)"
proof unfold_locales
  fix x assume "variant_by_name c"
  then show "de_variant history_names c (en_variant history_names x) = Some x"
    by (cases x) (simp_all add: en_variant_names de_variant_name, simp_all add: history_names_def)
qed

lemma commitment_codec: "variant_by_name c \<Longrightarrow> value_codec (de_variant commitment_names c) (en_variant commitment_names)"
proof unfold_locales
  fix x assume "variant_by_name c"
  then show "de_variant commitment_names c (en_variant commitment_names x) = Some x"
    by (cases x) (simp_all add: en_variant_names de_variant_name, simp_all add: commitment_names_def)
qed

lemma lookup_entry: "map_of (entry keep k en d x) k' = (if k' = k then written keep en d x else None)"
  by (simp add: entry_def written_def)

lemma lookup_entry_opt: "map_of (entry_opt k en x) k' = (if k' = k then written_option en x else None)"
  by (cases x) (simp_all add: entry_opt_def written_option_def)

lemma lookup_append: "map_of (a @ b) k = first_found (map_of a k) (map_of b k)"
  by (simp add: map_add_def first_found_def split: option.split)

lemma first_found_None [simp]: "first_found None y = y" "first_found x None = x"
  by (simp_all add: first_found_def split: option.split)

lemma de_struct_table: "de_struct c n (TTable t) = Some \<lparr>si_table = True, si_field = (\<lambda>i k. map_of t k)\<rparr>"
  by (simp add: de_struct_def)

lemmas read_fields = de_struct_table field_req_def field_or_def field_opt_def lookup_append lookup_entry lookup_entry_opt
  flag.written str.de_en str.written str.written_option num.written num.written_option double.written
  strs.written strs.written_option

lemma server_codec: "value_codec (de_server c) (server_doc keep)"
  by unfold_locales (simp add: de_server_def server_doc_def read_fields del: map_of_append)

lemma health_codec:
  assumes "variant_by_name c"
  shows "value_codec (de_health c) (health_doc keep)"
proof unfold_locales
  note commitments = value_codec.written[OF value_codec.seq_codec[OF commitment_codec[OF assms]]]
  show "de_health c (health_doc keep x) = Some x" for x
    by (simp add: de_health_def health_doc_def read_fields commitments del: map_of_append)
qed

lemma routing_codec:
  assumes "variant_by_name c"
  shows "value_codec (de_routing c) (routing_doc keep)"
  by unfold_locales
    (simp add: de_routing_def routing_doc_def read_fields value_codec.written[OF strategy_codec[OF assms]] del: map_of_append)

lemma provider_codec:
  assumes "variant_by_name c"
  shows "value_codec (de_provider c) (provider_doc keep)"
  by unfold_locales
    (simp add: de_provider_def provider_doc_def read_fields value_codec.written[OF history_codec[OF assms]] del: map_of_append)

lemma reporting_codec: "value_codec (de_reporting c) (reporting_doc keep)"
  by unfold_locales (simp add: de_reporting_def reporting_doc_def read_fields del: map_of_append)

lemma historical_codec: "value_codec (de_historical c) (historical_doc keep)"
  by unfold_locales (simp add: de_historical_def historical_doc_def read_fields del: map_of_append)

lemma config_codec:
  assumes "variant_by_name c"
  shows "value_codec (de_config c) (config_doc keep)"
  by unfold_locales
    (simp add: de_config_def config_doc_def read_fields value_codec.written[OF server_codec]
      value_codec.written[OF health_codec[OF assms]] value_codec.written[OF routing_codec[OF assms]]
      value_codec.written[OF value_codec.seq_codec[OF provider_codec[OF assms]]]
      value_codec.written_option[OF reporting_codec] value_codec.written_option[OF historical_codec] del: map_of_append)

section \<open>The documents are documents\<close>

lemma unused_key_entry [simp]:
  "unused_key k []" "unused_key k ((k', v) # t) \<longleftrightarrow> k \<noteq> k' \<and> unused_key k t"
  "k \<noteq> k' \<Longrightarrow> unused_key k (entry b k' en d x)" "k \<noteq> k' \<Longrightarrow> unused_key k (entry b k' en d x @ t) = unused_key k t"
  "k \<noteq> k' \<Longrightarrow> unused_key k (entry_opt k' en y)" "k \<noteq> k' \<Longrightarrow> unused_key k (entry_opt k' en y @ t) = unused_key k t"
  by (auto simp: unused_key_def entry_def entry_opt_def split: option.splits)

lemma table_ok_entry [simp]:
  "table_ok []" "toml_ok v \<Longrightarrow> unused_key k t \<Longrightarrow> table_ok ((k, v) # t) = table_ok t"
  "toml_ok (en x) \<Longrightarrow> table_ok (entry b k en d x)"
  "toml_ok (en x) \<Longrightarrow> unused_key k t \<Longrightarrow> table_ok (entry b k en d x @ t) = table_ok t"
  "pred_option (\<lambda>v. toml_ok (en v)) y \<Longrightarrow> table_ok (entry_opt k en y)"
  "pred_option (\<lambda>v. toml_ok (en v)) y \<Longrightarrow> unused_key k t \<Longrightarrow> table_ok (entry_opt k en y @ t) = table_ok t"
  by (auto simp: unused_key_def table_ok_def entry_def entry_opt_def pred_option_def split: option.splits)

lemma table_ok_toml: "toml_ok (TTable t) = table_ok t"
  by (simp add: table_ok_def)

lemma expressible_word: "(n :: u64) < 2 ^ 63 \<Longrightarrow> toml_ok (en_word n)"
proof -
  assume "n < 2 ^ 63"
  then have "uint n < 2 ^ 63" by (simp add: word_less_def)
  then show ?thesis by (simp add: en_word_def order_trans[OF _ uint_ge_0])
qed

lemma short_word_ok: "toml_ok (en_word (n :: u32))"
proof -
  have "uint n < 2 ^ 32" using unsigned_less[of n, where 'a = int] by simp
  then show ?thesis by (simp add: en_word_def order_trans[OF _ uint_ge_0])
qed

lemma texts_ok: "toml_ok (en_seq TStr xs)"
  by (simp add: en_seq_def)

lemma variant_ok: "toml_ok (en_variant names x)" "toml_ok (en_seq (en_variant names) xs)"
  by (simp_all add: en_seq_def en_variant_def)

lemma pred_option_all: "(\<And>v. P v) \<Longrightarrow> pred_option P y"
  by (simp add: pred_option_def)

lemmas doc_ok = table_ok_toml short_word_ok texts_ok variant_ok expressible_word pred_option_all

lemma provider_doc_ok: "toml_ok (provider_doc keep p)"
  by (simp add: provider_doc_def doc_ok del: toml_ok.simps(3))

lemma config_doc_ok:
  assumes "expressible c"
  shows "toml_ok (config_doc keep c)"
proof -
  have "toml_ok (server_doc keep (cfg_server c))" for keep
    using assms by (cases "sc_worker_threads (cfg_server c)") (auto simp: server_doc_def doc_ok expressible_def
        config_numbers_def Let_def simp del: toml_ok.simps(3))
  moreover have "toml_ok (health_doc keep (cfg_health c))" for keep
    using assms by (auto simp: health_doc_def doc_ok expressible_def config_numbers_def Let_def
        simp del: toml_ok.simps(3))
  moreover have "toml_ok (routing_doc keep (cfg_routing c))" for keep
    using assms by (auto simp: routing_doc_def doc_ok expressible_def config_numbers_def Let_def
        simp del: toml_ok.simps(3))
  moreover have "pred_option (\<lambda>r. toml_ok (reporting_doc keep r)) (cfg_reporting c)" for keep
    using assms by (cases "cfg_reporting c") (auto simp: reporting_doc_def doc_ok expressible_def config_numbers_def Let_def
        simp del: toml_ok.simps(3))
  moreover have "pred_option (\<lambda>r. toml_ok (historical_doc keep r)) (cfg_historical c)" for keep
    using assms by (cases "cfg_historical c") (auto simp: historical_doc_def doc_ok expressible_def config_numbers_def Let_def
        simp del: toml_ok.simps(3))
  moreover have "toml_ok (en_seq (provider_doc keep) (cfg_providers c))" for keep
    by (simp add: en_seq_def provider_doc_ok)
  ultimately show ?thesis
    unfolding config_doc_def table_ok_toml by simp
qed

text \<open>C37. Every configuration whose numbers TOML can express can be written as a TOML document that the
derived readers take back as exactly that configuration, and any key whose value is the default may
be left out of the document or written, whichever keys are chosen.\<close>

theorem config_document_roundtrip:
  assumes "variant_by_name c" "expressible cfg"
  shows "toml_ok (config_doc keep cfg) \<and> de_config c (config_doc keep cfg) = Some cfg"
  using config_doc_ok[OF assms(2)] value_codec.de_en[OF config_codec[OF assms(1)]] by simp

section \<open>Unknown keys\<close>

text \<open>A key that names no field, a misspelled one for instance, changes nothing.\<close>

theorem unknown_keys_ignored:
  "list_all (\<lambda>f. f \<noteq> k) [''server'', ''health'', ''routing'', ''providers'', ''reporting'', ''historical_analytics''] \<Longrightarrow>
     de_config c (TTable ((k, v) # t)) = de_config c (TTable t)"
  "list_all (\<lambda>f. f \<noteq> k) [''listen'', ''metrics_listen'', ''listen_backlog'', ''pool_max_idle_per_host'', ''worker_threads''] \<Longrightarrow>
     de_server c (TTable ((k, v) # t)) = de_server c (TTable t)"
  "list_all (\<lambda>f. f \<noteq> k) [''name'', ''url'', ''weight'', ''http3'', ''methods'', ''max_rps'', ''history''] \<Longrightarrow>
     de_provider c (TTable ((k, v) # t)) = de_provider c (TTable t)"
  by (simp_all add: de_config_def de_server_def de_provider_def de_struct_table field_req_def field_or_def)

section \<open>The early look at the worker threads\<close>

lemma bind_Some: "Option.bind x f = Some y \<longleftrightarrow> (\<exists>z. x = Some z \<and> f z = Some y)"
  by (cases x) simp_all

lemma peek_server_agrees:
  assumes "de_server c (TTable t) = Some s"
  shows "de_peek_server c (TTable t) = Some (sc_worker_threads s)"
  using assms
  by (cases "map_of t ''worker_threads''")
    (auto simp: de_server_def de_peek_server_def de_struct_table field_opt_def field_or_def bind_Some)

text \<open>\<open>peek_worker_threads\<close> and \<open>load\<close> read the same thread count from a document whose server section is a table.\<close>

lemma peek_agrees:
  assumes "de_config c (TTable t) = Some cfg" "\<And>v. map_of t ''server'' = Some v \<Longrightarrow> \<exists>t'. v = TTable t'"
  shows "de_peek c (TTable t) = Some (sc_worker_threads (cfg_server cfg))"
proof (cases "map_of t ''server''")
  case None
  with assms(1) have "cfg_server cfg = default_server"
    by (auto simp: de_config_def de_struct_table field_or_def bind_Some)
  with None show ?thesis by (simp add: de_peek_def de_struct_table field_or_def default_server_def)
next
  case (Some v)
  with assms(2) obtain t' where v: "v = TTable t'" by blast
  with Some assms(1) have "de_server c (TTable t') = Some (cfg_server cfg)"
    by (auto simp: de_config_def de_struct_table field_or_def bind_Some)
  with Some v show ?thesis by (simp add: de_peek_def de_struct_table field_or_def peek_server_agrees)
qed

section \<open>Witness\<close>

theorem config_document_roundtrip_witness:
  "de_config plain_crate (config_doc (\<lambda>s k. False) small_config) = Some small_config \<and>
   config_doc (\<lambda>s k. False) small_config =
     TTable [(''health'', TTable [(''interval_ms'', TInt 500)]),
       (''providers'', TArr [TTable [(''name'', TStr ''a''), (''url'', TStr ''http://a'')]])]"
proof
  have "variant_by_name plain_crate" by (simp add: variant_by_name_def plain_crate_def)
  moreover have "expressible small_config"
    by (simp add: expressible_def config_numbers_def small_config_def default_server_def default_health_def
        default_routing_def word_less_nat_alt Let_def)
  ultimately show "de_config plain_crate (config_doc (\<lambda>s k. False) small_config) = Some small_config"
    using config_document_roundtrip by blast
  show "config_doc (\<lambda>s k. False) small_config =
     TTable [(''health'', TTable [(''interval_ms'', TInt 500)]),
       (''providers'', TArr [TTable [(''name'', TStr ''a''), (''url'', TStr ''http://a'')]])]"
    by (simp add: small_config_def config_doc_def entry_def entry_opt_def en_seq_def provider_doc_def default_provider_def
        health_doc_def default_health_def en_word_def)
qed

end
