(* ===== verification/RateLimit.thy ===== *)
theory RateLimit
  imports F64
begin

text \<open>
  The per-provider token bucket of \<open>src/src/health.rs\<close> (lines 37 to 128), with its binary64
  arithmetic. A \<open>RateLimiter\<close> is a bucket behind a mutex: each of its methods is one atomic step on the
  bucket, so the bucket operations model both. Every operation takes the clock reading it makes.

  The bucket's invariant and the cap it enforces: over any sequence of calls the tokens granted are at
  most the burst plus the configured rate times the elapsed time, up to a rounding allowance of
  \<open>2 powi (-18)\<close> token per call.
\<close>

section \<open>The bucket\<close>

record token_bucket =
  tk_tokens :: f64
  tk_capacity :: f64
  tk_rate :: f64
  tk_last :: instant

definition bucket_new :: "instant \<Rightarrow> u32 \<Rightarrow> token_bucket" where
  "bucket_new now max_rps =
     (let cap = f64_of_nat (unat max_rps) in
      \<lparr>tk_tokens = cap, tk_capacity = cap, tk_rate = cap, tk_last = now\<rparr>)"

definition refill :: "instant \<Rightarrow> token_bucket \<Rightarrow> token_bucket" where
  "refill now b =
     (let elapsed = as_secs_f64 (saturating_duration_since now (tk_last b)) in
      if f64_lt (Fin 0) elapsed
      then b\<lparr>tk_tokens := f64_min (f64_add (tk_tokens b) (f64_mul elapsed (tk_rate b))) (tk_capacity b),
             tk_last := now\<rparr>
      else b)"

definition bucket_try_acquire :: "instant \<Rightarrow> token_bucket \<Rightarrow> bool \<times> token_bucket" where
  "bucket_try_acquire now b =
     (let b = refill now b in
      if f64_le (Fin 1) (tk_tokens b)
      then (True, b\<lparr>tk_tokens := f64_sub (tk_tokens b) (Fin 1)\<rparr>)
      else (False, b))"

definition bucket_has_capacity :: "instant \<Rightarrow> token_bucket \<Rightarrow> bool \<times> token_bucket" where
  "bucket_has_capacity now b = (let b = refill now b in (f64_le (Fin 1) (tk_tokens b), b))"

definition bucket_reconfigure :: "instant \<Rightarrow> u32 \<Rightarrow> token_bucket \<Rightarrow> token_bucket" where
  "bucket_reconfigure now max_rps b =
     (let b = refill now b; cap = f64_of_nat (unat max_rps) in
      b\<lparr>tk_capacity := cap, tk_rate := cap, tk_tokens := f64_min (tk_tokens b) cap\<rparr>)"

text \<open>\<open>build_limiter\<close>: a provider without a cap has no bucket.\<close>

definition build_limiter :: "instant \<Rightarrow> u32 option \<Rightarrow> token_bucket option" where
  "build_limiter now max_rps = map_option (bucket_new now) max_rps"

text \<open>A bucket of rate \<open>n\<close>: capacity and rate are \<open>n\<close>, and the level is between 0 and \<open>n\<close>.\<close>

definition bucket_ok :: "nat \<Rightarrow> token_bucket \<Rightarrow> bool" where
  "bucket_ok n b \<longleftrightarrow> 1 \<le> n \<and> n < 2 ^ 32 \<and> tk_capacity b = Fin (of_nat n) \<and>
     tk_rate b = Fin (of_nat n) \<and> (\<exists>t. tk_tokens b = Fin t \<and> 0 \<le> t \<and> t \<le> of_nat n)"

text \<open>The level as a rational number.\<close>

fun level_of :: "f64 \<Rightarrow> rat" where
  "level_of (Fin t) = t"
| "level_of x = 0"

definition level :: "token_bucket \<Rightarrow> rat" where
  "level b = level_of (tk_tokens b)"

text \<open>What rate \<open>n\<close> adds in \<open>d\<close> nanoseconds, and the rounding allowance of one call.\<close>

definition accrued :: "nat \<Rightarrow> int \<Rightarrow> rat" where
  "accrued n d = of_nat n * (of_int d / 1000000000)"

definition slack :: rat where
  "slack = 2 powi (- 18)"

text \<open>A sequence of calls: peeks and acquisitions at given instants; the result counts the grants.\<close>

datatype bucket_call = Peek instant | Acquire instant

fun bucket_run :: "bucket_call list \<Rightarrow> token_bucket \<Rightarrow> nat \<times> token_bucket" where
  "bucket_run [] b = (0, b)"
| "bucket_run (Peek t # cs) b = bucket_run cs (snd (bucket_has_capacity t b))"
| "bucket_run (Acquire t # cs) b =
     (case bucket_try_acquire t b of (granted, b') \<Rightarrow>
        (case bucket_run cs b' of (k, b'') \<Rightarrow> ((if granted then Suc k else k), b'')))"

section \<open>The invariant\<close>

lemma f64_of_u32: "f64_of_nat (unat (x :: u32)) = Fin (of_nat (unat x))"
proof (rule f64_of_nat_exact)
  have "unat x < 2 ^ 32" by (rule u32_bound)
  then show "unat x \<le> 2 ^ 53" by simp
qed

lemma bucket_new_ok:
  assumes "max_rps \<noteq> 0"
  shows "bucket_ok (unat max_rps) (bucket_new now max_rps)"
proof -
  define m where "m = unat max_rps"
  have "1 \<le> m" "m < 2 ^ 32"
    using assms u32_bound[of max_rps] by (simp_all add: m_def unat_gt_0 Suc_le_eq)
  then show ?thesis using f64_of_u32[of max_rps]
    by (simp add: bucket_ok_def bucket_new_def Let_def flip: m_def)
qed

lemma f64_min_cap:
  assumes "f64_nonneg x" "0 \<le> c"
  shows "\<exists>t. f64_min x (Fin c) = Fin t \<and> 0 \<le> t \<and> t \<le> c"
  using assms by (cases x) (auto simp: f64_min_def)

lemma f64_mul_nonneg_right: "f64_nonneg x \<Longrightarrow> 0 < w \<Longrightarrow> f64_nonneg (f64_mul x (Fin w))"
  by (cases x) (auto simp: binary64.r_nonneg inf_of_sign_def)

lemma refill_ok: "bucket_ok n b \<Longrightarrow> bucket_ok n (refill now b)"
proof -
  assume ok: "bucket_ok n b"
  then obtain t where t: "tk_tokens b = Fin t" "0 \<le> t" "tk_rate b = Fin (of_nat n)" "1 \<le> n"
      "tk_capacity b = Fin (of_nat n)"
    by (auto simp: bucket_ok_def)
  let ?x = "f64_add (tk_tokens b)
    (f64_mul (as_secs_f64 (saturating_duration_since now (tk_last b))) (tk_rate b))"
  have "f64_nonneg ?x" using t by (simp add: f64_add_nonneg f64_mul_nonneg_right)
  then have "\<exists>s. f64_min ?x (Fin (of_nat n)) = Fin s \<and> 0 \<le> s \<and> s \<le> of_nat n"
    by (rule f64_min_cap) simp
  with ok show ?thesis by (auto simp: refill_def Let_def bucket_ok_def)
qed

lemma f64_sub_one:
  assumes "1 \<le> t" "t \<le> of_nat n" "n < 2 ^ 32"
  obtains s where "f64_sub (Fin t) (Fin 1) = Fin s" "0 \<le> s" "s \<le> of_nat (n - 1)"
proof -
  have n: "1 \<le> n"
  proof (rule ccontr)
    assume "\<not> 1 \<le> n"
    then have "n = 0" by simp
    with assms show False by simp
  qed
  have "0 \<le> t - 1" "t - 1 \<le> of_nat (n - 1)" "n - 1 \<le> 2 ^ 53"
    using assms n by (simp_all add: of_nat_diff)
  then obtain s where "rnd (t - 1) = Fin s" "0 \<le> s" "s \<le> of_nat (n - 1)"
    by (rule binary64.r_below_nat)
  with that show ?thesis by (simp add: f64_sub_def)
qed

lemma try_acquire_ok: "bucket_ok n b \<Longrightarrow> bucket_ok n (snd (bucket_try_acquire now b))"
proof -
  assume "bucket_ok n b"
  then have ok: "bucket_ok n (refill now b)" by (rule refill_ok)
  then obtain t where t: "tk_tokens (refill now b) = Fin t" "t \<le> of_nat n" "n < 2 ^ 32"
    by (auto simp: bucket_ok_def)
  show ?thesis
  proof (cases "1 \<le> t")
    case True
    then obtain s where s: "f64_sub (Fin t) (Fin 1) = Fin s" "0 \<le> s" "s \<le> of_nat (n - 1)"
      using t f64_sub_one by blast
    then have "s \<le> of_nat n" using of_nat_mono[of "n - 1" n, where ?'a = rat] by linarith
    with ok True t s show ?thesis
      by (auto simp: bucket_try_acquire_def Let_def bucket_ok_def f64_le_def)
  next
    case False
    with ok t show ?thesis by (auto simp: bucket_try_acquire_def Let_def f64_le_def)
  qed
qed

lemma has_capacity_ok: "bucket_ok n b \<Longrightarrow> bucket_ok n (snd (bucket_has_capacity now b))"
  by (simp add: bucket_has_capacity_def Let_def refill_ok)

lemma reconfigure_ok:
  assumes "bucket_ok n b" "max_rps \<noteq> 0"
  shows "bucket_ok (unat max_rps) (bucket_reconfigure now max_rps b)"
proof -
  obtain t where t: "tk_tokens (refill now b) = Fin t" "0 \<le> t"
    using refill_ok[OF assms(1)] by (auto simp: bucket_ok_def)
  define m where "m = unat max_rps"
  have m: "1 \<le> m" "m < 2 ^ 32"
    using assms(2) u32_bound[of max_rps] by (simp_all add: m_def unat_gt_0 Suc_le_eq)
  have "\<exists>s. f64_min (Fin t) (Fin (of_nat m)) = Fin s \<and> 0 \<le> s \<and> s \<le> of_nat m"
    using t by (intro f64_min_cap) auto
  with t m f64_of_u32[of max_rps] show ?thesis
    by (auto simp: bucket_reconfigure_def bucket_ok_def Let_def simp flip: m_def)
qed

section \<open>The cap\<close>

lemma as_secs_0: "as_secs_f64 0 = Fin 0"
  by (simp add: as_secs_f64_def f64_of_nat_def binary64.r_0)

lemma as_secs_subsecond:
  assumes "d < 1000000000"
  obtains e where "as_secs_f64 d = Fin e" "0 \<le> e" "e \<le> 1" "e \<le> of_nat d / 1000000000 + 2 powi (- 52)"
proof -
  let ?q = "of_nat d / 1000000000 :: rat"
  have q: "0 \<le> ?q" "?q \<le> of_nat 1" using assms by (simp_all add: divide_le_eq_1)
  obtain a where a: "rnd ?q = Fin a" "0 \<le> a" "a \<le> of_nat 1"
    using binary64.r_below_nat[OF q] by force
  obtain e where e: "rnd a = Fin e" "0 \<le> e" "e \<le> of_nat 1"
    using binary64.r_below_nat[OF a(2,3)] by force
  have "a \<le> ?q + 2 powi (0 - 53)" by (rule rnd_error[OF q(1) _ _ a(1)]) (use q(2) in auto)
  moreover have "e \<le> a + 2 powi (0 - 53)" by (rule rnd_error[OF a(2) _ _ e(1)]) (use a(3) in auto)
  moreover have "2 powi (- 52) = 2 powi (0 - 53) + (2::rat) powi (0 - 53)"
    by (simp add: power_int_def power_divide)
  ultimately have "e \<le> ?q + 2 powi (- 52)" by linarith
  moreover have "as_secs_f64 d = Fin e"
    using assms a(1) e(1) by (simp add: as_secs_f64_def f64_of_nat_exact)
  ultimately show ?thesis using that e by simp
qed

lemma refill_level_subsecond:
  assumes n: "n < 2 ^ 32" and t: "0 \<le> t" "t \<le> of_nat n" and d: "d < 1000000000"
  obtains s where
    "f64_min (f64_add (Fin t) (f64_mul (as_secs_f64 d) (Fin (of_nat n)))) (Fin (of_nat n)) = Fin s"
    "s \<le> t + of_nat n * (of_nat d / 1000000000) + (2 powi (- 19) + 2 powi (- 21))"
proof -
  let ?n = "of_nat n :: rat"
  have n32: "?n \<le> 2 powi 32" using n by (simp add: power_int_def flip: of_nat_less_numeral_power_cancel_iff)
  have n53: "n \<le> 2 ^ 53" "n + n \<le> 2 ^ 53" using n by simp_all
  obtain e where e: "as_secs_f64 d = Fin e" "0 \<le> e" "e \<le> 1"
      "e \<le> of_nat d / 1000000000 + 2 powi (- 52)"
    by (rule as_secs_subsecond[OF d])
  have p: "0 \<le> e * ?n" "e * ?n \<le> ?n" using e by (simp_all add: mult_left_le_one_le)
  obtain m where m: "rnd (e * ?n) = Fin m" "0 \<le> m" "m \<le> ?n"
    using binary64.r_below_nat[OF p n53(1)] by metis
  have m_err: "m \<le> e * ?n + 2 powi (32 - 53)"
    by (rule rnd_error[OF p(1) _ _ m(1)]) (use p(2) n32 in auto)
  have s: "0 \<le> t + m" "t + m \<le> of_nat (n + n)" using t m by simp_all
  obtain a where a: "rnd (t + m) = Fin a" "0 \<le> a"
    using binary64.r_below_nat[OF s n53(2)] by metis
  have "t + m \<le> 2 powi 33" using t(2) m(3) n32 by (simp add: power_int_def)
  then have a_err: "a \<le> t + m + 2 powi (33 - 53)" by (intro rnd_error[OF s(1) _ _ a(1)]) auto
  have "e * ?n \<le> (of_nat d / 1000000000 + 2 powi (- 52)) * ?n"
    using e(4) by (rule mult_right_mono) simp
  also have "\<dots> = ?n * (of_nat d / 1000000000) + 2 powi (- 52) * ?n"
    by (simp add: algebra_simps)
  also have "2 powi (- 52) * ?n \<le> 2 powi (- 52) * 2 powi 32"
    using n32 by (intro mult_left_mono) auto
  also have "(2::rat) powi (- 52) * 2 powi 32 = 2 powi (- 20)"
    by (subst power_int_add[symmetric]) auto
  finally have e_err: "e * ?n \<le> ?n * (of_nat d / 1000000000) + 2 powi (- 20)" by simp
  have "2 powi (- 20) + 2 powi (32 - 53) + 2 powi (33 - 53) = 2 powi (- 19) + (2::rat) powi (- 21)"
    by (simp add: power_int_def power_divide)
  with m_err a_err e_err have bound: "a \<le> t + ?n * (of_nat d / 1000000000) + (2 powi (- 19) + 2 powi (- 21))"
    by linarith
  show ?thesis
  proof (cases "?n < a")
    case True
    show ?thesis by (rule that[of ?n]) (use True e(1) m(1) a(1) bound in \<open>auto simp: f64_min_def\<close>)
  next
    case False
    show ?thesis by (rule that[of a]) (use False e(1) m(1) a(1) bound in \<open>auto simp: f64_min_def\<close>)
  qed
qed

text \<open>A refill adds at most the rate times the elapsed time, up to rounding.\<close>

lemma accrued_add: "accrued n a + accrued n b = accrued n (a + b)"
  by (simp add: accrued_def field_simps)

lemma refill_level:
  assumes "bucket_ok n b"
  shows "tk_last b \<le> tk_last (refill now b) \<and>
    level (refill now b) \<le> level b + accrued n (tk_last (refill now b) - tk_last b)
       + (2 powi (- 19) + 2 powi (- 21))"
proof -
  obtain t where t: "tk_tokens b = Fin t" "0 \<le> t" "t \<le> of_nat n" "n < 2 ^ 32"
      "tk_rate b = Fin (of_nat n)" "tk_capacity b = Fin (of_nat n)"
    using assms by (auto simp: bucket_ok_def)
  let ?d = "saturating_duration_since now (tk_last b)"
  let ?eps = "2 powi (- 19) + 2 powi (- 21) :: rat"
  have eps: "0 \<le> ?eps" by (simp add: less_imp_le add_pos_pos)
  show ?thesis
  proof (cases "f64_lt (Fin 0) (as_secs_f64 ?d)")
    case False
    then show ?thesis using eps by (simp add: refill_def level_def Let_def accrued_def)
  next
    case True
    then have "?d \<noteq> 0" using as_secs_0 by (metis f64_lt_irrefl)
    then have d: "accrued n (now - tk_last b) = of_nat n * (of_nat ?d / 1000000000)"
      and later: "tk_last b \<le> now"
      by (simp_all add: saturating_duration_since_def accrued_def)
    have last: "tk_last (refill now b) = now" using True by (simp add: refill_def Let_def)
    show ?thesis
    proof (cases "?d < 1000000000")
      case sub: True
      from t(4,2,3) sub obtain s where "f64_min (f64_add (Fin t) (f64_mul (as_secs_f64 ?d)
          (Fin (of_nat n)))) (Fin (of_nat n)) = Fin s" "s \<le> t + of_nat n * (of_nat ?d / 1000000000) + ?eps"
        by (rule refill_level_subsecond)
      then show ?thesis using True t later unfolding last d
        by (simp add: refill_def level_def Let_def)
    next
      case False
      have "of_nat n * 1 \<le> of_nat n * (of_nat ?d / 1000000000 :: rat)"
        using False by (intro mult_left_mono) (simp_all add: le_divide_eq)
      moreover have "level (refill now b) \<le> of_nat n" "0 \<le> level b"
        using refill_ok[OF assms, of now] t by (auto simp: bucket_ok_def level_def)
      ultimately show ?thesis unfolding last d using eps later by linarith
    qed
  qed
qed

lemma try_acquire_level:
  assumes "bucket_ok n b" "bucket_try_acquire now b = (g, b')"
  shows "tk_last b' = tk_last (refill now b)"
    "level b' + of_bool g \<le> level (refill now b) + 2 powi (- 21)"
proof -
  obtain t where t: "tk_tokens (refill now b) = Fin t" "0 \<le> t" "t \<le> of_nat n" "n < 2 ^ 32"
    using refill_ok[OF assms(1)] by (auto simp: bucket_ok_def)
  show "tk_last b' = tk_last (refill now b)"
    using assms(2) by (auto simp: bucket_try_acquire_def Let_def split: if_splits)
  show "level b' + of_bool g \<le> level (refill now b) + 2 powi (- 21)"
  proof (cases "1 \<le> t")
    case False
    with assms(2) t show ?thesis
      by (auto simp: bucket_try_acquire_def Let_def level_def less_imp_le)
  next
    case True
    obtain s where s: "f64_sub (Fin t) (Fin 1) = Fin s"
      using f64_sub_one[OF True t(3,4)] by metis
    have "of_nat n \<le> (2::rat) powi 32"
      using t(4) by (simp add: power_int_def flip: of_nat_less_numeral_power_cancel_iff)
    with t(3) have "t - 1 \<le> 2 powi 32" by linarith
    then have "s \<le> t - 1 + 2 powi (32 - 53)"
      using s True by (intro rnd_error) (auto simp: f64_sub_def)
    with s t True assms(2) show ?thesis
      by (auto simp: bucket_try_acquire_def Let_def level_def)
  qed
qed

lemma slack_bound: "2 powi (- 19) + 2 powi (- 21) + 2 powi (- 21) \<le> slack"
    "2 powi (- 19) + 2 powi (- 21) \<le> slack"
  by (simp_all add: slack_def power_int_def power_divide)

text \<open>One call: the grant and the new level are paid for by the old level, the time and the slack.\<close>

lemma bucket_call_level:
  assumes "bucket_ok n b" "bucket_run [c] b = (g, b')"
  shows "bucket_ok n b'" "tk_last b \<le> tk_last b'"
    "level b' + of_nat g \<le> level b + accrued n (tk_last b' - tk_last b) + slack"
proof -
  have "bucket_ok n b' \<and> tk_last b \<le> tk_last b' \<and>
    level b' + of_nat g \<le> level b + accrued n (tk_last b' - tk_last b) + slack"
  proof (cases c)
    case (Peek t)
    with assms show ?thesis using refill_level[OF assms(1), of t] refill_ok[OF assms(1), of t] slack_bound
      by (auto simp: bucket_has_capacity_def Let_def)
  next
    case (Acquire t)
    then obtain h where h: "bucket_try_acquire t b = (h, b')" "g = of_bool h"
      using assms(2) by (auto split: prod.splits if_splits)
    have "(of_nat g :: rat) = of_bool h" using h(2) by simp
    then show ?thesis
      using refill_level[OF assms(1), of t] try_acquire_level[OF assms(1) h(1)] slack_bound
        try_acquire_ok[OF assms(1), of t] h(1) by auto
  qed
  then show "bucket_ok n b'" "tk_last b \<le> tk_last b'"
    "level b' + of_nat g \<le> level b + accrued n (tk_last b' - tk_last b) + slack" by blast+
qed

lemma bucket_run_Cons:
  "bucket_run (c # cs) b =
     (case bucket_run [c] b of (g, b') \<Rightarrow> case bucket_run cs b' of (k, b'') \<Rightarrow> (g + k, b''))"
  by (cases c) (auto split: prod.split)

lemma bucket_run_level:
  assumes "bucket_ok n b" "bucket_run cs b = (k, b')"
  shows "bucket_ok n b' \<and> tk_last b \<le> tk_last b' \<and>
    level b' + of_nat k \<le> level b + accrued n (tk_last b' - tk_last b) + of_nat (length cs) * slack"
  using assms
proof (induction cs arbitrary: b k)
  case Nil
  then show ?case by (simp add: accrued_def)
next
  case (Cons c cs)
  obtain g m where gm: "bucket_run [c] b = (g, m)" by force
  obtain j where j: "bucket_run cs m = (j, b')" "k = g + j"
    using Cons.prems(2) gm unfolding bucket_run_Cons[of c cs b] by (auto split: prod.splits)
  note one = bucket_call_level[OF Cons.prems(1) gm] and rest = Cons.IH[OF _ j(1)]
  have "level b' + of_nat k \<le> level b
      + (accrued n (tk_last m - tk_last b) + accrued n (tk_last b' - tk_last m))
      + (of_nat (length cs) * slack + slack)"
    using one(3) rest[OF one(1)] by (simp add: j(2))
  then show ?case using one(2) rest[OF one(1)] by (simp add: accrued_add algebra_simps)
qed

text \<open>C17. The rate cap holds: over any sequence of peeks and acquisitions on a bucket built for max_rps,
the number of granted tokens is at most the burst plus what accrued at max_rps per second since the
bucket was built, up to the floating-point rounding of each refill; and the bucket stays well
formed.\<close>

theorem rate_cap_enforced:
  assumes "max_rps \<noteq> 0" and "bucket_run cs (bucket_new start max_rps) = (granted, b)"
  shows "of_nat granted \<le> of_nat (unat max_rps) + accrued (unat max_rps) (tk_last b - start)
      + of_nat (length cs) * slack \<and> bucket_ok (unat max_rps) b"
proof -
  define m where "m = unat max_rps"
  have ok: "bucket_ok m (bucket_new start max_rps)" unfolding m_def by (rule bucket_new_ok[OF assms(1)])
  have lev: "level (bucket_new start max_rps) = of_nat m" "tk_last (bucket_new start max_rps) = start"
    using f64_of_u32[of max_rps] by (simp_all add: bucket_new_def level_def Let_def flip: m_def)
  have *: "bucket_ok m b \<and> level b + of_nat granted \<le> of_nat m + accrued m (tk_last b - start)
      + of_nat (length cs) * slack"
    using bucket_run_level[OF ok assms(2)] by (simp add: lev)
  moreover from * have "0 \<le> level b" by (auto simp: bucket_ok_def level_def)
  ultimately have "of_nat granted \<le> of_nat m + accrued m (tk_last b - start)
      + of_nat (length cs) * slack \<and> bucket_ok m b"
    by simp
  then show ?thesis by (simp only: m_def)
qed

theorem rate_cap_enforced_witness:
  "fst (bucket_run [Acquire 0, Acquire 0, Acquire 0] (bucket_new 0 2)) \<le> 2"
proof -
  let ?r = "bucket_run [Acquire 0, Acquire 0, Acquire 0] (bucket_new 0 2)"
  have nz: "(2 :: u32) \<noteq> 0" by simp
  have last: "tk_last (snd ?r) = 0"
    by (simp add: bucket_try_acquire_def refill_def saturating_duration_since_def bucket_new_def
        Let_def split: prod.split)
  have "of_nat (fst ?r) \<le> (2 :: rat) + 3 * slack"
    using rate_cap_enforced[OF nz, of "[Acquire 0, Acquire 0, Acquire 0]" 0 "fst ?r" "snd ?r"] last
    by (simp add: accrued_def)
  then have "of_nat (fst ?r) < (3 :: rat)" by (simp add: slack_def power_int_def power_divide)
  then show ?thesis by simp
qed

end
