(* ===== verification/Health.thy ===== *)
theory Health
  imports Config
begin

text \<open>
  Per-provider health of \<open>src/src/health.rs\<close>: the circuit breaker, the sliding window of outcomes, the
  score, and the snapshot routing reads (\<open>Inner\<close>, \<open>ProviderHealth\<close>, \<open>apply_circuit_transitions\<close>). The
  \<open>RwLock\<close> around \<open>Inner\<close> makes each method one atomic step; a step takes the clock readings it makes.
  The \<open>u32\<close> failure streak wraps as in a release build.
\<close>

section \<open>State\<close>

datatype circuit_state = Closed | HalfOpen | Open

datatype sample = Success | Failure | Throttle

record inner =
  in_slots :: commitment_slots
  in_rounds :: commitment_rounds
  in_latency_ema_ms :: f64
  in_consecutive_failures :: u32
  in_circuit :: circuit_state
  in_circuit_opened_at :: "instant option"
  in_window :: "(instant \<times> sample) list"

definition inner_new :: inner where
  "inner_new =
     \<lparr>in_slots = cs_default, in_rounds = cr_default, in_latency_ema_ms = Fin 0,
      in_consecutive_failures = 0, in_circuit = Closed, in_circuit_opened_at = None,
      in_window = []\<rparr>"

section \<open>The window\<close>

text \<open>
  The cutoff may lie before the origin of the clock: on Linux an \<open>Instant\<close> counts signed seconds, and the subtraction
  would panic only for a window longer than any integer that TOML can express. (Elsewhere an \<open>Instant\<close> is unsigned, and
  a window longer than the uptime of the machine panics; that is not modelled.)
\<close>

definition prune_window :: "instant \<Rightarrow> u64 \<Rightarrow> inner \<Rightarrow> inner" where
  "prune_window now window_secs g =
     (let cutoff = now - int (duration_from_secs window_secs) in
      g\<lparr>in_window := dropWhile (\<lambda>(t, _). t < cutoff) (in_window g)\<rparr>)"

definition error_rate :: "inner \<Rightarrow> f64" where
  "error_rate g =
     (if in_window g = [] then Fin 0
      else f64_div (f64_of_nat (length (filter (\<lambda>(_, s). s \<noteq> Success) (in_window g))))
             (f64_of_nat (length (in_window g))))"

definition hard_error_rate :: "inner \<Rightarrow> f64" where
  "hard_error_rate g =
     (if in_window g = [] then Fin 0
      else f64_div (f64_of_nat (length (filter (\<lambda>(_, s). s = Failure) (in_window g))))
             (f64_of_nat (length (in_window g))))"

definition ema_update :: "f64 \<Rightarrow> f64 \<Rightarrow> f64" where
  "ema_update ema latency_ms =
     (if f64_eq ema (Fin 0) then latency_ms
      else f64_add (f64_mul (rnd (85 / 100)) ema) (f64_mul (rnd (15 / 100)) latency_ms))"

definition push_sample ::
  "instant \<Rightarrow> instant \<Rightarrow> sample \<Rightarrow> f64 \<Rightarrow> bool \<Rightarrow> u64 \<Rightarrow> inner \<Rightarrow> inner" where
  "push_sample t_prune t_push sm latency_ms update_latency window_secs g =
     (let g = prune_window t_prune window_secs g;
          g = g\<lparr>in_window := in_window g @ [(t_push, sm)]\<rparr>
      in case sm of
           Success \<Rightarrow>
             (let g = (if update_latency
                       then g\<lparr>in_latency_ema_ms := ema_update (in_latency_ema_ms g) latency_ms\<rparr>
                       else g)
              in g\<lparr>in_consecutive_failures := 0\<rparr>)
         | Failure \<Rightarrow> g\<lparr>in_consecutive_failures := in_consecutive_failures g + 1\<rparr>
         | Throttle \<Rightarrow> g)"

definition push_result ::
  "instant \<Rightarrow> instant \<Rightarrow> bool \<Rightarrow> f64 \<Rightarrow> bool \<Rightarrow> u64 \<Rightarrow> inner \<Rightarrow> inner" where
  "push_result t_prune t_push success latency_ms update_latency window_secs g =
     push_sample t_prune t_push (if success then Success else Failure) latency_ms update_latency
       window_secs g"

section \<open>Drift and score\<close>

definition drift :: "inner \<Rightarrow> commitment \<Rightarrow> tip_source \<Rightarrow> u64 option" where
  "drift g c tips =
     map_option (\<lambda>slot. u64_saturating_sub (tips c (cr_get (in_rounds g) c)) slot)
       (cs_get (in_slots g) c)"

text \<open>\<open>Iterator::max\<close>: None on an empty iterator.\<close>

fun iter_max :: "u64 list \<Rightarrow> u64 option" where
  "iter_max [] = None"
| "iter_max (x # xs) = Some (fold max xs x)"

definition worst_drift :: "inner \<Rightarrow> tip_source \<Rightarrow> u64 option" where
  "worst_drift g tips = iter_max (List.map_filter (\<lambda>c. drift g c tips) commitment_ALL)"

definition latency_score :: "inner \<Rightarrow> f64" where
  "latency_score g =
     (if f64_eq (in_latency_ema_ms g) (Fin 0) then rnd (1 / 2)
      else f64_div (Fin 200) (f64_add (Fin 200) (in_latency_ema_ms g)))"

definition slot_score :: "inner \<Rightarrow> tip_source \<Rightarrow> health_config \<Rightarrow> f64" where
  "slot_score g tips cfg =
     (case worst_drift g tips of
        Some d \<Rightarrow>
          (let thr = f64_of_nat (unat (hc_slot_drift_threshold cfg)) in
           f64_div thr (f64_add thr (f64_of_nat (unat d))))
      | None \<Rightarrow> rnd (1 / 2))"

definition total_weight :: "health_config \<Rightarrow> f64" where
  "total_weight cfg =
     f64_add (f64_add (f64_add (hc_w_latency cfg) (hc_w_error cfg)) (hc_w_slot cfg))
       (hc_w_success cfg)"

definition score :: "inner \<Rightarrow> tip_source \<Rightarrow> health_config \<Rightarrow> f64" where
  "score g tips cfg =
     (if in_circuit g = Open then Fin 0
      else
        let error_score = f64_sub (Fin 1) (error_rate g);
            success_score = f64_sub (Fin 1) (error_rate g);
            total_w = total_weight cfg
        in if f64_le total_w (Fin 0) then rnd (1 / 2)
           else f64_div
             (f64_add (f64_add (f64_add
                (f64_mul (hc_w_latency cfg) (latency_score g))
                (f64_mul (hc_w_error cfg) error_score))
                (f64_mul (hc_w_slot cfg) (slot_score g tips cfg)))
                (f64_mul (hc_w_success cfg) success_score))
             total_w)"

section \<open>Snapshots\<close>

record commitment_health =
  ch_slot :: "u64 option"
  ch_drift :: u64
  ch_is_drifting :: bool

definition ch_default :: commitment_health where
  "ch_default = \<lparr>ch_slot = None, ch_drift = 0, ch_is_drifting = False\<rparr>"

record health_snapshot =
  hs_name :: string
  hs_score :: f64
  hs_slot_height :: "u64 option"
  hs_slot_drift :: u64
  hs_is_drifting :: bool
  hs_latency_ms :: f64
  hs_error_rate :: f64
  hs_circuit :: circuit_state
  hs_processed :: commitment_health
  hs_confirmed :: commitment_health
  hs_finalized :: commitment_health
  hs_rate_limited :: bool

definition is_available :: "health_snapshot \<Rightarrow> bool" where
  "is_available s \<longleftrightarrow> hs_circuit s \<noteq> Open \<and> \<not> hs_rate_limited s"

definition commitment_of ::
  "inner \<Rightarrow> tip_source \<Rightarrow> health_config \<Rightarrow> commitment \<Rightarrow> commitment_health" where
  "commitment_of g tips cfg c =
     (case (cs_get (in_slots g) c, drift g c tips) of
        (Some h, Some d) \<Rightarrow>
          \<lparr>ch_slot = Some h, ch_drift = d, ch_is_drifting = d > hc_slot_drift_threshold cfg\<rparr>
      | _ \<Rightarrow> ch_default)"

definition snapshot :: "string \<Rightarrow> inner \<Rightarrow> tip_source \<Rightarrow> health_config \<Rightarrow> health_snapshot" where
  "snapshot name g tips cfg =
     (let processed = commitment_of g tips cfg Processed;
          confirmed = commitment_of g tips cfg Confirmed;
          finalized = commitment_of g tips cfg Finalized
      in \<lparr>hs_name = name,
          hs_score = score g tips cfg,
          hs_slot_height = ch_slot processed,
          hs_slot_drift = max (max (ch_drift processed) (ch_drift confirmed)) (ch_drift finalized),
          hs_is_drifting = ch_is_drifting processed \<or> ch_is_drifting confirmed
            \<or> ch_is_drifting finalized,
          hs_latency_ms = in_latency_ema_ms g,
          hs_error_rate = error_rate g,
          hs_circuit = in_circuit g,
          hs_processed = processed,
          hs_confirmed = confirmed,
          hs_finalized = finalized,
          hs_rate_limited = False\<rparr>)"

section \<open>Recording outcomes\<close>

definition apply_circuit_transitions :: "instant \<Rightarrow> health_config \<Rightarrow> inner \<Rightarrow> inner" where
  "apply_circuit_transitions now cfg g =
     (case in_circuit g of
        Closed \<Rightarrow>
          if in_consecutive_failures g \<ge> hc_circuit_open_failures cfg
             \<or> f64_lt (hc_circuit_error_threshold cfg) (hard_error_rate g)
          then g\<lparr>in_circuit := Open, in_circuit_opened_at := Some now\<rparr> else g
      | Open \<Rightarrow>
          (case in_circuit_opened_at g of
             Some opened \<Rightarrow>
               if saturating_duration_since now opened
                    \<ge> duration_from_secs (hc_circuit_cooldown_secs cfg)
               then g\<lparr>in_circuit := HalfOpen, in_circuit_opened_at := None\<rparr> else g
           | None \<Rightarrow> g)
      | HalfOpen \<Rightarrow>
          (if in_window g = [] then g
           else case snd (last (in_window g)) of
               Success \<Rightarrow> g\<lparr>in_circuit := Closed, in_circuit_opened_at := None\<rparr>
             | Failure \<Rightarrow> g\<lparr>in_circuit := Open, in_circuit_opened_at := Some now\<rparr>
             | Throttle \<Rightarrow> g))"

text \<open>The clock readings of one recorded outcome: pruning, pushing, and the circuit transition.\<close>

type_synonym readings = "instant \<times> instant \<times> instant"

definition ph_record :: "readings \<Rightarrow> bool \<Rightarrow> f64 \<Rightarrow> bool \<Rightarrow> health_config \<Rightarrow> inner \<Rightarrow> inner" where
  "ph_record ts success latency_ms is_probe cfg g =
     (case ts of (t_prune, t_push, t_circuit) \<Rightarrow>
        apply_circuit_transitions t_circuit cfg
          (push_result t_prune t_push success latency_ms is_probe (hc_window_secs cfg) g))"

definition ph_record_throttled :: "readings \<Rightarrow> f64 \<Rightarrow> health_config \<Rightarrow> inner \<Rightarrow> inner" where
  "ph_record_throttled ts latency_ms cfg g =
     (case ts of (t_prune, t_push, t_circuit) \<Rightarrow>
        apply_circuit_transitions t_circuit cfg
          (push_sample t_prune t_push Throttle latency_ms False (hc_window_secs cfg) g))"

definition update_slots_in_round :: "commitment_slots \<Rightarrow> u64 option \<Rightarrow> inner \<Rightarrow> inner" where
  "update_slots_in_round slots rd g =
     g\<lparr>in_rounds := cr_stamp (in_rounds g) slots rd, in_slots := cs_merge (in_slots g) slots\<rparr>"

section \<open>The health state machine\<close>

text \<open>The outcomes that reach a provider's health, in the order its lock admits them.\<close>

datatype outcome_event =
    Recorded readings bool f64 bool
  | Throttled readings f64
  | Slots commitment_slots "u64 option"

fun health_step :: "health_config \<Rightarrow> outcome_event \<Rightarrow> inner \<Rightarrow> inner" where
  "health_step cfg (Recorded ts ok ms probe) g = ph_record ts ok ms probe cfg g"
| "health_step cfg (Throttled ts ms) g = ph_record_throttled ts ms cfg g"
| "health_step cfg (Slots slots rd) g = update_slots_in_round slots rd g"

definition health_run :: "health_config \<Rightarrow> outcome_event list \<Rightarrow> inner \<Rightarrow> inner" where
  "health_run cfg es g = fold (health_step cfg) es g"

inductive circuit_edge :: "circuit_state \<Rightarrow> circuit_state \<Rightarrow> bool" where
  edge_stay: "circuit_edge c c"
| edge_trip: "circuit_edge Closed Open"
| edge_cool: "circuit_edge Open HalfOpen"
| edge_recover: "circuit_edge HalfOpen Closed"
| edge_reopen: "circuit_edge HalfOpen Open"

inductive_simps circuit_edge_closed: "circuit_edge Closed c"

inductive_simps circuit_edge_open: "circuit_edge Open c"

inductive_simps circuit_edge_half: "circuit_edge HalfOpen c"

text \<open>The opening time is kept exactly while the circuit is open.\<close>

definition inner_ok :: "inner \<Rightarrow> bool" where
  "inner_ok g \<longleftrightarrow> (in_circuit g = Open \<longleftrightarrow> in_circuit_opened_at g \<noteq> None) \<and>
     f64_nonneg (in_latency_ema_ms g)"

fun event_ok :: "outcome_event \<Rightarrow> bool" where
  "event_ok (Recorded ts ok ms probe) = f64_nonneg ms"
| "event_ok (Throttled ts ms) = f64_nonneg ms"
| "event_ok (Slots slots rd) = True"

text \<open>The window holds fewer than \<open>2 ^ 53\<close> samples: the \<open>len() as f64\<close> is then exact.\<close>

definition window_small :: "inner \<Rightarrow> bool" where
  "window_small g \<longleftrightarrow> length (in_window g) \<le> 2 ^ 53"

text \<open>No weight is negative. Validation checks neither this nor that the sum is finite.\<close>

definition weights_ok :: "health_config \<Rightarrow> bool" where
  "weights_ok cfg \<longleftrightarrow>
     (\<forall>w \<in> {hc_w_latency cfg, hc_w_error cfg, hc_w_slot cfg, hc_w_success cfg}. is_f64 w \<and> f64_nonneg w)"

fun event_reading :: "outcome_event \<Rightarrow> instant option" where
  "event_reading (Recorded (a, b, c) ok ms probe) = Some c"
| "event_reading (Throttled (a, b, c) ms) = Some c"
| "event_reading (Slots slots rd) = None"

fun event_sample :: "outcome_event \<Rightarrow> sample option" where
  "event_sample (Recorded ts ok ms probe) = Some (if ok then Success else Failure)"
| "event_sample (Throttled ts ms) = Some Throttle"
| "event_sample (Slots slots rd) = None"

definition no_hard_failure :: "inner \<Rightarrow> bool" where
  "no_hard_failure g \<longleftrightarrow> in_circuit g = Closed \<and> in_consecutive_failures g = 0 \<and>
     (\<forall>(t, s) \<in> set (in_window g). s \<noteq> Failure)"

fun event_times :: "outcome_event \<Rightarrow> readings option" where
  "event_times (Recorded ts ok ms probe) = Some ts"
| "event_times (Throttled ts ms) = Some ts"
| "event_times (Slots slots rd) = None"

text \<open>The readings of a run never go back.\<close>

fun clocked :: "instant \<Rightarrow> outcome_event list \<Rightarrow> bool" where
  "clocked now [] = True"
| "clocked now (e # es) =
     (case event_times e of
        None \<Rightarrow> clocked now es
      | Some (a, b, c) \<Rightarrow> now \<le> a \<and> a \<le> b \<and> b \<le> c \<and> clocked c es)"

text \<open>Everything that was recorded, and the last reading that pruned.\<close>

fun history :: "outcome_event list \<Rightarrow> (instant \<times> sample) list" where
  "history [] = []"
| "history (e # es) =
     (case (event_times e, event_sample e) of
        (Some (a, b, c), Some s) \<Rightarrow> (b, s) # history es
      | _ \<Rightarrow> history es)"

fun last_prune :: "outcome_event list \<Rightarrow> instant option" where
  "last_prune [] = None"
| "last_prune (e # es) =
     (case last_prune es of
        Some t \<Rightarrow> Some t
      | None \<Rightarrow> map_option fst (event_times e))"

definition in_range :: "u64 \<Rightarrow> instant option \<Rightarrow> (instant \<times> sample) \<Rightarrow> bool" where
  "in_range w t x =
     (case t of None \<Rightarrow> True | Some now \<Rightarrow> now - int (duration_from_secs w) \<le> fst x)"

text \<open>An outcome whose three readings are all \<open>t\<close> seconds.\<close>

definition secs :: "int \<Rightarrow> readings" where
  "secs t = (t * 1000000000, t * 1000000000, t * 1000000000)"

definition mixed_outcomes :: "outcome_event list" where
  "mixed_outcomes =
     replicate 3 (Recorded (secs 0) True (Fin 5) False) @
     replicate 3 (Recorded (secs 10) False (Fin 5) False)"

definition mixed_state :: "nat \<Rightarrow> nat \<Rightarrow> inner" where
  "mixed_state n m = inner_new\<lparr>in_consecutive_failures := of_nat m, in_window :=
     replicate n (0, Success) @ replicate m (10000000000, Failure)\<rparr>"

definition open_inner :: inner where
  "open_inner = inner_new\<lparr>in_circuit := Open, in_circuit_opened_at := Some 0\<rparr>"

definition unit_weights :: health_config where
  "unit_weights = default_health
     \<lparr>hc_w_latency := Fin 1, hc_w_error := Fin 1, hc_w_slot := Fin 1, hc_w_success := Fin 1\<rparr>"

section \<open>Frame lemmas\<close>

lemma push_sample_frame [health_simps]:
  "in_circuit (push_sample a b s ms u w g) = in_circuit g"
  "in_circuit_opened_at (push_sample a b s ms u w g) = in_circuit_opened_at g"
  "in_slots (push_sample a b s ms u w g) = in_slots g"
  "in_rounds (push_sample a b s ms u w g) = in_rounds g"
  by (cases s; simp add: push_sample_def prune_window_def Let_def)+

lemma push_sample_window [health_simps]:
  "in_window (push_sample a b s ms u w g) =
     dropWhile (\<lambda>(t, _). t < a - int (duration_from_secs w)) (in_window g) @ [(b, s)]"
  by (cases s) (simp_all add: push_sample_def prune_window_def Let_def)

lemma push_sample_streak [health_simps]:
  "in_consecutive_failures (push_sample a b s ms u w g) =
     (case s of Success \<Rightarrow> 0 | Failure \<Rightarrow> in_consecutive_failures g + 1
      | Throttle \<Rightarrow> in_consecutive_failures g)"
  by (cases s) (simp_all add: push_sample_def prune_window_def Let_def)

lemma push_sample_ema [health_simps]:
  "in_latency_ema_ms (push_sample a b s ms u w g) =
     (if s = Success \<and> u then ema_update (in_latency_ema_ms g) ms else in_latency_ema_ms g)"
  by (cases s) (simp_all add: push_sample_def prune_window_def Let_def)

lemma circuit_transitions_frame [health_simps]:
  "in_window (apply_circuit_transitions now cfg g) = in_window g"
  "in_slots (apply_circuit_transitions now cfg g) = in_slots g"
  "in_rounds (apply_circuit_transitions now cfg g) = in_rounds g"
  "in_latency_ema_ms (apply_circuit_transitions now cfg g) = in_latency_ema_ms g"
  "in_consecutive_failures (apply_circuit_transitions now cfg g) = in_consecutive_failures g"
  by (simp_all add: apply_circuit_transitions_def split: circuit_state.split option.split sample.split)

lemma update_slots_frame [health_simps]:
  "in_window (update_slots_in_round s r g) = in_window g"
  "in_circuit (update_slots_in_round s r g) = in_circuit g"
  "in_circuit_opened_at (update_slots_in_round s r g) = in_circuit_opened_at g"
  "in_latency_ema_ms (update_slots_in_round s r g) = in_latency_ema_ms g"
  "in_consecutive_failures (update_slots_in_round s r g) = in_consecutive_failures g"
  by (simp_all add: update_slots_in_round_def)

lemmas record_defs = ph_record_def ph_record_throttled_def push_result_def

section \<open>The circuit breaker\<close>

lemma circuit_transitions_edge:
  "circuit_edge (in_circuit g) (in_circuit (apply_circuit_transitions now cfg g))"
  by (auto simp: apply_circuit_transitions_def circuit_edge_closed circuit_edge_open circuit_edge_half
      split: circuit_state.split option.split sample.split)

lemma circuit_transitions_ok:
  "(in_circuit g = Open \<longleftrightarrow> in_circuit_opened_at g \<noteq> None) \<Longrightarrow>
   (in_circuit (apply_circuit_transitions now cfg g) = Open \<longleftrightarrow>
     in_circuit_opened_at (apply_circuit_transitions now cfg g) \<noteq> None)"
  by (cases "in_circuit g")
    (simp_all add: apply_circuit_transitions_def split: option.split sample.split)

lemma ema_update_nonneg:
  assumes "f64_nonneg e" "f64_nonneg l"
  shows "f64_nonneg (ema_update e l)"
proof -
  obtain a where "rnd (85 / 100) = Fin a" "0 < a" 
    by (rule rnd_positive[of "- 1" "85 / 100"]) (auto simp: power_int_def)
  moreover obtain b where "rnd (15 / 100) = Fin b" "0 < b"
    by (rule rnd_positive[of "- 3" "15 / 100"]) (auto simp: power_int_def power_divide)
  ultimately show ?thesis using assms by (simp add: ema_update_def f64_add_nonneg f64_mul_nonneg)
qed

lemma health_step_edge: "circuit_edge (in_circuit g) (in_circuit (health_step cfg e g))"
proof (cases e)
  case (Recorded ts ok ms probe)
  obtain a b c where "ts = (a, b, c)" by (cases ts)
  with Recorded show ?thesis
    using circuit_transitions_edge[of "push_result a b ok ms probe (hc_window_secs cfg) g" c cfg]
    by (simp add: record_defs push_sample_frame)
next
  case (Throttled ts ms)
  obtain a b c where "ts = (a, b, c)" by (cases ts)
  with Throttled show ?thesis
    using circuit_transitions_edge[of "push_sample a b Throttle ms False (hc_window_secs cfg) g" c cfg]
    by (simp add: record_defs push_sample_frame)
qed (simp add: update_slots_frame edge_stay)

lemma health_step_inner_ok:
  assumes "inner_ok g" "event_ok e"
  shows "inner_ok (health_step cfg e g)"
proof (cases e)
  case (Recorded ts ok ms probe)
  obtain a b c where "ts = (a, b, c)" by (cases ts)
  with Recorded assms show ?thesis
    using circuit_transitions_ok[of "push_result a b ok ms probe (hc_window_secs cfg) g" c cfg]
    by (auto simp: inner_ok_def record_defs push_sample_frame push_sample_ema
        circuit_transitions_frame ema_update_nonneg)
next
  case (Throttled ts ms)
  obtain a b c where "ts = (a, b, c)" by (cases ts)
  with Throttled assms show ?thesis
    using circuit_transitions_ok[of "push_sample a b Throttle ms False (hc_window_secs cfg) g" c cfg]
    by (auto simp: inner_ok_def record_defs push_sample_frame push_sample_ema circuit_transitions_frame)
qed (use assms in \<open>simp add: inner_ok_def update_slots_frame\<close>)

lemma health_run_inner_ok:
  "inner_ok g \<Longrightarrow> list_all event_ok es \<Longrightarrow> inner_ok (health_run cfg es g)"
  unfolding health_run_def by (induction es arbitrary: g) (auto simp: health_step_inner_ok)

lemma inner_new_ok: "inner_ok inner_new"
  by (simp add: inner_ok_def inner_new_def)

section \<open>Rates\<close>

lemma error_rate_unit: "window_small g \<Longrightarrow> f64_unit (error_rate g)"
  by (simp add: error_rate_def window_small_def f64_ratio_unit)

lemma hard_error_rate_unit: "window_small g \<Longrightarrow> f64_unit (hard_error_rate g)"
  by (simp add: hard_error_rate_def window_small_def f64_ratio_unit)

lemma latency_score_unit:
  assumes "f64_nonneg (in_latency_ema_ms g)"
  shows "f64_unit (latency_score g)"
proof -
  have "is_f64 (Fin 200)" using rnd_int[of 200] by simp
  from f64_add_ge_left[OF assms this]
  have "f64_add (Fin 200) (in_latency_ema_ms g) = PInf \<or>
      (\<exists>c. f64_add (Fin 200) (in_latency_ema_ms g) = Fin c \<and> 200 \<le> c)" by simp
  then show ?thesis by (auto simp: latency_score_def rnd_half_unit intro!: binary64.r_unit)
qed

lemma slot_score_unit:
  assumes "hc_slot_drift_threshold cfg \<noteq> 0"
  shows "f64_unit (slot_score g tips cfg)"
proof (cases "worst_drift g tips")
  case None
  then show ?thesis by (simp add: slot_score_def rnd_half_unit)
next
  case (Some d)
  let ?thr = "f64_of_nat (unat (hc_slot_drift_threshold cfg))"
  obtain t where t: "?thr = Fin t" "0 < t" "is_f64 (Fin t)"
    using f64_of_nat_pos[of "unat (hc_slot_drift_threshold cfg)"] assms
      f64_of_u64_finite[of "hc_slot_drift_threshold cfg"] by (auto simp: unat_gt_0)
  have "f64_add ?thr (f64_of_nat (unat d)) = PInf \<or>
      (\<exists>c. f64_add ?thr (f64_of_nat (unat d)) = Fin c \<and> t \<le> c)"
    unfolding t(1) using t by (intro f64_add_ge_left) auto
  then have "f64_unit (f64_div ?thr (f64_add ?thr (f64_of_nat (unat d))))"
  proof (elim disjE exE conjE)
    fix c assume "f64_add ?thr (f64_of_nat (unat d)) = Fin c" "t \<le> c"
    with t f64_div_unit[of t c] show ?thesis by simp
  qed (simp add: t)
  with Some show ?thesis by (simp add: slot_score_def Let_def)
qed

section \<open>Score bounds\<close>

lemma score_sum_unit:
  assumes w: "is_f64 w1" "is_f64 w2" "is_f64 w3" "is_f64 w4"
    and nn: "f64_nonneg w1" "f64_nonneg w2" "f64_nonneg w3" "f64_nonneg w4"
    and x: "f64_unit x1" "f64_unit x2" "f64_unit x3" "f64_unit x4"
    and t: "f64_add (f64_add (f64_add w1 w2) w3) w4 = Fin t" "0 < t"
  shows "f64_unit (f64_div (f64_add (f64_add (f64_add (f64_mul w1 x1) (f64_mul w2 x2))
    (f64_mul w3 x3)) (f64_mul w4 x4)) (Fin t))"
proof -
  have fin: "\<And>a b c. f64_nonneg a \<Longrightarrow> f64_nonneg b \<Longrightarrow> f64_add a b = Fin c \<Longrightarrow>
      (\<exists>p q. a = Fin p \<and> b = Fin q)"
  proof -
    fix a b c assume "f64_nonneg a" "f64_nonneg b" "f64_add a b = Fin c"
    then show "\<exists>p q. a = Fin p \<and> b = Fin q" by (cases a; cases b) auto
  qed
  obtain s3 v4 where s3: "f64_add (f64_add w1 w2) w3 = Fin s3" "w4 = Fin v4"
    using fin[OF _ nn(4) t(1)] nn by (auto simp: f64_add_nonneg)
  obtain s2 v3 where s2: "f64_add w1 w2 = Fin s2" "w3 = Fin v3"
    using fin[OF _ nn(3) s3(1)] nn by (auto simp: f64_add_nonneg)
  obtain v1 v2 where v: "w1 = Fin v1" "w2 = Fin v2" using fin[OF nn(1,2) s2(1)] by auto
  note v4 = s3(2) and v3 = s2(2)
  have v_nn: "0 \<le> v1" "0 \<le> v2" "0 \<le> v3" "0 \<le> v4" using nn v v3 v4 by simp_all
  obtain a1 where a1: "f64_mul w1 x1 = Fin a1" "0 \<le> a1" "a1 \<le> v1"
    using w(1) v_nn(1) x(1) unfolding v(1) by (rule f64_mul_weight)
  obtain a2 where a2: "f64_mul w2 x2 = Fin a2" "0 \<le> a2" "a2 \<le> v2"
    using w(2) v_nn(2) x(2) unfolding v(2) by (rule f64_mul_weight)
  obtain a3 where a3: "f64_mul w3 x3 = Fin a3" "0 \<le> a3" "a3 \<le> v3"
    using w(3) v_nn(3) x(3) unfolding v3 by (rule f64_mul_weight)
  obtain a4 where a4: "f64_mul w4 x4 = Fin a4" "0 \<le> a4" "a4 \<le> v4"
    using w(4) v_nn(4) x(4) unfolding v4 by (rule f64_mul_weight)
  obtain b2 where b2: "f64_add (Fin a1) (Fin a2) = Fin b2" "0 \<le> b2" "b2 \<le> s2"
    using a1(2,3) a2(2,3) s2(1)[unfolded v] by (rule f64_add_between)
  obtain b3 where b3: "f64_add (Fin b2) (Fin a3) = Fin b3" "0 \<le> b3" "b3 \<le> s3"
    using b2(2,3) a3(2,3) s3(1)[unfolded s2(1) v3] by (rule f64_add_between)
  obtain b4 where b4: "f64_add (Fin b3) (Fin a4) = Fin b4" "0 \<le> b4" "b4 \<le> t"
    using b3(2,3) a4(2,3) t(1)[unfolded s3(1) v4] by (rule f64_add_between)
  have "f64_add (f64_add (f64_add (f64_mul w1 x1) (f64_mul w2 x2)) (f64_mul w3 x3)) (f64_mul w4 x4) = Fin b4"
    by (simp only: a1(1) a2(1) a3(1) a4(1) b2(1) b3(1) b4(1))
  then show ?thesis using f64_div_unit[OF b4(2,3) t(2)] by (simp only:)
qed

lemma score_in_unit:
  assumes "weights_ok cfg" "total_weight cfg \<noteq> PInf" "hc_slot_drift_threshold cfg \<noteq> 0" "inner_ok g" "window_small g"
  shows "f64_unit (score g tips cfg)"
proof (cases "in_circuit g = Open \<or> f64_le (total_weight cfg) (Fin 0)")
  case True
  then show ?thesis by (auto simp: score_def rnd_half_unit Let_def)
next
  case False
  have w: "is_f64 (hc_w_latency cfg)" "is_f64 (hc_w_error cfg)" "is_f64 (hc_w_slot cfg)"
      "is_f64 (hc_w_success cfg)" and nn: "f64_nonneg (hc_w_latency cfg)" "f64_nonneg (hc_w_error cfg)"
      "f64_nonneg (hc_w_slot cfg)" "f64_nonneg (hc_w_success cfg)"
    using assms(1) by (auto simp: weights_ok_def)
  have "f64_nonneg (total_weight cfg)" using nn by (simp add: total_weight_def f64_add_nonneg)
  then obtain t where t: "total_weight cfg = Fin t" "0 < t"
    using False assms(2) by (cases "total_weight cfg") auto
  have err: "f64_unit (f64_sub (Fin 1) (error_rate g))"
    using assms(5) by (intro f64_one_minus_unit error_rate_unit)
  have lat: "f64_unit (latency_score g)"
    using assms(4) by (intro latency_score_unit) (simp add: inner_ok_def)
  from score_sum_unit[OF w nn lat err slot_score_unit[OF assms(3)] err t(1)[unfolded total_weight_def] t(2)]
  show ?thesis using False t by (simp add: score_def Let_def)
qed

text \<open>C20. With non-negative weights whose sum is finite, a non-zero drift threshold, a latency average
that is neither negative nor NaN, a circuit record as the code keeps it and a window of fewer than
2^53 samples, every score is a number between 0 and 1, in IEEE double arithmetic.\<close>

theorem score_unit:
  assumes "weights_ok cfg" "total_weight cfg \<noteq> PInf" "hc_slot_drift_threshold cfg \<noteq> 0" "inner_ok g" "window_small g"
  shows "f64_unit (score g tips cfg)"
  using assms by (rule score_in_unit)

lemma transitions_open:
  assumes "in_circuit g = Open" "in_circuit_opened_at g = Some opened"
  shows "apply_circuit_transitions t cfg g =
     (if duration_from_secs (hc_circuit_cooldown_secs cfg) \<le> saturating_duration_since t opened
      then g\<lparr>in_circuit := HalfOpen, in_circuit_opened_at := None\<rparr> else g)"
  using assms by (simp add: apply_circuit_transitions_def)

lemma health_step_sample:
  assumes "event_sample e = Some s"
  obtains a b c ms u where "event_reading e = Some c" "health_step cfg e g =
      apply_circuit_transitions c cfg (push_sample a b s ms u (hc_window_secs cfg) g)"
  using assms by (cases e rule: event_reading.cases) (auto simp: record_defs)

lemma health_step_no_sample:
  assumes "event_sample e = None"
  shows "event_reading e = None" "in_circuit (health_step cfg e g) = in_circuit g"
    "in_circuit_opened_at (health_step cfg e g) = in_circuit_opened_at g"
  using assms by (cases e; simp add: update_slots_frame)+

lemma health_step_open:
  assumes "in_circuit g = Open" "in_circuit_opened_at g = Some opened"
  shows "in_circuit (health_step cfg e g) =
      (case event_reading e of
         Some t \<Rightarrow> if duration_from_secs (hc_circuit_cooldown_secs cfg) \<le> saturating_duration_since t opened
           then HalfOpen else Open
       | None \<Rightarrow> Open) \<and>
    (in_circuit (health_step cfg e g) = Open \<longrightarrow> in_circuit_opened_at (health_step cfg e g) = Some opened)"
proof (cases "event_sample e")
  case None
  then show ?thesis using assms by (simp add: health_step_no_sample)
next
  case (Some s)
  then obtain a b c ms u where "event_reading e = Some c" "health_step cfg e g =
      apply_circuit_transitions c cfg (push_sample a b s ms u (hc_window_secs cfg) g)"
    by (rule health_step_sample)
  then show ?thesis using assms
    by (simp add: transitions_open[where opened = opened] push_sample_frame)
qed

text \<open>C21. An open circuit stays open through any sequence of outcomes as long as none of them is
evaluated after the cooldown has passed.\<close>

theorem open_until_cooldown:
  assumes "in_circuit g = Open" "in_circuit_opened_at g = Some opened"
    and "\<forall>e \<in> set es. \<forall>t. event_reading e = Some t \<longrightarrow>
      saturating_duration_since t opened < duration_from_secs (hc_circuit_cooldown_secs cfg)"
  shows "in_circuit (health_run cfg es g) = Open"
  using assms
proof (induction es arbitrary: g)
  case Nil
  then show ?case by (simp add: health_run_def)
next
  case (Cons e es)
  have "in_circuit (health_step cfg e g) = Open"
    using health_step_open[OF Cons.prems(1,2), of cfg e] Cons.prems(3)
    by (cases "event_reading e") auto
  then show ?case
    using Cons.IH[of "health_step cfg e g"] health_step_open[OF Cons.prems(1,2), of cfg e] Cons.prems(3)
    by (simp add: health_run_def)
qed

lemma health_step_half_open:
  assumes "in_circuit g = HalfOpen"
  shows "in_circuit (health_step cfg e g) =
    (case event_sample e of Some Success \<Rightarrow> Closed | Some Failure \<Rightarrow> Open | _ \<Rightarrow> HalfOpen)"
  using assms
  by (cases e rule: event_reading.cases)
    (simp_all add: record_defs apply_circuit_transitions_def push_sample_frame push_sample_window
      update_slots_frame)

theorem recovers_after_cooldown:
  assumes "in_circuit g = Open" "in_circuit_opened_at g = Some opened"
    and "event_reading e = Some t" "duration_from_secs (hc_circuit_cooldown_secs cfg) \<le> saturating_duration_since t opened"
  shows "in_circuit (health_run cfg [e, Recorded ts True ms probe] g) = Closed"
proof -
  have "in_circuit (health_step cfg e g) = HalfOpen"
    using health_step_open[OF assms(1,2), of cfg e] assms(3,4) by simp
  then show ?thesis by (simp add: health_run_def health_step_half_open del: health_step.simps)
qed

section \<open>Throttling and the breaker\<close>

lemma no_failure_rate:
  assumes "\<forall>(t, s) \<in> set (in_window g). s \<noteq> Failure"
  shows "hard_error_rate g = Fin 0"
proof -
  have none: "filter (\<lambda>(_, s). s = Failure) (in_window g) = []"
    using assms by (auto simp: filter_empty_conv)
  show ?thesis
  proof (cases "in_window g = []")
    case False
    then consider "f64_of_nat (length (in_window g)) = PInf"
      | c where "f64_of_nat (length (in_window g)) = Fin c" "0 < c"
      using f64_of_nat_pos[of "length (in_window g)"] by auto
    then show ?thesis
      by cases (simp_all add: hard_error_rate_def none False f64_of_nat_exact binary64.r_0)
  qed (simp add: hard_error_rate_def)
qed

lemma no_hard_failure_step:
  assumes "no_hard_failure g" "event_sample e \<noteq> Some Failure"
    and "hc_circuit_open_failures cfg \<noteq> 0" "f64_nonneg (hc_circuit_error_threshold cfg)"
  shows "no_hard_failure (health_step cfg e g)"
proof (cases "event_sample e")
  case None
  then show ?thesis using assms(1) by (cases e) (auto simp: no_hard_failure_def update_slots_frame)
next
  case (Some s)
  obtain a b c ms u where step: "health_step cfg e g =
      apply_circuit_transitions c cfg (push_sample a b s ms u (hc_window_secs cfg) g)"
    using Some by (cases e rule: event_reading.cases) (auto simp: record_defs)
  let ?g = "push_sample a b s ms u (hc_window_secs cfg) g"
  have clean: "\<forall>(t, s) \<in> set (in_window ?g). s \<noteq> Failure"
    using assms(1,2) Some by (auto simp: push_sample_window no_hard_failure_def dest: set_dropWhileD)
  have streak: "in_consecutive_failures ?g = 0"
    using assms(1,2) Some by (cases s) (auto simp: push_sample_streak no_hard_failure_def)
  have "\<not> f64_lt (hc_circuit_error_threshold cfg) (hard_error_rate ?g)"
    using no_failure_rate[OF clean] assms(4) by (cases "hc_circuit_error_threshold cfg") auto
  then have "in_circuit (apply_circuit_transitions c cfg ?g) = Closed"
    using assms(1,3) streak
    by (simp add: apply_circuit_transitions_def push_sample_frame no_hard_failure_def)
  then show ?thesis using clean streak by (simp add: step no_hard_failure_def circuit_transitions_frame)
qed

theorem throttles_never_open:
  assumes "\<forall>e \<in> set es. event_sample e \<noteq> Some Failure"
    and "hc_circuit_open_failures cfg \<noteq> 0" "f64_nonneg (hc_circuit_error_threshold cfg)"
  shows "in_circuit (health_run cfg es inner_new) = Closed"
proof -
  have "no_hard_failure inner_new" by (simp add: no_hard_failure_def inner_new_def)
  then have "no_hard_failure (health_run cfg es inner_new)"
    unfolding health_run_def using assms(1)
    by (rule_tac fold_invariant[where Q = "\<lambda>e. event_sample e \<noteq> Some Failure"])
       (auto intro: no_hard_failure_step[OF _ _ assms(2,3)])
  then show ?thesis by (simp add: no_hard_failure_def)
qed

section \<open>Snapshots and drift\<close>

lemma drift_slot: "drift g c tips = None \<longleftrightarrow> cs_get (in_slots g) c = None"
  by (simp add: drift_def)

lemma commitment_of_drift:
  "ch_drift (commitment_of g tips cfg c) = unwrap_or (drift g c tips) 0"
  "ch_is_drifting (commitment_of g tips cfg c) \<longleftrightarrow>
     unwrap_or (drift g c tips) 0 > hc_slot_drift_threshold cfg"
  by (cases "cs_get (in_slots g) c"; simp add: commitment_of_def drift_def unwrap_or_def ch_default_def)+

lemma worst_drift_max:
  "unwrap_or (worst_drift g tips) 0 =
     max (max (unwrap_or (drift g Processed tips) 0) (unwrap_or (drift g Confirmed tips) 0))
       (unwrap_or (drift g Finalized tips) 0)"
  by (cases "drift g Processed tips"; cases "drift g Confirmed tips"; cases "drift g Finalized tips";
      simp add: worst_drift_def commitment_ALL_def unwrap_or_def max.commute)

theorem snapshot_headline_drift:
  "hs_slot_drift (snapshot name g tips cfg) = unwrap_or (worst_drift g tips) 0 \<and>
   (hs_is_drifting (snapshot name g tips cfg) \<longleftrightarrow>
     hs_slot_drift (snapshot name g tips cfg) > hc_slot_drift_threshold cfg)"
  unfolding worst_drift_max
  by (auto simp: snapshot_def Let_def commitment_of_drift less_max_iff_disj)

theorem latency_only_from_probes:
  assumes "in_latency_ema_ms (health_step cfg e g) \<noteq> in_latency_ema_ms g"
  shows "\<exists>ts ms. e = Recorded ts True ms True"
  using assms
  by (cases e rule: event_reading.cases)
    (auto simp: record_defs push_sample_ema circuit_transitions_frame update_slots_frame split: if_splits)

section \<open>The sliding window\<close>

lemma last_prune_after:
  "clocked now es \<Longrightarrow> last_prune es = Some t \<Longrightarrow> now \<le> t"
  by (induction es arbitrary: now) (fastforce split: option.splits prod.splits)+

lemma no_prune_history: "last_prune es = None \<Longrightarrow> history es = []"
proof (induction es)
  case (Cons e es)
  then show ?case by (cases e) (auto split: option.splits)
qed simp

lemma health_step_window:
  assumes "event_times e = Some (a, b, c)" "event_sample e = Some s" "sorted (map fst (in_window g))"
  shows "in_window (health_step cfg e g) =
    filter (in_range (hc_window_secs cfg) (Some a)) (in_window g) @ [(b, s)]"
  using assms
  by (cases e rule: event_reading.cases)
    (auto simp: record_defs circuit_transitions_frame push_sample_window dropWhile_sorted in_range_def
      intro!: filter_cong)

lemma health_run_window:
  assumes "sorted (map fst (in_window g))" "\<forall>x \<in> set (in_window g). fst x \<le> now" "clocked now es"
  shows "in_window (health_run cfg es g) =
    filter (in_range (hc_window_secs cfg) (last_prune es)) (in_window g @ history es)"
  using assms
proof (induction es arbitrary: g now)
  case Nil
  then show ?case by (simp add: health_run_def in_range_def)
next
  case (Cons e es)
  show ?case
  proof (cases "event_times e")
    case None
    then have "in_window (health_step cfg e g) = in_window g" by (cases e) (auto simp: update_slots_frame)
    then show ?thesis using Cons.IH[of "health_step cfg e g" now] Cons.prems None
      by (auto simp: health_run_def split: option.split)
  next
    case (Some ts)
    obtain a b c where ts: "ts = (a, b, c)" by (cases ts)
    from Some obtain s where s: "event_sample e = Some s" by (cases e) auto
    let ?g = "health_step cfg e g" and ?w = "hc_window_secs cfg"
    have le: "now \<le> a" "a \<le> b" "b \<le> c" and clk: "clocked c es" using Cons.prems(3) Some ts by auto
    have win: "in_window ?g = filter (in_range ?w (Some a)) (in_window g) @ [(b, s)]"
      using health_step_window[OF _ s] Some ts Cons.prems(1) by simp
    have "sorted (map fst (in_window ?g))" "\<forall>x \<in> set (in_window ?g). fst x \<le> c"
      using Cons.prems(1,2) le by (fastforce simp: win sorted_append sorted_filter)+
    from Cons.IH[OF this clk] have run: "in_window (health_run cfg (e # es) g) =
        filter (in_range ?w (last_prune es)) (filter (in_range ?w (Some a)) (in_window g) @ (b, s) # history es)"
      by (simp add: health_run_def win)
    show ?thesis
    proof (cases "last_prune es")
      case None
      then show ?thesis using le by (simp add: run Some ts s no_prune_history in_range_def)
    next
      case (Some t)
      have "a \<le> t" using last_prune_after[OF clk Some] le by linarith
      then have "filter (in_range ?w (Some t)) (filter (in_range ?w (Some a)) (in_window g)) =
          filter (in_range ?w (Some t)) (in_window g)"
        by (auto simp: in_range_def intro!: filter_cong)
      then show ?thesis using \<open>event_times e = Some ts\<close> by (simp add: run Some ts s)
    qed
  qed
qed

text \<open>C22. The sliding window is equal to its reference definition: the recorded samples of the whole
history that are not older than the window at the last pruning, in order.\<close>

theorem window_is_recent_history:
  assumes "clocked t0 es"
  shows "in_window (health_run cfg es inner_new) =
    filter (in_range (hc_window_secs cfg) (last_prune es)) (history es)"
  using health_run_window[of inner_new t0 es cfg] assms by (simp add: inner_new_def)

section \<open>Edges of the breaker and the score\<close>

lemma threshold_half: "hc_circuit_error_threshold default_health = rnd (1 / 2)"
  by (simp add: default_health_def)

lemma window_default: "int (duration_from_secs (hc_window_secs default_health)) = 60000000000"
  by (simp add: default_health_def duration_from_secs_def)

lemma mixed_state_rate:
  assumes "0 < n" "n + m \<le> 2 ^ 53"
  shows "hard_error_rate (mixed_state n m) = rnd (of_nat m / of_nat (n + m))"
  using assms by (simp add: hard_error_rate_def mixed_state_def f64_of_nat_exact)

lemma mixed_state_quiet:
  assumes "0 < n" "m \<le> n" "n + m \<le> 2 ^ 53" "m < 5"
  shows "apply_circuit_transitions t default_health (mixed_state n m) = mixed_state n m"
proof -
  have "\<not> f64_lt (rnd (1 / 2)) (hard_error_rate (mixed_state n m))"
    using assms by (subst mixed_state_rate) (auto intro!: not_lt_rnd simp: divide_simps)
  moreover have "\<not> (5 :: u32) \<le> of_nat m" using assms(4) by (simp add: word_le_nat_alt unat_of_nat)
  ultimately show ?thesis
    by (simp add: apply_circuit_transitions_def mixed_state_def inner_new_def default_health_def)
qed

lemma mixed_state_success:
  assumes "n \<le> 10"
  shows "health_step default_health (Recorded (secs 0) True ms False) (mixed_state n 0) = mixed_state (Suc n) 0"
proof -
  have "push_result 0 0 True ms False (hc_window_secs default_health) (mixed_state n 0) = mixed_state (Suc n) 0"
    by (simp add: push_result_def push_sample_def prune_window_def mixed_state_def Let_def
        dropWhile_eq_self_iff replicate_append_same)
  with assms show ?thesis by (simp add: secs_def ph_record_def mixed_state_quiet)
qed

lemma mixed_state_failure:
  assumes "Suc m \<le> n" "n \<le> 4"
  shows "health_step default_health (Recorded (secs 10) False ms False) (mixed_state n m) = mixed_state n (Suc m)"
proof -
  have "push_result 10000000000 10000000000 False ms False (hc_window_secs default_health)
      (mixed_state n m) = mixed_state n (Suc m)" using assms
    by (cases n) (simp_all add: push_result_def push_sample_def prune_window_def mixed_state_def Let_def
        replicate_append_same window_default add.commute)
  with assms show ?thesis by (simp add: secs_def ph_record_def mixed_state_quiet)
qed

lemma mixed_outcomes_state: "health_run default_health mixed_outcomes inner_new = mixed_state 3 3"
proof -
  have init: "inner_new = mixed_state 0 0" by (simp add: mixed_state_def inner_new_def)
  show ?thesis unfolding init
    by (simp add: health_run_def mixed_outcomes_def numeral_3_eq_3 mixed_state_success mixed_state_failure
        del: health_step.simps)
qed

theorem throttle_can_open:
  "in_circuit (health_run default_health mixed_outcomes inner_new) = Closed \<and>
   in_circuit (health_run default_health (mixed_outcomes @ [Throttled (secs 65) (Fin 5)]) inner_new) = Open"
proof -
  let ?g = "push_sample (65 * 1000000000) (65 * 1000000000) Throttle (Fin 5) False
    (hc_window_secs default_health) (mixed_state 3 3)"
  have q: "rnd (3 / 4) = Fin (3 / 4)" "rnd (1 / 2) = Fin (1 / 2)"
    using rnd_dyadic[of 3 2] rnd_dyadic[of 1 1] by simp_all
  have "in_window ?g = replicate 3 (10000000000, Failure) @ [(65000000000, Throttle)]"
    by (simp add: push_sample_window mixed_state_def numeral_3_eq_3 window_default)
  then have "hard_error_rate ?g = Fin (3 / 4)"
    by (simp add: hard_error_rate_def f64_of_nat_exact q numeral_3_eq_3)
  moreover have "in_circuit ?g = Closed" by (simp add: push_sample_frame mixed_state_def inner_new_def)
  ultimately have "in_circuit (apply_circuit_transitions t default_health ?g) = Open" for t
    by (simp add: apply_circuit_transitions_def threshold_half q)
  then show ?thesis using mixed_outcomes_state
    by (simp add: health_run_def ph_record_throttled_def secs_def mixed_state_def inner_new_def)
qed

theorem zero_threshold_score_nan:
  assumes "in_circuit g \<noteq> Open" "worst_drift g tips = Some 0" "hc_slot_drift_threshold cfg = 0"
    "\<not> f64_le (total_weight cfg) (Fin 0)"
  shows "score g tips cfg = NaN"
proof -
  have "slot_score g tips cfg = NaN"
    using assms by (simp add: slot_score_def f64_of_nat_exact binary64.r_0 inf_of_sign_def)
  then show ?thesis using assms by (simp add: score_def Let_def)
qed

lemma secs_elapsed: "saturating_duration_since (n * 1000000000) 0 = nat n * 1000000000" if "0 \<le> n"
  using that by (simp add: saturating_duration_since_def nat_mult_distrib)

theorem open_until_cooldown_witness:
  "in_circuit (health_run default_health [Recorded (secs 29) True (Fin 1) True] open_inner) = Open"
  using open_until_cooldown[of open_inner 0 "[Recorded (secs 29) True (Fin 1) True]" default_health]
    secs_elapsed[of 29]
  by (simp add: open_inner_def secs_def duration_from_secs_def default_health_def del: health_step.simps)

theorem recovers_after_cooldown_witness:
  "in_circuit (health_run default_health
     [Throttled (secs 30) (Fin 1), Recorded (secs 31) True (Fin 1) True] open_inner) = Closed"
  using recovers_after_cooldown[of open_inner 0 "Throttled (secs 30) (Fin 1)" "30 * 1000000000"
      default_health "secs 31" "Fin 1" True] secs_elapsed[of 30]
  by (simp add: open_inner_def secs_def duration_from_secs_def default_health_def del: health_step.simps)

theorem throttles_never_open_witness:
  "in_circuit (health_run default_health [Throttled (secs 1) (Fin 1), Recorded (secs 2) True (Fin 1) True]
     inner_new) = Closed"
  using throttles_never_open[of "[Throttled (secs 1) (Fin 1), Recorded (secs 2) True (Fin 1) True]"
      default_health]
  by (simp add: threshold_half binary64.r_nonneg del: health_step.simps) (simp add: default_health_def)

theorem window_is_recent_history_witness:
  "in_window (health_run default_health
     [Recorded (secs 0) True (Fin 1) True, Throttled (secs 61) (Fin 1)] inner_new) =
   [(61000000000, Throttle)]"
  using window_is_recent_history[of 0 "[Recorded (secs 0) True (Fin 1) True, Throttled (secs 61) (Fin 1)]"
      default_health]
  by (simp add: secs_def in_range_def window_default del: health_step.simps)

lemma unit_weights_ok: "weights_ok unit_weights" "total_weight unit_weights \<noteq> PInf"
proof -
  have "rnd 1 = Fin 1" "rnd 2 = Fin 2" "rnd 3 = Fin 3" "rnd 4 = Fin 4"
    using rnd_int[of 1] rnd_int[of 2] rnd_int[of 3] rnd_int[of 4] by simp_all
  then show "weights_ok unit_weights" "total_weight unit_weights \<noteq> PInf" using is_f64_rnd[of 1]
    by (simp_all add: weights_ok_def unit_weights_def default_health_def total_weight_def)
qed

text \<open>The default weights.\<close>

lemma default_weights_ok: "weights_ok default_health" "total_weight default_health \<noteq> PInf"
proof -
  obtain a where a: "rnd (4 / 10) = Fin a" "0 \<le> a" "a \<le> 1" by (rule binary64.r_below_nat[of "4 / 10" 1]) simp_all
  obtain b where b: "rnd (3 / 10) = Fin b" "0 \<le> b" "b \<le> 1" by (rule binary64.r_below_nat[of "3 / 10" 1]) simp_all
  obtain c where c: "rnd (2 / 10) = Fin c" "0 \<le> c" "c \<le> 1" by (rule binary64.r_below_nat[of "2 / 10" 1]) simp_all
  obtain d where d: "rnd (1 / 10) = Fin d" "0 \<le> d" "d \<le> 1" by (rule binary64.r_below_nat[of "1 / 10" 1]) simp_all
  obtain e where e: "rnd (a + b) = Fin e" "0 \<le> e" "e \<le> 2"
    by (rule binary64.r_below_nat[of "a + b" 2]) (use a b in simp_all)
  obtain f where f: "rnd (e + c) = Fin f" "0 \<le> f" "f \<le> 3"
    by (rule binary64.r_below_nat[of "e + c" 3]) (use c e in simp_all)
  obtain g where g: "rnd (f + d) = Fin g" by (rule binary64.r_below_nat[of "f + d" 4]) (use d f in simp_all)
  have "is_f64 (Fin a)" "is_f64 (Fin b)" "is_f64 (Fin c)" "is_f64 (Fin d)"
    using is_f64_rnd unfolding a(1)[symmetric] b(1)[symmetric] c(1)[symmetric] d(1)[symmetric] by blast+
  then show "weights_ok default_health" "total_weight default_health \<noteq> PInf" using a b c d e f g
    unfolding weights_ok_def total_weight_def default_health_def health_config.simps a(1) b(1) c(1) d(1) by simp_all
qed

text \<open>The finite sum is needed: with an infinite weight, which validation accepts, a score is NaN.\<close>

lemma infinite_weight_score_nan:
  "score inner_new (tip_of_latest st_default) (unit_weights\<lparr>hc_w_latency := PInf\<rparr>) = NaN"
proof -
  have half: "rnd (1 / 2) = Fin (1 / 2)"
    using rnd_nearest[of "- 1" "1 / 2" "2 ^ 52"] by (simp add: power_int_def power_one_over)
  have one: "rnd 1 = Fin 1" using rnd_int[of 1] by simp
  show ?thesis
    by (simp add: score_def total_weight_def unit_weights_def inner_new_def latency_score_def slot_score_def error_rate_def
        worst_drift_def drift_def cs_default_def commitment_ALL_def map_filter_def half one f64_sub_def f64_le_def inf_of_sign_def Let_def)
qed

theorem score_unit_witness:
  "f64_unit (score inner_new (tip_of_latest st_default) unit_weights)"
  using score_unit[of unit_weights inner_new "tip_of_latest st_default"] unit_weights_ok inner_new_ok
  by (simp add: unit_weights_def default_health_def window_small_def inner_new_def)

theorem latency_only_from_probes_witness:
  "\<exists>ts ms. Recorded (secs 0) True (Fin 5) True = Recorded ts True ms True"
  using latency_only_from_probes[of default_health "Recorded (secs 0) True (Fin 5) True" inner_new]
  by (simp add: record_defs push_sample_ema circuit_transitions_frame secs_def ema_update_def inner_new_def)

theorem zero_threshold_score_nan_witness:
  "score (inner_new\<lparr>in_slots := cs_default\<lparr>cs_processed := Some 7\<rparr>\<rparr>) (tip_of_latest st_default)
     (unit_weights\<lparr>hc_slot_drift_threshold := 0\<rparr>) = NaN"
proof -
  let ?cfg = "unit_weights\<lparr>hc_slot_drift_threshold := 0\<rparr>"
  have "total_weight ?cfg = Fin 4"
    using rnd_int[of 2] rnd_int[of 3] rnd_int[of 4] by (simp add: total_weight_def unit_weights_def)
  then show ?thesis
    using zero_threshold_score_nan[of "inner_new\<lparr>in_slots := cs_default\<lparr>cs_processed := Some 7\<rparr>\<rparr>"
      "tip_of_latest st_default" ?cfg]
    by (simp add: inner_new_def worst_drift_def commitment_ALL_def drift_def cs_default_def
        tip_of_latest_def u64_saturating_sub_def map_filter_def f64_le_def)
qed

end
