(* ===== verification/Json.thy ===== *)
theory Json
  imports Prelude
begin

text \<open>
  The JSON documents the proxy inspects. The \<open>serde_json\<close> parser is not part of the repository: it is the
  parameter \<open>parse\<close> of every definition that reads a body, and gives the tree of a document it accepts.
  A string carries whether its literal contains an escape, because a borrowed \<open>&str\<close> field can only be
  read from a literal without one; an object keeps its members in document order, duplicates included.
  Numbers without fraction or exponent that fit \<open>i64\<close> or \<open>u64\<close> are \<open>JInt\<close>, all others \<open>JFloat\<close> with the text \<open>serde_json\<close> prints for them.

  The derived \<open>Deserialize\<close> of the one-field structs of the sources is \<open>de_struct1\<close>: from an object it
  reads the field by name (absent or null gives no value, a repeated field is an error, other members
  are ignored); from an array it reads the field by position, and the length has to be one.
\<close>

section \<open>Trees\<close>

datatype json =
    JNull
  | JBool bool
  | JInt int
  | JFloat string
  | JStr bool string
  | JArr "json list"
  | JObj "(string \<times> json) list"

type_synonym json_parser = "bytes \<Rightarrow> json option"

section \<open>Typed reading\<close>

definition de_i64 :: "json \<Rightarrow> int option" where
  "de_i64 j = (case j of
     JInt n \<Rightarrow> if - (2 ^ 63) \<le> n \<and> n < 2 ^ 63 then Some n else None
   | _ \<Rightarrow> None)"

definition de_u64 :: "json \<Rightarrow> u64 option" where
  "de_u64 j = (case j of
     JInt n \<Rightarrow> if 0 \<le> n \<and> n < 2 ^ 64 then Some (word_of_int n) else None
   | _ \<Rightarrow> None)"

text \<open>A borrowed \<open>&str\<close>, and \<open>IgnoredAny\<close>.\<close>

definition de_str :: "json \<Rightarrow> string option" where
  "de_str j = (case j of JStr escaped s \<Rightarrow> if escaped then None else Some s | _ \<Rightarrow> None)"

definition de_any :: "json \<Rightarrow> unit option" where
  "de_any j = Some ()"

definition de_option :: "(json \<Rightarrow> 'a option) \<Rightarrow> json \<Rightarrow> 'a option option" where
  "de_option f j = (case j of JNull \<Rightarrow> Some None | _ \<Rightarrow> map_option Some (f j))"

definition de_struct1 :: "string \<Rightarrow> (json \<Rightarrow> 'a option) \<Rightarrow> json \<Rightarrow> 'a option option" where
  "de_struct1 field f j = (case j of
     JObj members \<Rightarrow>
       (case filter (\<lambda>(k, v). k = field) members of
          [] \<Rightarrow> Some None
        | [(k, v)] \<Rightarrow> de_option f v
        | _ \<Rightarrow> None)
   | JArr [v] \<Rightarrow> de_option f v
   | _ \<Rightarrow> None)"

text \<open>\<open>Vec<T>\<close>: every element has to be read.\<close>

fun de_all :: "(json \<Rightarrow> 'a option) \<Rightarrow> json list \<Rightarrow> 'a list option" where
  "de_all f [] = Some []"
| "de_all f (j # js) =
     (case f j of None \<Rightarrow> None | Some x \<Rightarrow> map_option (\<lambda>xs. x # xs) (de_all f js))"

definition de_vec :: "(json \<Rightarrow> 'a option) \<Rightarrow> json \<Rightarrow> 'a list option" where
  "de_vec f j = (case j of JArr js \<Rightarrow> de_all f js | _ \<Rightarrow> None)"

section \<open>Untyped reading (\<open>serde_json::Value\<close>)\<close>

text \<open>Members are inserted into the map in order, so the last of several equal keys is kept.\<close>

definition json_get :: "string \<Rightarrow> json \<Rightarrow> json option" where
  "json_get k j = (case j of JObj members \<Rightarrow> map_of (rev members) k | _ \<Rightarrow> None)"

definition json_as_array :: "json \<Rightarrow> json list option" where
  "json_as_array j = (case j of JArr js \<Rightarrow> Some js | _ \<Rightarrow> None)"

definition json_as_str :: "json \<Rightarrow> string option" where
  "json_as_str j = (case j of JStr escaped s \<Rightarrow> Some s | _ \<Rightarrow> None)"

definition json_as_u64 :: "json \<Rightarrow> u64 option" where
  "json_as_u64 j = de_u64 j"

definition json_is_null :: "json \<Rightarrow> bool" where
  "json_is_null j \<longleftrightarrow> j = JNull"

lemma de_struct1_obj:
  "distinct (map fst members) \<Longrightarrow>
   de_struct1 field f (JObj members) =
     (case map_of members field of None \<Rightarrow> Some None | Some v \<Rightarrow> de_option f v)"
proof (induction members)
  case Nil
  then show ?case by (simp add: de_struct1_def)
next
  case (Cons m members)
  obtain k v where m: "m = (k, v)" by (cases m)
  show ?case
  proof (cases "k = field")
    case True
    with Cons.prems m have "filter (\<lambda>(k, v). k = field) members = []"
      by (force simp: filter_empty_conv)
    with True m show ?thesis by (simp add: de_struct1_def)
  next
    case False
    with Cons m show ?thesis by (simp add: de_struct1_def)
  qed
qed

lemma de_struct1_singleton [simp]: "de_struct1 field f (JArr [v]) = de_option f v"
  by (simp add: de_struct1_def)

lemma de_any_present: "de_option de_any v = Some (if v = JNull then None else Some ())"
  by (cases v) (simp_all add: de_option_def de_any_def)

lemma de_all_length: "de_all f js = Some xs \<Longrightarrow> length xs = length js"
  by (induction js arbitrary: xs) (auto split: option.splits)

end
