(* ===== verification/Router.thy ===== *)
theory Router
  imports Health Json
begin

text \<open>
  Request routing of \<open>src/src/router.rs\<close>: method classification, the error taxonomy that decides
  between fail-over and pass-through, and \<open>route\<close>, which orders the providers for one request. The random
  number of \<open>WeightedRandom\<close> is the parameter \<open>u\<close> (a value in the unit interval, as
  \<open>rand::random::<f64>\<close> documents).
\<close>

section \<open>Classification\<close>

datatype method_class = Read | Write

definition classify :: "string \<Rightarrow> string list \<Rightarrow> method_class" where
  "classify meth write_methods = (if meth \<in> set write_methods then Write else Read)"

definition is_retryable_http :: "u16 \<Rightarrow> bool" where
  "is_retryable_http status \<longleftrightarrow> status \<in> {429, 500, 501, 502, 503, 504}"

definition is_client_error :: "u16 \<Rightarrow> bool" where
  "is_client_error status \<longleftrightarrow> status \<in> {400, 404, 405, 413, 415, 422}"

definition is_behind_rpc_code :: "int \<Rightarrow> bool" where
  "is_behind_rpc_code code \<longleftrightarrow> code \<in> {- 32014, - 32016}"

definition is_retryable_rpc_code :: "int \<Rightarrow> bool" where
  "is_retryable_rpc_code code \<longleftrightarrow> code \<in> {- 32005, - 32603} \<or> is_behind_rpc_code code"

definition is_client_rpc_code :: "int \<Rightarrow> bool" where
  "is_client_rpc_code code \<longleftrightarrow> code \<in>
     {- 32700, - 32600, - 32601, - 32602, - 32002, - 32003, - 32006, - 32013, - 32015}"

definition is_history_gap_code :: "int \<Rightarrow> bool" where
  "is_history_gap_code code \<longleftrightarrow> code \<in> {- 32001, - 32004, - 32011, - 32019, - 32020}"

definition extract_rpc_error_code :: "json_parser \<Rightarrow> bytes \<Rightarrow> int option" where
  "extract_rpc_error_code parse body =
     (case Option.bind (parse body) (de_struct1 ''error'' (de_struct1 ''code'' de_i64)) of
        Some (Some (Some code)) \<Rightarrow> Some code
      | _ \<Rightarrow> None)"

section \<open>Routing decision\<close>

record route_decision =
  rd_providers :: "string list"
  rd_broadcast :: bool
  rd_degraded :: bool

definition route_supports :: "string \<Rightarrow> provider_config list \<Rightarrow> bool \<Rightarrow> string \<Rightarrow> bool" where
  "route_supports meth providers full_history name =
     (case find (\<lambda>p. pv_name p = name) providers of
        None \<Rightarrow> True
      | Some p \<Rightarrow> supports p meth \<and> \<not> (full_history \<and> pv_history p = Recent))"

text \<open>The comparator of the three \<open>sort_by\<close> calls: descending score, incomparable scores equal.\<close>

definition score_cmp :: "health_snapshot \<Rightarrow> health_snapshot \<Rightarrow> ordering" where
  "score_cmp a b = (case f64_partial_cmp (hs_score b) (hs_score a) of None \<Rightarrow> Equal | Some o' \<Rightarrow> o')"

definition weight_of :: "provider_config list \<Rightarrow> health_snapshot \<Rightarrow> f64" where
  "weight_of providers s =
     (let w = (case find (\<lambda>p. pv_name p = hs_name s) providers of None \<Rightarrow> 1 | Some p \<Rightarrow> pv_weight p)
      in f64_max (f64_mul (f64_of_nat (unat w)) (hs_score s)) (rnd (1 / 1000000000)))"

definition f64_sum :: "f64 list \<Rightarrow> f64" where
  "f64_sum ws = fold (\<lambda>w acc. f64_add acc w) ws (Fin 0)"

fun pick_primary :: "f64 \<Rightarrow> f64 \<Rightarrow> nat \<Rightarrow> f64 list \<Rightarrow> nat option" where
  "pick_primary roll cum i [] = None"
| "pick_primary roll cum i (w # ws) =
     (let cum = f64_add cum w in
      if f64_le roll cum then Some i else pick_primary roll cum (Suc i) ws)"

definition weighted_random ::
  "f64 \<Rightarrow> provider_config list \<Rightarrow> health_snapshot list \<Rightarrow> health_snapshot list" where
  "weighted_random u providers available =
     (let weights = map (weight_of providers) available;
          total = f64_sum weights;
          roll = f64_mul u total;
          primary = unwrap_or (pick_primary roll (Fin 0) 0 weights) 0
      in (available ! primary) # sort_by score_cmp (remove_nth primary available))"

definition failover_ordered ::
  "provider_config list \<Rightarrow> health_snapshot list \<Rightarrow> health_snapshot list" where
  "failover_ordered providers available =
     List.map_filter (\<lambda>p. find (\<lambda>s. hs_name s = pv_name p) available) providers @
     filter (\<lambda>s. \<not> (\<exists>p \<in> set providers. pv_name p = hs_name s)) available"

definition eligible ::
  "string \<Rightarrow> provider_config list \<Rightarrow> bool \<Rightarrow> health_snapshot list \<Rightarrow> health_snapshot list" where
  "eligible meth providers full_history snapshots =
     filter (\<lambda>s. is_available s \<and> route_supports meth providers full_history (hs_name s)) snapshots"

definition route ::
  "f64 \<Rightarrow> string \<Rightarrow> health_snapshot list \<Rightarrow> routing_strategy \<Rightarrow> provider_config list \<Rightarrow> bool \<Rightarrow>
   string list \<Rightarrow> bool \<Rightarrow> route_decision" where
  "route u meth snapshots strategy providers broadcast_writes write_methods full_history =
     (let cls = classify meth write_methods;
          available = eligible meth providers full_history snapshots
      in if available = [] then
           \<lparr>rd_providers = map hs_name
              (filter (\<lambda>s. route_supports meth providers full_history (hs_name s)) snapshots),
            rd_broadcast = broadcast_writes \<and> cls = Write, rd_degraded = True\<rparr>
         else if cls = Write \<and> broadcast_writes then
           \<lparr>rd_providers = map hs_name available, rd_broadcast = True, rd_degraded = False\<rparr>
         else case strategy of
             BestScore \<Rightarrow>
               \<lparr>rd_providers = map hs_name (sort_by score_cmp available), rd_broadcast = False,
                rd_degraded = False\<rparr>
           | WeightedRandom \<Rightarrow>
               \<lparr>rd_providers = map hs_name (weighted_random u providers available), rd_broadcast = False,
                rd_degraded = False\<rparr>
           | FailoverOrdered \<Rightarrow>
               \<lparr>rd_providers = map hs_name (failover_ordered providers available), rd_broadcast = False,
                rd_degraded = False\<rparr>
           | ParallelRace \<Rightarrow>
               \<lparr>rd_providers = map hs_name (sort_by score_cmp available), rd_broadcast = True,
                rd_degraded = False\<rparr>)"

definition snap :: "string \<Rightarrow> f64 \<Rightarrow> circuit_state \<Rightarrow> health_snapshot" where
  "snap name sc circuit =
     (snapshot name inner_new (tip_of_latest st_default) default_health)
       \<lparr>hs_score := sc, hs_circuit := circuit\<rparr>"

definition demo_snaps :: "health_snapshot list" where
  "demo_snaps = [snap ''a'' (Fin (1 / 4)) Closed, snap ''b'' (Fin (1 / 2)) Closed, snap ''c'' (Fin 0) Open]"

definition demo_providers :: "provider_config list" where
  "demo_providers = [default_provider ''b'' ''u'', (default_provider ''a'' ''u'')\<lparr>pv_history := Recent\<rparr>,
     default_provider ''c'' ''u'']"

section \<open>Ordering by score\<close>

lemma partial_cmp_Greater: "f64_partial_cmp x y = Some Greater \<longleftrightarrow> f64_lt y x"
  by (cases x; cases y; auto simp: f64_partial_cmp_def)

lemma score_cmp_Greater: "score_cmp a b = Greater \<longleftrightarrow> f64_lt (hs_score a) (hs_score b)"
  using partial_cmp_Greater[of "hs_score b" "hs_score a"]
  by (auto simp: score_cmp_def split: option.split)

interpretation by_score: comparison score_cmp "\<lambda>s. hs_score s \<noteq> NaN"
  by unfold_locales
    (auto simp: score_cmp_Greater dest: f64_lt_asym f64_not_lt_trans)

lemma sort_by_score:
  assumes "\<forall>s \<in> set ss. hs_score s \<noteq> NaN"
  shows "sorted_wrt (\<lambda>a b. \<not> f64_lt (hs_score a) (hs_score b)) (sort_by score_cmp ss)"
  using by_score.sort_by_ordered[OF assms] by (simp add: score_cmp_Greater)

section \<open>The primary of the weighted draw\<close>

lemma pick_primary_range:
  "pick_primary roll cum i ws = Some j \<Longrightarrow> i \<le> j \<and> j < i + length ws"
  by (induction ws arbitrary: cum i) (fastforce simp: Let_def split: if_splits)+

lemma primary_range:
  "ws \<noteq> [] \<Longrightarrow> unwrap_or (pick_primary roll cum 0 ws) 0 < length ws"
  by (cases "pick_primary roll cum 0 ws") (auto simp: unwrap_or_def dest: pick_primary_range)

lemma weighted_random_mset:
  "available \<noteq> [] \<Longrightarrow> mset (weighted_random u providers available) = mset available"
  using primary_range[of "map (weight_of providers) available"]
  by (simp add: weighted_random_def Let_def mset_remove_nth)

section \<open>Configuration order\<close>

lemma failover_ordered_configured:
  assumes "distinct (map hs_name available)" "hs_name ` set available \<subseteq> pv_name ` set providers"
  shows "map hs_name (failover_ordered providers available) =
    filter (\<lambda>n. n \<in> hs_name ` set available) (map pv_name providers)"
proof -
  have rest: "filter (\<lambda>s. \<not> (\<exists>p \<in> set providers. pv_name p = hs_name s)) available = []"
    using assms(2) by (force simp: filter_empty_conv)
  have "map hs_name (List.map_filter (\<lambda>p. find (\<lambda>s. hs_name s = pv_name p) available) ps) =
      filter (\<lambda>n. n \<in> hs_name ` set available) (map pv_name ps)" for ps
  proof (induction ps)
    case (Cons p ps)
    show ?case
    proof (cases "find (\<lambda>s. hs_name s = pv_name p) available")
      case None
      then have "pv_name p \<notin> hs_name ` set available" by (auto simp: find_None_iff)
      with None Cons show ?thesis by simp
    next
      case (Some s)
      then have "hs_name s = pv_name p" "s \<in> set available" using find_Some_set[OF Some] by auto
      moreover from this have "pv_name p \<in> hs_name ` set available" by (metis imageI)
      ultimately show ?thesis using Some Cons by simp
    qed
  qed simp
  then show ?thesis by (simp only: failover_ordered_def rest append_Nil2)
qed

lemma failover_ordered_set:
  assumes "distinct (map hs_name available)"
  shows "set (failover_ordered providers available) = set available"
proof
  show "set (failover_ordered providers available) \<subseteq> set available"
    by (auto simp: failover_ordered_def map_filter_def dest: find_Some_set)
  show "set available \<subseteq> set (failover_ordered providers available)"
  proof
    fix s assume s: "s \<in> set available"
    show "s \<in> set (failover_ordered providers available)"
    proof (cases "\<exists>p \<in> set providers. pv_name p = hs_name s")
      case True
      then obtain p where p: "p \<in> set providers" "pv_name p = hs_name s" by blast
      then have "find (\<lambda>x. hs_name x = pv_name p) available = Some s"
        using find_distinct_key[OF assms s] by simp
      with p(1) show ?thesis by (force simp: failover_ordered_def map_filter_def)
    next
      case False
      with s show ?thesis by (simp add: failover_ordered_def)
    qed
  qed
qed

lemma failover_ordered_distinct:
  assumes "distinct (map hs_name available)" "distinct (map pv_name providers)"
  shows "distinct (map hs_name (failover_ordered providers available))"
proof -
  let ?f = "\<lambda>p. find (\<lambda>s. hs_name s = pv_name p) available"
  have name: "?f p = Some s \<Longrightarrow> hs_name s = pv_name p \<and> s \<in> set available" for p s
    using find_Some_set by fastforce
  have "distinct (map hs_name (List.map_filter ?f ps)) \<and>
      hs_name ` set (List.map_filter ?f ps) \<subseteq> pv_name ` set ps" if "distinct (map pv_name ps)" for ps
    using that
  proof (induction ps)
    case (Cons p ps)
    show ?case
    proof (cases "?f p")
      case None
      with Cons show ?thesis by auto
    next
      case (Some s)
      with Cons name[OF Some] show ?thesis by auto
    qed
  qed simp
  from this[OF assms(2)] have d: "distinct (map hs_name (List.map_filter ?f providers))"
    and sub: "hs_name ` set (List.map_filter ?f providers) \<subseteq> pv_name ` set providers" by simp_all
  let ?rest = "filter (\<lambda>s. \<not> (\<exists>p \<in> set providers. pv_name p = hs_name s)) available"
  have "hs_name ` set ?rest \<inter> pv_name ` set providers = {}" by auto
  with sub have "hs_name ` set (List.map_filter ?f providers) \<inter> hs_name ` set ?rest = {}" by blast
  then show ?thesis using d assms(1)
    by (simp add: failover_ordered_def distinct_map_filter del: set_filter)
qed

lemma failover_ordered_mset:
  assumes "distinct (map hs_name available)" "distinct (map pv_name providers)"
  shows "mset (failover_ordered providers available) = mset available"
  using failover_ordered_set[OF assms(1)] failover_ordered_distinct[OF assms] assms(1)
  by (metis distinct_map set_eq_iff_mset_eq_distinct)

section \<open>Routing\<close>

lemma route_providers:
  assumes "distinct (map hs_name snapshots)" "distinct (map pv_name providers)"
    and "eligible meth providers fh snapshots \<noteq> []"
  shows "mset (rd_providers (route u meth snapshots strategy providers bw wm fh)) =
    mset (map hs_name (eligible meth providers fh snapshots))"
proof -
  have "distinct (map hs_name (eligible meth providers fh snapshots))"
    using assms(1) by (simp add: eligible_def distinct_map_filter)
  then show ?thesis using assms(2,3)
    by (cases strategy) (simp_all add: route_def Let_def weighted_random_mset failover_ordered_mset)
qed

lemma route_supported:
  assumes "distinct (map hs_name snapshots)" "distinct (map pv_name providers)"
  shows "distinct (rd_providers (route u meth snapshots strategy providers bw wm fh)) \<and>
    set (rd_providers (route u meth snapshots strategy providers bw wm fh)) \<subseteq>
      {n \<in> hs_name ` set snapshots. route_supports meth providers fh n}"
proof (cases "eligible meth providers fh snapshots = []")
  case True
  then show ?thesis using assms(1) by (auto simp: route_def Let_def distinct_map_filter)
next
  case False
  let ?r = "route u meth snapshots strategy providers bw wm fh"
  have "mset (rd_providers ?r) = mset (map hs_name (eligible meth providers fh snapshots))"
    by (rule route_providers[OF assms False])
  then have "set (rd_providers ?r) = hs_name ` set (eligible meth providers fh snapshots)"
    "distinct (rd_providers ?r) = distinct (map hs_name (eligible meth providers fh snapshots))"
    by (metis set_mset_mset set_map, metis mset_eq_imp_distinct_iff)
  with assms(1) show ?thesis by (auto simp: eligible_def distinct_map_filter)
qed

text \<open>C23. A decision that is not degraded lists exactly the providers whose circuit is not open, which
are not at their rate cap and which support the request, each once, under every strategy.\<close>

theorem route_exactly_eligible:
  assumes "distinct (map hs_name snapshots)" "distinct (map pv_name providers)"
    and "\<not> rd_degraded (route u meth snapshots strategy providers bw wm fh)"
  shows "mset (rd_providers (route u meth snapshots strategy providers bw wm fh)) =
    mset (map hs_name (filter (\<lambda>s. hs_circuit s \<noteq> Open \<and> \<not> hs_rate_limited s \<and>
      route_supports meth providers fh (hs_name s)) snapshots))"
proof -
  have "eligible meth providers fh snapshots \<noteq> []"
    using assms(3) by (auto simp: route_def Let_def)
  from route_providers[OF assms(1,2) this] show ?thesis
    by (simp add: eligible_def is_available_def)
qed

theorem route_degraded_last_resort:
  "rd_degraded (route u meth snapshots strategy providers bw wm fh) =
     list_all (\<lambda>s. route_supports meth providers fh (hs_name s) \<longrightarrow> \<not> is_available s) snapshots \<and>
   (rd_degraded (route u meth snapshots strategy providers bw wm fh) \<longrightarrow>
     rd_providers (route u meth snapshots strategy providers bw wm fh) =
       map hs_name (filter (\<lambda>s. route_supports meth providers fh (hs_name s)) snapshots))"
proof -
  have "eligible meth providers fh snapshots = [] \<longleftrightarrow>
      list_all (\<lambda>s. route_supports meth providers fh (hs_name s) \<longrightarrow> \<not> is_available s) snapshots"
    by (auto simp: eligible_def filter_empty_conv list_all_iff)
  then show ?thesis by (cases strategy) (simp_all add: route_def Let_def)
qed

theorem route_full_history_excludes_recent:
  assumes "name \<in> set (rd_providers (route u meth snapshots strategy providers bw wm True))"
    and "p \<in> set providers" "pv_name p = name" "distinct (map pv_name providers)"
    and "distinct (map hs_name snapshots)"
  shows "pv_history p = Full \<and> supports p meth"
proof -
  let ?r = "route u meth snapshots strategy providers bw wm True"
  have "set (rd_providers ?r) \<subseteq> {n. route_supports meth providers True n}"
    using route_supported[OF assms(5,4), of u meth strategy bw wm True] by blast
  with assms(1) have "route_supports meth providers True name" by auto
  moreover have "find (\<lambda>q. pv_name q = name) providers = Some p"
    using find_distinct_key[OF assms(4,2)] assms(3) by simp
  ultimately show ?thesis by (cases "pv_history p") (auto simp: route_supports_def)
qed

theorem best_score_descending:
  assumes "\<forall>s \<in> set snapshots. hs_score s \<noteq> NaN" "classify meth wm = Read"
    and "\<not> rd_degraded (route u meth snapshots BestScore providers bw wm fh)"
  shows "\<exists>ss. rd_providers (route u meth snapshots BestScore providers bw wm fh) = map hs_name ss \<and>
    mset ss = mset (eligible meth providers fh snapshots) \<and>
    sorted_wrt (\<lambda>a b. \<not> f64_lt (hs_score a) (hs_score b)) ss"
proof -
  let ?e = "eligible meth providers fh snapshots"
  have "?e \<noteq> []" using assms(3) by (auto simp: route_def Let_def)
  then have "rd_providers (route u meth snapshots BestScore providers bw wm fh) =
      map hs_name (sort_by score_cmp ?e)"
    using assms(2) by (simp add: route_def Let_def)
  moreover have "sorted_wrt (\<lambda>a b. \<not> f64_lt (hs_score a) (hs_score b)) (sort_by score_cmp ?e)"
    using assms(1) by (intro sort_by_score) (auto simp: eligible_def)
  ultimately show ?thesis by (intro exI[of _ "sort_by score_cmp ?e"]) simp
qed

theorem failover_follows_config:
  assumes "distinct (map hs_name snapshots)" "hs_name ` set snapshots \<subseteq> pv_name ` set providers"
    and "classify meth wm = Read \<or> \<not> bw"
    and "\<not> rd_degraded (route u meth snapshots FailoverOrdered providers bw wm fh)"
  shows "rd_providers (route u meth snapshots FailoverOrdered providers bw wm fh) =
    filter (\<lambda>n. n \<in> hs_name ` set (eligible meth providers fh snapshots)) (map pv_name providers)"
proof -
  let ?e = "eligible meth providers fh snapshots"
  have ne: "?e \<noteq> []" using assms(4) by (auto simp: route_def Let_def)
  have "distinct (map hs_name ?e)" "hs_name ` set ?e \<subseteq> pv_name ` set providers"
    using assms(1,2) by (auto simp: eligible_def distinct_map_filter)
  from failover_ordered_configured[OF this] show ?thesis
    using ne assms(3) by (auto simp: route_def Let_def)
qed

section \<open>The weighted draw\<close>

lemma f64_mul_commute: "f64_mul x y = f64_mul y x"
  by (cases x; cases y) (simp_all add: mult.commute)

lemma pick_primary_prefix:
  assumes "f64_le roll (fold (\<lambda>w acc. f64_add acc w) ws cum)" "ws \<noteq> []"
  shows "\<exists>j < length ws. pick_primary roll cum i ws = Some (i + j) \<and>
    f64_le roll (fold (\<lambda>w acc. f64_add acc w) (take (Suc j) ws) cum) \<and>
    (\<forall>k < j. \<not> f64_le roll (fold (\<lambda>w acc. f64_add acc w) (take (Suc k) ws) cum))"
  using assms
proof (induction ws arbitrary: cum i)
  case (Cons w ws)
  show ?case
  proof (cases "f64_le roll (f64_add cum w)")
    case True
    then show ?thesis by (intro exI[of _ 0]) (simp add: Let_def)
  next
    case False
    with Cons.prems have "ws \<noteq> []" by auto
    with Cons.IH[of "f64_add cum w" "Suc i"] Cons.prems(1) obtain j where
      j: "j < length ws" "pick_primary roll (f64_add cum w) (Suc i) ws = Some (Suc i + j)"
        "f64_le roll (fold (\<lambda>w acc. f64_add acc w) (take (Suc j) ws) (f64_add cum w))"
        "\<forall>k < j. \<not> f64_le roll (fold (\<lambda>w acc. f64_add acc w) (take (Suc k) ws) (f64_add cum w))"
      by auto
    have "\<forall>k < Suc j. \<not> f64_le roll (fold (\<lambda>w acc. f64_add acc w) (take (Suc k) (w # ws)) cum)"
      using j(4) False by (auto simp: less_Suc_eq_0_disj)
    with j False show ?thesis by (intro exI[of _ "Suc j"]) (simp add: Let_def)
  qed
qed simp

lemma weight_of_nonneg: "f64_nonneg (weight_of providers s)"
proof -
  have "f64_nonneg (rnd (1 / 1000000000))" by (intro binary64.r_nonneg) simp
  then show ?thesis
    by (cases "rnd (1 / 1000000000)"; cases "f64_mul (f64_of_nat (unat (case find (\<lambda>p. pv_name p = hs_name s)
      providers of None \<Rightarrow> 1 | Some p \<Rightarrow> pv_weight p))) (hs_score s)")
      (auto simp: weight_of_def f64_max_def Let_def)
qed

lemma fold_add_nonneg:
  "f64_nonneg acc \<Longrightarrow> is_f64 acc \<Longrightarrow> \<forall>w \<in> set ws. f64_nonneg w \<Longrightarrow>
   f64_nonneg (fold (\<lambda>w acc. f64_add acc w) ws acc) \<and> is_f64 (fold (\<lambda>w acc. f64_add acc w) ws acc)"
proof (induction ws arbitrary: acc)
  case (Cons w ws)
  have "is_f64 (f64_add acc w)" by (cases acc; cases w) (simp_all add: is_f64_rnd)
  with Cons show ?case by (simp add: f64_add_nonneg)
qed simp

theorem weighted_random_draw:
  assumes "available \<noteq> []" "f64_unit u"
    and "f64_sum (map (weight_of providers) available) = Fin t"
  shows "\<exists>j < length available. hd (weighted_random u providers available) = available ! j \<and>
    f64_le (f64_mul u (Fin t)) (f64_sum (map (weight_of providers) (take (Suc j) available))) \<and>
    (\<forall>k < j. \<not> f64_le (f64_mul u (Fin t))
       (f64_sum (map (weight_of providers) (take (Suc k) available))))"
proof -
  let ?ws = "map (weight_of providers) available"
  have "f64_nonneg (f64_sum ?ws) \<and> is_f64 (f64_sum ?ws)"
    unfolding f64_sum_def using binary64.r_0 by (intro fold_add_nonneg) (auto simp: weight_of_nonneg)
  with assms(3) have t: "is_f64 (Fin t)" "0 \<le> t" by simp_all
  obtain a where "f64_mul (Fin t) u = Fin a" "0 \<le> a" "a \<le> t"
    using t assms(2) by (rule f64_mul_weight)
  then have "f64_le (f64_mul u (Fin t)) (fold (\<lambda>w acc. f64_add acc w) ?ws (Fin 0))"
    using assms(3) by (simp add: f64_mul_commute f64_sum_def f64_le_def le_less)
  from pick_primary_prefix[OF this, of 0] assms(1,3) show ?thesis
    by (auto simp: weighted_random_def Let_def unwrap_or_def f64_sum_def take_map)
qed

lemma rpc_code_classes_disjoint:
  "\<not> (is_client_rpc_code code \<and> is_retryable_rpc_code code)"
  "\<not> (is_client_rpc_code code \<and> is_history_gap_code code)"
  "\<not> (is_retryable_rpc_code code \<and> is_history_gap_code code)"
  by (auto simp: is_client_rpc_code_def is_retryable_rpc_code_def is_behind_rpc_code_def
      is_history_gap_code_def)

section \<open>Witnesses\<close>

lemma snap_simps [simp]:
  "hs_name (snap n sc c) = n" "hs_score (snap n sc c) = sc" "hs_circuit (snap n sc c) = c"
  "hs_rate_limited (snap n sc c) = False"
  by (simp_all add: snap_def snapshot_def Let_def)

lemma demo_snaps_eligible:
  "eligible ''getSlot'' demo_providers fh demo_snaps =
     (if fh then [snap ''b'' (Fin (1 / 2)) Closed]
      else [snap ''a'' (Fin (1 / 4)) Closed, snap ''b'' (Fin (1 / 2)) Closed])"
  by (simp add: eligible_def demo_snaps_def is_available_def route_supports_def demo_providers_def
      supports_def default_provider_def)

lemma demo_snaps_distinct: "distinct (map hs_name demo_snaps)" "distinct (map pv_name demo_providers)"
  by (simp_all add: demo_snaps_def demo_providers_def default_provider_def)

theorem route_exactly_eligible_witness:
  "mset (rd_providers (route (Fin 0) ''getSlot'' demo_snaps FailoverOrdered demo_providers True [] False)) =
     {#''a'', ''b''#}"
proof -
  have "\<not> rd_degraded (route (Fin 0) ''getSlot'' demo_snaps FailoverOrdered demo_providers True [] False)"
    by (simp add: route_def Let_def demo_snaps_eligible classify_def)
  from route_exactly_eligible[OF demo_snaps_distinct this] demo_snaps_eligible[of False] show ?thesis
    by (simp add: eligible_def is_available_def del: mset_filter)
qed

theorem route_full_history_excludes_recent_witness:
  "pv_history (default_provider ''b'' ''u'') = Full \<and> supports (default_provider ''b'' ''u'') ''getSlot''"
  by (rule route_full_history_excludes_recent[of "''b''" "Fin 0" "''getSlot''" demo_snaps BestScore
      demo_providers True "[]"])
    (simp_all add: route_def Let_def demo_snaps_eligible classify_def sort_by_def demo_snaps_distinct,
     simp_all add: demo_providers_def default_provider_def)

theorem best_score_descending_witness:
  "\<exists>ss. rd_providers (route (Fin 0) ''getSlot'' demo_snaps BestScore demo_providers True [] False) =
     map hs_name ss \<and> mset ss = mset (eligible ''getSlot'' demo_providers False demo_snaps) \<and>
     sorted_wrt (\<lambda>a b. \<not> f64_lt (hs_score a) (hs_score b)) ss"
  by (rule best_score_descending)
    (simp_all add: route_def Let_def demo_snaps_eligible classify_def, simp add: demo_snaps_def)

theorem failover_follows_config_witness:
  "rd_providers (route (Fin 0) ''getSlot'' demo_snaps FailoverOrdered demo_providers True [] False) =
     [''b'', ''a'']"
proof -
  have "\<not> rd_degraded (route (Fin 0) ''getSlot'' demo_snaps FailoverOrdered demo_providers True [] False)"
    "hs_name ` set demo_snaps \<subseteq> pv_name ` set demo_providers"
    by (simp_all add: route_def Let_def demo_snaps_eligible classify_def)
      (simp add: demo_snaps_def demo_providers_def default_provider_def)
  with failover_follows_config[OF demo_snaps_distinct(1), of demo_providers "''getSlot''" "[]" True "Fin 0" False]
  show ?thesis by (simp add: classify_def demo_snaps_eligible) (simp add: demo_providers_def default_provider_def)
qed

theorem weighted_random_draw_witness:
  "\<exists>j < 1. hd (weighted_random (Fin 0) [] [snap ''a'' (Fin 1) Closed]) = [snap ''a'' (Fin 1) Closed] ! j"
proof -
  have r: "rnd 1 = Fin 1" using rnd_int[of 1] by simp
  have "\<not> f64_lt (Fin 1) (rnd (1 / 1000000000))" using not_lt_rnd[of "1 / 1000000000" 1] r by simp
  then have "weight_of [] (snap ''a'' (Fin 1) Closed) = Fin 1"
    by (simp add: weight_of_def f64_max_def f64_of_nat_exact r) 
  then have "f64_sum (map (weight_of []) [snap ''a'' (Fin 1) Closed]) = Fin 1" by (simp add: f64_sum_def r)
  from weighted_random_draw[OF _ _ this, of "Fin 0"] show ?thesis by fastforce
qed

end
