(* ===== verification/Tx.thy ===== *)
theory Tx
  imports Json
begin

text \<open>
  The transaction decoder of \<open>src/src/tx.rs\<close>: the byte cursor, the compact-u16 length prefix
  (\<open>Cursor::shortvec\<close>), the legacy/v0 decoder with its compute-budget rules, the v1 decoder, and
  \<open>decode_request\<close>. The base58 and base64 decoders are third-party code and enter as parameters, like
  the JSON parser. A \<open>usize\<close> is a natural number below \<open>2 ^ 64\<close>, with the checked operations of the
  code written out.
\<close>

unbundle bit_operations_syntax

section \<open>Constants and results\<close>

definition MAX_LEGACY_LEN :: nat where "MAX_LEGACY_LEN = 1232"

definition MAX_V1_LEN :: nat where "MAX_V1_LEN = 4096"

definition MAX_BASE58_LEN :: nat where "MAX_BASE58_LEN = 1683"

definition MAX_BASE64_LEN :: nat where "MAX_BASE64_LEN = 5464"

definition V1_PREFIX :: byte where "V1_PREFIX = 0x81"

definition MAX_COMPUTE_UNITS :: u64 where "MAX_COMPUTE_UNITS = 1400000"

definition DEFAULT_INSTRUCTION_COMPUTE_UNITS :: u64 where
  "DEFAULT_INSTRUCTION_COMPUTE_UNITS = 200000"

definition DEFAULT_BUILTIN_COMPUTE_UNITS :: u64 where
  "DEFAULT_BUILTIN_COMPUTE_UNITS = 3000"

definition COMPUTE_BUDGET_ID :: bytes where
  "COMPUTE_BUDGET_ID =
     [3, 6, 70, 111, 229, 33, 23, 50, 255, 236, 173, 186, 114, 195, 155, 231, 188, 140, 229, 187,
      197, 247, 18, 107, 44, 67, 155, 58, 64, 0, 0, 0]"

definition BUILTIN_PROGRAM_IDS :: "bytes list" where
  "BUILTIN_PROGRAM_IDS =
     [replicate 32 0,
      COMPUTE_BUDGET_ID,
      [2, 168, 246, 145, 78, 136, 161, 176, 226, 16, 21, 62, 247, 99, 174, 43, 0, 194, 185, 61,
       22, 193, 36, 210, 192, 83, 122, 16, 4, 128, 0, 0],
      [2, 168, 246, 145, 78, 136, 161, 107, 189, 35, 149, 133, 95, 100, 4, 217, 180, 244, 86, 183,
       130, 27, 176, 20, 87, 73, 66, 140, 0, 0, 0, 0],
      [2, 168, 246, 145, 78, 136, 161, 110, 57, 90, 225, 40, 148, 143, 250, 105, 86, 147, 55, 104,
       24, 221, 71, 67, 82, 33, 243, 198, 0, 0, 0, 0],
      [5, 18, 180, 17, 81, 81, 227, 122, 173, 10, 139, 197, 211, 136, 46, 123, 127, 218, 76, 243,
       210, 192, 40, 200, 207, 131, 54, 24, 0, 0, 0, 0],
      [4, 198, 252, 32, 240, 80, 204, 240, 85, 132, 215, 33, 28, 159, 140, 245, 158, 193, 71, 133,
       187, 22, 106, 30, 40, 48, 232, 18, 32, 0, 0, 0],
      [3, 125, 70, 214, 124, 147, 251, 190, 18, 249, 66, 143, 131, 141, 64, 255, 5, 112, 116, 73,
       39, 244, 138, 100, 252, 202, 112, 68, 128, 0, 0, 0]]"

datatype decode_error = Unparsed | Unsupported | InvalidBudget

record transaction_info =
  ti_cu_limit :: u64
  ti_cu_limit_defaulted :: bool
  ti_cu_price_micro_lamports :: "u64 option"
  ti_requested_priority_fee_lamports :: "u64 option"
  ti_num_instructions :: u64
  ti_num_signatures :: u64
  ti_is_versioned :: bool

section \<open>The cursor\<close>

record cursor =
  cu_bytes :: bytes
  cu_pos :: nat

definition cursor_new :: "bytes \<Rightarrow> cursor" where
  "cursor_new bs = \<lparr>cu_bytes = bs, cu_pos = 0\<rparr>"

text \<open>A reader threads the cursor and stops at the first error, as \<open>?\<close> does.\<close>

type_synonym 'a reader = "cursor \<Rightarrow> decode_error + ('a \<times> cursor)"

definition rd_bind :: "'a reader \<Rightarrow> ('a \<Rightarrow> 'b reader) \<Rightarrow> 'b reader" where
  "rd_bind r f c = (case r c of Inl e \<Rightarrow> Inl e | Inr (x, c') \<Rightarrow> f x c')"

definition rd_return :: "'a \<Rightarrow> 'a reader" where
  "rd_return x c = Inr (x, c)"

definition rd_fail :: "decode_error \<Rightarrow> 'a reader" where
  "rd_fail e c = Inl e"

definition cursor_take :: "nat \<Rightarrow> bytes reader" where
  "cursor_take len c =
     (let end' = cu_pos c + len in
      if 2 ^ 64 \<le> end' then Inl Unparsed
      else if length (cu_bytes c) < end' then Inl Unparsed
      else Inr (take len (drop (cu_pos c) (cu_bytes c)), c\<lparr>cu_pos := end'\<rparr>))"

definition cursor_byte :: "byte reader" where
  "cursor_byte = rd_bind (cursor_take 1) (\<lambda>bs. rd_return (hd bs))"

definition cursor_skip :: "nat \<Rightarrow> unit reader" where
  "cursor_skip len = rd_bind (cursor_take len) (\<lambda>_. rd_return ())"

definition cursor_remaining :: "cursor \<Rightarrow> nat" where
  "cursor_remaining c = length (cu_bytes c) - cu_pos c"

definition checked_mul :: "nat \<Rightarrow> nat \<Rightarrow> nat reader" where
  "checked_mul a b = (if a * b < 2 ^ 64 then rd_return (a * b) else rd_fail Unparsed)"

fun shortvec_loop :: "nat list \<Rightarrow> usize \<Rightarrow> nat reader" where
  "shortvec_loop [] val = rd_fail Unparsed"
| "shortvec_loop (shift # shifts) val =
     rd_bind cursor_byte (\<lambda>b.
       if shift = 14 \<and> 3 < b then rd_fail Unparsed
       else let val = val OR push_bit shift (ucast (b AND 0x7f)) in
         if b AND 0x80 = 0 then
           (if 0 < shift \<and> b = 0 then rd_fail Unparsed else rd_return (unat val))
         else shortvec_loop shifts val)"

definition shortvec :: "nat reader" where
  "shortvec = shortvec_loop [0, 7, 14] 0"

text \<open>\<open>from_le_bytes\<close>.\<close>

fun le_nat :: "bytes \<Rightarrow> nat" where
  "le_nat [] = 0"
| "le_nat (b # bs) = unat b + 256 * le_nat bs"

definition u64_from_le :: "bytes \<Rightarrow> u64" where "u64_from_le bs = of_nat (le_nat bs)"

definition u32_from_le :: "bytes \<Rightarrow> u32" where "u32_from_le bs = of_nat (le_nat bs)"

definition u16_from_le :: "bytes \<Rightarrow> u16" where "u16_from_le bs = of_nat (le_nat bs)"

section \<open>Legacy and v0 transactions\<close>

record budget =
  bu_explicit_limit :: "u64 option"
  bu_price :: "u64 option"
  bu_default_limit :: u64

definition budget_new :: budget where
  "budget_new = \<lparr>bu_explicit_limit = None, bu_price = None, bu_default_limit = 0\<rparr>"

definition budget_instruction :: "bytes \<Rightarrow> bytes \<Rightarrow> budget \<Rightarrow> decode_error + budget" where
  "budget_instruction program_key data st =
     (let st = st\<lparr>bu_default_limit := u64_saturating_add (bu_default_limit st)
            (if program_key \<in> set BUILTIN_PROGRAM_IDS then DEFAULT_BUILTIN_COMPUTE_UNITS
             else DEFAULT_INSTRUCTION_COMPUTE_UNITS)\<rparr>
      in if program_key \<noteq> COMPUTE_BUDGET_ID then Inr st
         else case data of
             [] \<Rightarrow> Inl InvalidBudget
           | tag # _ \<Rightarrow>
               if tag = 2 then
                 (if length data < 5 \<or> bu_explicit_limit st \<noteq> None then Inl InvalidBudget
                  else Inr (st\<lparr>bu_explicit_limit :=
                    Some (ucast (u32_from_le (take 4 (drop 1 data))))\<rparr>))
               else if tag = 3 then
                 (if length data < 9 \<or> bu_price st \<noteq> None then Inl InvalidBudget
                  else Inr (st\<lparr>bu_price := Some (u64_from_le (take 8 (drop 1 data)))\<rparr>))
               else Inr st)"

definition rd_lift :: "decode_error + 'a \<Rightarrow> 'a reader" where
  "rd_lift r = (case r of Inl e \<Rightarrow> rd_fail e | Inr x \<Rightarrow> rd_return x)"

fun decode_instructions :: "nat \<Rightarrow> nat \<Rightarrow> bytes \<Rightarrow> budget \<Rightarrow> budget reader" where
  "decode_instructions 0 key_count keys st = rd_return st"
| "decode_instructions (Suc n) key_count keys st =
     rd_bind cursor_byte (\<lambda>b.
       let program_index = unat b in
       if key_count \<le> program_index then rd_fail Unparsed
       else
         rd_bind shortvec (\<lambda>accounts.
         rd_bind (cursor_skip accounts) (\<lambda>_.
         rd_bind shortvec (\<lambda>data_len.
         rd_bind (cursor_take data_len) (\<lambda>data.
         rd_bind (rd_lift (budget_instruction (take 32 (drop (program_index * 32) keys)) data st)) (\<lambda>st.
         decode_instructions n key_count keys st))))))"

definition priority_fee :: "u64 \<Rightarrow> u64 \<Rightarrow> u64" where
  "priority_fee effective_cu_limit p =
     (let product = min (unat effective_cu_limit * unat p) (2 ^ 128 - 1);
          fee = min (product + 999999) (2 ^ 128 - 1) div 1000000
      in of_nat (min fee (2 ^ 64 - 1)))"

definition budget_info :: "budget \<Rightarrow> nat \<Rightarrow> nat \<Rightarrow> bool \<Rightarrow> transaction_info" where
  "budget_info st instruction_count num_signatures is_versioned =
     (case (case bu_explicit_limit st of
              Some limit \<Rightarrow> (limit, min limit MAX_COMPUTE_UNITS, False)
            | None \<Rightarrow>
                (let limit = min (bu_default_limit st) MAX_COMPUTE_UNITS in (limit, limit, True)))
      of (cu_limit, effective_cu_limit, cu_limit_defaulted) \<Rightarrow>
        \<lparr>ti_cu_limit = cu_limit, ti_cu_limit_defaulted = cu_limit_defaulted,
         ti_cu_price_micro_lamports = bu_price st,
         ti_requested_priority_fee_lamports = map_option (priority_fee effective_cu_limit) (bu_price st),
         ti_num_instructions = of_nat instruction_count, ti_num_signatures = of_nat num_signatures,
         ti_is_versioned = is_versioned\<rparr>)"

definition decode_legacy :: "transaction_info reader" where
  "decode_legacy =
     rd_bind shortvec (\<lambda>num_signatures.
     rd_bind (checked_mul num_signatures 64) (\<lambda>sig_len.
     rd_bind (cursor_skip sig_len) (\<lambda>_.
     rd_bind cursor_byte (\<lambda>first.
     let is_versioned = (first AND 0x80 \<noteq> 0) in
     rd_bind (if is_versioned then (if first \<noteq> 0x80 then rd_fail Unsupported else cursor_skip 3)
              else cursor_skip 2) (\<lambda>_.
     rd_bind shortvec (\<lambda>key_count.
     rd_bind (checked_mul key_count 32) (\<lambda>keys_len.
     rd_bind (cursor_take keys_len) (\<lambda>keys.
     rd_bind (cursor_skip 32) (\<lambda>_.
     rd_bind shortvec (\<lambda>instruction_count.
     rd_bind (decode_instructions instruction_count key_count keys budget_new) (\<lambda>st.
     rd_return (budget_info st instruction_count num_signatures is_versioned))))))))))))"

section \<open>Version 1 transactions\<close>

record v1_config =
  vc_fee_low :: "u32 option"
  vc_fee_high :: "u32 option"
  vc_limit :: "u32 option"

definition v1_config_set :: "nat \<Rightarrow> u32 \<Rightarrow> v1_config \<Rightarrow> v1_config" where
  "v1_config_set b v st =
     (if b = 0 then st\<lparr>vc_fee_low := Some v\<rparr>
      else if b = 1 then st\<lparr>vc_fee_high := Some v\<rparr>
      else if b = 2 then st\<lparr>vc_limit := Some v\<rparr> else st)"

fun v1_config_values :: "nat list \<Rightarrow> v1_config \<Rightarrow> v1_config reader" where
  "v1_config_values [] st = rd_return st"
| "v1_config_values (b # bs) st =
     rd_bind (cursor_take 4) (\<lambda>v. v1_config_values bs (v1_config_set b (u32_from_le v) st))"

definition v1_fee :: "v1_config \<Rightarrow> decode_error + u64 option" where
  "v1_fee st =
     (case (vc_fee_low st, vc_fee_high st) of
        (Some low, Some high) \<Rightarrow> Inr (Some (push_bit 32 (ucast high) OR ucast low))
      | (None, None) \<Rightarrow> Inr None
      | _ \<Rightarrow> Inl InvalidBudget)"

fun v1_headers :: "nat \<Rightarrow> nat \<Rightarrow> nat \<Rightarrow> nat reader" where
  "v1_headers 0 num_addresses payload_len = rd_return payload_len"
| "v1_headers (Suc n) num_addresses payload_len =
     rd_bind cursor_byte (\<lambda>b.
       if num_addresses \<le> unat b then rd_fail Unparsed
       else
         rd_bind cursor_byte (\<lambda>accounts.
         rd_bind (cursor_take 2) (\<lambda>data_len.
         v1_headers n num_addresses (payload_len + (unat accounts + unat (u16_from_le data_len))))))"

text \<open>\<open>floor(fee * 1e6 / limit)\<close>, zero without a limit, saturated to \<open>u64\<close>.\<close>

definition v1_price :: "u64 \<Rightarrow> u64 \<Rightarrow> u64" where
  "v1_price effective_cu_limit fee =
     (if effective_cu_limit = 0 then 0
      else of_nat (min (unat fee * 1000000 div unat effective_cu_limit) (2 ^ 64 - 1)))"

definition v1_info :: "v1_config \<Rightarrow> u64 option \<Rightarrow> nat \<Rightarrow> nat \<Rightarrow> transaction_info" where
  "v1_info st fee num_instructions num_signatures =
     (let cu_limit = ucast (case vc_limit st of None \<Rightarrow> 0 | Some l \<Rightarrow> l);
          effective_cu_limit = min cu_limit MAX_COMPUTE_UNITS
      in \<lparr>ti_cu_limit = cu_limit, ti_cu_limit_defaulted = (vc_limit st = None),
          ti_cu_price_micro_lamports = map_option (v1_price effective_cu_limit) fee,
          ti_requested_priority_fee_lamports = fee,
          ti_num_instructions = of_nat num_instructions, ti_num_signatures = of_nat num_signatures,
          ti_is_versioned = True\<rparr>)"

definition decode_v1 :: "transaction_info reader" where
  "decode_v1 =
     rd_bind (cursor_skip 1) (\<lambda>_.
     rd_bind cursor_byte (\<lambda>num_signatures.
     rd_bind (cursor_skip 2) (\<lambda>_.
     rd_bind (cursor_take 4) (\<lambda>mask_bytes.
     let mask = u32_from_le mask_bytes in
     rd_bind (cursor_skip 32) (\<lambda>_.
     rd_bind cursor_byte (\<lambda>num_instructions.
     rd_bind cursor_byte (\<lambda>num_addresses.
     rd_bind (cursor_skip (unat num_addresses * 32)) (\<lambda>_.
     rd_bind (v1_config_values (filter (\<lambda>b. bit mask b) [0..<32])
        \<lparr>vc_fee_low = None, vc_fee_high = None, vc_limit = None\<rparr>) (\<lambda>st.
     rd_bind (rd_lift (v1_fee st)) (\<lambda>fee.
     rd_bind (v1_headers (unat num_instructions) (unat num_addresses) 0) (\<lambda>payload_len.
     rd_bind (cursor_skip payload_len) (\<lambda>_ c.
       if cursor_remaining c \<noteq> unat num_signatures * 64 then Inl Unparsed
       else rd_return (v1_info st fee (unat num_instructions) (unat num_signatures)) c))))))))))))"

section \<open>Entry points\<close>

definition decode_transaction :: "bytes \<Rightarrow> decode_error + transaction_info" where
  "decode_transaction bs =
     (if bs \<noteq> [] \<and> hd bs = V1_PREFIX then map_sum id fst (decode_v1 (cursor_new bs))
      else if bs \<noteq> [] \<and> V1_PREFIX < hd bs then Inl Unsupported
      else map_sum id fst (decode_legacy (cursor_new bs)))"

definition decode_text ::
  "(string \<Rightarrow> bytes option) \<Rightarrow> (string \<Rightarrow> bytes option) \<Rightarrow> string \<Rightarrow> string \<Rightarrow> decode_error + bytes" where
  "decode_text base58 base64 encoding encoded =
     (if encoding = ''base58'' then
        (if MAX_BASE58_LEN < length encoded then Inl Unparsed
         else case base58 encoded of None \<Rightarrow> Inl Unparsed | Some bs \<Rightarrow> Inr bs)
      else if encoding = ''base64'' then
        (case base64 encoded of None \<Rightarrow> Inl Unparsed | Some bs \<Rightarrow> Inr bs)
      else Inl Unsupported)"

definition encoding_param :: "json list \<Rightarrow> string" where
  "encoding_param params =
     (case (case params of _ # p1 # _ \<Rightarrow> Option.bind (json_get ''encoding'' p1) json_as_str | _ \<Rightarrow> None) of
        None \<Rightarrow> ''base58''
      | Some e \<Rightarrow> e)"

definition decode_request ::
  "json_parser \<Rightarrow> (string \<Rightarrow> bytes option) \<Rightarrow> (string \<Rightarrow> bytes option) \<Rightarrow> bytes \<Rightarrow>
   decode_error + transaction_info" where
  "decode_request parse base58 base64 body =
     (case parse body of
        None \<Rightarrow> Inl Unparsed
      | Some request \<Rightarrow>
          (case Option.bind (json_get ''params'' request) json_as_array of
             None \<Rightarrow> Inl Unparsed
           | Some params \<Rightarrow>
               (case (case params of [] \<Rightarrow> None | p # _ \<Rightarrow> json_as_str p) of
                  None \<Rightarrow> Inl Unparsed
                | Some encoded \<Rightarrow>
                    if MAX_BASE64_LEN < length encoded then Inl Unparsed
                    else case decode_text base58 base64 (encoding_param params) encoded of
                        Inl e \<Rightarrow> Inl e
                      | Inr bs \<Rightarrow>
                          (let max_len = (if bs \<noteq> [] \<and> hd bs = V1_PREFIX then MAX_V1_LEN
                             else MAX_LEGACY_LEN)
                           in if max_len < length bs then Inl Unparsed else decode_transaction bs))))"

text \<open>The cursor between a consumed prefix and the rest.\<close>

definition cursor_at :: "bytes \<Rightarrow> bytes \<Rightarrow> cursor" where
  "cursor_at pre rest = \<lparr>cu_bytes = pre @ rest, cu_pos = length pre\<rparr>"

text \<open>A reader that consumes exactly \<open>bs\<close> and gives \<open>x\<close>, whatever surrounds it.\<close>

definition reads :: "'a reader \<Rightarrow> bytes \<Rightarrow> 'a \<Rightarrow> bool" where
  "reads r bs x \<longleftrightarrow> (\<forall>pre post. length (pre @ bs @ post) < 2 ^ 64 \<longrightarrow>
     r (cursor_at pre (bs @ post)) = Inr (x, cursor_at (pre @ bs) post))"

text \<open>The canonical compact-u16 encoding.\<close>

definition encode_shortvec :: "nat \<Rightarrow> bytes" where
  "encode_shortvec n =
     (if n < 128 then [of_nat n]
      else if n < 16384 then [of_nat (n mod 128 + 128), of_nat (n div 128)]
      else [of_nat (n mod 128 + 128), of_nat (n div 128 mod 128 + 128), of_nat (n div 16384)])"

text \<open>\<open>shortvec\<close> with its bit operations read as arithmetic.\<close>

definition shortvec_arith :: "nat reader" where
  "shortvec_arith =
     rd_bind cursor_byte (\<lambda>b0.
       if unat b0 < 128 then rd_return (unat b0)
       else rd_bind cursor_byte (\<lambda>b1.
         if unat b1 < 128 then
           (if b1 = 0 then rd_fail Unparsed else rd_return (unat b0 mod 128 + 128 * unat b1))
         else rd_bind cursor_byte (\<lambda>b2.
           if 3 < b2 \<or> b2 = 0 then rd_fail Unparsed
           else rd_return (unat b0 mod 128 + 128 * (unat b1 mod 128) + 16384 * unat b2))))"

text \<open>The wire format of a legacy or v0 transaction, as the Solana message format lays it out.\<close>

record compiled_instruction =
  ci_program :: byte
  ci_accounts :: bytes
  ci_data :: bytes

record wire_transaction =
  wt_signatures :: "bytes list"
  wt_versioned :: bool
  wt_header :: bytes
  wt_keys :: "bytes list"
  wt_blockhash :: bytes
  wt_instructions :: "compiled_instruction list"
  wt_lookups :: bytes

definition encode_instruction :: "compiled_instruction \<Rightarrow> bytes" where
  "encode_instruction i = ci_program i # encode_shortvec (length (ci_accounts i)) @ ci_accounts i @
     encode_shortvec (length (ci_data i)) @ ci_data i"

definition encode_wire :: "wire_transaction \<Rightarrow> bytes" where
  "encode_wire t =
     encode_shortvec (length (wt_signatures t)) @ concat (wt_signatures t) @
     (if wt_versioned t then [0x80] else []) @ wt_header t @
     encode_shortvec (length (wt_keys t)) @ concat (wt_keys t) @ wt_blockhash t @
     encode_shortvec (length (wt_instructions t)) @ concat (map encode_instruction (wt_instructions t)) @
     wt_lookups t"

definition wf_instruction :: "nat \<Rightarrow> compiled_instruction \<Rightarrow> bool" where
  "wf_instruction key_count i \<longleftrightarrow> unat (ci_program i) < key_count \<and>
     length (ci_accounts i) < 65536 \<and> length (ci_data i) < 65536"

definition wf_wire :: "wire_transaction \<Rightarrow> bool" where
  "wf_wire t \<longleftrightarrow> length (wt_signatures t) < 128 \<and> list_all (\<lambda>s. length s = 64) (wt_signatures t) \<and>
     length (wt_header t) = 3 \<and> (wt_versioned t \<or> hd (wt_header t) AND 0x80 = 0) \<and>
     length (wt_keys t) < 65536 \<and> list_all (\<lambda>k. length k = 32) (wt_keys t) \<and>
     length (wt_blockhash t) = 32 \<and> length (wt_instructions t) < 65536 \<and>
     list_all (wf_instruction (length (wt_keys t))) (wt_instructions t) \<and>
     length (encode_wire t) < 2 ^ 64"

fun budget_run :: "(bytes \<times> bytes) list \<Rightarrow> budget \<Rightarrow> decode_error + budget" where
  "budget_run [] st = Inr st"
| "budget_run ((key, data) # rest) st =
     (case budget_instruction key data st of Inl e \<Rightarrow> Inl e | Inr st \<Rightarrow> budget_run rest st)"

definition wire_calls :: "bytes list \<Rightarrow> compiled_instruction list \<Rightarrow> (bytes \<times> bytes) list" where
  "wire_calls keys is = map (\<lambda>i. (keys ! unat (ci_program i), ci_data i)) is"

fun le_bytes :: "nat \<Rightarrow> nat \<Rightarrow> bytes" where
  "le_bytes 0 n = []"
| "le_bytes (Suc k) n = of_nat (n mod 256) # le_bytes k (n div 256)"

record wire_v1 =
  v1_header :: bytes
  v1_mask :: u32
  v1_lifetime :: bytes
  v1_addresses :: "bytes list"
  v1_values :: "bytes list"
  v1_instructions :: "compiled_instruction list"
  v1_signatures :: "bytes list"

definition mask_bits :: "u32 \<Rightarrow> nat list" where
  "mask_bits m = filter (\<lambda>b. bit m b) [0..<32]"

definition v1_instruction_header :: "compiled_instruction \<Rightarrow> bytes" where
  "v1_instruction_header i =
     ci_program i # of_nat (length (ci_accounts i)) # le_bytes 2 (length (ci_data i))"

definition v1_payload :: "compiled_instruction \<Rightarrow> bytes" where
  "v1_payload i = ci_accounts i @ ci_data i"

definition encode_v1 :: "wire_v1 \<Rightarrow> bytes" where
  "encode_v1 t =
     V1_PREFIX # of_nat (length (v1_signatures t)) # v1_header t @ le_bytes 4 (unat (v1_mask t)) @
     v1_lifetime t @ of_nat (length (v1_instructions t)) # of_nat (length (v1_addresses t)) #
     concat (v1_addresses t) @ concat (v1_values t) @
     concat (map v1_instruction_header (v1_instructions t)) @
     concat (map v1_payload (v1_instructions t)) @ concat (v1_signatures t)"

definition wf_v1_instruction :: "nat \<Rightarrow> compiled_instruction \<Rightarrow> bool" where
  "wf_v1_instruction num_addresses i \<longleftrightarrow> unat (ci_program i) < num_addresses \<and>
     length (ci_accounts i) < 256 \<and> length (ci_data i) < 65536"

definition wf_v1 :: "wire_v1 \<Rightarrow> bool" where
  "wf_v1 t \<longleftrightarrow> length (v1_signatures t) < 256 \<and> list_all (\<lambda>s. length s = 64) (v1_signatures t) \<and>
     length (v1_header t) = 2 \<and> length (v1_lifetime t) = 32 \<and>
     length (v1_addresses t) < 256 \<and> list_all (\<lambda>a. length a = 32) (v1_addresses t) \<and>
     length (v1_values t) = length (mask_bits (v1_mask t)) \<and> list_all (\<lambda>v. length v = 4) (v1_values t) \<and>
     length (v1_instructions t) < 256 \<and>
     list_all (wf_v1_instruction (length (v1_addresses t))) (v1_instructions t) \<and>
     length (encode_v1 t) < 2 ^ 64"

definition v1_config_of :: "u32 \<Rightarrow> bytes list \<Rightarrow> v1_config" where
  "v1_config_of m vals = fold (\<lambda>(b, v) st. v1_config_set b (u32_from_le v) st)
     (zip (mask_bits m) vals) \<lparr>vc_fee_low = None, vc_fee_high = None, vc_limit = None\<rparr>"

definition is_budget_call :: "byte \<Rightarrow> bytes \<times> bytes \<Rightarrow> bool" where
  "is_budget_call tag c \<longleftrightarrow> fst c = COMPUTE_BUDGET_ID \<and> snd c \<noteq> [] \<and> hd (snd c) = tag"

definition opt_list :: "'a option \<Rightarrow> 'a list" where
  "opt_list x = (case x of None \<Rightarrow> [] | Some v \<Rightarrow> [v])"

definition limit_values :: "(bytes \<times> bytes) list \<Rightarrow> u64 list" where
  "limit_values calls = map (\<lambda>c. ucast (u32_from_le (take 4 (drop 1 (snd c))))) (filter (is_budget_call 2) calls)"

definition price_values :: "(bytes \<times> bytes) list \<Rightarrow> u64 list" where
  "price_values calls = map (\<lambda>c. u64_from_le (take 8 (drop 1 (snd c)))) (filter (is_budget_call 3) calls)"

definition demo_wire :: wire_transaction where
  "demo_wire = \<lparr>wt_signatures = [], wt_versioned = False, wt_header = [0, 0, 0],
     wt_keys = [COMPUTE_BUDGET_ID], wt_blockhash = replicate 32 7,
     wt_instructions = [\<lparr>ci_program = 0, ci_accounts = [], ci_data = [3, 64, 66, 15, 0, 0, 0, 0, 0]\<rparr>],
     wt_lookups = []\<rparr>"

definition demo_v1 :: wire_v1 where
  "demo_v1 = \<lparr>v1_header = [0, 0], v1_mask = 0, v1_lifetime = replicate 32 7, v1_addresses = [],
     v1_values = [], v1_instructions = [], v1_signatures = []\<rparr>"

definition demo_request_parse :: json_parser where
  "demo_request_parse body = Some (JObj [(''params'', JArr [JStr False ''tx''])])"

lemma len64: "LENGTH(64) = 64"
  by simp

lemma byte_low: "unat (b AND 0x7f :: byte) = unat b mod 128"
proof -
  have "b AND 0x7f = take_bit 7 b" by (simp add: take_bit_eq_mask mask_eq_exp_minus_1)
  then have "unat (b AND 0x7f) = take_bit 7 (unat b)" by (simp only: unsigned_take_bit_eq)
  then show ?thesis by (simp add: take_bit_eq_mod)
qed

lemma byte_high: "(b AND 0x80 :: byte) = 0 \<longleftrightarrow> unat b < 128"
proof -
  have "(b AND 0x80 :: byte) = 0 \<longleftrightarrow> \<not> bit b 7"
    using and_exp_eq_0_iff_not_bit[of b 7] by simp
  also have "\<dots> \<longleftrightarrow> \<not> bit (unat b) 7" by (simp add: bit_unsigned_iff)
  also have "\<dots> \<longleftrightarrow> even (unat b div 128)" by (simp add: bit_iff_odd)
  also have "\<dots> \<longleftrightarrow> unat b < 128"
  proof (cases "unat b < 128")
    case False
    then have "unat b div 128 = 1" using u8_bound[of b] by (intro div_nat_eqI) simp_all
    with False show ?thesis by simp
  qed simp
  finally show ?thesis .
qed

lemma shortvec_digit:
  assumes "unat v < 2 ^ k" "k \<le> 14" "unat (x :: byte) < 128"
  shows "unat (v OR push_bit k (ucast x) :: usize) = unat v + 2 ^ k * unat x"
proof -
  have ux: "unat (ucast x :: usize) = unat x"
    using u8_bound[of x] by (simp add: unsigned_ucast_eq take_bit_nat_eq_self)
  have "v AND push_bit k (ucast x) = 0"
  proof (rule bit_eqI)
    fix n
    show "bit (v AND push_bit k (ucast x)) n = bit 0 n"
    proof (cases "n < k")
      case False
      have "unat v < 2 ^ n" using assms(1) False
        by (meson linorder_not_le order_less_le_trans power_increasing one_le_numeral)
      then have "\<not> bit (unat v) n" by (simp add: bit_iff_odd)
      then show ?thesis by (simp add: bit_and_iff bit_unsigned_iff)
    qed (simp add: bit_and_iff bit_push_bit_iff)
  qed
  then have "v OR push_bit k (ucast x) = v + push_bit k (ucast x)"
    by (simp add: disjunctive_add_eq_or)
  moreover have "unat (push_bit k (ucast x) :: usize) = 2 ^ k * unat x"
  proof -
    have "(2 :: nat) ^ k \<le> 2 ^ 14" using assms(2) by (intro power_increasing) simp_all
    then have "2 ^ k * unat x < 2 ^ 14 * 128" using assms(3)
      by (intro mult_le_less_imp_less) auto
    moreover have "unat (push_bit k (ucast x) :: usize) = take_bit 64 (push_bit k (unat x))"
      by (simp only: unsigned_push_bit_eq ux len64)
    ultimately show ?thesis by (simp add: push_bit_eq_mult take_bit_nat_eq_self mult.commute)
  qed
  moreover have "unat v + 2 ^ k * unat x < 2 ^ 64"
  proof -
    have "(2 :: nat) ^ k \<le> 2 ^ 14" using assms(2) by (intro power_increasing) simp_all
    then have "2 ^ k * unat x \<le> 2 ^ 14 * 128" using assms(3) by (intro mult_le_mono) auto
    moreover have "unat v < 2 ^ 14" using assms(1,2)
      by (meson order_less_le_trans power_increasing one_le_numeral)
    ultimately show ?thesis by simp
  qed
  ultimately show ?thesis by (simp add: unat_word_ariths)
qed

section \<open>Readers and encodings\<close>

lemma reads_return [cursor_simps]: "reads (rd_return x) [] x"
  by (simp add: reads_def rd_return_def)

lemma reads_bind [cursor_simps]:
  assumes "reads r bs x" "reads (f x) bs' y"
  shows "reads (rd_bind r f) (bs @ bs') y"
  using assms by (simp add: reads_def rd_bind_def)

lemma reads_take [cursor_simps]: "length bs = n \<Longrightarrow> reads (cursor_take n) bs bs"
  by (simp add: reads_def cursor_take_def cursor_at_def)

lemma reads_skip [cursor_simps]: "length bs = n \<Longrightarrow> reads (cursor_skip n) bs ()"
  using reads_bind[OF reads_take reads_return] by (fastforce simp: cursor_skip_def)

lemma reads_byte [cursor_simps]: "reads cursor_byte [b] b"
  using reads_bind[of "cursor_take 1" "[b]" "[b]" "\<lambda>bs. rd_return (hd bs)" "[]" b]
  by (simp add: cursor_byte_def reads_take reads_return)

lemma reads_if: "reads (if P then r else s) bs x = (if P then reads r bs x else reads s bs x)"
  by simp

section \<open>Inversion of readers\<close>

lemma rd_bind_Inr:
  "rd_bind r f c = Inr (y, c'') \<longleftrightarrow> (\<exists>x c'. r c = Inr (x, c') \<and> f x c' = Inr (y, c''))"
  by (auto simp: rd_bind_def split: sum.splits)

lemma cursor_take_Inr:
  "cursor_take n c = Inr (bs, c') \<longleftrightarrow> cu_pos c + n < 2 ^ 64 \<and> cu_pos c + n \<le> length (cu_bytes c) \<and>
     bs = take n (drop (cu_pos c) (cu_bytes c)) \<and> c' = c\<lparr>cu_pos := cu_pos c + n\<rparr>"
  by (auto simp: cursor_take_def Let_def)

lemma cursor_byte_Inr:
  "cursor_byte c = Inr (b, c') \<longleftrightarrow> cu_pos c + 1 < 2 ^ 64 \<and> cu_pos c < length (cu_bytes c) \<and>
     b = cu_bytes c ! cu_pos c \<and> c' = c\<lparr>cu_pos := cu_pos c + 1\<rparr>"
  by (auto simp: cursor_byte_def rd_bind_Inr cursor_take_Inr rd_return_def hd_drop_conv_nth hd_take)

lemma rd_return_Inr [simp]: "rd_return x c = Inr (y, c') \<longleftrightarrow> y = x \<and> c' = c"
  by (auto simp: rd_return_def)

lemma rd_fail_Inr [simp]: "\<not> rd_fail e c = Inr r"
  by (simp add: rd_fail_def)

section \<open>The length prefix\<close>

lemma rd_bind_cong: "(\<And>x. f x = g x) \<Longrightarrow> rd_bind r f = rd_bind r g"
  by (simp add: rd_bind_def fun_eq_iff split: sum.split)

lemma ucast_byte: "unat (ucast (x :: byte) :: usize) = unat x"
  using u8_bound[of x] by (simp add: unsigned_ucast_eq take_bit_nat_eq_self)

lemma shortvec_eq_arith: "shortvec = shortvec_arith"
proof -
  let ?x = "\<lambda>b :: byte. ucast (b AND 0x7f) :: usize"
  have low: "unat (b AND 0x7f) < 128" for b :: byte by (simp add: byte_low)
  have d1: "unat (?x b0 OR push_bit 7 (?x b1)) = unat b0 mod 128 + 128 * (unat b1 mod 128)" for b0 b1
    using shortvec_digit[of "?x b0" 7 "b1 AND 0x7f"] low[of b0] low[of b1]
    by (simp add: ucast_byte byte_low)
  have d2: "unat ((?x b0 OR push_bit 7 (?x b1)) OR push_bit 14 (?x b2)) =
      unat b0 mod 128 + 128 * (unat b1 mod 128) + 16384 * (unat b2 mod 128)" for b0 b1 b2
  proof -
    have "unat b0 mod 128 + 128 * (unat b1 mod 128) < 2 ^ 14"
      using mod_less_divisor[of 128 "unat b0"] mod_less_divisor[of 128 "unat b1"] by simp
    then show ?thesis
      using shortvec_digit[of "?x b0 OR push_bit 7 (?x b1)" 14 "b2 AND 0x7f"] low[of b2]
      by (simp only: d1 byte_low) simp
  qed
  have small: "unat b < 128 \<and> unat b mod 128 = unat b" if "\<not> 3 < b" for b :: byte
    using that by (simp add: word_less_nat_alt)
  have s3: "shortvec_loop [14] (?x b0 OR push_bit 7 (?x b1)) = rd_bind cursor_byte (\<lambda>b2.
      if 3 < b2 \<or> b2 = 0 then rd_fail Unparsed
      else rd_return (unat b0 mod 128 + 128 * (unat b1 mod 128) + 16384 * unat b2))" for b0 b1
    unfolding shortvec_loop.simps
    by (rule rd_bind_cong) (auto simp: Let_def byte_high d2 dest: small simp del: push_bit_numeral)
  have s2: "shortvec_loop [7, 14] (?x b0) = rd_bind cursor_byte (\<lambda>b1.
      if unat b1 < 128 then
        (if b1 = 0 then rd_fail Unparsed else rd_return (unat b0 mod 128 + 128 * unat b1))
      else rd_bind cursor_byte (\<lambda>b2.
        if 3 < b2 \<or> b2 = 0 then rd_fail Unparsed
        else rd_return (unat b0 mod 128 + 128 * (unat b1 mod 128) + 16384 * unat b2)))" for b0
    unfolding shortvec_loop.simps(2)[of 7]
    by (rule rd_bind_cong) (auto simp: Let_def byte_high d1 s3 simp del: push_bit_numeral shortvec_loop.simps)
  show ?thesis unfolding shortvec_def shortvec_arith_def shortvec_loop.simps(2)[of 0]
    by (rule rd_bind_cong)
      (auto simp: Let_def byte_high byte_low ucast_byte s2 simp del: push_bit_numeral shortvec_loop.simps)
qed

lemma reads_byte_bind: "reads (f b) bs y \<Longrightarrow> reads (rd_bind cursor_byte f) (b # bs) y"
  using reads_bind[OF reads_byte] by fastforce

lemma unat_byte: "n < 256 \<Longrightarrow> unat (of_nat n :: byte) = n"
  by (simp add: unat_of_nat)

lemma unat_digit: "x < 128 \<Longrightarrow> unat (of_nat x + 128 :: byte) = x + 128"
  using unat_byte[of "x + 128"] by simp

text \<open>A two- or three-digit value and its digits.\<close>

lemma digits_two:
  assumes "x < 128" "0 < y" "y < (128 :: nat)"
  shows "encode_shortvec (x + 128 * y) = [of_nat (x + 128), of_nat y]"
  using assms by (simp add: encode_shortvec_def)

lemma digits_three:
  assumes "x < 128" "y < 128" "0 < z" "z \<le> (3 :: nat)"
  shows "encode_shortvec (x + 128 * y + 16384 * z) = [of_nat (x + 128), of_nat (y + 128), of_nat z]"
proof -
  let ?n = "x + 128 * y + 16384 * z"
  have n: "?n = x + 128 * (y + 128 * z)" by simp
  have dig: "(x + 128 * w) mod 128 = x \<and> (x + 128 * w) div 128 = w" for w using assms(1) by simp
  have "?n mod 128 = x" "?n div 128 = y + 128 * z" unfolding n using dig by blast+
  moreover have "?n div 16384 = z" using assms(1,2) by (intro div_nat_eqI) auto
  moreover have "\<not> ?n < 16384" using assms(3) by simp
  ultimately show ?thesis using assms(2) by (simp add: encode_shortvec_def)
qed

lemma shortvec_cases:
  assumes "n < 65536"
  obtains "n < 128"
  | x y where "n = x + 128 * y" "x < 128" "0 < y" "y < (128 :: nat)"
  | x y z where "n = x + 128 * y + 16384 * z" "x < 128" "y < 128" "0 < z" "z \<le> (3 :: nat)"
proof -
  have n: "n = n mod 128 + 128 * (n div 128)" by simp
  consider "n < 128" | "128 \<le> n" "n < 16384" | "16384 \<le> n" by linarith
  then show thesis
  proof cases
    case 2
    show thesis by (rule that(2)[OF n]) (use 2 in auto)
  next
    case 3
    have "n = n mod 128 + 128 * (n div 128 mod 128) + 16384 * (n div 128 div 128)"
      using mult_div_mod_eq[of 128 "n div 128"] n by linarith
    then show thesis by (rule that(3)) (use 3 assms in \<open>auto simp: div_mult2_eq[symmetric]\<close>)
  qed (rule that(1))
qed

lemma reads_shortvec: "n < 65536 \<Longrightarrow> reads shortvec (encode_shortvec n) n"
proof (erule shortvec_cases)
  assume "n < 128"
  then show ?thesis using reads_return[of n]
    by (simp add: shortvec_eq_arith shortvec_arith_def encode_shortvec_def unat_byte reads_byte_bind)
next
  fix x y assume n: "n = x + 128 * y" "x < 128" "0 < y" "y < (128 :: nat)"
  then have "(of_nat y :: byte) \<noteq> 0" using unat_byte[of y] by auto
  with n show ?thesis using reads_return[of n]
    by (simp add: digits_two shortvec_eq_arith shortvec_arith_def unat_byte unat_digit reads_byte_bind)
next
  fix x y z assume n: "n = x + 128 * y + 16384 * z" "x < 128" "y < 128" "0 < z" "z \<le> (3 :: nat)"
  then have "(of_nat z :: byte) \<noteq> 0" "\<not> 3 < (of_nat z :: byte)"
    using unat_byte[of z] by (auto simp: word_less_nat_alt)
  with n show ?thesis using reads_return[of n]
    by (simp add: digits_three shortvec_eq_arith shortvec_arith_def unat_byte unat_digit reads_byte_bind)
qed

text \<open>
  A length prefix or any other self-delimiting field: every admissible value reads back from its
  encoding, and the reader accepts nothing but encodings.
\<close>

locale codec =
  fixes enc :: "'a \<Rightarrow> bytes" and dec :: "'a reader" and ok :: "'a \<Rightarrow> bool"
  assumes round_trip: "ok x \<Longrightarrow> reads dec (enc x) x"
    and canonical: "dec c = Inr (x, c') \<Longrightarrow> ok x \<and> c' = c\<lparr>cu_pos := cu_pos c + length (enc x)\<rparr> \<and>
      take (length (enc x)) (drop (cu_pos c) (cu_bytes c)) = enc x"

begin

lemma accepts_iff:
  assumes "length (pre @ rest) < 2 ^ 64"
  shows "dec (cursor_at pre rest) = Inr (x, c') \<longleftrightarrow>
    ok x \<and> (\<exists>post. rest = enc x @ post \<and> c' = cursor_at (pre @ enc x) post)"
proof
  assume d: "dec (cursor_at pre rest) = Inr (x, c')"
  then have ok: "ok x" and pre: "take (length (enc x)) rest = enc x"
    using canonical[OF d] by (simp_all add: cursor_at_def)
  then obtain post where post: "rest = enc x @ post" by (metis append_take_drop_id)
  then have "dec (cursor_at pre rest) = Inr (x, cursor_at (pre @ enc x) post)"
    using round_trip[OF ok] assms by (simp add: reads_def)
  with d ok post show "ok x \<and> (\<exists>post. rest = enc x @ post \<and> c' = cursor_at (pre @ enc x) post)" by auto
next
  assume "ok x \<and> (\<exists>post. rest = enc x @ post \<and> c' = cursor_at (pre @ enc x) post)"
  then show "dec (cursor_at pre rest) = Inr (x, c')" using round_trip assms by (auto simp: reads_def)
qed

lemma prefix_free:
  assumes "ok x" "ok y" "enc x @ p = enc y @ q" "length (enc x @ p) < 2 ^ 64"
  shows "x = y"
proof -
  have "dec (cursor_at [] (enc x @ p)) = Inr (x, cursor_at ([] @ enc x) p)"
    using round_trip[OF assms(1), unfolded reads_def, rule_format, of "[]" p] assms(4) by simp
  moreover have "dec (cursor_at [] (enc y @ q)) = Inr (y, cursor_at ([] @ enc y) q)"
    using round_trip[OF assms(2), unfolded reads_def, rule_format, of "[]" q] assms(3,4) by simp
  ultimately show ?thesis using assms(3) by simp
qed

end

lemma byte_of_unat: "(of_nat (unat b) :: byte) = b"
  by simp

lemma take_drop_1: "i < length xs \<Longrightarrow> take 1 (drop i xs) = [xs ! i]"
  by (metis One_nat_def Cons_nth_drop_Suc take_Suc_Cons take_0)

lemma take_drop_Suc: "i < length xs \<Longrightarrow> take (Suc n) (drop i xs) = xs ! i # take n (drop (Suc i) xs)"
  by (metis Cons_nth_drop_Suc take_Suc_Cons)

lemma shortvec_canonical:
  assumes "shortvec c = Inr (n, c')"
  shows "n < 65536 \<and> c' = c\<lparr>cu_pos := cu_pos c + length (encode_shortvec n)\<rparr> \<and>
    take (length (encode_shortvec n)) (drop (cu_pos c) (cu_bytes c)) = encode_shortvec n"
proof -
  let ?b = "\<lambda>i. cu_bytes c ! (cu_pos c + i)" and ?p = "cu_pos c"
  have big: "\<exists>x < 128. unat b = x + 128 \<and> (of_nat (x + 128) :: byte) = b \<and> unat b mod 128 = x"
    if "\<not> unat b < 128" for b :: byte
  proof -
    have "unat b - 128 < 128" "unat b = (unat b - 128) + 128" using u8_bound[of b] that by auto
    moreover from this have "unat b mod 128 = unat b - 128"
      by (metis mod_add_self2 mod_less)
    ultimately show ?thesis by (metis byte_of_unat)
  qed
  from assms consider
      (one) "unat (?b 0) < 128" "n = unat (?b 0)" "?p < length (cu_bytes c)" "c' = c\<lparr>cu_pos := ?p + 1\<rparr>"
    | (two) "\<not> unat (?b 0) < 128" "unat (?b 1) < 128" "?b 1 \<noteq> 0" "?p + 1 < length (cu_bytes c)"
        "n = unat (?b 0) mod 128 + 128 * unat (?b 1)" "c' = c\<lparr>cu_pos := ?p + 2\<rparr>"
    | (three) "\<not> unat (?b 0) < 128" "\<not> unat (?b 1) < 128" "\<not> 3 < ?b 2" "?b 2 \<noteq> 0" "?p + 2 < length (cu_bytes c)"
        "n = unat (?b 0) mod 128 + 128 * (unat (?b 1) mod 128) + 16384 * unat (?b 2)"
        "c' = c\<lparr>cu_pos := ?p + 3\<rparr>"
    by (auto simp: shortvec_eq_arith shortvec_arith_def rd_bind_Inr cursor_byte_Inr split: if_splits)
  then show ?thesis
  proof cases
    case one
    then show ?thesis by (simp add: encode_shortvec_def take_drop_Suc)
  next
    case two
    obtain x where x: "x < 128" "unat (?b 0) = x + 128" "(of_nat (x + 128) :: byte) = ?b 0"
      "unat (?b 0) mod 128 = x" using big[OF two(1)] by blast
    have y: "0 < unat (?b 1)" using two(3) by (simp add: unat_gt_0)
    from two x digits_two[OF x(1) y two(2)] show ?thesis by (simp add: take_drop_Suc)
  next
    case three
    obtain x where x: "x < 128" "(of_nat (x + 128) :: byte) = ?b 0" "unat (?b 0) mod 128 = x"
      using big[OF three(1)] by blast
    obtain y where y: "y < 128" "(of_nat (y + 128) :: byte) = ?b 1" "unat (?b 1) mod 128 = y"
      using big[OF three(2)] by blast
    have z: "0 < unat (?b 2)" "unat (?b 2) \<le> 3"
      using three(3,4) by (simp_all add: unat_gt_0 word_less_nat_alt)
    from three(5-) x y z digits_three[OF x(1) y(1) z] show ?thesis
      by (simp add: take_drop_Suc numeral_2_eq_2 numeral_3_eq_3)
  qed
qed

interpretation compact_u16: codec encode_shortvec shortvec "\<lambda>n. n < 65536"
  by unfold_locales (simp_all add: reads_shortvec shortvec_canonical)

theorem shortvec_accepts_canonical:
  assumes "length (pre @ rest) < 2 ^ 64"
  shows "shortvec (cursor_at pre rest) = Inr (n, c') \<longleftrightarrow>
    n < 65536 \<and> (\<exists>post. rest = encode_shortvec n @ post \<and> c' = cursor_at (pre @ encode_shortvec n) post)"
  using assms by (rule compact_u16.accepts_iff)

section \<open>Stepping through an encoding\<close>

lemma step_shortvec [cursor_simps]:
  "n < 65536 \<Longrightarrow> length (pre @ encode_shortvec n @ post) < 2 ^ 64 \<Longrightarrow>
   rd_bind shortvec f (cursor_at pre (encode_shortvec n @ post)) = f n (cursor_at (pre @ encode_shortvec n) post)"
  using reads_shortvec[of n] by (simp add: reads_def rd_bind_def)

lemma step_byte [cursor_simps]:
  "length (pre @ b # post) < 2 ^ 64 \<Longrightarrow>
   rd_bind cursor_byte f (cursor_at pre (b # post)) = f b (cursor_at (pre @ [b]) post)"
  using reads_byte[of b] by (simp add: reads_def rd_bind_def)

lemma step_take [cursor_simps]:
  "length bs = n \<Longrightarrow> length (pre @ bs @ post) < 2 ^ 64 \<Longrightarrow>
   rd_bind (cursor_take n) f (cursor_at pre (bs @ post)) = f bs (cursor_at (pre @ bs) post)"
  using reads_take[of bs n] by (simp add: reads_def rd_bind_def)

lemma step_skip [cursor_simps]:
  "length bs = n \<Longrightarrow> length (pre @ bs @ post) < 2 ^ 64 \<Longrightarrow>
   rd_bind (cursor_skip n) f (cursor_at pre (bs @ post)) = f () (cursor_at (pre @ bs) post)"
  using reads_skip[of bs n] by (simp add: reads_def rd_bind_def)

lemma step_lift [cursor_simps]:
  "rd_bind (rd_lift r) f c = (case r of Inl e \<Rightarrow> Inl e | Inr x \<Rightarrow> f x c)"
  by (simp add: rd_bind_def rd_lift_def rd_fail_def rd_return_def split: sum.split)

lemma step_checked_mul [cursor_simps]:
  "a * b < 2 ^ 64 \<Longrightarrow> rd_bind (checked_mul a b) f c = f (a * b) c"
  by (simp add: checked_mul_def rd_bind_def rd_return_def)

section \<open>Legacy and v0 round trip\<close>

lemma length_concat_const: "list_all (\<lambda>x. length x = k) xs \<Longrightarrow> length (concat xs) = length xs * k"
  by (induction xs) auto

lemma take_drop_concat:
  "list_all (\<lambda>x. length x = k) xs \<Longrightarrow> i < length xs \<Longrightarrow> take k (drop (i * k) (concat xs)) = xs ! i"
proof (induction xs arbitrary: i)
  case (Cons x xs)
  then show ?case by (cases i) auto
qed simp

lemma decode_instructions_wire:
  assumes "list_all (wf_instruction (length keys)) is" "list_all (\<lambda>k. length k = 32) keys"
    and "length (pre @ concat (map encode_instruction is) @ post) < 2 ^ 64"
  shows "decode_instructions (length is) (length keys) (concat keys) st
      (cursor_at pre (concat (map encode_instruction is) @ post)) =
    map_sum id (\<lambda>st. (st, cursor_at (pre @ concat (map encode_instruction is)) post))
      (budget_run (wire_calls keys is) st)"
  using assms
proof (induction "is" arbitrary: pre st)
  case Nil
  then show ?case by (simp add: rd_return_def wire_calls_def)
next
  case (Cons i "is")
  have wf: "unat (ci_program i) < length keys" "length (ci_accounts i) < 65536" "length (ci_data i) < 65536"
    using Cons.prems(1) by (simp_all add: wf_instruction_def)
  have key: "take 32 (drop (unat (ci_program i) * 32) (concat keys)) = keys ! unat (ci_program i)"
    using take_drop_concat[OF Cons.prems(2) wf(1)] .
  show ?case
  proof (cases "budget_instruction (keys ! unat (ci_program i)) (ci_data i) st")
    case (Inl e)
    with Cons.prems wf key show ?thesis
      by (simp add: encode_instruction_def cursor_simps wire_calls_def)
  next
    case (Inr st')
    with Cons.prems wf key Cons.IH[of "pre @ encode_instruction i" st'] show ?thesis
      by (simp add: encode_instruction_def cursor_simps wire_calls_def)
  qed
qed

lemma cursor_new_at: "cursor_new bs = cursor_at [] bs"
  by (simp add: cursor_new_def cursor_at_def)

lemma decode_instructions_finish:
  assumes "list_all (wf_instruction (length keys)) is" "list_all (\<lambda>k. length k = 32) keys"
    and "length (pre @ concat (map encode_instruction is) @ post) < 2 ^ 64"
  shows "map_sum id fst (rd_bind (decode_instructions (length is) (length keys) (concat keys) st)
      (\<lambda>st. rd_return (g st)) (cursor_at pre (concat (map encode_instruction is) @ post))) =
    map_sum id g (budget_run (wire_calls keys is) st)"
  using decode_instructions_wire[OF assms, of st]
  by (cases "budget_run (wire_calls keys is) st") (simp_all add: rd_bind_def rd_return_def)

lemma decode_legacy_wire:
  assumes wf: "wf_wire t"
  shows "map_sum id fst (decode_legacy (cursor_at [] (encode_wire t))) =
    map_sum id (\<lambda>st. budget_info st (length (wt_instructions t)) (length (wt_signatures t)) (wt_versioned t))
      (budget_run (wire_calls (wt_keys t) (wt_instructions t)) budget_new)"
proof -
  obtain h1 h2 h3 where h: "wt_header t = [h1, h2, h3]"
    using wf by (auto simp: wf_wire_def length_Suc_conv numeral_3_eq_3)
  have lens: "length (concat (wt_signatures t)) = length (wt_signatures t) * 64"
    "length (concat (wt_keys t)) = length (wt_keys t) * 32"
    using wf by (auto simp: wf_wire_def intro: length_concat_const)
  have total: "length (encode_wire t) < 2 ^ 64" using wf by (simp add: wf_wire_def)
  have skip2: "rd_bind (cursor_skip 2) f (cursor_at pre (h2 # h3 # post)) = f () (cursor_at (pre @ [h2, h3]) post)"
    if "length pre + length post < 2 ^ 64 - 2" for f :: "unit \<Rightarrow> transaction_info reader" and pre post
    using that step_skip[of "[h2, h3]" 2 pre post f] by simp
  have skip3: "rd_bind (cursor_skip 3) f (cursor_at pre (h1 # h2 # h3 # post)) =
      f () (cursor_at (pre @ [h1, h2, h3]) post)"
    if "length pre + length post < 2 ^ 64 - 3" for f :: "unit \<Rightarrow> transaction_info reader" and pre post
    using that step_skip[of "[h1, h2, h3]" 3 pre post f] by simp
  let ?pre = "encode_shortvec (length (wt_signatures t)) @ concat (wt_signatures t) @
    (if wt_versioned t then [0x80] else []) @ wt_header t @ encode_shortvec (length (wt_keys t)) @
    concat (wt_keys t) @ wt_blockhash t @ encode_shortvec (length (wt_instructions t))"
  have "decode_legacy (cursor_at [] (encode_wire t)) = rd_bind
      (decode_instructions (length (wt_instructions t)) (length (wt_keys t)) (concat (wt_keys t)) budget_new)
      (\<lambda>st. rd_return (budget_info st (length (wt_instructions t)) (length (wt_signatures t)) (wt_versioned t)))
      (cursor_at ?pre (concat (map encode_instruction (wt_instructions t)) @ wt_lookups t))"
    using wf total lens h unfolding decode_legacy_def encode_wire_def wf_wire_def
    by (cases "wt_versioned t") (simp_all add: cursor_simps skip2 skip3)
  then show ?thesis
    using wf total by (simp add: decode_instructions_finish wf_wire_def encode_wire_def)
qed

lemma decode_transaction_wire:
  assumes "wf_wire t"
  shows "decode_transaction (encode_wire t) =
    map_sum id (\<lambda>st. budget_info st (length (wt_instructions t)) (length (wt_signatures t)) (wt_versioned t))
      (budget_run (wire_calls (wt_keys t) (wt_instructions t)) budget_new)"
proof -
  have n: "length (wt_signatures t) < 128" using assms by (simp add: wf_wire_def)
  then have "encode_wire t \<noteq> []" "hd (encode_wire t) = of_nat (length (wt_signatures t))"
    by (simp_all add: encode_wire_def encode_shortvec_def)
  moreover have "(of_nat (length (wt_signatures t)) :: byte) < V1_PREFIX"
    using n by (simp add: V1_PREFIX_def word_less_nat_alt unat_byte)
  ultimately show ?thesis
    using decode_legacy_wire[OF assms] by (auto simp: decode_transaction_def cursor_new_at)
qed

text \<open>C26. Decoding the wire encoding of a legacy or v0 transaction gives the compute-budget information
of its instructions, or the budget error they cause.\<close>

theorem decode_wire_roundtrip:
  assumes "wf_wire t"
  shows "decode_transaction (encode_wire t) =
    map_sum id (\<lambda>st. budget_info st (length (wt_instructions t)) (length (wt_signatures t)) (wt_versioned t))
      (budget_run (wire_calls (wt_keys t) (wt_instructions t)) budget_new)"
  using assms by (rule decode_transaction_wire)

section \<open>Version 1 round trip\<close>

lemma length_le_bytes [simp]: "length (le_bytes k n) = k"
  by (induction k arbitrary: n) auto

lemma le_nat_le_bytes: "le_nat (le_bytes k n) = n mod 256 ^ k"
proof (induction k arbitrary: n)
  case (Suc k)
  have "unat (of_nat (n mod 256) :: byte) = n mod 256" by (simp add: unat_byte)
  with Suc show ?case by (simp add: mod_mult2_eq mult.commute)
qed simp

lemma u32_le_bytes: "u32_from_le (le_bytes 4 (unat m)) = m"
  using u32_bound[of m] by (simp add: u32_from_le_def le_nat_le_bytes)

lemma u16_le_bytes: "n < 65536 \<Longrightarrow> unat (u16_from_le (le_bytes 2 n)) = n"
  by (simp add: u16_from_le_def le_nat_le_bytes unat_of_nat take_bit_nat_eq_self)

lemma v1_config_values_wire:
  assumes "length vals = length bs" "list_all (\<lambda>v. length v = 4) vals"
    and "length (pre @ concat vals @ post) < 2 ^ 64"
  shows "rd_bind (v1_config_values bs st) f (cursor_at pre (concat vals @ post)) =
    f (fold (\<lambda>(b, v) st. v1_config_set b (u32_from_le v) st) (zip bs vals) st)
      (cursor_at (pre @ concat vals) post)"
  using assms
proof (induction bs arbitrary: pre st vals)
  case Nil
  then show ?case by (simp add: rd_bind_def rd_return_def)
next
  case (Cons b bs)
  then obtain v vs where v: "vals = v # vs" by (cases vals) auto
  have assoc: "rd_bind (rd_bind r g) f c = rd_bind r (\<lambda>x. rd_bind (g x) f) c" for r :: "bytes reader" and g c
    by (simp add: rd_bind_def split: sum.split)
  from Cons.prems v Cons.IH[of vs "pre @ v" "v1_config_set b (u32_from_le v) st"] show ?case
    by (simp add: assoc cursor_simps)
qed

lemma v1_headers_wire:
  assumes "list_all (wf_v1_instruction k) is"
    and "length (pre @ concat (map v1_instruction_header is) @ post) < 2 ^ 64"
  shows "rd_bind (v1_headers (length is) k acc) f
      (cursor_at pre (concat (map v1_instruction_header is) @ post)) =
    f (acc + length (concat (map v1_payload is)))
      (cursor_at (pre @ concat (map v1_instruction_header is)) post)"
  using assms
proof (induction "is" arbitrary: pre acc)
  case Nil
  then show ?case by (simp add: rd_bind_def rd_return_def)
next
  case (Cons i "is")
  have assoc: "rd_bind (rd_bind r g) f c = rd_bind r (\<lambda>x. rd_bind (g x) f) c" for r :: "'x reader" and g c
    by (simp add: rd_bind_def split: sum.split)
  have push: "rd_bind (if P then r else s) f c = (if P then rd_bind r f c else rd_bind s f c)" for P r s c
    by simp
  have wf: "\<not> k \<le> unat (ci_program i)" "length (ci_accounts i) < 256" "length (ci_data i) < 65536"
    using Cons.prems(1) by (simp_all add: wf_v1_instruction_def)
  from Cons.prems wf
    Cons.IH[of "pre @ v1_instruction_header i" "acc + (length (ci_accounts i) + length (ci_data i))"]
  show ?case
    by (simp add: assoc push cursor_simps v1_instruction_header_def v1_payload_def unat_byte u16_le_bytes add.assoc)
qed

lemma decode_v1_wire:
  assumes wf: "wf_v1 t"
  shows "map_sum id fst (decode_v1 (cursor_at [] (encode_v1 t))) =
    map_sum id (\<lambda>fee. v1_info (v1_config_of (v1_mask t) (v1_values t)) fee (length (v1_instructions t))
      (length (v1_signatures t))) (v1_fee (v1_config_of (v1_mask t) (v1_values t)))"
proof -
  have lens: "length (concat (v1_signatures t)) = length (v1_signatures t) * 64"
    "length (concat (v1_addresses t)) = length (v1_addresses t) * 32"
    using wf by (auto simp: wf_v1_def intro: length_concat_const)
  have total: "length (encode_v1 t) < 2 ^ 64" using wf by (simp add: wf_v1_def)
  have first: "rd_bind (cursor_skip (Suc 0)) f (cursor_at [] (b # post)) = f () (cursor_at [b] post)"
    if "Suc (length post) < 2 ^ 64" for f :: "unit \<Rightarrow> transaction_info reader" and b post
    using that step_skip[of "[b]" 1 "[]" post f] by simp
  show ?thesis
  proof (cases "v1_fee (v1_config_of (v1_mask t) (v1_values t))")
    case (Inl e)
    then show ?thesis using wf total lens unfolding decode_v1_def encode_v1_def wf_v1_def
      by (simp add: first cursor_simps unat_byte u32_le_bytes mask_bits_def[symmetric]
          v1_config_values_wire v1_config_of_def)
  next
    case (Inr fee)
    then show ?thesis using wf total lens unfolding decode_v1_def encode_v1_def wf_v1_def
      by (simp add: first cursor_simps unat_byte u32_le_bytes mask_bits_def[symmetric]
          v1_config_values_wire v1_config_of_def v1_headers_wire cursor_remaining_def rd_return_def)
        (simp add: cursor_at_def)
  qed
qed

theorem decode_v1_roundtrip:
  assumes "wf_v1 t"
  shows "decode_transaction (encode_v1 t) =
    map_sum id (\<lambda>fee. v1_info (v1_config_of (v1_mask t) (v1_values t)) fee (length (v1_instructions t))
      (length (v1_signatures t))) (v1_fee (v1_config_of (v1_mask t) (v1_values t)))"
proof -
  have "encode_v1 t \<noteq> []" "hd (encode_v1 t) = V1_PREFIX" by (simp_all add: encode_v1_def)
  then show ?thesis using decode_v1_wire[OF assms] by (simp add: decode_transaction_def cursor_new_at)
qed

section \<open>Compute budget\<close>

lemma budget_instruction_Inr:
  assumes "budget_instruction key data st = Inr st'"
  shows "opt_list (bu_explicit_limit st') = opt_list (bu_explicit_limit st) @ limit_values [(key, data)] \<and>
    opt_list (bu_price st') = opt_list (bu_price st) @ price_values [(key, data)]"
  using assms
  by (cases data)
    (auto simp: budget_instruction_def Let_def opt_list_def limit_values_def price_values_def
      is_budget_call_def split: if_splits option.splits)

lemma budget_run_Inr:
  assumes "budget_run calls st = Inr st'"
  shows "opt_list (bu_explicit_limit st') = opt_list (bu_explicit_limit st) @ limit_values calls \<and>
    opt_list (bu_price st') = opt_list (bu_price st) @ price_values calls"
  using assms
proof (induction calls arbitrary: st)
  case Nil
  then show ?case by (simp add: limit_values_def price_values_def)
next
  case (Cons c calls)
  obtain key data where c: "c = (key, data)" by (cases c)
  with Cons.prems obtain st1 where st1: "budget_instruction key data st = Inr st1"
    "budget_run calls st1 = Inr st'" by (auto split: sum.splits)
  from Cons.IH[OF st1(2)] budget_instruction_Inr[OF st1(1)] show ?case
    by (simp add: c limit_values_def price_values_def)
qed

theorem compute_budget_unique:
  assumes "budget_run calls budget_new = Inr st"
  shows "opt_list (bu_explicit_limit st) = limit_values calls \<and> opt_list (bu_price st) = price_values calls"
  using budget_run_Inr[OF assms] by (simp add: budget_new_def opt_list_def)

theorem priority_fee_exact:
  assumes "bu_price st = Some p"
  shows "\<exists>fee. ti_requested_priority_fee_lamports (budget_info st n m v) = Some fee \<and>
    unat fee = min ((min (unat (ti_cu_limit (budget_info st n m v))) 1400000 * unat p + 999999) div 1000000)
      (2 ^ 64 - 1)"
proof -
  let ?l = "min (ti_cu_limit (budget_info st n m v)) MAX_COMPUTE_UNITS"
  have l: "unat ?l = min (unat (ti_cu_limit (budget_info st n m v))) 1400000"
    by (simp add: min_def word_le_nat_alt MAX_COMPUTE_UNITS_def)
  have "ti_requested_priority_fee_lamports (budget_info st n m v) = Some (priority_fee ?l p)"
    using assms by (cases "bu_explicit_limit st") (simp_all add: budget_info_def Let_def)
  moreover have "unat (priority_fee ?l p) = min ((unat ?l * unat p + 999999) div 1000000) (2 ^ 64 - 1)"
  proof -
    have "unat ?l * unat p \<le> 1400000 * 2 ^ 64"
      using l u64_bound[of p] by (intro mult_le_mono) auto
    then have "min (unat ?l * unat p) (2 ^ 128 - 1) = unat ?l * unat p"
      "min (unat ?l * unat p + 999999) (2 ^ 128 - 1) = unat ?l * unat p + 999999" by simp_all
    then show ?thesis by (simp add: priority_fee_def Let_def unat_of_nat take_bit_nat_eq_self)
  qed
  ultimately show ?thesis using l by simp
qed

section \<open>Requests\<close>

theorem decode_request_bounded:
  assumes "decode_request parse base58 base64 body = Inr info"
  shows "\<exists>bs. decode_transaction bs = Inr info \<and> length bs \<le> MAX_V1_LEN \<and>
    (bs = [] \<or> hd bs \<noteq> V1_PREFIX \<longrightarrow> length bs \<le> MAX_LEGACY_LEN)"
  using assms
  by (auto simp: decode_request_def Let_def MAX_LEGACY_LEN_def MAX_V1_LEN_def not_less
      split: option.splits sum.splits if_splits list.splits)

section \<open>Witnesses\<close>

lemma demo_wire_wf: "wf_wire demo_wire"
  by (simp add: wf_wire_def demo_wire_def wf_instruction_def encode_wire_def encode_shortvec_def
      encode_instruction_def COMPUTE_BUDGET_ID_def)

lemma demo_wire_budget:
  "budget_run (wire_calls (wt_keys demo_wire) (wt_instructions demo_wire)) budget_new =
     Inr (budget_new\<lparr>bu_price := Some 1000000, bu_default_limit := 3000\<rparr>)"
  by (simp add: demo_wire_def wire_calls_def budget_instruction_def budget_new_def BUILTIN_PROGRAM_IDS_def
      u64_saturating_add_def u64_from_le_def DEFAULT_BUILTIN_COMPUTE_UNITS_def Let_def)

theorem decode_wire_roundtrip_witness:
  "decode_transaction (encode_wire demo_wire) =
     Inr \<lparr>ti_cu_limit = 3000, ti_cu_limit_defaulted = True, ti_cu_price_micro_lamports = Some 1000000,
       ti_requested_priority_fee_lamports = Some 3000, ti_num_instructions = 1, ti_num_signatures = 0,
       ti_is_versioned = False\<rparr>"
  using decode_wire_roundtrip[OF demo_wire_wf]
  by (simp add: demo_wire_budget)
    (simp add: demo_wire_def budget_new_def budget_info_def priority_fee_def MAX_COMPUTE_UNITS_def Let_def)

theorem decode_v1_roundtrip_witness:
  "map_sum id ti_is_versioned (decode_transaction (encode_v1 demo_v1)) = Inr True"
proof -
  have "wf_v1 demo_v1" by (simp add: wf_v1_def demo_v1_def encode_v1_def mask_bits_def)
  from decode_v1_roundtrip[OF this] show ?thesis
    by (simp add: demo_v1_def v1_config_of_def mask_bits_def v1_fee_def v1_info_def Let_def)
qed

theorem shortvec_accepts_canonical_witness:
  "(shortvec (cursor_at [] [0x80, 0x01]) = Inr (128, cursor_at [0x80, 0x01] []))"
  using shortvec_accepts_canonical[of "[]" "[0x80, 0x01]" 128 "cursor_at [0x80, 0x01] []"]
  by (simp add: encode_shortvec_def)

theorem compute_budget_unique_witness:
  "opt_list (bu_price (budget_new\<lparr>bu_price := Some 1000000, bu_default_limit := 3000\<rparr>)) =
     price_values [(COMPUTE_BUDGET_ID, [3, 64, 66, 15, 0, 0, 0, 0, 0])]"
  using compute_budget_unique[of "[(COMPUTE_BUDGET_ID, [3, 64, 66, 15, 0, 0, 0, 0, 0])]"
      "budget_new\<lparr>bu_price := Some 1000000, bu_default_limit := 3000\<rparr>"]
  by (simp add: budget_instruction_def budget_new_def BUILTIN_PROGRAM_IDS_def u64_saturating_add_def
      u64_from_le_def DEFAULT_BUILTIN_COMPUTE_UNITS_def Let_def)

theorem priority_fee_exact_witness:
  "\<exists>fee. ti_requested_priority_fee_lamports
      (budget_info (budget_new\<lparr>bu_price := Some 1, bu_default_limit := 3000\<rparr>) 1 0 False) = Some fee \<and>
    unat fee = 1"
  using priority_fee_exact[of "budget_new\<lparr>bu_price := Some 1, bu_default_limit := 3000\<rparr>" 1 1 0 False]
  by (simp add: budget_info_def budget_new_def MAX_COMPUTE_UNITS_def)

theorem decode_request_bounded_witness:
  "\<exists>bs. decode_transaction bs = decode_transaction (encode_wire demo_wire) \<and> length bs \<le> MAX_V1_LEN \<and>
    (bs = [] \<or> hd bs \<noteq> V1_PREFIX \<longrightarrow> length bs \<le> MAX_LEGACY_LEN)"
proof -
  have len: "length (encode_wire demo_wire) \<le> MAX_LEGACY_LEN"
    by (simp add: demo_wire_def encode_wire_def encode_shortvec_def encode_instruction_def
        COMPUTE_BUDGET_ID_def MAX_LEGACY_LEN_def)
  obtain info where info: "decode_transaction (encode_wire demo_wire) = Inr info"
    using decode_transaction_wire[OF demo_wire_wf] by (simp add: demo_wire_budget)
  have "decode_request demo_request_parse (\<lambda>_. Some (encode_wire demo_wire)) (\<lambda>_. None) [] = Inr info"
    using info len by (simp add: decode_request_def demo_request_parse_def json_get_def json_as_array_def
        json_as_str_def decode_text_def encoding_param_def MAX_BASE58_LEN_def MAX_BASE64_LEN_def Let_def
        MAX_LEGACY_LEN_def MAX_V1_LEN_def)
  from decode_request_bounded[OF this] info show ?thesis by auto
qed

end
