(* ===== verification/Metrics.thy ===== *)
theory Metrics
  imports F64 Tx
begin

text \<open>
  The metric families of \<open>src/src/metrics.rs\<close>. The \<open>prometheus\<close> crate is not part of the repository; what
  the code does with it is call \<open>inc_by\<close>, \<open>observe\<close> and \<open>set\<close> on a family under label values, so the state
  of \<open>Metrics\<close> is the sequence of these calls, oldest first. Rendering that sequence is the crate's work.
\<close>

section \<open>Families and calls\<close>

datatype family =
    Requests | Duration | Failovers | RateLimitedTotal | ProbeRequests | TxSubmissions | TxDecode
  | TxPriorityFee | TxComputeUnitLimit | TxComputeUnitPrice | HealthScore | SlotHeight | SlotDrift
  | SlotHeightCommitment | SlotDriftCommitment | CircuitGauge | BuildInfo

datatype metric_call =
    IncBy family "string list" f64
  | Observe family "string list" f64
  | SetGauge family "string list" f64

type_synonym metrics = "metric_call list"

section \<open>Registration\<close>

text \<open>
  \<open>Metrics::new\<close>: the kind, the name and the label names each family is created with, and the order in which
  they are registered. The help texts are left out. On Linux the collector of process metrics, part of the crate, is
  registered after them.
\<close>

datatype family_kind = CounterFamily | GaugeFamily | HistogramFamily "f64 list"

fun family_kind_of :: "family \<Rightarrow> family_kind" where
  "family_kind_of Requests = CounterFamily"
| "family_kind_of Duration =
     HistogramFamily [rnd (1 / 1000), rnd (1 / 200), rnd (1 / 100), rnd (1 / 40), rnd (1 / 20), rnd (1 / 10),
       rnd (1 / 4), rnd (1 / 2), Fin 1, rnd (5 / 2)]"
| "family_kind_of Failovers = CounterFamily"
| "family_kind_of RateLimitedTotal = CounterFamily"
| "family_kind_of ProbeRequests = CounterFamily"
| "family_kind_of TxSubmissions = CounterFamily"
| "family_kind_of TxDecode = CounterFamily"
| "family_kind_of TxPriorityFee =
     HistogramFamily [Fin 1, Fin 10, Fin 100, Fin 1000, Fin 10000, Fin 100000, Fin 1000000, Fin 10000000]"
| "family_kind_of TxComputeUnitLimit =
     HistogramFamily [Fin 50000, Fin 100000, Fin 200000, Fin 300000, Fin 400000, Fin 600000, Fin 800000, Fin
       1000000, Fin 1200000, Fin 1400000]"
| "family_kind_of TxComputeUnitPrice =
     HistogramFamily [Fin 1, Fin 10, Fin 100, Fin 1000, Fin 10000, Fin 100000, Fin 1000000, Fin 10000000, Fin
       100000000]"
| "family_kind_of HealthScore = GaugeFamily"
| "family_kind_of SlotHeight = GaugeFamily"
| "family_kind_of SlotDrift = GaugeFamily"
| "family_kind_of SlotHeightCommitment = GaugeFamily"
| "family_kind_of SlotDriftCommitment = GaugeFamily"
| "family_kind_of CircuitGauge = GaugeFamily"
| "family_kind_of BuildInfo = GaugeFamily"

fun family_name :: "family \<Rightarrow> string" where
  "family_name Requests = ''rpc_plane_requests_total''"
| "family_name Duration = ''rpc_plane_request_duration_seconds''"
| "family_name Failovers = ''rpc_plane_failover_total''"
| "family_name RateLimitedTotal = ''rpc_plane_rate_limited_total''"
| "family_name ProbeRequests = ''rpc_plane_probe_requests_total''"
| "family_name TxSubmissions = ''rpc_plane_tx_submissions_total''"
| "family_name TxDecode = ''rpc_plane_tx_decode_total''"
| "family_name TxPriorityFee = ''rpc_plane_tx_requested_priority_fee_lamports''"
| "family_name TxComputeUnitLimit = ''rpc_plane_tx_compute_unit_limit''"
| "family_name TxComputeUnitPrice = ''rpc_plane_tx_compute_unit_price_micro_lamports''"
| "family_name HealthScore = ''rpc_plane_provider_health_score''"
| "family_name SlotHeight = ''rpc_plane_provider_slot_height''"
| "family_name SlotDrift = ''rpc_plane_slot_drift''"
| "family_name SlotHeightCommitment = ''rpc_plane_provider_slot_height_commitment''"
| "family_name SlotDriftCommitment = ''rpc_plane_slot_drift_commitment''"
| "family_name CircuitGauge = ''rpc_plane_circuit_breaker_state''"
| "family_name BuildInfo = ''rpc_plane_build_info''"

text \<open>The label names each family is registered with.\<close>

fun family_labels :: "family \<Rightarrow> string list" where
  "family_labels Requests = [''method'', ''provider'', ''status'']"
| "family_labels Duration = [''method'', ''provider'']"
| "family_labels Failovers = [''from_provider'', ''to_provider'']"
| "family_labels RateLimitedTotal = [''provider'']"
| "family_labels ProbeRequests = [''provider'', ''type'', ''status'']"
| "family_labels TxSubmissions = [''provider'', ''outcome'']"
| "family_labels TxDecode = [''provider'', ''result'']"
| "family_labels TxPriorityFee = [''provider'']"
| "family_labels TxComputeUnitLimit = [''provider'']"
| "family_labels TxComputeUnitPrice = [''provider'']"
| "family_labels HealthScore = [''provider'']"
| "family_labels SlotHeight = [''provider'']"
| "family_labels SlotDrift = [''provider'']"
| "family_labels SlotHeightCommitment = [''provider'', ''commitment'']"
| "family_labels SlotDriftCommitment = [''provider'', ''commitment'']"
| "family_labels CircuitGauge = [''provider'']"
| "family_labels BuildInfo = [''version'', ''commit'', ''branch'', ''rustc'']"

definition registered :: "family list" where
  "registered = [Requests, Duration, Failovers, RateLimitedTotal, ProbeRequests, TxSubmissions, TxDecode, TxPriorityFee,
     TxComputeUnitLimit, TxComputeUnitPrice, HealthScore, SlotHeight, SlotDrift, SlotHeightCommitment,
     SlotDriftCommitment, CircuitGauge, BuildInfo]"

definition metrics_new :: "string \<Rightarrow> string option \<Rightarrow> string option \<Rightarrow> string option \<Rightarrow> metrics" where
  "metrics_new version commit branch rustc =
     (let or_unknown = (\<lambda>x. case x of None \<Rightarrow> ''unknown'' | Some v \<Rightarrow> v) in
      [SetGauge BuildInfo [version, or_unknown commit, or_unknown branch, or_unknown rustc] (Fin 1)])"

section \<open>Recording\<close>

definition record_request :: "string \<Rightarrow> string \<Rightarrow> string \<Rightarrow> f64 \<Rightarrow> u64 \<Rightarrow> metrics \<Rightarrow> metrics" where
  "record_request meth provider status latency_ms calls m =
     m @ [IncBy Requests [meth, provider, status] (f64_of_nat (unat calls))] @
     (if status = ''ok'' then [Observe Duration [meth, provider] (f64_div latency_ms (Fin 1000))] else [])"

definition record_failover :: "string \<Rightarrow> string \<Rightarrow> metrics \<Rightarrow> metrics" where
  "record_failover from_provider to_provider m = m @ [IncBy Failovers [from_provider, to_provider] (Fin 1)]"

definition record_rate_limited :: "string \<Rightarrow> metrics \<Rightarrow> metrics" where
  "record_rate_limited provider m = m @ [IncBy RateLimitedTotal [provider] (Fin 1)]"

definition record_probe :: "string \<Rightarrow> string \<Rightarrow> string \<Rightarrow> metrics \<Rightarrow> metrics" where
  "record_probe provider probe_type status m = m @ [IncBy ProbeRequests [provider, probe_type, status] (Fin 1)]"

definition record_transaction_submission :: "string \<Rightarrow> bool \<Rightarrow> metrics \<Rightarrow> metrics" where
  "record_transaction_submission provider accepted m =
     m @ [IncBy TxSubmissions [provider, if accepted then ''accepted'' else ''rejected''] (Fin 1)]"

definition u64_or_0 :: "u64 option \<Rightarrow> f64" where
  "u64_or_0 x = f64_of_nat (unat (case x of None \<Rightarrow> 0 | Some v \<Rightarrow> v))"

definition record_transaction_decode ::
  "string \<Rightarrow> string \<Rightarrow> transaction_info option \<Rightarrow> metrics \<Rightarrow> metrics" where
  "record_transaction_decode provider res sample m =
     m @ [IncBy TxDecode [provider, res] (Fin 1)] @
     (case sample of
        None \<Rightarrow> []
      | Some info \<Rightarrow>
          [Observe TxComputeUnitLimit [provider] (f64_of_nat (unat (ti_cu_limit info))),
           Observe TxComputeUnitPrice [provider] (u64_or_0 (ti_cu_price_micro_lamports info)),
           Observe TxPriorityFee [provider] (u64_or_0 (ti_requested_priority_fee_lamports info))])"

definition update_provider_health ::
  "string \<Rightarrow> f64 \<Rightarrow> u64 option \<Rightarrow> u64 \<Rightarrow> bool \<Rightarrow> metrics \<Rightarrow> metrics" where
  "update_provider_health provider sc slot dr circuit_open m =
     m @ [SetGauge HealthScore [provider] sc] @
     (case slot of
        None \<Rightarrow> []
      | Some s \<Rightarrow> [SetGauge SlotHeight [provider] (f64_of_nat (unat s)),
                   SetGauge SlotDrift [provider] (f64_of_nat (unat dr))]) @
     [SetGauge CircuitGauge [provider] (if circuit_open then Fin 1 else Fin 0)]"

definition update_provider_commitment ::
  "string \<Rightarrow> string \<Rightarrow> u64 option \<Rightarrow> u64 \<Rightarrow> metrics \<Rightarrow> metrics" where
  "update_provider_commitment provider commitment slot dr m =
     m @ (case slot of
        None \<Rightarrow> []
      | Some s \<Rightarrow> [SetGauge SlotHeightCommitment [provider, commitment] (f64_of_nat (unat s)),
                   SetGauge SlotDriftCommitment [provider, commitment] (f64_of_nat (unat dr))])"

section \<open>What the registry requires\<close>

text \<open>
  The conditions under which the \<open>unwrap\<close>s of \<open>new\<close> do not panic: the registered names are distinct and well
  formed (letters, digits and underscores, not starting with a digit), the label names of a family are distinct, none
  of a histogram's is \<open>le\<close>, and its buckets ascend.
\<close>

definition name_char :: "char \<Rightarrow> bool" where
  "name_char c \<longleftrightarrow> c \<in> set ''abcdefghijklmnopqrstuvwxyz0123456789_''"

definition name_ok :: "string \<Rightarrow> bool" where
  "name_ok s \<longleftrightarrow> s \<noteq> [] \<and> list_all name_char s \<and> hd s \<notin> set ''0123456789''"

fun ascending :: "f64 list \<Rightarrow> bool" where
  "ascending (x # y # zs) = (f64_lt x y \<and> ascending (y # zs))"
| "ascending xs = True"

fun kind_ok :: "family_kind \<Rightarrow> string list \<Rightarrow> bool" where
  "kind_ok (HistogramFamily bs) ls = (bs \<noteq> [] \<and> ascending bs \<and> ''le'' \<notin> set ls)"
| "kind_ok k ls = True"

definition family_ok :: "family \<Rightarrow> bool" where
  "family_ok f \<longleftrightarrow> name_ok (family_name f) \<and> list_all name_ok (family_labels f) \<and> distinct (family_labels f) \<and>
     kind_ok (family_kind_of f) (family_labels f)"

lemma rnd_separated:
  assumes "x \<le> of_int m / 2 ^ 10" "of_int (m + 1) / 2 ^ 10 \<le> y" "0 < m" "m + 1 < 2 ^ 53"
  shows "f64_lt (rnd x) (rnd y)"
proof -
  have "rnd (of_int m / 2 ^ 10) = Fin (of_int m / 2 ^ 10)" using assms(3,4) by (intro rnd_dyadic) simp_all
  moreover have "rnd (of_int (m + 1) / 2 ^ 10) = Fin (of_int (m + 1) / 2 ^ 10)"
    using assms(3,4) by (intro rnd_dyadic) simp_all
  moreover have "(of_int m / 2 ^ 10 :: rat) < of_int (m + 1) / 2 ^ 10" by (rule divide_strict_right_mono) simp_all
  ultimately show ?thesis using rnd_mono[OF assms(1)] rnd_mono[OF assms(2)]
    by (cases "rnd x"; cases "rnd y") (auto simp: f64_le_def)
qed

lemma duration_buckets_ascend: "kind_ok (family_kind_of Duration) (family_labels Duration)"
proof -
  have "f64_lt (rnd (1 / 1000)) (rnd (1 / 200))" by (rule rnd_separated[of _ 2]) simp_all
  moreover have "f64_lt (rnd (1 / 200)) (rnd (1 / 100))" by (rule rnd_separated[of _ 6]) simp_all
  moreover have "f64_lt (rnd (1 / 100)) (rnd (1 / 40))" by (rule rnd_separated[of _ 11]) simp_all
  moreover have "f64_lt (rnd (1 / 40)) (rnd (1 / 20))" by (rule rnd_separated[of _ 26]) simp_all
  moreover have "f64_lt (rnd (1 / 20)) (rnd (1 / 10))" by (rule rnd_separated[of _ 52]) simp_all
  moreover have "f64_lt (rnd (1 / 10)) (rnd (1 / 4))" by (rule rnd_separated[of _ 103]) simp_all
  moreover have "f64_lt (rnd (1 / 4)) (rnd (1 / 2))" by (rule rnd_separated[of _ 256]) simp_all
  moreover have "f64_lt (rnd (1 / 2)) (Fin 1)"
    unfolding binary64.r_1[symmetric] by (rule rnd_separated[of _ 512]) simp_all
  moreover have "f64_lt (Fin 1) (rnd (5 / 2))"
    unfolding binary64.r_1[symmetric] by (rule rnd_separated[of _ 1024]) simp_all
  ultimately show ?thesis unfolding family_kind_of.simps kind_ok.simps ascending.simps by simp
qed

lemma families_ok: "family_ok f"
proof -
  have "kind_ok (family_kind_of f) (family_labels f)"
    using duration_buckets_ascend by (cases f) simp_all
  then show ?thesis unfolding family_ok_def by (cases f) (simp_all add: name_ok_def name_char_def)
qed

lemma registered_all: "f \<in> set registered"
  by (cases f) (simp_all add: registered_def)

lemma registration_distinct: "distinct (map family_name registered)"
  by (simp add: registered_def)

section \<open>Label arity\<close>

fun call_labels_ok :: "metric_call \<Rightarrow> bool" where
  "call_labels_ok (IncBy f ls x) = (length ls = length (family_labels f) \<and> family_kind_of f = CounterFamily)"
| "call_labels_ok (Observe f ls x) =
     (length ls = length (family_labels f) \<and> (\<exists>bs. family_kind_of f = HistogramFamily bs))"
| "call_labels_ok (SetGauge f ls x) = (length ls = length (family_labels f) \<and> family_kind_of f = GaugeFamily)"

fun call_family :: "metric_call \<Rightarrow> family" where
  "call_family (IncBy f ls x) = f"
| "call_family (Observe f ls x) = f"
| "call_family (SetGauge f ls x) = f"

text \<open>\<open>with_label_values\<close> panics on a wrong number of labels: no call ever passes one, and each call is of the family's kind.\<close>

lemma metric_labels_ok:
  "list_all call_labels_ok (metrics_new v c b r)"
  "list_all call_labels_ok m \<Longrightarrow> list_all call_labels_ok (record_request me p s l n m)"
  "list_all call_labels_ok m \<Longrightarrow> list_all call_labels_ok (record_failover p q m)"
  "list_all call_labels_ok m \<Longrightarrow> list_all call_labels_ok (record_rate_limited p m)"
  "list_all call_labels_ok m \<Longrightarrow> list_all call_labels_ok (record_probe p t s m)"
  "list_all call_labels_ok m \<Longrightarrow> list_all call_labels_ok (record_transaction_submission p a m)"
  "list_all call_labels_ok m \<Longrightarrow> list_all call_labels_ok (record_transaction_decode p res sample m)"
  "list_all call_labels_ok m \<Longrightarrow> list_all call_labels_ok (update_provider_health p sc slot dr co m)"
  "list_all call_labels_ok m \<Longrightarrow> list_all call_labels_ok (update_provider_commitment p cm slot dr m)"
  by (auto simp: metrics_new_def Let_def record_request_def record_failover_def record_rate_limited_def
      record_probe_def record_transaction_submission_def record_transaction_decode_def
      update_provider_health_def update_provider_commitment_def split: option.split)

end
