(* ===== verification/Telemetry.thy ===== *)
theory Telemetry
  imports Config Tx
begin

text \<open>
  Telemetry of \<open>src/src/telemetry.rs\<close>: the event types, the aggregator with its percentiles, and the
  remote reporter with its flush task. The mutex around \<open>AggState\<close> makes each aggregator method one step.
  The flush task is a state machine whose steps are the branches of its \<open>select!\<close>; a flush is two steps,
  around the awaited send, because callers run in between. The reply of the remote endpoint is only
  logged, so a batch counts as sent when it is handed to the client. \<open>HashMap::drain\<close> has no fixed
  order; the model lists the buckets in insertion order.
\<close>

section \<open>Events\<close>

record request_aggregate =
  ra_window_start_ms :: u64
  ra_window_end_ms :: u64
  ra_method :: string
  ra_provider :: string
  ra_status :: string
  ra_count :: u64
  ra_latency_p50_ms :: f64
  ra_latency_p95_ms :: f64
  ra_latency_p99_ms :: f64
  ra_latency_avg_ms :: f64

record transaction_submit =
  ts_window_start_ms :: u64
  ts_window_end_ms :: u64
  ts_provider :: string
  ts_accepted_count :: u64
  ts_rejected_count :: u64
  ts_parsed_count :: u64
  ts_unparsed_count :: u64
  ts_unsupported_count :: u64
  ts_invalid_budget_count :: u64
  ts_batch_unsupported_count :: u64
  ts_decode_queue_drop_count :: u64
  ts_fee_sample_count :: u64
  ts_cu_limit_p50 :: u64
  ts_cu_limit_p90 :: u64
  ts_cu_limit_p95 :: u64
  ts_cu_price_micro_lamports_p50 :: u64
  ts_cu_price_micro_lamports_p90 :: u64
  ts_cu_price_micro_lamports_p95 :: u64
  ts_requested_priority_fee_lamports_p50 :: u64
  ts_requested_priority_fee_lamports_p90 :: u64
  ts_requested_priority_fee_lamports_p95 :: u64

definition HISTORICAL_GET_TRANSACTION_AGGREGATE_VERSION :: u32 where
  "HISTORICAL_GET_TRANSACTION_AGGREGATE_VERSION = 1"

definition HISTORICAL_SLOT_AGE_BUCKET_COUNT :: nat where "HISTORICAL_SLOT_AGE_BUCKET_COUNT = 9"

definition HISTORICAL_POLLS_BEFORE_FOUND_BUCKET_COUNT :: nat where
  "HISTORICAL_POLLS_BEFORE_FOUND_BUCKET_COUNT = 6"

definition HISTORICAL_TIME_TO_FOUND_BUCKET_COUNT :: nat where
  "HISTORICAL_TIME_TO_FOUND_BUCKET_COUNT = 6"

definition HISTORICAL_FOUND_REUSE_BUCKET_COUNT :: nat where
  "HISTORICAL_FOUND_REUSE_BUCKET_COUNT = 5"

text \<open>The counters of one historical window; the event carries them with the window's bounds.\<close>

record hist_window =
  hw_logical_request_count :: u64
  hw_analyzed_request_count :: u64
  hw_found_count :: u64
  hw_null_count :: u64
  hw_rpc_error_count :: u64
  hw_parse_error_count :: u64
  hw_first_observation_found_count :: u64
  hw_first_observation_null_count :: u64
  hw_null_repeat_count :: u64
  hw_null_to_found_count :: u64
  hw_found_repeat_count :: u64
  hw_found_to_null_regression_count :: u64
  hw_slot_age_bucket_counts :: "u64 list"
  hw_slot_age_unknown_count :: u64
  hw_slot_age_tip_behind_count :: u64
  hw_polls_before_found_bucket_counts :: "u64 list"
  hw_time_to_found_bucket_counts :: "u64 list"
  hw_found_reuse_bucket_counts :: "u64 list"
  hw_unsupported_batch_count :: u64
  hw_state_capacity_eviction_count :: u64
  hw_state_ttl_expiration_count :: u64
  hw_unresolved_null_capacity_eviction_count :: u64
  hw_unresolved_null_ttl_expiration_count :: u64

record historical_aggregate =
  hg_schema_version :: u32
  hg_window_start_ms :: u64
  hg_window_end_ms :: u64
  hg_commitment :: string
  hg_window :: hist_window
  hg_queue_full_drop_count :: u64
  hg_byte_budget_exhausted_drop_count :: u64
  hg_oversized_job_drop_count :: u64
  hg_state_reset_count :: u64
  hg_current_state_entries :: u64
  hg_configured_state_capacity :: u64

datatype telemetry_event =
    RequestAggregate request_aggregate
  | TransactionSubmit transaction_submit
  | HistoricalGetTransactionAggregate historical_aggregate
  | ProviderHealth string f64 "u64 option" u64 string
  | Failover string string string
  | Divergence string "(string \<times> u64) list" string

section \<open>Aggregator\<close>

record bucket =
  bk_count :: u64
  bk_latencies :: "f64 list"

definition bucket_default :: bucket where
  "bucket_default = \<lparr>bk_count = 0, bk_latencies = []\<rparr>"

record transaction_bucket =
  tb_accepted_count :: u64
  tb_rejected_count :: u64
  tb_parsed_count :: u64
  tb_unparsed_count :: u64
  tb_unsupported_count :: u64
  tb_invalid_budget_count :: u64
  tb_batch_unsupported_count :: u64
  tb_decode_queue_drop_count :: u64
  tb_cu_limits :: "u64 list"
  tb_cu_prices :: "u64 list"
  tb_fees :: "u64 list"

definition transaction_bucket_default :: transaction_bucket where
  "transaction_bucket_default =
     \<lparr>tb_accepted_count = 0, tb_rejected_count = 0, tb_parsed_count = 0, tb_unparsed_count = 0,
      tb_unsupported_count = 0, tb_invalid_budget_count = 0, tb_batch_unsupported_count = 0,
      tb_decode_queue_drop_count = 0, tb_cu_limits = [], tb_cu_prices = [], tb_fees = []\<rparr>"

type_synonym agg_key = "string \<times> string \<times> string"

record agg_state =
  ag_buckets :: "(agg_key \<times> bucket) list"
  ag_tx_buckets :: "(string \<times> transaction_bucket) list"
  ag_window_start_ms :: u64

definition aggregator_new :: "u64 \<Rightarrow> agg_state" where
  "aggregator_new now = \<lparr>ag_buckets = [], ag_tx_buckets = [], ag_window_start_ms = now\<rparr>"

definition agg_record :: "string \<Rightarrow> string \<Rightarrow> string \<Rightarrow> f64 \<Rightarrow> u64 \<Rightarrow> agg_state \<Rightarrow> agg_state" where
  "agg_record meth provider status latency_ms calls s =
     s\<lparr>ag_buckets := entry_update bucket_default
         (\<lambda>b. b\<lparr>bk_count := bk_count b + calls, bk_latencies := bk_latencies b @ [latency_ms]\<rparr>)
         (meth, provider, status) (ag_buckets s)\<rparr>"

definition count_submission :: "bool \<Rightarrow> transaction_bucket \<Rightarrow> transaction_bucket" where
  "count_submission accepted b =
     (if accepted then b\<lparr>tb_accepted_count := tb_accepted_count b + 1\<rparr>
      else b\<lparr>tb_rejected_count := tb_rejected_count b + 1\<rparr>)"

definition agg_record_transaction_submission :: "string \<Rightarrow> bool \<Rightarrow> agg_state \<Rightarrow> agg_state" where
  "agg_record_transaction_submission provider accepted s =
     s\<lparr>ag_tx_buckets := entry_update transaction_bucket_default (count_submission accepted) provider
         (ag_tx_buckets s)\<rparr>"

definition push_fee_sample :: "transaction_info option \<Rightarrow> transaction_bucket \<Rightarrow> transaction_bucket" where
  "push_fee_sample sample b =
     (case sample of
        None \<Rightarrow> b
      | Some info \<Rightarrow>
          b\<lparr>tb_cu_limits := tb_cu_limits b @ [ti_cu_limit info],
            tb_cu_prices := tb_cu_prices b @ [unwrap_or (ti_cu_price_micro_lamports info) 0],
            tb_fees := tb_fees b @ [unwrap_or (ti_requested_priority_fee_lamports info) 0]\<rparr>)"

definition record_transaction_decode_in_bucket ::
  "string \<Rightarrow> transaction_info option \<Rightarrow> transaction_bucket \<Rightarrow> transaction_bucket" where
  "record_transaction_decode_in_bucket res sample b =
     (if res = ''parsed'' then push_fee_sample sample (b\<lparr>tb_parsed_count := tb_parsed_count b + 1\<rparr>)
      else if res = ''unparsed'' then push_fee_sample sample (b\<lparr>tb_unparsed_count := tb_unparsed_count b + 1\<rparr>)
      else if res = ''unsupported'' then
        push_fee_sample sample (b\<lparr>tb_unsupported_count := tb_unsupported_count b + 1\<rparr>)
      else if res = ''invalid_budget'' then
        push_fee_sample sample (b\<lparr>tb_invalid_budget_count := tb_invalid_budget_count b + 1\<rparr>)
      else if res = ''batch_unsupported'' then
        push_fee_sample sample (b\<lparr>tb_batch_unsupported_count := tb_batch_unsupported_count b + 1\<rparr>)
      else if res = ''queue_dropped'' then
        push_fee_sample sample (b\<lparr>tb_decode_queue_drop_count := tb_decode_queue_drop_count b + 1\<rparr>)
      else b)"

definition agg_record_transaction_decode ::
  "string \<Rightarrow> string \<Rightarrow> transaction_info option \<Rightarrow> agg_state \<Rightarrow> agg_state" where
  "agg_record_transaction_decode provider res sample s =
     s\<lparr>ag_tx_buckets := entry_update transaction_bucket_default
         (record_transaction_decode_in_bucket res sample) provider (ag_tx_buckets s)\<rparr>"

definition agg_record_transaction_result ::
  "string \<Rightarrow> bool \<Rightarrow> string \<Rightarrow> transaction_info option \<Rightarrow> agg_state \<Rightarrow> agg_state" where
  "agg_record_transaction_result provider accepted res sample s =
     s\<lparr>ag_tx_buckets := entry_update transaction_bucket_default
         (\<lambda>b. record_transaction_decode_in_bucket res sample (count_submission accepted b)) provider
         (ag_tx_buckets s)\<rparr>"

section \<open>Percentiles\<close>

text \<open>\<open>f64::ceil\<close> and the saturating cast \<open>as usize\<close>.\<close>

fun f64_ceil_as_usize :: "f64 \<Rightarrow> nat" where
  "f64_ceil_as_usize (Fin a) = min (nat \<lceil>a\<rceil>) (2 ^ 64 - 1)"
| "f64_ceil_as_usize PInf = 2 ^ 64 - 1"
| "f64_ceil_as_usize x = 0"

definition percentile :: "f64 list \<Rightarrow> nat \<Rightarrow> f64" where
  "percentile sorted_xs p =
     (if sorted_xs = [] then Fin 0
      else let rank = f64_ceil_as_usize
                 (f64_mul (f64_div (Fin (of_nat p)) (Fin 100)) (f64_of_nat (length sorted_xs)))
           in sorted_xs ! min (rank - 1) (length sorted_xs - 1))"

definition percentile_u64 :: "u64 list \<Rightarrow> nat \<Rightarrow> u64" where
  "percentile_u64 sorted_xs p =
     (if sorted_xs = [] then 0
      else let rank = (p * length sorted_xs + 99) div 100
           in sorted_xs ! min (rank - 1) (length sorted_xs - 1))"

text \<open>\<open>f64::total_cmp\<close> on the values that occur (no negative NaN).\<close>

definition total_cmp :: "f64 \<Rightarrow> f64 \<Rightarrow> ordering" where
  "total_cmp x y =
     (if x = y then Equal
      else if y = NaN then Less
      else if x = NaN then Greater
      else if f64_lt x y then Less else Greater)"

section \<open>Draining\<close>

definition request_aggregate_of :: "u64 \<Rightarrow> u64 \<Rightarrow> agg_key \<times> bucket \<Rightarrow> telemetry_event" where
  "request_aggregate_of window_start now kb =
     (case kb of ((meth, provider, status), b) \<Rightarrow>
        let total = fold (\<lambda>x acc. f64_add acc x) (bk_latencies b) (Fin 0);
            avg = f64_div total (f64_of_nat (length (bk_latencies b)));
            latencies = sort_by total_cmp (bk_latencies b)
        in RequestAggregate
          \<lparr>ra_window_start_ms = window_start, ra_window_end_ms = now, ra_method = meth,
           ra_provider = provider, ra_status = status, ra_count = bk_count b,
           ra_latency_p50_ms = percentile latencies 50, ra_latency_p95_ms = percentile latencies 95,
           ra_latency_p99_ms = percentile latencies 99, ra_latency_avg_ms = avg\<rparr>)"

definition transaction_submit_of :: "u64 \<Rightarrow> u64 \<Rightarrow> string \<times> transaction_bucket \<Rightarrow> telemetry_event" where
  "transaction_submit_of window_start now pb =
     (case pb of (provider, b) \<Rightarrow>
        let limits = sort (tb_cu_limits b); prices = sort (tb_cu_prices b); fees = sort (tb_fees b)
        in TransactionSubmit
          \<lparr>ts_window_start_ms = window_start, ts_window_end_ms = now, ts_provider = provider,
           ts_accepted_count = tb_accepted_count b, ts_rejected_count = tb_rejected_count b,
           ts_parsed_count = tb_parsed_count b, ts_unparsed_count = tb_unparsed_count b,
           ts_unsupported_count = tb_unsupported_count b,
           ts_invalid_budget_count = tb_invalid_budget_count b,
           ts_batch_unsupported_count = tb_batch_unsupported_count b,
           ts_decode_queue_drop_count = tb_decode_queue_drop_count b,
           ts_fee_sample_count = of_nat (length limits),
           ts_cu_limit_p50 = percentile_u64 limits 50, ts_cu_limit_p90 = percentile_u64 limits 90,
           ts_cu_limit_p95 = percentile_u64 limits 95,
           ts_cu_price_micro_lamports_p50 = percentile_u64 prices 50,
           ts_cu_price_micro_lamports_p90 = percentile_u64 prices 90,
           ts_cu_price_micro_lamports_p95 = percentile_u64 prices 95,
           ts_requested_priority_fee_lamports_p50 = percentile_u64 fees 50,
           ts_requested_priority_fee_lamports_p90 = percentile_u64 fees 90,
           ts_requested_priority_fee_lamports_p95 = percentile_u64 fees 95\<rparr>)"

definition agg_drain :: "u64 \<Rightarrow> agg_state \<Rightarrow> telemetry_event list \<times> agg_state" where
  "agg_drain now s =
     (map (request_aggregate_of (ag_window_start_ms s) now)
        (filter (\<lambda>(k, b). bk_latencies b \<noteq> []) (ag_buckets s)) @
      map (transaction_submit_of (ag_window_start_ms s) now) (ag_tx_buckets s),
      \<lparr>ag_buckets = [], ag_tx_buckets = [], ag_window_start_ms = now\<rparr>)"

section \<open>The remote reporter\<close>

datatype task_phase = Idle | Sending bool | Stopped

text \<open>
  The channel, the \<open>Notify\<close> permit, the registered waiters, the aggregator, and the flush task's batch;
  \<open>rm_sent\<close> lists the batches handed to the client and \<open>rm_released\<close> the waiters that were woken.
  \<open>Sending release\<close> is the awaited send, after which a flush wakes the waiters.
\<close>

record remote_reporter =
  rm_queue :: "telemetry_event list"
  rm_notified :: bool
  rm_waiters :: "nat list"
  rm_agg :: agg_state
  rm_batch :: "telemetry_event list"
  rm_phase :: task_phase
  rm_sent :: "telemetry_event list list"
  rm_released :: "nat list"

definition remote_new :: "u64 \<Rightarrow> remote_reporter" where
  "remote_new now = \<lparr>rm_queue = [], rm_notified = False, rm_waiters = [], rm_agg = aggregator_new now,
     rm_batch = [], rm_phase = Idle, rm_sent = [], rm_released = []\<rparr>"

definition remote_emit :: "reporting_config \<Rightarrow> telemetry_event \<Rightarrow> remote_reporter \<Rightarrow> remote_reporter" where
  "remote_emit cfg e r =
     (if length (rm_queue r) < unat (rp_buffer_size cfg) \<and> rm_phase r \<noteq> Stopped
      then r\<lparr>rm_queue := rm_queue r @ [e]\<rparr> else r)"

definition remote_record :: "(agg_state \<Rightarrow> agg_state) \<Rightarrow> remote_reporter \<Rightarrow> remote_reporter" where
  "remote_record f r = r\<lparr>rm_agg := f (rm_agg r)\<rparr>"

definition remote_flush :: "remote_reporter \<Rightarrow> remote_reporter" where
  "remote_flush r = r\<lparr>rm_notified := True\<rparr>"

definition remote_flush_and_wait :: "nat \<Rightarrow> remote_reporter \<Rightarrow> remote_reporter" where
  "remote_flush_and_wait w r = r\<lparr>rm_waiters := rm_waiters r @ [w], rm_notified := True\<rparr>"

text \<open>\<open>send_batch\<close> takes the batch; the task is then suspended on the request.\<close>

definition send_batch :: "bool \<Rightarrow> remote_reporter \<Rightarrow> remote_reporter" where
  "send_batch release r = r\<lparr>rm_sent := rm_sent r @ [rm_batch r], rm_batch := [], rm_phase := Sending release\<rparr>"

definition release_waiters :: "remote_reporter \<Rightarrow> remote_reporter" where
  "release_waiters r = r\<lparr>rm_released := rm_released r @ rm_waiters r, rm_waiters := []\<rparr>"

definition task_recv :: "reporting_config \<Rightarrow> remote_reporter \<Rightarrow> remote_reporter" where
  "task_recv cfg r =
     (case rm_queue r of
        [] \<Rightarrow> r
      | e # q \<Rightarrow>
          (let r = r\<lparr>rm_queue := q, rm_batch := rm_batch r @ [e]\<rparr> in
           if unat (rp_batch_size cfg) \<le> length (rm_batch r) then send_batch False r else r))"

definition task_collect :: "u64 \<Rightarrow> remote_reporter \<Rightarrow> remote_reporter" where
  "task_collect now r =
     (case agg_drain now (rm_agg r) of (events, agg) \<Rightarrow>
        r\<lparr>rm_batch := rm_batch r @ events @ rm_queue r, rm_queue := [], rm_agg := agg\<rparr>)"

definition task_tick :: "u64 \<Rightarrow> remote_reporter \<Rightarrow> remote_reporter" where
  "task_tick now r =
     (let r = task_collect now r in if rm_batch r \<noteq> [] then send_batch False r else r)"

definition task_notified :: "u64 \<Rightarrow> remote_reporter \<Rightarrow> remote_reporter" where
  "task_notified now r =
     (let r = task_collect now (r\<lparr>rm_notified := False\<rparr>) in
      if rm_batch r \<noteq> [] then send_batch True r else release_waiters r)"

definition task_sent :: "remote_reporter \<Rightarrow> remote_reporter" where
  "task_sent r =
     (case rm_phase r of
        Sending release \<Rightarrow>
          (let r = r\<lparr>rm_phase := Idle\<rparr> in if release then release_waiters r else r)
      | _ \<Rightarrow> r)"

text \<open>All senders dropped and the channel empty: the final drain, then the waiters are woken.\<close>

definition task_closed :: "u64 \<Rightarrow> remote_reporter \<Rightarrow> remote_reporter" where
  "task_closed now r =
     (let r = task_collect now r;
          r = (if rm_batch r \<noteq> [] then send_batch False r else r)
      in (release_waiters r)\<lparr>rm_phase := Stopped\<rparr>)"

text \<open>One step of the reporter: a caller, or the task at its \<open>select!\<close> or after its send.\<close>

datatype reporter_event =
    Emit telemetry_event
  | RecordRequest string string string f64 u64
  | RecordResult string bool string "transaction_info option"
  | RecordDecode string string "transaction_info option"
  | FlushCall
  | FlushAndWait nat
  | Recv
  | Tick u64
  | Notified u64
  | Sent
  | ChannelClosed u64

fun reporter_step :: "reporting_config \<Rightarrow> reporter_event \<Rightarrow> remote_reporter \<Rightarrow> remote_reporter" where
  "reporter_step cfg (Emit e) r = remote_emit cfg e r"
| "reporter_step cfg (RecordRequest me p st ms n) r = remote_record (agg_record me p st ms n) r"
| "reporter_step cfg (RecordResult p a res s) r = remote_record (agg_record_transaction_result p a res s) r"
| "reporter_step cfg (RecordDecode p res s) r = remote_record (agg_record_transaction_decode p res s) r"
| "reporter_step cfg FlushCall r = remote_flush r"
| "reporter_step cfg (FlushAndWait w) r = remote_flush_and_wait w r"
| "reporter_step cfg Recv r = (if rm_phase r = Idle then task_recv cfg r else r)"
| "reporter_step cfg (Tick now) r = (if rm_phase r = Idle then task_tick now r else r)"
| "reporter_step cfg (Notified now) r = (if rm_phase r = Idle \<and> rm_notified r then task_notified now r else r)"
| "reporter_step cfg Sent r = task_sent r"
| "reporter_step cfg (ChannelClosed now) r = (if rm_phase r = Idle \<and> rm_queue r = [] then task_closed now r else r)"

definition reporter_run :: "reporting_config \<Rightarrow> reporter_event list \<Rightarrow> remote_reporter \<Rightarrow> remote_reporter" where
  "reporter_run cfg es r = fold (reporter_step cfg) es r"

text \<open>Events that come from a caller's \<open>emit\<close>, and the outstanding events in delivery order.\<close>

fun is_raw :: "telemetry_event \<Rightarrow> bool" where
  "is_raw (RequestAggregate a) = False"
| "is_raw (TransactionSubmit t) = False"
| "is_raw e = True"

definition delivery :: "remote_reporter \<Rightarrow> telemetry_event list" where
  "delivery r = concat (rm_sent r) @ rm_batch r @ rm_queue r"

definition accepts :: "reporting_config \<Rightarrow> reporter_event \<Rightarrow> remote_reporter \<Rightarrow> telemetry_event list" where
  "accepts cfg ev r =
     (case ev of
        Emit e \<Rightarrow> if length (rm_queue r) < unat (rp_buffer_size cfg) \<and> rm_phase r \<noteq> Stopped then [e] else []
      | _ \<Rightarrow> [])"

fun accepted :: "reporting_config \<Rightarrow> reporter_event list \<Rightarrow> remote_reporter \<Rightarrow> telemetry_event list" where
  "accepted cfg [] r = []"
| "accepted cfg (ev # evs) r = accepts cfg ev r @ accepted cfg evs (reporter_step cfg ev r)"

fun event_calls :: "agg_key \<Rightarrow> telemetry_event \<Rightarrow> u64" where
  "event_calls k (RequestAggregate a) =
     (if k = (ra_method a, ra_provider a, ra_status a) then ra_count a else 0)"
| "event_calls k e = 0"

definition bucket_calls :: "agg_key \<Rightarrow> agg_state \<Rightarrow> u64" where
  "bucket_calls k s = (case map_of (ag_buckets s) k of None \<Rightarrow> 0 | Some b \<Rightarrow> bk_count b)"

definition total_calls :: "agg_key \<Rightarrow> remote_reporter \<Rightarrow> u64" where
  "total_calls k r = sum_list (map (event_calls k) (delivery r)) + bucket_calls k (rm_agg r)"

fun recorded_calls :: "agg_key \<Rightarrow> reporter_event \<Rightarrow> u64" where
  "recorded_calls k (RecordRequest me p st ms n) = (if k = (me, p, st) then n else 0)"
| "recorded_calls k ev = 0"

definition agg_ok :: "agg_state \<Rightarrow> bool" where
  "agg_ok s \<longleftrightarrow> distinct (map fst (ag_buckets s)) \<and> (\<forall>(k, b) \<in> set (ag_buckets s). bk_latencies b \<noteq> [])"

fun emits_raw :: "reporter_event \<Rightarrow> bool" where
  "emits_raw (Emit e) = is_raw e"
| "emits_raw ev = True"

section \<open>No accepted event is lost, duplicated or reordered\<close>

lemma drain_not_raw: "filter is_raw (fst (agg_drain now s)) = []"
  by (auto simp: agg_drain_def filter_empty_conv request_aggregate_of_def transaction_submit_of_def Let_def)

lemma collect_delivery: "filter is_raw (delivery (task_collect now r)) = filter is_raw (delivery r)"
  using drain_not_raw[of now "rm_agg r"]
  by (simp add: task_collect_def delivery_def case_prod_beta)

lemma send_batch_delivery [simp]: "delivery (send_batch b r) = delivery r"
  by (simp add: send_batch_def delivery_def)

lemma delivery_frame [simp]:
  "delivery (release_waiters r) = delivery r" "delivery (r\<lparr>rm_phase := ph\<rparr>) = delivery r"
  "delivery (r\<lparr>rm_notified := b\<rparr>) = delivery r" "delivery (r\<lparr>rm_waiters := ws\<rparr>) = delivery r"
  "delivery (r\<lparr>rm_agg := a\<rparr>) = delivery r"
  by (simp_all add: release_waiters_def delivery_def)

lemma recv_delivery: "delivery (task_recv cfg r) = delivery r"
  by (cases "rm_queue r") (simp_all add: task_recv_def Let_def, simp_all add: delivery_def)

lemma sent_delivery: "delivery (task_sent r) = delivery r"
  by (simp add: task_sent_def Let_def split: task_phase.split)

lemma step_delivery:
  "filter is_raw (delivery (reporter_step cfg ev r)) = filter is_raw (delivery r @ accepts cfg ev r)"
proof (cases ev)
  case (Emit e)
  then show ?thesis by (simp add: accepts_def remote_emit_def) (simp add: delivery_def)
qed (simp_all add: accepts_def remote_record_def remote_flush_def remote_flush_and_wait_def recv_delivery
      task_tick_def task_notified_def task_closed_def sent_delivery collect_delivery Let_def)

text \<open>The event channel, as its senders see it.\<close>

interpretation events: bounded_channel rm_queue "unat (rp_buffer_size cfg)" "\<lambda>r. rm_phase r \<noteq> Stopped" "\<lambda>e. e"
  "remote_emit cfg"
  by unfold_locales (auto simp: remote_emit_def)

lemma run_delivery:
  "filter is_raw (delivery (reporter_run cfg evs r)) = filter is_raw (delivery r @ accepted cfg evs r)"
proof (induction evs arbitrary: r)
  case Nil
  then show ?case by (simp add: reporter_run_def)
next
  case (Cons ev evs)
  have "reporter_run cfg (ev # evs) r = reporter_run cfg evs (reporter_step cfg ev r)"
    by (simp add: reporter_run_def)
  with Cons.IH[of "reporter_step cfg ev r"] step_delivery[of cfg ev r] show ?case by simp
qed

text \<open>Of the events the reporter accepted, none is lost, duplicated or reordered.\<close>

theorem accepted_events_delivered_in_order:
  "filter is_raw (concat (rm_sent (reporter_run cfg evs (remote_new t0))) @
     rm_batch (reporter_run cfg evs (remote_new t0)) @ rm_queue (reporter_run cfg evs (remote_new t0))) =
   filter is_raw (accepted cfg evs (remote_new t0))"
  using run_delivery[of cfg evs "remote_new t0"] by (simp add: delivery_def remote_new_def)

section \<open>Call volume is conserved\<close>

lemma raw_no_calls: "is_raw e \<Longrightarrow> event_calls k e = 0"
  by (cases e) auto

lemma set_update_subset: "set (AList.update k v xs) \<subseteq> insert (k, v) (set xs)"
  by (induction xs) auto

lemma agg_record_ok: "agg_ok s \<Longrightarrow> agg_ok (agg_record me p st ms n s)"
  unfolding agg_ok_def agg_record_def entry_update_def
  by (auto simp: distinct_update dest!: subsetD[OF set_update_subset])

lemma sum_list_distinct_key:
  "distinct (map fst xs) \<Longrightarrow>
   sum_list (map (\<lambda>x. if fst x = k then g (snd x) else 0) xs) =
     (case map_of xs k of None \<Rightarrow> 0 | Some v \<Rightarrow> g v)"
proof (induction xs)
  case (Cons x xs)
  have "fst x = k \<Longrightarrow> map_of xs k = None" using Cons.prems by (auto simp: map_of_eq_None_iff)
  with Cons show ?case by auto
qed simp

lemma drain_calls:
  assumes "agg_ok s"
  shows "sum_list (map (event_calls k) (fst (agg_drain now s))) = bucket_calls k s"
proof -
  have keep: "filter (\<lambda>(k, b). bk_latencies b \<noteq> []) (ag_buckets s) = ag_buckets s"
    using assms by (auto simp: agg_ok_def filter_id_conv)
  have "event_calls k (request_aggregate_of w now x) = (if fst x = k then bk_count (snd x) else 0)" for w x
    by (auto simp: request_aggregate_of_def Let_def split: prod.split)
  then have "sum_list (map (event_calls k) (map (request_aggregate_of (ag_window_start_ms s) now) (ag_buckets s)))
      = bucket_calls k s"
    using assms sum_list_distinct_key[of "ag_buckets s" k bk_count]
    by (simp add: comp_def bucket_calls_def agg_ok_def)
  moreover have "sum_list (map (event_calls k) (map (transaction_submit_of w now) (ag_tx_buckets s))) = 0" for w
  proof -
    have "event_calls k (transaction_submit_of w now x) = 0" for x
      by (simp add: transaction_submit_of_def Let_def split: prod.split)
    then show ?thesis by (simp add: comp_def)
  qed
  ultimately show ?thesis by (simp add: agg_drain_def keep)
qed

lemma drain_ok: "agg_ok (snd (agg_drain now s))" "bucket_calls k (snd (agg_drain now s)) = 0"
  by (simp_all add: agg_drain_def agg_ok_def bucket_calls_def)

lemma collect_calls:
  "agg_ok (rm_agg r) \<Longrightarrow> total_calls k (task_collect now r) = total_calls k r \<and> agg_ok (rm_agg (task_collect now r))"
  using drain_calls[of "rm_agg r" k now] drain_ok(1)[of now "rm_agg r"] drain_ok(2)[of k now "rm_agg r"]
  by (simp add: total_calls_def task_collect_def delivery_def case_prod_beta)

lemma agg_record_calls:
  "bucket_calls k (agg_record me p st ms n s) = bucket_calls k s + (if k = (me, p, st) then n else 0)"
  by (simp add: bucket_calls_def agg_record_def bucket_default_def split: option.split)

lemma agg_tx_frame [simp]:
  "bucket_calls k (agg_record_transaction_result p a res smp s) = bucket_calls k s"
  "bucket_calls k (agg_record_transaction_decode p res smp s) = bucket_calls k s"
  "agg_ok (agg_record_transaction_result p a res smp s) = agg_ok s"
  "agg_ok (agg_record_transaction_decode p res smp s) = agg_ok s"
  by (simp_all add: bucket_calls_def agg_ok_def agg_record_transaction_result_def
      agg_record_transaction_decode_def)

lemma total_calls_frame [simp]:
  "total_calls k (send_batch b r) = total_calls k r" "total_calls k (release_waiters r) = total_calls k r"
  "total_calls k (r\<lparr>rm_phase := ph\<rparr>) = total_calls k r" "total_calls k (r\<lparr>rm_notified := nb\<rparr>) = total_calls k r"
  "total_calls k (r\<lparr>rm_waiters := ws\<rparr>) = total_calls k r"
  "rm_agg (send_batch b r) = rm_agg r" "rm_agg (release_waiters r) = rm_agg r"
  by (simp_all add: total_calls_def send_batch_def release_waiters_def delivery_def)

lemma step_calls:
  assumes "agg_ok (rm_agg r)" "emits_raw ev"
  shows "total_calls k (reporter_step cfg ev r) = total_calls k r + recorded_calls k ev \<and>
    agg_ok (rm_agg (reporter_step cfg ev r))"
proof (cases ev)
  case (Emit e)
  with assms show ?thesis
    by (auto simp: remote_emit_def total_calls_def delivery_def raw_no_calls)
next
  case (RecordRequest me p st ms n)
  with assms show ?thesis
    by (auto simp: remote_record_def total_calls_def agg_record_calls agg_record_ok)
next
  case Recv
  have "rm_agg (task_recv cfg r) = rm_agg r"
    by (simp add: task_recv_def Let_def split: list.split)
  with Recv assms show ?thesis by (auto simp: total_calls_def recv_delivery)
next
  case Sent
  have "rm_agg (task_sent r) = rm_agg r" by (simp add: task_sent_def Let_def split: task_phase.split)
  with Sent assms show ?thesis by (auto simp: total_calls_def sent_delivery)
next
  case (Notified now)
  have "agg_ok (rm_agg (r\<lparr>rm_notified := False\<rparr>))" using assms(1) by simp
  from collect_calls[OF this, of k now] Notified assms show ?thesis
    by (simp add: task_notified_def Let_def)
qed (use assms collect_calls[OF assms(1)] in
      \<open>simp_all add: remote_record_def remote_flush_def remote_flush_and_wait_def task_tick_def task_closed_def
        Let_def, simp_all add: total_calls_def\<close>)

text \<open>C39. For each method, provider and status, the calls in the request aggregates that were sent or are
batched plus those in the open window equal the calls recorded, modulo 2^64, in every interleaving
of callers and flush task, if callers emit no request aggregates of their own, as none in the
sources does.\<close>

theorem call_volume_conserved:
  assumes "list_all emits_raw evs"
  shows "total_calls k (reporter_run cfg evs (remote_new t0)) = sum_list (map (recorded_calls k) evs)"
proof -
  have "agg_ok (rm_agg r) \<Longrightarrow> total_calls k (reporter_run cfg evs r) =
      total_calls k r + sum_list (map (recorded_calls k) evs)" for r
    using assms
  proof (induction evs arbitrary: r)
    case Nil
    then show ?case by (simp add: reporter_run_def)
  next
    case (Cons ev evs)
    with step_calls[of r ev k cfg] Cons.IH[of "reporter_step cfg ev r"] show ?case
      by (simp add: reporter_run_def)
  qed
  from this[of "remote_new t0"] show ?thesis
    by (simp add: remote_new_def agg_ok_def aggregator_new_def total_calls_def delivery_def bucket_calls_def)
qed

theorem flush_and_wait_delivers:
  assumes "rm_phase r = Idle"
  shows "w \<in> set (rm_released (reporter_run cfg [FlushAndWait w, Notified now, Sent] r)) \<and>
    delivery (reporter_run cfg [FlushAndWait w, Notified now, Sent] r) =
      concat (rm_sent (reporter_run cfg [FlushAndWait w, Notified now, Sent] r)) \<and>
    concat (rm_sent (reporter_run cfg [FlushAndWait w, Notified now, Sent] r)) =
      concat (rm_sent r) @ rm_batch r @ fst (agg_drain now (rm_agg r)) @ rm_queue r"
  using assms
  by (simp add: reporter_run_def remote_flush_and_wait_def task_notified_def task_collect_def Let_def
      send_batch_def task_sent_def release_waiters_def delivery_def case_prod_beta)

section \<open>Nearest rank\<close>

lemma length_filter_le_sorted:
  assumes "sorted xs" "i < length xs"
  shows "Suc i \<le> length (filter (\<lambda>x. x \<le> xs ! i) xs) \<and> length (filter (\<lambda>x. x < xs ! i) xs) \<le> i"
proof
  have "xs = take (Suc i) xs @ drop (Suc i) xs" by simp
  then have f: "filter P xs = filter P (take (Suc i) xs) @ filter P (drop (Suc i) xs)" for P
    by (metis filter_append)
  have mono: "j \<le> k \<Longrightarrow> k < length xs \<Longrightarrow> xs ! j \<le> xs ! k" for j k using sorted_nth_mono[OF assms(1)] .
  have "filter (\<lambda>x. x \<le> xs ! i) (take (Suc i) xs) = take (Suc i) xs"
    using assms(2) mono by (auto simp: filter_id_conv in_set_conv_nth less_Suc_eq_le)
  then show "Suc i \<le> length (filter (\<lambda>x. x \<le> xs ! i) xs)" using assms(2) by (simp add: f)
  have "filter (\<lambda>x. x < xs ! i) (drop i xs) = []"
    using assms(2) mono by (auto simp: filter_empty_conv in_set_conv_nth not_less)
  then have "filter (\<lambda>x. x < xs ! i) xs = filter (\<lambda>x. x < xs ! i) (take i xs)"
    by (metis append_Nil2 append_take_drop_id filter_append)
  then show "length (filter (\<lambda>x. x < xs ! i) xs) \<le> i"
    using length_filter_le[of _ "take i xs"] assms(2) by (metis length_take less_imp_le min.absorb2)
qed

theorem percentile_nearest_rank:
  assumes "xs \<noteq> []" "0 < p" "p \<le> 100"
  shows "percentile_u64 (sort xs) p \<in> set xs \<and>
    p * length xs \<le> 100 * length (filter (\<lambda>x. x \<le> percentile_u64 (sort xs) p) xs) \<and>
    100 * length (filter (\<lambda>x. x < percentile_u64 (sort xs) p) xs) < p * length xs"
proof -
  let ?n = "length xs" and ?r = "(p * length xs + 99) div 100"
  have n: "0 < ?n" using assms(1) by simp
  have r: "0 < ?r" "?r \<le> ?n" "p * ?n \<le> 100 * ?r" "100 * (?r - 1) < p * ?n"
  proof -
    have pn: "0 < p * ?n" "p * ?n \<le> 100 * ?n" using assms n by simp_all
    then show "0 < ?r" "?r \<le> ?n" "p * ?n \<le> 100 * ?r" "100 * (?r - 1) < p * ?n" by linarith+
  qed
  then have i: "min (?r - 1) (?n - 1) = ?r - 1" "?r - 1 < ?n" by auto
  let ?v = "sort xs ! (?r - 1)"
  have "sort xs \<noteq> []" using assms(1) by (metis length_0_conv length_sort)
  then have v: "percentile_u64 (sort xs) p = ?v" using i by (simp add: percentile_u64_def Let_def)
  have "?v \<in> set xs" using i(2) by (metis length_sort nth_mem set_sort)
  moreover have "length (filter P (sort xs)) = length (filter P xs)" for P
    by (metis mset_filter mset_sort size_mset)
  ultimately show ?thesis
    using length_filter_le_sorted[of "sort xs" "?r - 1"] i(2) r v by auto
qed

section \<open>Witnesses\<close>

theorem call_volume_conserved_witness:
  "total_calls (''getSlot'', ''a'', ''ok'') (reporter_run (default_reporting ''e'')
     [RecordRequest ''getSlot'' ''a'' ''ok'' (Fin 5) 3, Tick 7, Sent, RecordRequest ''getSlot'' ''a'' ''ok'' (Fin 5) 4]
     (remote_new 0)) = 7"
  using call_volume_conserved[of "[RecordRequest ''getSlot'' ''a'' ''ok'' (Fin 5) 3, Tick 7, Sent,
      RecordRequest ''getSlot'' ''a'' ''ok'' (Fin 5) 4]" "(''getSlot'', ''a'', ''ok'')" "default_reporting ''e''" 0]
  by simp

theorem flush_and_wait_delivers_witness:
  "1 \<in> set (rm_released (reporter_run (default_reporting ''e'') [FlushAndWait 1, Notified 7, Sent] (remote_new 0)))"
  using flush_and_wait_delivers[of "remote_new 0" 1 "default_reporting ''e''" 7] by (simp add: remote_new_def)

theorem percentile_nearest_rank_witness:
  "percentile_u64 (sort [30, 10, 20]) 50 \<in> {30, 10, 20 :: u64}"
  using percentile_nearest_rank[of "[30, 10, 20]" 50] by simp

end
