(* ===== verification/Monitor.thy ===== *)
theory Monitor
  imports Health RateLimit Json Metrics
begin

text \<open>
  \<open>HealthMonitor\<close> of \<open>src/src/health.rs\<close> with its background probe loops. A \<open>ProviderEntry\<close> shares its
  \<open>ProviderHealth\<close> and its stop flag with the loop spawned for it, so both live in a store addressed by
  index; removing an entry drops only the map's reference, and a loop that is still running keeps its own.
  The \<open>entries\<close> map is an association list with distinct keys. A lookup in the map followed by one locked
  call on what it found is one step. A probe loop is cut at its wait and at every lock it takes: its stop check, the
  reply, the ring of round tips, the slots, the sample and the metric are six steps, and other tasks run in between.
  Only a snapshot, which reads the records of all providers one lock after the other, is taken at one point in
  time. Replies to probes, and clock readings, are inputs of the steps.
\<close>

section \<open>State\<close>

text \<open>A built HTTP client: the two settings \<open>build_client\<close> takes from the configuration.\<close>

record client =
  cl_http3 :: bool
  cl_pool_max_idle_per_host :: usize

type_synonym clients = "(string \<times> client) list"

record provider_entry =
  pe_health :: nat
  pe_limiter :: "token_bucket option"
  pe_stop :: nat

text \<open>
  Where a probe loop stands: it waits for its next tick, it waits for the reply to a probe of a round, or it has
  one of its updates before it (the ring, the provider's slots, the sample, the metric).
\<close>

datatype probe_stage =
    Resting
  | Awaiting "u64 option"
  | Observing commitment_slots f64 "u64 option"
  | Storing commitment_slots f64 "u64 option"
  | Recording sample f64
  | Counting string

record loop_task =
  lt_health :: nat
  lt_stop :: nat
  lt_client :: client
  lt_provider :: provider_config
  lt_done :: bool
  lt_stage :: probe_stage

record monitor =
  mo_entries :: "(string \<times> provider_entry) list"
  mo_healths :: "(string \<times> inner) list"
  mo_stops :: "bool list"
  mo_loops :: "loop_task list"
  mo_reference_slots :: commitment_slots
  mo_reference_stop :: bool
  mo_reference_running :: bool
  mo_reference_stage :: probe_stage
  mo_clock :: probe_clock
  mo_round_tips :: round_tips
  mo_cfg :: health_config
  mo_metrics :: metrics

definition REFERENCE_LABEL :: string where "REFERENCE_LABEL = ''reference''"

section \<open>Providers come and go\<close>

text \<open>A fresh \<open>ProviderHealth\<close> and stop flag, and the map entry that refers to them.\<close>

definition alloc_entry :: "instant \<Rightarrow> provider_config \<Rightarrow> monitor \<Rightarrow> provider_entry \<times> monitor" where
  "alloc_entry now p m =
     (\<lparr>pe_health = length (mo_healths m), pe_limiter = build_limiter now (pv_max_rps p),
       pe_stop = length (mo_stops m)\<rparr>,
      m\<lparr>mo_healths := mo_healths m @ [(pv_name p, inner_new)], mo_stops := mo_stops m @ [False]\<rparr>)"

definition insert_provider :: "instant \<Rightarrow> provider_config \<Rightarrow> monitor \<Rightarrow> monitor" where
  "insert_provider now p m =
     (case alloc_entry now p m of (entry, m) \<Rightarrow>
        m\<lparr>mo_entries := AList.update (pv_name p) entry (mo_entries m)\<rparr>)"

definition monitor_new :: "instant \<Rightarrow> provider_config list \<Rightarrow> health_config \<Rightarrow> metrics \<Rightarrow> monitor" where
  "monitor_new now providers cfg metrics =
     fold (insert_provider now) providers
       \<lparr>mo_entries = [], mo_healths = [], mo_stops = [], mo_loops = [],
        mo_reference_slots = cs_default, mo_reference_stop = False, mo_reference_running = False,
        mo_reference_stage = Resting,
        mo_clock = clock_new now (hc_interval_ms cfg), mo_round_tips = rt_default, mo_cfg = cfg,
        mo_metrics = metrics\<rparr>"

text \<open>A spawned \<open>health_loop\<close> returns at once for a provider that cannot answer \<open>getSlot\<close>.\<close>

definition spawn_loops :: "nat \<Rightarrow> nat \<Rightarrow> client \<Rightarrow> provider_config \<Rightarrow> monitor \<Rightarrow> monitor" where
  "spawn_loops health stop cl p m =
     m\<lparr>mo_loops := mo_loops m @
         [\<lparr>lt_health = health, lt_stop = stop, lt_client = cl, lt_provider = p,
           lt_done = \<not> supports p ''getSlot'', lt_stage = Resting\<rparr>]\<rparr>"

definition start_provider :: "clients \<Rightarrow> provider_config \<Rightarrow> monitor \<Rightarrow> monitor" where
  "start_provider cls p m =
     (case (map_of cls (pv_name p), map_of (mo_entries m) (pv_name p)) of
        (Some cl, Some e) \<Rightarrow> spawn_loops (pe_health e) (pe_stop e) cl p m
      | _ \<Rightarrow> m)"

definition start :: "clients \<Rightarrow> provider_config list \<Rightarrow> monitor \<Rightarrow> monitor" where
  "start cls providers m =
     (let m = fold (start_provider cls) providers m in
      if hc_reference_url (mo_cfg m) \<noteq> None
      then m\<lparr>mo_reference_stop := False, mo_reference_running := True\<rparr> else m)"

definition add_provider :: "instant \<Rightarrow> client \<Rightarrow> provider_config \<Rightarrow> monitor \<Rightarrow> monitor" where
  "add_provider now cl p m =
     (case alloc_entry now p m of (entry, m) \<Rightarrow>
        (let m = spawn_loops (pe_health entry) (pe_stop entry) cl p m in
         m\<lparr>mo_entries := AList.update (pv_name p) entry (mo_entries m)\<rparr>))"

definition remove_provider :: "string \<Rightarrow> monitor \<Rightarrow> monitor" where
  "remove_provider name m =
     (case map_of (mo_entries m) name of
        None \<Rightarrow> m
      | Some e \<Rightarrow>
          m\<lparr>mo_entries := AList.delete name (mo_entries m), mo_stops := (mo_stops m)[pe_stop e := True]\<rparr>)"

section \<open>Rate caps\<close>

definition set_limiter :: "string \<Rightarrow> provider_entry \<Rightarrow> token_bucket option \<Rightarrow> monitor \<Rightarrow> monitor" where
  "set_limiter name e l m = m\<lparr>mo_entries := AList.update name (e\<lparr>pe_limiter := l\<rparr>) (mo_entries m)\<rparr>"

definition apply_rate_limit :: "instant \<Rightarrow> string \<Rightarrow> u32 option \<Rightarrow> monitor \<Rightarrow> monitor" where
  "apply_rate_limit now name max_rps m =
     (case map_of (mo_entries m) name of
        None \<Rightarrow> m
      | Some e \<Rightarrow>
          (case (max_rps, pe_limiter e) of
             (Some rps, Some l) \<Rightarrow> set_limiter name e (Some (bucket_reconfigure now rps l)) m
           | (Some rps, None) \<Rightarrow> set_limiter name e (Some (bucket_new now rps)) m
           | (None, Some l) \<Rightarrow> set_limiter name e None m
           | (None, None) \<Rightarrow> m))"

definition try_acquire :: "instant \<Rightarrow> string \<Rightarrow> monitor \<Rightarrow> bool \<times> monitor" where
  "try_acquire now name m =
     (case map_of (mo_entries m) name of
        None \<Rightarrow> (True, m)
      | Some e \<Rightarrow>
          (case pe_limiter e of
             None \<Rightarrow> (True, m)
           | Some l \<Rightarrow>
               (case bucket_try_acquire now l of (granted, l) \<Rightarrow> (granted, set_limiter name e (Some l) m))))"

section \<open>Outcomes\<close>

definition update_health :: "string \<Rightarrow> (inner \<Rightarrow> inner) \<Rightarrow> monitor \<Rightarrow> monitor" where
  "update_health name f m =
     (case map_of (mo_entries m) name of
        None \<Rightarrow> m
      | Some e \<Rightarrow>
          (case mo_healths m ! pe_health e of (n, g) \<Rightarrow>
             m\<lparr>mo_healths := (mo_healths m)[pe_health e := (n, f g)]\<rparr>))"

definition mo_record :: "readings \<Rightarrow> string \<Rightarrow> bool \<Rightarrow> f64 \<Rightarrow> bool \<Rightarrow> monitor \<Rightarrow> monitor" where
  "mo_record ts name success latency_ms is_probe m =
     update_health name (ph_record ts success latency_ms is_probe (mo_cfg m)) m"

definition mo_record_throttled :: "readings \<Rightarrow> string \<Rightarrow> f64 \<Rightarrow> monitor \<Rightarrow> monitor" where
  "mo_record_throttled ts name latency_ms m =
     update_health name (ph_record_throttled ts latency_ms (mo_cfg m)) m"

section \<open>Snapshots\<close>

definition reference_tip :: "monitor \<Rightarrow> commitment_slots option" where
  "reference_tip m = (if hc_reference_url (mo_cfg m) = None then None else Some (mo_reference_slots m))"

definition entry_inner :: "monitor \<Rightarrow> string \<times> provider_entry \<Rightarrow> inner" where
  "entry_inner m e = snd (mo_healths m ! pe_health (snd e))"

definition latest_tips :: "monitor \<Rightarrow> slot_tips" where
  "latest_tips m =
     st_observe (fold (\<lambda>e tips. st_observe tips (in_slots (entry_inner m e))) (mo_entries m) st_default)
       (mo_reference_slots m)"

definition observed_tips :: "monitor \<Rightarrow> commitment_slots" where
  "observed_tips m =
     (let seen = cs_observe_max
            (fold (\<lambda>e tips. cs_observe_max tips (in_slots (entry_inner m e))) (mo_entries m) cs_default)
            (mo_reference_slots m)
      in if cs_confirmed seen = None then seen\<lparr>cs_confirmed := cs_finalized seen\<rparr> else seen)"

definition snapshot_entry :: "instant \<Rightarrow> monitor \<Rightarrow> string \<times> provider_entry \<Rightarrow> health_snapshot" where
  "snapshot_entry now m e =
     (let book = \<lparr>tb_latest = latest_tips m, tb_rounds = mo_round_tips m\<rparr>;
          h = mo_healths m ! pe_health (snd e);
          snap = snapshot (fst h) (snd h) (tip_of_book book) (mo_cfg m)
      in snap\<lparr>hs_rate_limited :=
           (case pe_limiter (snd e) of None \<Rightarrow> False | Some l \<Rightarrow> \<not> fst (bucket_has_capacity now l))\<rparr>)"

text \<open>The peek refills the buckets it looks at.\<close>

definition peek_limiters :: "instant \<Rightarrow> monitor \<Rightarrow> monitor" where
  "peek_limiters now m =
     m\<lparr>mo_entries := map (\<lambda>(n, e). (n, e\<lparr>pe_limiter :=
         map_option (\<lambda>l. snd (bucket_has_capacity now l)) (pe_limiter e)\<rparr>)) (mo_entries m)\<rparr>"

definition snapshots_with_tips ::
  "instant \<Rightarrow> monitor \<Rightarrow> (health_snapshot list \<times> commitment_slots) \<times> monitor" where
  "snapshots_with_tips now m =
     ((map (snapshot_entry now m) (mo_entries m), observed_tips m), peek_limiters now m)"

definition snapshots :: "instant \<Rightarrow> monitor \<Rightarrow> health_snapshot list \<times> monitor" where
  "snapshots now m = (case snapshots_with_tips now m of ((snaps, _), m) \<Rightarrow> (snaps, m))"

section \<open>Probes\<close>

text \<open>What one \<open>getSlot\<close> request meets: no reply, a reply whose body cannot be read, or a full reply.\<close>

datatype http_reply = SendFailed | BodyFailed u16 f64 | Reply u16 bytes f64

datatype probe_error = RateLimited | ProbeFailed

definition is_success :: "u16 \<Rightarrow> bool" where
  "is_success status \<longleftrightarrow> 200 \<le> status \<and> status < 300"

definition get_slot :: "json_parser \<Rightarrow> http_reply \<Rightarrow> probe_error + (u64 \<times> f64)" where
  "get_slot parse reply =
     (case reply of
        SendFailed \<Rightarrow> Inl ProbeFailed
      | BodyFailed status ms \<Rightarrow> Inl (if status = 429 then RateLimited else ProbeFailed)
      | Reply status body ms \<Rightarrow>
          if status = 429 then Inl RateLimited
          else if \<not> is_success status then Inl ProbeFailed
          else case Option.bind (Option.bind (parse body) (json_get ''result'')) json_as_u64 of
              None \<Rightarrow> Inl ProbeFailed
            | Some slot \<Rightarrow> Inr (slot, ms))"

definition probe_optional ::
  "json_parser \<Rightarrow> commitment list \<Rightarrow> (commitment \<Rightarrow> http_reply) \<Rightarrow> commitment \<Rightarrow> u64 option" where
  "probe_optional parse commitments replies c =
     (if c \<in> set commitments
      then (case get_slot parse (replies c) of Inl _ \<Rightarrow> None | Inr (s, _) \<Rightarrow> Some s)
      else None)"

definition probe ::
  "json_parser \<Rightarrow> commitment list \<Rightarrow> (commitment \<Rightarrow> http_reply) \<Rightarrow> probe_error + (commitment_slots \<times> f64)" where
  "probe parse commitments replies =
     (case get_slot parse (replies Processed) of
        Inl e \<Rightarrow> Inl e
      | Inr (slot, ms) \<Rightarrow>
          Inr (\<lparr>cs_processed = Some slot,
                cs_confirmed = probe_optional parse commitments replies Confirmed,
                cs_finalized = probe_optional parse commitments replies Finalized\<rparr>, ms))"

text \<open>The three locked updates after a successful probe, in the order the loop makes them.\<close>

definition observe_round :: "u64 option \<Rightarrow> commitment_slots \<Rightarrow> monitor \<Rightarrow> monitor" where
  "observe_round rd slots m =
     (case rd of None \<Rightarrow> m | Some r \<Rightarrow> m\<lparr>mo_round_tips := rt_observe (mo_round_tips m) r slots\<rparr>)"

definition health_at :: "nat \<Rightarrow> (inner \<Rightarrow> inner) \<Rightarrow> monitor \<Rightarrow> monitor" where
  "health_at a f m =
     (case mo_healths m ! a of (n, g) \<Rightarrow> m\<lparr>mo_healths := (mo_healths m)[a := (n, f g)]\<rparr>)"

definition count_probe :: "string \<Rightarrow> string \<Rightarrow> string \<Rightarrow> monitor \<Rightarrow> monitor" where
  "count_probe provider probe_type status m =
     m\<lparr>mo_metrics := record_probe provider probe_type status (mo_metrics m)\<rparr>"

text \<open>
  What a task does with the outcome of a probe it sent in round \<open>rd\<close>, if nothing runs in between; the time the whole
  probe took is used on failure only.
\<close>

definition probe_result ::
  "json_parser \<Rightarrow> loop_task \<Rightarrow> u64 option \<Rightarrow> (commitment \<Rightarrow> http_reply) \<Rightarrow> duration \<Rightarrow> readings \<Rightarrow>
   monitor \<Rightarrow> monitor" where
  "probe_result parse t rd replies elapsed ts m =
     (let cfg = mo_cfg m; a = lt_health t; name = pv_name (lt_provider t) in
      case probe parse (hc_probe_commitments cfg) replies of
        Inr (slots, ms) \<Rightarrow>
          count_probe name ''health'' ''ok''
            (health_at a (ph_record ts True ms True cfg)
              (health_at a (update_slots_in_round slots rd) (observe_round rd slots m)))
      | Inl e \<Rightarrow>
          (let ms = f64_mul (as_secs_f64 elapsed) (Fin 1000) in
           case e of
             RateLimited \<Rightarrow>
               count_probe name ''health'' ''rate_limited'' (health_at a (ph_record_throttled ts ms cfg) m)
           | ProbeFailed \<Rightarrow>
               count_probe name ''health'' ''error'' (health_at a (ph_record ts False ms True cfg) m)))"

text \<open>The steps of \<open>health_loop\<close> of task \<open>i\<close>: the tick with the stop check and the reading that decides the round.\<close>

definition set_stage :: "nat \<Rightarrow> probe_stage \<Rightarrow> monitor \<Rightarrow> monitor" where
  "set_stage i st m = m\<lparr>mo_loops := (mo_loops m)[i := (mo_loops m ! i)\<lparr>lt_stage := st\<rparr>]\<rparr>"

definition health_loop_tick :: "nat \<Rightarrow> instant \<Rightarrow> instant \<Rightarrow> monitor \<Rightarrow> monitor" where
  "health_loop_tick i tick now m =
     (let t = mo_loops m ! i in
      if lt_done t \<or> lt_stage t \<noteq> Resting then m
      else if mo_stops m ! lt_stop t then m\<lparr>mo_loops := (mo_loops m)[i := t\<lparr>lt_done := True\<rparr>]\<rparr>
      else set_stage i (Awaiting (on_grid_round (mo_clock m) now tick)) m)"

text \<open>The reply, which decides what the loop has to update.\<close>

definition stage_of_reply :: "probe_error + (commitment_slots \<times> f64) \<Rightarrow> u64 option \<Rightarrow> duration \<Rightarrow> probe_stage" where
  "stage_of_reply res rd elapsed =
     (case res of
        Inr (slots, ms) \<Rightarrow> Observing slots ms rd
      | Inl e \<Rightarrow>
          (let ms = f64_mul (as_secs_f64 elapsed) (Fin 1000) in
           case e of RateLimited \<Rightarrow> Recording Throttle ms | ProbeFailed \<Rightarrow> Recording Failure ms))"

definition health_loop_reply ::
  "json_parser \<Rightarrow> nat \<Rightarrow> (commitment \<Rightarrow> http_reply) \<Rightarrow> duration \<Rightarrow> monitor \<Rightarrow> monitor" where
  "health_loop_reply parse i replies elapsed m =
     (case lt_stage (mo_loops m ! i) of
        Awaiting rd \<Rightarrow>
          set_stage i (stage_of_reply (probe parse (hc_probe_commitments (mo_cfg m)) replies) rd elapsed) m
      | _ \<Rightarrow> m)"

text \<open>The updates, each under a lock of its own, in the order the loop makes them.\<close>

fun sample_text :: "sample \<Rightarrow> string" where
  "sample_text Success = ''ok''"
| "sample_text Failure = ''error''"
| "sample_text Throttle = ''rate_limited''"

definition record_sample :: "readings \<Rightarrow> sample \<Rightarrow> f64 \<Rightarrow> health_config \<Rightarrow> inner \<Rightarrow> inner" where
  "record_sample ts sm ms cfg =
     (case sm of
        Success \<Rightarrow> ph_record ts True ms True cfg
      | Failure \<Rightarrow> ph_record ts False ms True cfg
      | Throttle \<Rightarrow> ph_record_throttled ts ms cfg)"

fun stage_step :: "loop_task \<Rightarrow> readings \<Rightarrow> probe_stage \<Rightarrow> monitor \<Rightarrow> probe_stage \<times> monitor" where
  "stage_step t ts (Observing slots ms rd) m = (Storing slots ms rd, observe_round rd slots m)"
| "stage_step t ts (Storing slots ms rd) m =
     (Recording Success ms, health_at (lt_health t) (update_slots_in_round slots rd) m)"
| "stage_step t ts (Recording sm ms) m =
     (Counting (sample_text sm), health_at (lt_health t) (record_sample ts sm ms (mo_cfg m)) m)"
| "stage_step t ts (Counting status) m = (Resting, count_probe (pv_name (lt_provider t)) ''health'' status m)"
| "stage_step t ts st m = (st, m)"

definition health_loop_stage :: "nat \<Rightarrow> readings \<Rightarrow> monitor \<Rightarrow> monitor" where
  "health_loop_stage i ts m =
     (let t = mo_loops m ! i in case stage_step t ts (lt_stage t) m of (st, m) \<Rightarrow> set_stage i st m)"

text \<open>The reference loop likewise: it keeps no health, its slots are merged into its own.\<close>

definition reference_loop_tick :: "instant \<Rightarrow> instant \<Rightarrow> monitor \<Rightarrow> monitor" where
  "reference_loop_tick tick now m =
     (if \<not> mo_reference_running m \<or> mo_reference_stage m \<noteq> Resting then m
      else if mo_reference_stop m then m\<lparr>mo_reference_running := False\<rparr>
      else m\<lparr>mo_reference_stage := Awaiting (on_grid_round (mo_clock m) now tick)\<rparr>)"

definition reference_loop_reply :: "json_parser \<Rightarrow> (commitment \<Rightarrow> http_reply) \<Rightarrow> monitor \<Rightarrow> monitor" where
  "reference_loop_reply parse replies m =
     (case mo_reference_stage m of
        Awaiting rd \<Rightarrow>
          m\<lparr>mo_reference_stage :=
            (case probe parse (hc_probe_commitments (mo_cfg m)) replies of
               Inr (slots, ms) \<Rightarrow> Observing slots ms rd
             | Inl RateLimited \<Rightarrow> Counting ''rate_limited''
             | Inl ProbeFailed \<Rightarrow> Counting ''error'')\<rparr>
      | _ \<Rightarrow> m)"

definition reference_loop_stage :: "monitor \<Rightarrow> monitor" where
  "reference_loop_stage m =
     (case mo_reference_stage m of
        Observing slots ms rd \<Rightarrow> (observe_round rd slots m)\<lparr>mo_reference_stage := Storing slots ms rd\<rparr>
      | Storing slots ms rd \<Rightarrow>
          m\<lparr>mo_reference_slots := cs_merge (mo_reference_slots m) slots, mo_reference_stage := Counting ''ok''\<rparr>
      | Counting status \<Rightarrow> (count_probe REFERENCE_LABEL ''reference'' status m)\<lparr>mo_reference_stage := Resting\<rparr>
      | _ \<Rightarrow> m)"

section \<open>The monitor as a state machine\<close>

datatype monitor_event =
    AddProvider instant client provider_config
  | RemoveProvider string
  | ApplyRateLimit instant string "u32 option"
  | TryAcquire instant string
  | Snapshots instant
  | RecordOutcome readings string bool f64
  | RecordThrottled readings string f64
  | LoopTick nat instant instant
  | LoopReply nat "commitment \<Rightarrow> http_reply" duration
  | LoopStage nat readings
  | ReferenceTick instant instant
  | ReferenceReply "commitment \<Rightarrow> http_reply"
  | ReferenceStage

fun monitor_step :: "json_parser \<Rightarrow> monitor_event \<Rightarrow> monitor \<Rightarrow> monitor" where
  "monitor_step parse (AddProvider now cl p) m = add_provider now cl p m"
| "monitor_step parse (RemoveProvider n) m = remove_provider n m"
| "monitor_step parse (ApplyRateLimit now n r) m = apply_rate_limit now n r m"
| "monitor_step parse (TryAcquire now n) m = snd (try_acquire now n m)"
| "monitor_step parse (Snapshots now) m = snd (snapshots_with_tips now m)"
| "monitor_step parse (RecordOutcome ts n ok ms) m = mo_record ts n ok ms False m"
| "monitor_step parse (RecordThrottled ts n ms) m = mo_record_throttled ts n ms m"
| "monitor_step parse (LoopTick i tick now) m =
     (if i < length (mo_loops m) then health_loop_tick i tick now m else m)"
| "monitor_step parse (LoopReply i replies elapsed) m =
     (if i < length (mo_loops m) then health_loop_reply parse i replies elapsed m else m)"
| "monitor_step parse (LoopStage i ts) m = (if i < length (mo_loops m) then health_loop_stage i ts m else m)"
| "monitor_step parse (ReferenceTick tick now) m = reference_loop_tick tick now m"
| "monitor_step parse (ReferenceReply replies) m = reference_loop_reply parse replies m"
| "monitor_step parse ReferenceStage m = reference_loop_stage m"

text \<open>
  The representation invariant, on what the sharing depends on: for each entry its name, health and
  stop flag, the names of the stored healths, the number of stop flags, and the references of the loops.
  Names are distinct, entries share neither health nor stop flag, every reference is inside its store,
  a health carries its entry's name, and a loop that feeds an entry's health obeys the entry's stop flag.
\<close>

type_synonym skeleton = "(string \<times> nat \<times> nat) list \<times> string list \<times> nat \<times> (nat \<times> nat) list"

definition skeleton :: "monitor \<Rightarrow> skeleton" where
  "skeleton m =
     (map (\<lambda>(n, e). (n, pe_health e, pe_stop e)) (mo_entries m), map fst (mo_healths m),
      length (mo_stops m), map (\<lambda>t. (lt_health t, lt_stop t)) (mo_loops m))"

fun skeleton_ok :: "skeleton \<Rightarrow> bool" where
  "skeleton_ok (es, names, stops, loops) \<longleftrightarrow>
     distinct (map fst es) \<and> distinct (map (\<lambda>(n, h, s). h) es) \<and> distinct (map (\<lambda>(n, h, s). s) es) \<and>
     (\<forall>(n, h, s) \<in> set es. h < length names \<and> s < stops \<and> names ! h = n) \<and>
     (\<forall>(h, s) \<in> set loops. h < length names \<and> s < stops) \<and>
     (\<forall>(h, s) \<in> set loops. \<forall>(n, h', s') \<in> set es. h = h' \<longrightarrow> s = s')"

definition monitor_ok :: "monitor \<Rightarrow> bool" where
  "monitor_ok m \<longleftrightarrow> skeleton_ok (skeleton m)"

definition monitor_run ::
  "json_parser \<Rightarrow> instant \<Rightarrow> clients \<Rightarrow> provider_config list \<Rightarrow> health_config \<Rightarrow> metrics \<Rightarrow>
   monitor_event list \<Rightarrow> monitor" where
  "monitor_run parse now cls providers cfg mt evs =
     fold (monitor_step parse) evs (start cls providers (monitor_new now providers cfg mt))"

text \<open>A set stop flag stays set, and a loop keeps its flag.\<close>

definition stopped :: "nat \<Rightarrow> nat \<Rightarrow> monitor \<Rightarrow> bool" where
  "stopped i s m \<longleftrightarrow> s < length (mo_stops m) \<and> mo_stops m ! s \<and> i < length (mo_loops m) \<and>
     lt_stop (mo_loops m ! i) = s"

text \<open>
  The ring still knows round \<open>r\<close> at least as high as \<open>s\<close>, or has moved past it: its cell holds round
  \<open>r\<close> with a tip that is not below \<open>s\<close>, or a later round.
\<close>

definition round_covered :: "round_tips \<Rightarrow> u64 \<Rightarrow> commitment \<Rightarrow> u64 \<Rightarrow> bool" where
  "round_covered ring r c s \<longleftrightarrow>
     (case ring ! rt_index r of None \<Rightarrow> False | Some (r', tips) \<Rightarrow> r \<le> r' \<and> (r' = r \<longrightarrow> s \<le> st_get tips c))"

definition slots_covered :: "round_tips \<Rightarrow> inner \<Rightarrow> bool" where
  "slots_covered ring g \<longleftrightarrow> (\<forall>c r s. cr_get (in_rounds g) c = Some r \<longrightarrow> cs_get (in_slots g) c = Some s \<longrightarrow>
     round_covered ring r c s)"

text \<open>A loop that is about to store slots has observed their round.\<close>

fun stage_covered :: "round_tips \<Rightarrow> probe_stage \<Rightarrow> bool" where
  "stage_covered ring (Storing slots ms rd) =
     (\<forall>c r s. rd = Some r \<longrightarrow> cs_get slots c = Some s \<longrightarrow> round_covered ring r c s)"
| "stage_covered ring st = True"

definition tips_cover :: "monitor \<Rightarrow> bool" where
  "tips_cover m \<longleftrightarrow> length (mo_round_tips m) = TIP_ROUNDS \<and>
     (\<forall>x \<in> set (mo_healths m). slots_covered (mo_round_tips m) (snd x)) \<and>
     (\<forall>t \<in> set (mo_loops m). stage_covered (mo_round_tips m) (lt_stage t))"

definition demo_monitor :: monitor where
  "demo_monitor = start [(''a'', \<lparr>cl_http3 = False, cl_pool_max_idle_per_host = 1\<rparr>)]
     [default_provider ''a'' ''u''] (monitor_new 0 [default_provider ''a'' ''u''] default_health [])"

definition demo_slot_parse :: json_parser where
  "demo_slot_parse body = Some (JObj [(''result'', JInt 7)])"

definition demo_probe_events :: "monitor_event list" where
  "demo_probe_events = [LoopTick 0 0 0, LoopReply 0 (\<lambda>_. Reply 200 [] (Fin 5)) 0, LoopStage 0 (secs 0),
     LoopStage 0 (secs 0), LoopStage 0 (secs 0), LoopStage 0 (secs 0)]"

definition demo_run :: monitor where
  "demo_run = monitor_run demo_slot_parse 0 [(''a'', \<lparr>cl_http3 = False, cl_pool_max_idle_per_host = 1\<rparr>)]
     [default_provider ''a'' ''u''] default_health [] demo_probe_events"

section \<open>Frames of the helpers\<close>

lemma health_at_frame [simp]:
  "mo_entries (health_at a f m) = mo_entries m" "mo_stops (health_at a f m) = mo_stops m"
  "mo_loops (health_at a f m) = mo_loops m" "mo_round_tips (health_at a f m) = mo_round_tips m"
  "mo_cfg (health_at a f m) = mo_cfg m" "mo_reference_slots (health_at a f m) = mo_reference_slots m"
  "length (mo_healths (health_at a f m)) = length (mo_healths m)"
  by (simp_all add: health_at_def split: prod.split)

lemma health_at_healths:
  "mo_healths (health_at a f m) =
     (mo_healths m)[a := (fst (mo_healths m ! a), f (snd (mo_healths m ! a)))]"
  by (simp add: health_at_def split: prod.split)

lemma health_at_name [simp]: "fst (mo_healths (health_at a f m) ! b) = fst (mo_healths m ! b)"
  by (cases "a < length (mo_healths m)"; cases "a = b") (simp_all add: health_at_healths list_update_beyond)

lemma observe_round_frame [simp]:
  "mo_entries (observe_round rd s m) = mo_entries m" "mo_stops (observe_round rd s m) = mo_stops m"
  "mo_loops (observe_round rd s m) = mo_loops m" "mo_healths (observe_round rd s m) = mo_healths m"
  "mo_cfg (observe_round rd s m) = mo_cfg m" "mo_reference_slots (observe_round rd s m) = mo_reference_slots m"
  by (simp_all add: observe_round_def split: option.split)

lemma count_probe_frame [simp]:
  "mo_entries (count_probe p t st m) = mo_entries m" "mo_stops (count_probe p t st m) = mo_stops m"
  "mo_loops (count_probe p t st m) = mo_loops m" "mo_healths (count_probe p t st m) = mo_healths m"
  "mo_cfg (count_probe p t st m) = mo_cfg m" "mo_reference_slots (count_probe p t st m) = mo_reference_slots m"
  "mo_round_tips (count_probe p t st m) = mo_round_tips m"
  by (simp_all add: count_probe_def)

lemma update_health_at:
  "update_health name f m =
     (case map_of (mo_entries m) name of None \<Rightarrow> m | Some e \<Rightarrow> health_at (pe_health e) f m)"
  by (simp add: update_health_def health_at_def split: option.split)

lemma probe_result_frame [simp]:
  "mo_entries (probe_result parse t rd rep el ts m) = mo_entries m"
  "mo_stops (probe_result parse t rd rep el ts m) = mo_stops m"
  "mo_loops (probe_result parse t rd rep el ts m) = mo_loops m"
  "length (mo_healths (probe_result parse t rd rep el ts m)) = length (mo_healths m)"
  "fst (mo_healths (probe_result parse t rd rep el ts m) ! b) = fst (mo_healths m ! b)"
  by (simp_all add: probe_result_def Let_def split: sum.split prod.split probe_error.split)

lemma probe_result_other:
  "b \<noteq> lt_health t \<Longrightarrow> mo_healths (probe_result parse t rd rep el ts m) ! b = mo_healths m ! b"
  by (simp add: probe_result_def Let_def health_at_healths split: sum.split prod.split probe_error.split)

lemma stage_step_other: "b \<noteq> lt_health t \<Longrightarrow> mo_healths (snd (stage_step t ts st m)) ! b = mo_healths m ! b"
  by (cases st) (simp_all add: health_at_healths)

lemma set_stage_frame [simp]:
  "mo_entries (set_stage i st m) = mo_entries m" "mo_stops (set_stage i st m) = mo_stops m"
  "mo_healths (set_stage i st m) = mo_healths m" "mo_round_tips (set_stage i st m) = mo_round_tips m"
  "mo_cfg (set_stage i st m) = mo_cfg m" "mo_reference_slots (set_stage i st m) = mo_reference_slots m"
  "mo_metrics (set_stage i st m) = mo_metrics m"
  "length (mo_loops (set_stage i st m)) = length (mo_loops m)"
  by (simp_all add: set_stage_def)

lemma health_at_metrics [simp]: "mo_metrics (health_at a f m) = mo_metrics m"
  by (simp add: health_at_def split: prod.split)

text \<open>A loop that is not interrupted has the effect of \<open>probe_result\<close>.\<close>

lemma stages_are_probe_result:
  "\<exists>k. ((\<lambda>(st, m). stage_step t ts st m) ^^ k)
      (stage_of_reply (probe parse (hc_probe_commitments (mo_cfg m)) replies) rd elapsed, m) =
    (Resting, probe_result parse t rd replies elapsed ts m)"
proof (cases "probe parse (hc_probe_commitments (mo_cfg m)) replies")
  case (Inl e)
  then show ?thesis
    by (intro exI[of _ 2])
      (cases e; simp add: stage_of_reply_def probe_result_def record_sample_def numeral_2_eq_2 Let_def)
next
  case (Inr res)
  obtain slots ms where "res = (slots, ms)" by (cases res)
  with Inr show ?thesis
    by (intro exI[of _ 4]) (simp add: stage_of_reply_def probe_result_def record_sample_def eval_nat_numeral Let_def)
qed

section \<open>The representation invariant\<close>

lemma skeleton_simps [simp]:
  "skeleton (health_at a f m) = skeleton m" "skeleton (observe_round rd s m) = skeleton m"
  "skeleton (count_probe p t st m) = skeleton m" "skeleton (m\<lparr>mo_reference_slots := rs\<rparr>) = skeleton m"
  "skeleton (m\<lparr>mo_reference_running := b\<rparr>) = skeleton m" "skeleton (m\<lparr>mo_stops := (mo_stops m)[i := b]\<rparr>) = skeleton m"
  "skeleton (m\<lparr>mo_loops := (mo_loops m)[i := (mo_loops m ! i)\<lparr>lt_done := b\<rparr>]\<rparr>) = skeleton m"
  "skeleton (peek_limiters now m) = skeleton m" "skeleton (m\<lparr>mo_reference_stage := sg\<rparr>) = skeleton m"
  "skeleton (set_stage j sg m) = skeleton m"
  by (simp_all add: skeleton_def health_at_healths map_update peek_limiters_def set_stage_def comp_def case_prod_beta)
    (cases "a < length (mo_healths m)", simp_all add: list_update_same_conv list_update_beyond map_update,
     (cases "i < length (mo_loops m)", simp_all add: list_update_same_conv list_update_beyond)?,
     (cases "j < length (mo_loops m)", simp_all add: list_update_same_conv list_update_beyond)?)

lemma skeleton_probe_result [simp]: "skeleton (probe_result parse t rd rep el ts m) = skeleton m"
  by (simp add: probe_result_def Let_def split: sum.split prod.split probe_error.split)

lemma skeleton_set_limiter:
  assumes "map_of (mo_entries m) n = Some e"
  shows "skeleton (set_limiter n e l m) = skeleton m"
proof -
  have "map_of es n = Some e \<Longrightarrow> map (\<lambda>(n, e). (n, pe_health e, pe_stop e)) (AList.update n (e\<lparr>pe_limiter := l\<rparr>) es) =
      map (\<lambda>(n, e). (n, pe_health e, pe_stop e)) es" for es
    by (induction es) auto
  from this[OF assms] show ?thesis by (simp add: skeleton_def set_limiter_def)
qed

lemma skeleton_try_acquire: "skeleton (snd (try_acquire now n m)) = skeleton m"
  by (auto simp: try_acquire_def skeleton_set_limiter case_prod_beta split: option.split)

lemma skeleton_apply_rate_limit: "skeleton (apply_rate_limit now n r m) = skeleton m"
  by (auto simp: apply_rate_limit_def skeleton_set_limiter split: option.split)

lemma skeleton_update_health: "skeleton (update_health n f m) = skeleton m"
  by (simp add: update_health_at split: option.split)

lemma skeleton_reference_loop:
  "skeleton (reference_loop_tick tick now m) = skeleton m" "skeleton (reference_loop_reply parse rep m) = skeleton m"
  "skeleton (reference_loop_stage m) = skeleton m"
  by (simp_all add: reference_loop_tick_def reference_loop_reply_def reference_loop_stage_def Let_def
      split: probe_stage.split)

lemma skeleton_stage_step: "skeleton (snd (stage_step t ts st m)) = skeleton m"
  by (cases st) simp_all

lemma skeleton_loop:
  "skeleton (health_loop_tick i tick now m) = skeleton m" "skeleton (health_loop_reply parse i rep el m) = skeleton m"
  "skeleton (health_loop_stage i ts m) = skeleton m"
  by (simp_all add: health_loop_tick_def health_loop_reply_def health_loop_stage_def skeleton_stage_step case_prod_beta
      Let_def split: probe_stage.split)

lemma map_entries_update:
  "map (\<lambda>(n, e). (n, f e)) (AList.update k v xs) = AList.update k (f v) (map (\<lambda>(n, e). (n, f e)) xs)"
  by (induction xs) auto

lemma update_fresh_ok:
  assumes "distinct (map g xs)" "g (k, v) \<notin> g ` set xs"
  shows "distinct (map g (AList.update k v xs))"
  using assms
proof (induction xs)
  case (Cons x xs)
  have "set (AList.update k v xs) \<subseteq> insert (k, v) (set xs)" by (induction xs) auto
  with Cons show ?case by auto
qed simp

lemma insert_provider_ok:
  assumes "monitor_ok m"
  shows "monitor_ok (insert_provider now p m)"
proof -
  obtain es names stops loops where sk: "skeleton m = (es, names, stops, loops)" by (cases "skeleton m")
  let ?es = "AList.update (pv_name p) (length names, stops) es"
  have len: "length (mo_healths m) = length names" "length (mo_stops m) = stops"
    using sk by (auto simp: skeleton_def)
  have new: "skeleton (insert_provider now p m) = (?es, names @ [pv_name p], Suc stops, loops)"
    using sk map_entries_update[of "\<lambda>e :: provider_entry. (pe_health e, pe_stop e)" "pv_name p"]
    by (simp add: skeleton_def insert_provider_def alloc_entry_def Let_def len)
  have ok: "skeleton_ok (es, names, stops, loops)" using assms sk by (simp add: monitor_ok_def)
  have set: "set ?es \<subseteq> insert (pv_name p, length names, stops) (set es)" by (induction es) auto
  have "distinct (map (\<lambda>(n, h, s). h) ?es)" "distinct (map (\<lambda>(n, h, s). s) ?es)"
    using ok by (auto intro!: update_fresh_ok)
  moreover have "\<forall>(n, h, s) \<in> set ?es. h < length (names @ [pv_name p]) \<and> s < Suc stops \<and>
      (names @ [pv_name p]) ! h = n"
    using set ok by (fastforce simp: nth_append)
  moreover have "\<forall>(h, s) \<in> set loops. \<forall>(n, h', s') \<in> set ?es. h = h' \<longrightarrow> s = s'"
    using set ok by fastforce
  ultimately show ?thesis using ok unfolding monitor_ok_def new skeleton_ok.simps
    by (intro conjI) (simp_all add: distinct_update, auto)
qed

lemma skeleton_stop_unique:
  assumes "monitor_ok m" "(n, h, s) \<in> set (fst (skeleton m))" "(n', h, s') \<in> set (fst (skeleton m))"
  shows "s' = s"
proof -
  have "distinct (map (\<lambda>(n, h, s). h) (fst (skeleton m)))"
    using assms(1) by (cases "skeleton m") (simp add: monitor_ok_def)
  then have "inj_on (\<lambda>(n, h, s). h) (set (fst (skeleton m)))" by (simp add: distinct_map)
  from inj_onD[OF this _ assms(2,3)] show ?thesis by simp
qed

lemma entry_in_skeleton:
  "map_of (mo_entries m) n = Some e \<Longrightarrow> (n, pe_health e, pe_stop e) \<in> set (fst (skeleton m))"
  by (force simp: skeleton_def dest: map_of_SomeD)

lemma spawn_loops_ok:
  "monitor_ok m \<Longrightarrow> h < length (mo_healths m) \<Longrightarrow> s < length (mo_stops m) \<Longrightarrow>
   (\<And>n h' s'. (n, h', s') \<in> set (fst (skeleton m)) \<Longrightarrow> h' = h \<Longrightarrow> s' = s) \<Longrightarrow>
   monitor_ok (spawn_loops h s cl p m)"
  by (fastforce simp: monitor_ok_def skeleton_def spawn_loops_def)

lemma insert_provider_len [simp]:
  "length (mo_healths (insert_provider now p m)) = Suc (length (mo_healths m))"
  "length (mo_stops (insert_provider now p m)) = Suc (length (mo_stops m))"
  by (simp_all add: insert_provider_def alloc_entry_def)

lemma add_provider_eq:
  "add_provider now cl p m =
     spawn_loops (length (mo_healths m)) (length (mo_stops m)) cl p (insert_provider now p m)"
  by (simp add: add_provider_def insert_provider_def alloc_entry_def spawn_loops_def Let_def)

lemma add_provider_ok: "monitor_ok m \<Longrightarrow> monitor_ok (add_provider now cl p m)"
proof -
  assume "monitor_ok m"
  then have ok: "monitor_ok (insert_provider now p m)" by (rule insert_provider_ok)
  have "(pv_name p, length (mo_healths m), length (mo_stops m)) \<in> set (fst (skeleton (insert_provider now p m)))"
    by (rule entry_in_skeleton[of _ _ "snd (pv_name p, fst (alloc_entry now p m))", simplified alloc_entry_def fst_conv snd_conv provider_entry.simps])
      (simp add: insert_provider_def alloc_entry_def update_conv')
  from skeleton_stop_unique[OF ok this] show ?thesis
    unfolding add_provider_eq by (intro spawn_loops_ok[OF ok]) simp_all
qed

lemma entry_range:
  assumes "monitor_ok m" "map_of (mo_entries m) n = Some e"
  shows "pe_health e < length (mo_healths m) \<and> pe_stop e < length (mo_stops m) \<and>
    fst (mo_healths m ! pe_health e) = n"
proof -
  have "(n, pe_health e, pe_stop e) \<in> set (fst (skeleton m))"
    using map_of_SomeD[OF assms(2)] by (force simp: skeleton_def)
  then show ?thesis using assms(1) by (auto simp: monitor_ok_def skeleton_def)
qed

lemma remove_provider_ok:
  assumes "monitor_ok m"
  shows "monitor_ok (remove_provider name m)"
proof (cases "map_of (mo_entries m) name")
  case None
  with assms show ?thesis by (simp add: remove_provider_def)
next
  case (Some e)
  obtain es names stops loops where sk: "skeleton m = (es, names, stops, loops)" by (cases "skeleton m")
  have "map (\<lambda>(n, e). (n, pe_health e, pe_stop e)) (AList.delete name xs) =
      filter (\<lambda>x. fst x \<noteq> name) (map (\<lambda>(n, e). (n, pe_health e, pe_stop e)) xs)"
    for xs :: "(string \<times> provider_entry) list"
    by (induction xs) auto
  then have "skeleton (remove_provider name m) = (filter (\<lambda>x. fst x \<noteq> name) es, names, stops, loops)"
    using sk Some by (simp add: skeleton_def remove_provider_def)
  with assms sk show ?thesis by (simp add: monitor_ok_def distinct_map_filter) fastforce
qed

lemma monitor_step_ok: "monitor_ok m \<Longrightarrow> monitor_ok (monitor_step parse ev m)"
  by (cases ev)
    (simp_all add: add_provider_ok remove_provider_ok mo_record_def mo_record_throttled_def
      snapshots_with_tips_def monitor_ok_def[of "snd _"] monitor_ok_def[of "apply_rate_limit _ _ _ _"]
      monitor_ok_def[of "update_health _ _ _"] monitor_ok_def[of "peek_limiters _ _"]
      monitor_ok_def[of "health_loop_tick _ _ _ _"] monitor_ok_def[of "health_loop_reply _ _ _ _ _"]
      monitor_ok_def[of "health_loop_stage _ _ _"] monitor_ok_def[of "reference_loop_tick _ _ _"]
      monitor_ok_def[of "reference_loop_reply _ _ _"] monitor_ok_def[of "reference_loop_stage _"]
      skeleton_try_acquire skeleton_apply_rate_limit skeleton_update_health skeleton_loop
      skeleton_reference_loop, simp_all add: monitor_ok_def)

lemma start_ok: "monitor_ok m \<Longrightarrow> monitor_ok (start cls providers m)"
proof -
  assume ok: "monitor_ok m"
  have step: "monitor_ok m \<Longrightarrow> monitor_ok (start_provider cls p m)" for p m
    using entry_range[of m "pv_name p"] skeleton_stop_unique[OF _ entry_in_skeleton, of m]
    by (auto simp: start_provider_def intro!: spawn_loops_ok split: option.split)
  have "monitor_ok (fold (start_provider cls) providers m)"
    using ok by (induction providers arbitrary: m) (auto intro: step)
  then show ?thesis by (simp add: start_def Let_def monitor_ok_def skeleton_def)
qed

lemma monitor_new_ok: "monitor_ok (monitor_new now providers cfg mt)"
proof -
  have "monitor_ok m \<Longrightarrow> monitor_ok (fold (insert_provider now) ps m)" for ps m
    by (induction ps arbitrary: m) (auto intro: insert_provider_ok)
  moreover have "monitor_ok \<lparr>mo_entries = [], mo_healths = [], mo_stops = [], mo_loops = [],
        mo_reference_slots = cs_default, mo_reference_stop = False, mo_reference_running = False,
        mo_reference_stage = Resting, mo_clock = clock_new now (hc_interval_ms cfg), mo_round_tips = rt_default,
        mo_cfg = cfg, mo_metrics = mt\<rparr>"
    by (simp add: monitor_ok_def skeleton_def)
  ultimately show ?thesis unfolding monitor_new_def by blast
qed

lemma monitor_run_ok: "monitor_ok (monitor_run parse now cls providers cfg mt evs)"
proof -
  have "monitor_ok m \<Longrightarrow> monitor_ok (fold (monitor_step parse) evs m)" for m
    by (induction evs arbitrary: m) (auto intro: monitor_step_ok)
  then show ?thesis by (simp add: monitor_run_def start_ok monitor_new_ok)
qed

theorem monitor_run_wellformed: "skeleton_ok (skeleton (monitor_run parse now cls providers cfg mt evs))"
  using monitor_run_ok by (simp add: monitor_ok_def)

section \<open>Removed providers\<close>

lemma delete_health:
  assumes "monitor_ok m" "map_of (mo_entries m) n = Some e" "x \<in> set (mo_entries (remove_provider n m))"
  shows "x \<in> set (mo_entries m)" "pe_health (snd x) \<noteq> pe_health e" "pe_health (snd x) < length (mo_healths m)"
proof -
  have x: "x \<in> set (mo_entries m)" "fst x \<noteq> n"
    using assms(2,3) by (auto simp: remove_provider_def AList.delete_eq)
  then show "x \<in> set (mo_entries m)" by simp
  have d: "distinct (map (\<lambda>(n, h, s). h) (fst (skeleton m)))" using assms(1)
    by (auto simp: monitor_ok_def skeleton_def)
  have "(fst x, pe_health (snd x), pe_stop (snd x)) \<in> set (fst (skeleton m))"
    "(n, pe_health e, pe_stop e) \<in> set (fst (skeleton m))"
    using x(1) map_of_SomeD[OF assms(2)] by (force simp: skeleton_def)+
  with d x(2) show "pe_health (snd x) \<noteq> pe_health e" by (auto simp: distinct_map inj_on_def)
  show "pe_health (snd x) < length (mo_healths m)"
    using \<open>(fst x, _, _) \<in> _\<close> assms(1) by (auto simp: monitor_ok_def skeleton_def)
qed

text \<open>C18. When a provider is removed and a provider is added (a client rebuild), a probe that the old
loop still had in flight changes the health of no entry that is in the map afterwards: neither does
the rest of the probe as a whole, nor any single step of it.\<close>

theorem stale_probe_isolated:
  assumes "monitor_ok m" "map_of (mo_entries m) n = Some e" "lt_health t = pe_health e"
    and "x \<in> set (mo_entries (add_provider now cl p (remove_provider n m)))"
  shows "entry_inner (probe_result parse t rd rep el ts (add_provider now cl p (remove_provider n m))) x =
      entry_inner (add_provider now cl p (remove_provider n m)) x \<and>
    entry_inner (snd (stage_step t ts st (add_provider now cl p (remove_provider n m)))) x =
      entry_inner (add_provider now cl p (remove_provider n m)) x"
proof -
  have len: "mo_healths (remove_provider n m) = mo_healths m" using assms(2) by (simp add: remove_provider_def)
  have "x \<in> insert (pv_name p, \<lparr>pe_health = length (mo_healths m), pe_limiter = build_limiter now (pv_max_rps p),
      pe_stop = length (mo_stops (remove_provider n m))\<rparr>) (set (mo_entries (remove_provider n m)))"
  proof -
    have "set (AList.update k v xs) \<subseteq> insert (k, v) (set xs)" for k v and xs :: "(string \<times> provider_entry) list"
      by (induction xs) auto
    with assms(4) len show ?thesis
      by (auto simp: add_provider_def alloc_entry_def spawn_loops_def Let_def)
  qed
  then have "pe_health (snd x) \<noteq> pe_health e"
    using delete_health(2)[OF assms(1,2), of x] entry_range[OF assms(1,2)] by (elim insertE) auto
  with assms(3) show ?thesis by (simp add: entry_inner_def probe_result_other stage_step_other)
qed

lemma stopped_frame:
  "mo_stops m' = mo_stops m \<Longrightarrow> mo_loops m' = mo_loops m \<Longrightarrow> stopped i s m' = stopped i s m"
  by (simp add: stopped_def)

lemma set_limiter_frame [simp]:
  "mo_stops (set_limiter n e l m) = mo_stops m" "mo_loops (set_limiter n e l m) = mo_loops m"
  "mo_healths (set_limiter n e l m) = mo_healths m" "mo_round_tips (set_limiter n e l m) = mo_round_tips m"
  "mo_reference_slots (set_limiter n e l m) = mo_reference_slots m" "mo_cfg (set_limiter n e l m) = mo_cfg m"
  by (simp_all add: set_limiter_def)

lemma nth_set_True: "xs ! j \<Longrightarrow> xs[i := True] ! j"
  by (cases "i < length xs"; cases "i = j") (auto simp: list_update_beyond)

lemma stopped_step:
  assumes "stopped i s m"
  shows "stopped i s (monitor_step parse ev m)"
proof (cases ev)
  case (AddProvider now cl p)
  with assms show ?thesis
    by (auto simp: stopped_def add_provider_def alloc_entry_def spawn_loops_def Let_def nth_append)
next
  case (RemoveProvider n)
  with assms show ?thesis
    by (auto simp: stopped_def remove_provider_def nth_set_True split: option.split)
next
  case (LoopTick j tick now)
  with assms show ?thesis
    by (auto simp: stopped_def health_loop_tick_def set_stage_def Let_def nth_list_update)
next
  case (LoopReply j rep el)
  with assms show ?thesis
    by (auto simp: stopped_def health_loop_reply_def set_stage_def nth_list_update split: probe_stage.split)
next
  case (LoopStage j ts)
  have "mo_stops (snd (stage_step t ts st m)) = mo_stops m" "mo_loops (snd (stage_step t ts st m)) = mo_loops m" for t st
    by (cases st; simp)+
  with LoopStage assms show ?thesis
    by (auto simp: stopped_def health_loop_stage_def set_stage_def case_prod_beta Let_def nth_list_update)
next
  case (ReferenceTick tick now)
  with assms show ?thesis by (simp add: reference_loop_tick_def stopped_def)
next
  case (ReferenceReply rep)
  with assms show ?thesis by (simp add: reference_loop_reply_def stopped_def split: probe_stage.split)
next
  case ReferenceStage
  with assms show ?thesis by (simp add: reference_loop_stage_def stopped_def split: probe_stage.split)
qed (use assms in \<open>auto simp: apply_rate_limit_def try_acquire_def snapshots_with_tips_def peek_limiters_def
      mo_record_def mo_record_throttled_def update_health_at stopped_def case_prod_beta
      split: option.split\<close>)

text \<open>
  A removed loop that is still updating finishes its turn and exits at its next tick; a probe it has in flight is
  still recorded, in a record that nothing refers to any more (\<open>stale_probe_isolated\<close>).
\<close>

theorem removed_loop_exits:
  assumes "monitor_ok m" "map_of (mo_entries m) n = Some e"
    and "i < length (mo_loops m)" "lt_stop (mo_loops m ! i) = pe_stop e"
    and "m' = fold (monitor_step parse) evs (remove_provider n m)" "lt_stage (mo_loops m' ! i) = Resting"
  shows "lt_done (mo_loops (health_loop_tick i tick now m') ! i)"
proof -
  have "stopped i (pe_stop e) (remove_provider n m)"
    using assms entry_range[OF assms(1,2)] by (simp add: stopped_def remove_provider_def)
  then have "stopped i (pe_stop e) m'"
    unfolding assms(5) by (induction evs rule: rev_induct) (auto intro: stopped_step)
  then show ?thesis using assms(6) by (simp add: health_loop_tick_def stopped_def Let_def)
qed

section \<open>Outcomes reach one provider\<close>

theorem live_outcome_frame:
  assumes "monitor_ok m" "x \<in> set (mo_entries m)"
  shows "entry_inner (mo_record ts name ok ms False m) x =
    (if fst x = name then ph_record ts ok ms False (mo_cfg m) (entry_inner m x) else entry_inner m x)"
proof (cases "map_of (mo_entries m) name")
  case None
  then have "fst x \<noteq> name" using assms(2) by (auto simp: map_of_eq_None_iff)
  with None show ?thesis by (simp add: mo_record_def update_health_def)
next
  case (Some e)
  have d: "distinct (map (\<lambda>(n, h, s). h) (fst (skeleton m)))" "distinct (map fst (mo_entries m))"
    using assms(1) by (auto simp: monitor_ok_def skeleton_def comp_def case_prod_beta)
  have in_sk: "(fst x, pe_health (snd x), pe_stop (snd x)) \<in> set (fst (skeleton m))"
    "(name, pe_health e, pe_stop e) \<in> set (fst (skeleton m))"
    using assms(2) map_of_SomeD[OF Some] by (force simp: skeleton_def)+
  show ?thesis
  proof (cases "fst x = name")
    case True
    then have "snd x = e" using d(2) assms(2) Some by (metis map_of_is_SomeI option.inject prod.collapse)
    with True Some entry_range[OF assms(1) Some] show ?thesis
      by (simp add: mo_record_def update_health_at entry_inner_def health_at_healths)
  next
    case False
    then have "pe_health (snd x) \<noteq> pe_health e" using d(1) in_sk by (auto simp: distinct_map inj_on_def)
    with False Some show ?thesis
      by (simp add: mo_record_def update_health_at entry_inner_def health_at_healths)
  qed
qed

section \<open>Same-round tips\<close>

lemma round_covered_observe:
  assumes "round_covered ring r c s" "length ring = TIP_ROUNDS"
  shows "round_covered (rt_observe ring r' slots) r c s"
proof -
  obtain r0 tips where cell: "ring ! rt_index r = Some (r0, tips)" "r \<le> r0" "r0 = r \<longrightarrow> s \<le> st_get tips c"
    using assms(1) by (auto simp: round_covered_def split: option.splits prod.splits)
  show ?thesis
  proof (cases "rt_index r' = rt_index r")
    case True
    with cell assms(2) show ?thesis
      by (auto simp: rt_observe_def round_covered_def Let_def le_max_iff_disj)
  next
    case False
    then have "rt_observe ring r' slots ! rt_index r = ring ! rt_index r"
      by (simp add: rt_observe_def Let_def split: option.split)
    with assms(1) show ?thesis by (simp add: round_covered_def)
  qed
qed

lemma round_covered_new:
  assumes "cs_get slots c = Some s" "length ring = TIP_ROUNDS"
  shows "round_covered (rt_observe ring r slots) r c s"
  using assms
  by (auto simp: rt_observe_def round_covered_def Let_def unwrap_or_def le_max_iff_disj split: option.split)

lemma slots_covered_observe:
  "slots_covered ring g \<Longrightarrow> length ring = TIP_ROUNDS \<Longrightarrow> slots_covered (rt_observe ring r slots) g"
  by (simp add: slots_covered_def round_covered_observe)

lemma slots_covered_record [simp]:
  "slots_covered ring (ph_record ts ok ms pr cfg g) = slots_covered ring g"
  "slots_covered ring (ph_record_throttled ts ms cfg g) = slots_covered ring g"
  by (cases ts; simp add: slots_covered_def record_defs push_sample_frame circuit_transitions_frame)+

lemma stage_covered_observe:
  "stage_covered ring st \<Longrightarrow> length ring = TIP_ROUNDS \<Longrightarrow> stage_covered (rt_observe ring r slots) st"
  by (cases st) (auto simp: round_covered_observe)

lemma slots_covered_sample [simp]: "slots_covered ring (record_sample ts sm ms cfg g) = slots_covered ring g"
  by (cases sm) (simp_all add: record_sample_def)

lemma slots_covered_update:
  assumes "slots_covered ring g" "\<And>c s r. rd = Some r \<Longrightarrow> cs_get slots c = Some s \<Longrightarrow> round_covered ring r c s"
  shows "slots_covered ring (update_slots_in_round slots rd g)"
  using assms by (auto simp: slots_covered_def update_slots_in_round_def split: option.splits)

lemma tips_cover_health_at:
  assumes "tips_cover m" "\<And>g. slots_covered (mo_round_tips m) g \<Longrightarrow> slots_covered (mo_round_tips m) (f g)"
  shows "tips_cover (health_at a f m)"
proof (cases "a < length (mo_healths m)")
  case True
  then have "mo_healths m ! a \<in> set (mo_healths m)" by simp
  then have "slots_covered (mo_round_tips m) (snd (mo_healths m ! a))" using assms(1) by (auto simp: tips_cover_def)
  with assms show ?thesis
    by (auto simp: tips_cover_def health_at_healths dest!: subsetD[OF set_update_subset_insert])
next
  case False
  with assms(1) show ?thesis by (simp add: tips_cover_def health_at_healths list_update_beyond)
qed

lemma tips_cover_observe: "tips_cover m \<Longrightarrow> tips_cover (observe_round rd slots m)"
  by (auto simp: tips_cover_def observe_round_def slots_covered_observe stage_covered_observe split: option.split)

lemma tips_cover_frame:
  "tips_cover m \<Longrightarrow> mo_healths m' = mo_healths m \<Longrightarrow> mo_round_tips m' = mo_round_tips m \<Longrightarrow>
   mo_loops m' = mo_loops m \<Longrightarrow> tips_cover m'"
  by (simp add: tips_cover_def)

lemma count_probe_cover [simp]: "tips_cover (count_probe p t st m) = tips_cover m"
  by (simp add: tips_cover_def)

text \<open>
  The order of the three updates matters: the slots are stored after the round's tips are observed, and
  an observation is never undone by anything that runs in between.
\<close>

lemma tips_cover_set_stage:
  "tips_cover m \<Longrightarrow> stage_covered (mo_round_tips m) st \<Longrightarrow> tips_cover (set_stage i st m)"
  by (auto simp: tips_cover_def set_stage_def dest!: subsetD[OF set_update_subset_insert])

lemma tips_cover_stage:
  assumes "tips_cover m" "stage_covered (mo_round_tips m) st" "stage_step t ts st m = (st', m')"
  shows "tips_cover m' \<and> stage_covered (mo_round_tips m') st'"
proof (cases st)
  case (Observing slots ms rd)
  have len: "length (mo_round_tips m) = TIP_ROUNDS" using assms(1) by (simp add: tips_cover_def)
  show ?thesis using Observing assms(3) tips_cover_observe[OF assms(1)]
    by (auto simp: observe_round_def round_covered_new len)
next
  case (Storing slots ms rd)
  then have "m' = health_at (lt_health t) (update_slots_in_round slots rd) m" "st' = Recording Success ms"
    using assms(3) by simp_all
  moreover have "tips_cover (health_at (lt_health t) (update_slots_in_round slots rd) m)"
    using assms(2) Storing by (intro tips_cover_health_at[OF assms(1)] slots_covered_update) auto
  ultimately show ?thesis by simp
next
  case (Recording sm ms)
  then show ?thesis using assms(1,3) by (auto intro: tips_cover_health_at)
qed (use assms in auto)

lemma tips_cover_loop_stage:
  assumes "tips_cover m" "i < length (mo_loops m)"
  shows "tips_cover (health_loop_stage i ts m)"
proof -
  let ?t = "mo_loops m ! i"
  obtain st m' where st: "stage_step ?t ts (lt_stage ?t) m = (st, m')" by force
  have "stage_covered (mo_round_tips m) (lt_stage ?t)" using assms by (simp add: tips_cover_def)
  from tips_cover_stage[OF assms(1) this st] show ?thesis
    by (simp add: health_loop_stage_def st tips_cover_set_stage)
qed

lemma slots_covered_new: "slots_covered ring inner_new"
  by (simp add: slots_covered_def inner_new_def)

lemma tips_cover_step:
  assumes "tips_cover m"
  shows "tips_cover (monitor_step parse ev m)"
proof (cases ev)
  case (AddProvider now cl p)
  with assms show ?thesis
    by (auto simp: tips_cover_def add_provider_def alloc_entry_def spawn_loops_def Let_def slots_covered_new)
next
  case (RemoveProvider n)
  then show ?thesis
    by (auto intro!: tips_cover_frame[OF assms] simp: remove_provider_def split: option.split)
next
  case (LoopTick i tick now)
  with assms show ?thesis
    by (auto simp: health_loop_tick_def Let_def tips_cover_set_stage)
      (auto simp: tips_cover_def dest!: subsetD[OF set_update_subset_insert])
next
  case (LoopReply i rep el)
  have "stage_covered ring (stage_of_reply res rd el)" for ring res rd
    by (auto simp: stage_of_reply_def Let_def split: sum.split probe_error.split)
  with LoopReply assms show ?thesis
    by (auto simp: health_loop_reply_def tips_cover_set_stage split: probe_stage.split)
next
  case (LoopStage i ts)
  with assms show ?thesis by (simp add: tips_cover_loop_stage)
next
  case (ReferenceTick tick now)
  with assms show ?thesis by (auto simp: reference_loop_tick_def intro: tips_cover_frame)
next
  case (ReferenceReply rep)
  with assms show ?thesis by (auto simp: reference_loop_reply_def intro: tips_cover_frame split: probe_stage.split)
next
  case ReferenceStage
  with assms tips_cover_observe[OF assms] show ?thesis
    by (auto simp: reference_loop_stage_def tips_cover_def split: probe_stage.split)
qed (use assms in \<open>auto simp: apply_rate_limit_def try_acquire_def snapshots_with_tips_def peek_limiters_def
      mo_record_def mo_record_throttled_def update_health_at case_prod_beta
      intro!: tips_cover_health_at intro: tips_cover_frame split: option.split\<close>)

lemma tips_cover_start: "tips_cover (start cls ps (monitor_new now ps' cfg mt))"
proof -
  have ins: "tips_cover m \<Longrightarrow> tips_cover (fold (insert_provider now) qs m)" for qs m
    by (induction qs arbitrary: m)
      (auto simp: insert_provider_def alloc_entry_def tips_cover_def slots_covered_new)
  have "tips_cover m \<Longrightarrow> tips_cover (fold (start_provider cls) qs m)" for qs m
    by (induction qs arbitrary: m)
      (auto simp: start_provider_def spawn_loops_def tips_cover_def split: option.split)
  with ins show ?thesis
    unfolding start_def monitor_new_def Let_def by (auto simp: tips_cover_def rt_default_def)
qed

text \<open>C19. In every reachable monitor state, a provider whose slot was sampled in a round the ring still
holds has as its drift exactly that round's tip minus its slot, and the subtraction does not
underflow.\<close>

theorem same_round_drift_exact:
  assumes "x \<in> set (mo_entries (monitor_run parse now cls ps cfg mt evs))"
    and "cr_get (in_rounds (entry_inner (monitor_run parse now cls ps cfg mt evs) x)) c = Some r"
    and "cs_get (in_slots (entry_inner (monitor_run parse now cls ps cfg mt evs) x)) c = Some s"
    and "rt_get (mo_round_tips (monitor_run parse now cls ps cfg mt evs)) r = Some tips"
  shows "drift (entry_inner (monitor_run parse now cls ps cfg mt evs) x) c
      (tip_of_book \<lparr>tb_latest = latest_tips (monitor_run parse now cls ps cfg mt evs),
        tb_rounds = mo_round_tips (monitor_run parse now cls ps cfg mt evs)\<rparr>) =
      Some (st_get tips c - s) \<and> s \<le> st_get tips c"
proof -
  let ?m = "monitor_run parse now cls ps cfg mt evs"
  have "tips_cover m \<Longrightarrow> tips_cover (fold (monitor_step parse) evs m)" for m
    by (induction evs arbitrary: m) (auto intro: tips_cover_step)
  then have cover: "tips_cover ?m" by (simp add: monitor_run_def tips_cover_start)
  have "map_of (mo_entries ?m) (fst x) = Some (snd x)"
    using monitor_run_ok[of parse now cls ps cfg mt evs] assms(1)
    by (intro map_of_is_SomeI) (auto simp: monitor_ok_def skeleton_def comp_def case_prod_beta)
  from entry_range[OF monitor_run_ok this]
  have "mo_healths ?m ! pe_health (snd x) \<in> set (mo_healths ?m)" by simp
  then have "slots_covered (mo_round_tips ?m) (entry_inner ?m x)"
    using cover by (auto simp: tips_cover_def entry_inner_def)
  then have "round_covered (mo_round_tips ?m) r c s" using assms(2,3) by (simp add: slots_covered_def)
  then have "s \<le> st_get tips c"
    using assms(4) by (auto simp: round_covered_def rt_get_def split: option.splits if_splits)
  then show ?thesis
    using assms(2,3,4) by (auto simp: drift_def tip_of_book_def u64_saturating_sub_def)
qed

section \<open>A reference that falls behind\<close>

lemma fold_observe_ge:
  "st_get t c \<le> st_get (fold (\<lambda>e tips. st_observe tips (f e)) es t) c"
proof (induction es arbitrary: t)
  case (Cons e es)
  have "st_get t c \<le> st_get (st_observe t (f e)) c" by simp
  also note Cons.IH[of "st_observe t (f e)"]
  finally show ?case by simp
qed simp

lemma fold_observe_mem:
  "x \<in> set es \<Longrightarrow> cs_get (f x) c = Some s \<Longrightarrow> s \<le> st_get (fold (\<lambda>e tips. st_observe tips (f e)) es t) c"
proof (induction es arbitrary: t)
  case (Cons e es)
  show ?case
  proof (cases "x = e")
    case True
    with Cons.prems have "s \<le> st_get (st_observe t (f e)) c" by (simp add: unwrap_or_def le_max_iff_disj)
    also note fold_observe_ge[of "st_observe t (f e)" c f es]
    finally show ?thesis by simp
  qed (use Cons in simp)
qed simp

theorem stale_reference_harmless:
  assumes "\<forall>c s. cs_get (mo_reference_slots m) c = Some s \<longrightarrow>
      (\<exists>x \<in> set (mo_entries m). \<exists>s'. cs_get (in_slots (entry_inner m x)) c = Some s' \<and> s \<le> s')"
  shows "map (snapshot_entry now m) (mo_entries m) =
    map (snapshot_entry now (m\<lparr>mo_reference_slots := cs_default\<rparr>)) (mo_entries m)"
proof -
  let ?m = "m\<lparr>mo_reference_slots := cs_default\<rparr>"
  let ?tips = "fold (\<lambda>e tips. st_observe tips (in_slots (entry_inner m e))) (mo_entries m) st_default"
  have inner: "entry_inner ?m = entry_inner m" by (simp add: entry_inner_def fun_eq_iff)
  have "st_get ?tips c \<ge> unwrap_or (cs_get (mo_reference_slots m) c) 0" for c
  proof (cases "cs_get (mo_reference_slots m) c")
    case (Some s)
    then obtain x s' where "x \<in> set (mo_entries m)" "cs_get (in_slots (entry_inner m x)) c = Some s'" "s \<le> s'"
      using assms by blast
    with fold_observe_mem[of x "mo_entries m" "\<lambda>e. in_slots (entry_inner m e)" c s' st_default] Some
    show ?thesis by (simp add: unwrap_or_def)
  qed (simp add: unwrap_or_def)
  then have "latest_tips m = latest_tips ?m"
    by (intro slot_tips_eqI) (simp add: latest_tips_def inner unwrap_or_def max_absorb1)
  then show ?thesis by (simp add: snapshot_entry_def)
qed

section \<open>Witnesses\<close>

lemma demo_monitor_entries:
  "mo_entries demo_monitor = [(''a'', \<lparr>pe_health = 0, pe_limiter = None, pe_stop = 0\<rparr>)]"
  "mo_loops demo_monitor = [\<lparr>lt_health = 0, lt_stop = 0,
     lt_client = \<lparr>cl_http3 = False, cl_pool_max_idle_per_host = 1\<rparr>, lt_provider = default_provider ''a'' ''u'',
     lt_done = False, lt_stage = Resting\<rparr>]"
  "mo_reference_slots demo_monitor = cs_default"
  by (simp_all add: demo_monitor_def monitor_new_def start_def start_provider_def insert_provider_def
      alloc_entry_def spawn_loops_def build_limiter_def default_provider_def default_health_def supports_def)

lemma demo_monitor_ok: "monitor_ok demo_monitor"
  by (simp add: demo_monitor_def start_ok monitor_new_ok)

theorem stale_probe_isolated_witness:
  "entry_inner (probe_result (\<lambda>_. None) (mo_loops demo_monitor ! 0) None (\<lambda>_. SendFailed) 5 (secs 1)
      (add_provider 0 \<lparr>cl_http3 = False, cl_pool_max_idle_per_host = 1\<rparr> (default_provider ''a'' ''u'')
        (remove_provider ''a'' demo_monitor)))
      (''a'', \<lparr>pe_health = 1, pe_limiter = None, pe_stop = 1\<rparr>) = inner_new"
proof -
  let ?m = "add_provider 0 \<lparr>cl_http3 = False, cl_pool_max_idle_per_host = 1\<rparr> (default_provider ''a'' ''u'')
    (remove_provider ''a'' demo_monitor)"
  have h: "length (mo_healths demo_monitor) = 1" "length (mo_stops demo_monitor) = 1"
    by (simp_all add: demo_monitor_def monitor_new_def start_def start_provider_def insert_provider_def
        alloc_entry_def spawn_loops_def default_provider_def default_health_def)
  have e: "mo_entries ?m = [(''a'', \<lparr>pe_health = 1, pe_limiter = None, pe_stop = 1\<rparr>)]"
    "entry_inner ?m (''a'', \<lparr>pe_health = 1, pe_limiter = None, pe_stop = 1\<rparr>) = inner_new"
    using h by (simp_all add: add_provider_def alloc_entry_def spawn_loops_def remove_provider_def
        demo_monitor_entries default_provider_def build_limiter_def entry_inner_def nth_append)
  show ?thesis
    using stale_probe_isolated[OF demo_monitor_ok, of "''a''" "\<lparr>pe_health = 0, pe_limiter = None, pe_stop = 0\<rparr>"
      "mo_loops demo_monitor ! 0" "(''a'', \<lparr>pe_health = 1, pe_limiter = None, pe_stop = 1\<rparr>)" 0
      "\<lparr>cl_http3 = False, cl_pool_max_idle_per_host = 1\<rparr>" "default_provider ''a'' ''u''" "\<lambda>_. None" None
      "\<lambda>_. SendFailed" 5 "secs 1"] e by (simp add: demo_monitor_entries)
qed

theorem removed_loop_exits_witness:
  "lt_done (mo_loops (health_loop_tick 0 5 5 (remove_provider ''a'' demo_monitor)) ! 0)"
  using removed_loop_exits[OF demo_monitor_ok, of "''a''" "\<lparr>pe_health = 0, pe_limiter = None, pe_stop = 0\<rparr>" 0
      "remove_provider ''a'' demo_monitor" "\<lambda>_. None" "[]" 5 5]
  by (simp add: demo_monitor_entries remove_provider_def)

theorem live_outcome_frame_witness:
  "entry_inner (mo_record (secs 1) ''b'' False (Fin 5) False demo_monitor)
     (''a'', \<lparr>pe_health = 0, pe_limiter = None, pe_stop = 0\<rparr>) =
   entry_inner demo_monitor (''a'', \<lparr>pe_health = 0, pe_limiter = None, pe_stop = 0\<rparr>)"
  using live_outcome_frame[OF demo_monitor_ok, of "(''a'', \<lparr>pe_health = 0, pe_limiter = None, pe_stop = 0\<rparr>)"
      "secs 1" "''b''" False "Fin 5"]
  by (simp add: demo_monitor_entries)

theorem stale_reference_harmless_witness:
  "map (snapshot_entry 0 demo_monitor) (mo_entries demo_monitor) =
   map (snapshot_entry 0 (demo_monitor\<lparr>mo_reference_slots := cs_default\<rparr>)) (mo_entries demo_monitor)"
  by (rule stale_reference_harmless) (simp add: demo_monitor_entries)

lemma demo_probe:
  "probe demo_slot_parse [Processed, Finalized] (\<lambda>_. Reply 200 [] (Fin 5)) =
     Inr (\<lparr>cs_processed = Some 7, cs_confirmed = None, cs_finalized = Some 7\<rparr>, Fin 5)"
  by (simp add: probe_def probe_optional_def get_slot_def demo_slot_parse_def json_get_def json_as_u64_def
      de_u64_def is_success_def)

lemma demo_run_eq:
  "demo_run = (probe_result demo_slot_parse (mo_loops demo_monitor ! 0) (Some 0) (\<lambda>_. Reply 200 [] (Fin 5)) 0
     (secs 0) demo_monitor)\<lparr>mo_loops := mo_loops demo_monitor\<rparr>"
proof -
  have base: "mo_stops demo_monitor = [False]" "mo_clock demo_monitor = clock_new 0 1000" "mo_cfg demo_monitor = default_health"
    by (simp_all add: demo_monitor_def monitor_new_def start_def start_provider_def insert_provider_def
        alloc_entry_def spawn_loops_def default_provider_def default_health_def)
  have "on_grid_round (clock_new 0 1000) 0 0 = Some 0"
    by (simp add: on_grid_round_def saturating_duration_since_def clock_round_def clock_new_def)
  moreover have "hc_probe_commitments default_health = [Processed, Finalized]" by (simp add: default_health_def)
  ultimately show ?thesis
    unfolding demo_run_def monitor_run_def demo_monitor_def[symmetric] demo_probe_events_def
    by (simp add: health_loop_tick_def health_loop_reply_def health_loop_stage_def set_stage_def stage_of_reply_def
        record_sample_def probe_result_def demo_probe demo_monitor_entries base observe_round_def health_at_healths
        count_probe_def Let_def case_prod_beta) (simp add: health_at_def case_prod_beta)
qed

theorem same_round_drift_exact_witness:
  "drift (entry_inner demo_run (''a'', \<lparr>pe_health = 0, pe_limiter = None, pe_stop = 0\<rparr>)) Processed
     (tip_of_book \<lparr>tb_latest = latest_tips demo_run, tb_rounds = mo_round_tips demo_run\<rparr>) = Some 0"
proof -
  let ?x = "(''a'', \<lparr>pe_health = 0, pe_limiter = None, pe_stop = 0\<rparr>)"
  have base: "mo_healths demo_monitor = [(''a'', inner_new)]" "mo_round_tips demo_monitor = rt_default"
    "mo_cfg demo_monitor = default_health"
    by (simp_all add: demo_monitor_def monitor_new_def start_def start_provider_def insert_provider_def
        alloc_entry_def spawn_loops_def default_provider_def default_health_def)
  have pc: "hc_probe_commitments default_health = [Processed, Finalized]" by (simp add: default_health_def)
  have "?x \<in> set (mo_entries demo_run)" by (simp add: demo_run_eq demo_monitor_entries)
  moreover have "cr_get (in_rounds (entry_inner demo_run ?x)) Processed = Some 0"
    "cs_get (in_slots (entry_inner demo_run ?x)) Processed = Some 7"
    by (simp_all add: demo_run_eq probe_result_def demo_monitor_entries base pc demo_probe entry_inner_def
        health_at_healths record_defs secs_def circuit_transitions_frame push_sample_frame
        update_slots_in_round_def del: cs_get.simps cr_get.simps) simp_all
  moreover have "rt_get (mo_round_tips demo_run) 0 =
      Some (st_observe st_default \<lparr>cs_processed = Some 7, cs_confirmed = None, cs_finalized = Some 7\<rparr>)"
    by (simp add: demo_run_eq probe_result_def base pc demo_probe observe_round_def rt_observe_def rt_get_def
        rt_default_def rt_index_def TIP_ROUNDS_def Let_def)
  ultimately show ?thesis
    using same_round_drift_exact[of ?x demo_slot_parse 0
      "[(''a'', \<lparr>cl_http3 = False, cl_pool_max_idle_per_host = 1\<rparr>)]" "[default_provider ''a'' ''u'']"
      default_health "[]" demo_probe_events Processed 0 7]
    by (simp add: unwrap_or_def st_observe_def st_default_def flip: demo_run_def)
qed

end
