(* ===== verification/Historical.thy ===== *)
theory Historical
  imports Telemetry "HOL-Library.Product_Lexorder"
begin

text \<open>
  Historical \<open>getTransaction\<close> analytics of \<open>src/src/historical.rs\<close>: admission of finished requests into
  the bounded queue (\<open>HistoricalAnalytics::finish\<close>), the worker, and the analyzer with its bounded,
  expiring memory of request fingerprints. The \<open>BTreeSet\<close> of the analyzer is the sorted list of its
  elements, its \<open>HashMap\<close> an association list with distinct keys. The two keyed hashers are parameters;
  \<open>hash_json\<close> gives the bytes that are fed to them. Counters are 64-bit and wrap as in a release build.
\<close>

section \<open>Vocabulary\<close>

datatype historical_commitment = HProcessed | HConfirmed | HFinalized | HUnknown

datatype historical_error_kind = ErrRpc | ErrParse

datatype historical_transition =
    FirstObservationFound | FirstObservationNull | NullRepeat | NullToFound | FoundRepeat
  | FoundToNullRegression

datatype drop_reason = QueueFull | ByteBudgetExhausted | OversizedJob

datatype eviction_reason = Capacity | Ttl

datatype historical_request_class = HistNone | HistSingle | HistBatch u64

fun eligible_calls :: "historical_request_class \<Rightarrow> u64" where
  "eligible_calls HistNone = 0"
| "eligible_calls HistSingle = 1"
| "eligible_calls (HistBatch n) = n"

fun commitment_index :: "historical_commitment \<Rightarrow> nat" where
  "commitment_index HProcessed = 0"
| "commitment_index HConfirmed = 1"
| "commitment_index HFinalized = 2"
| "commitment_index HUnknown = 3"

definition commitment_for_index :: "nat \<Rightarrow> historical_commitment" where
  "commitment_for_index i =
     (if i = 0 then HProcessed else if i = 1 then HConfirmed else if i = 2 then HFinalized else HUnknown)"

fun commitment_name :: "historical_commitment \<Rightarrow> string" where
  "commitment_name HProcessed = ''processed''"
| "commitment_name HConfirmed = ''confirmed''"
| "commitment_name HFinalized = ''finalized''"
| "commitment_name HUnknown = ''unknown''"

section \<open>Buckets\<close>

definition slot_age_bucket :: "u64 \<Rightarrow> nat" where
  "slot_age_bucket age =
     unwrap_or (position (\<lambda>upper. age \<le> upper)
        [149, 749, 8999, 53999, 215999, 431999, 2159999, 4319999])
       (HISTORICAL_SLOT_AGE_BUCKET_COUNT - 1)"

definition polls_bucket :: "u64 \<Rightarrow> nat" where
  "polls_bucket polls =
     (if polls = 0 then 0 else if polls = 1 then 1 else if polls = 2 then 2
      else if polls \<le> 5 then 3 else if polls \<le> 10 then 4 else 5)"

definition duration_bucket :: "duration \<Rightarrow> u64 list \<Rightarrow> nat" where
  "duration_bucket d uppers =
     unwrap_or (position (\<lambda>upper. d < duration_from_secs upper) uppers) (length uppers)"

definition bump :: "nat \<Rightarrow> u64 list \<Rightarrow> u64 list" where
  "bump i xs = xs[i := xs ! i + 1]"

section \<open>Reading requests and responses\<close>

datatype parsed_outcome = ParsedFound "u64 option" | ParsedNull | ParsedRpcError | ParsedParseError

definition json_is_object :: "json \<Rightarrow> bool" where
  "json_is_object j \<longleftrightarrow> (case j of JObj _ \<Rightarrow> True | _ \<Rightarrow> False)"

definition parse_response :: "json_parser \<Rightarrow> u16 \<Rightarrow> bytes \<Rightarrow> parsed_outcome" where
  "parse_response parse status response =
     (if \<not> (200 \<le> status \<and> status < 300) then ParsedRpcError
      else case parse response of
          None \<Rightarrow> ParsedParseError
        | Some j \<Rightarrow>
            if \<not> json_is_object j then ParsedParseError
            else if (case json_get ''error'' j of None \<Rightarrow> False | Some e \<Rightarrow> \<not> json_is_null e) then ParsedRpcError
            else case json_get ''result'' j of
                None \<Rightarrow> ParsedParseError
              | Some r \<Rightarrow>
                  if json_is_null r then ParsedNull
                  else ParsedFound (Option.bind (json_get ''slot'' r) json_as_u64))"

definition commitment_from_request :: "json \<Rightarrow> historical_commitment" where
  "commitment_from_request request =
     (case Option.bind (Option.bind (json_get ''params'' request) json_as_array) (\<lambda>params.
             case params of _ # p1 # _ \<Rightarrow> Option.bind (json_get ''commitment'' p1) json_as_str | _ \<Rightarrow> None) of
        None \<Rightarrow> HUnknown
      | Some s \<Rightarrow>
          if s = ''processed'' then HProcessed
          else if s = ''confirmed'' then HConfirmed
          else if s = ''finalized'' then HFinalized else HUnknown)"

text \<open>The decimal text of an integer.\<close>

fun nat_text :: "nat \<Rightarrow> string" where
  "nat_text n = (if n < 10 then [char_of (48 + n)] else nat_text (n div 10) @ [char_of (48 + n mod 10)])"

declare nat_text.simps [simp del]

definition int_text :: "int \<Rightarrow> string" where
  "int_text i = (if i < 0 then CHR ''-'' # nat_text (nat (- i)) else nat_text (nat i))"

definition text_bytes :: "string \<Rightarrow> bytes" where
  "text_bytes s = map (\<lambda>c. of_nat (of_char c)) s"

fun hash_json :: "json \<Rightarrow> bytes" where
  "hash_json JNull = [0]"
| "hash_json (JBool b) = [1, if b then 1 else 0]"
| "hash_json (JInt n) = 2 # text_bytes (int_text n)"
| "hash_json (JFloat t) = 2 # text_bytes t"
| "hash_json (JStr escaped s) = 3 # le_bytes 8 (length s) @ text_bytes s"
| "hash_json (JArr js) = 4 # le_bytes 8 (length js) @ concat (map hash_json js)"
| "hash_json (JObj members) =
     (let hashed = map (\<lambda>(k, v). (k, hash_json v)) members;
          keys = sort (remdups (map fst members))
      in 5 # le_bytes 8 (length keys) @
         concat (map (\<lambda>k. le_bytes 8 (length k) @ text_bytes k @ the (map_of (rev hashed) k)) keys))"

type_synonym fingerprint = "u64 \<times> u64"

type_synonym hashers = "(bytes \<Rightarrow> u64) \<times> (bytes \<Rightarrow> u64)"

definition fingerprint :: "hashers \<Rightarrow> json \<Rightarrow> fingerprint option" where
  "fingerprint hashers request =
     (if Option.bind (json_get ''method'' request) json_as_str \<noteq> Some ''getTransaction'' then None
      else case json_get ''params'' request of
          None \<Rightarrow> None
        | Some params \<Rightarrow>
            (case json_as_array params of
               Some (p # _) \<Rightarrow>
                 if json_as_str p = None then None
                 else let fed = hash_json (JStr False ''getTransaction'') @ hash_json params
                      in Some (fst hashers fed, snd hashers fed)
             | _ \<Rightarrow> None))"

section \<open>The analyzer\<close>

datatype lifecycle = NullSeen instant u64 | Found instant

record state_entry =
  se_lifecycle :: lifecycle
  se_commitment :: historical_commitment
  se_last_seen_at :: instant

record analyzer_core =
  co_state :: "(fingerprint \<times> state_entry) list"
  co_lru :: "(instant \<times> fingerprint) list"
  co_capacity :: nat
  co_ttl :: duration
  co_windows :: "hist_window list"
  co_window_start_ms :: u64

definition window_default :: hist_window where
  "window_default =
     \<lparr>hw_logical_request_count = 0, hw_analyzed_request_count = 0, hw_found_count = 0,
      hw_null_count = 0, hw_rpc_error_count = 0, hw_parse_error_count = 0,
      hw_first_observation_found_count = 0, hw_first_observation_null_count = 0,
      hw_null_repeat_count = 0, hw_null_to_found_count = 0, hw_found_repeat_count = 0,
      hw_found_to_null_regression_count = 0,
      hw_slot_age_bucket_counts = replicate HISTORICAL_SLOT_AGE_BUCKET_COUNT 0,
      hw_slot_age_unknown_count = 0, hw_slot_age_tip_behind_count = 0,
      hw_polls_before_found_bucket_counts = replicate HISTORICAL_POLLS_BEFORE_FOUND_BUCKET_COUNT 0,
      hw_time_to_found_bucket_counts = replicate HISTORICAL_TIME_TO_FOUND_BUCKET_COUNT 0,
      hw_found_reuse_bucket_counts = replicate HISTORICAL_FOUND_REUSE_BUCKET_COUNT 0,
      hw_unsupported_batch_count = 0, hw_state_capacity_eviction_count = 0,
      hw_state_ttl_expiration_count = 0, hw_unresolved_null_capacity_eviction_count = 0,
      hw_unresolved_null_ttl_expiration_count = 0\<rparr>"

definition core_new :: "nat \<Rightarrow> u64 \<Rightarrow> u64 \<Rightarrow> analyzer_core" where
  "core_new capacity ttl_secs now =
     \<lparr>co_state = [], co_lru = [], co_capacity = capacity, co_ttl = duration_from_secs ttl_secs,
      co_windows = replicate 4 window_default, co_window_start_ms = now\<rparr>"

definition upd_window :: "historical_commitment \<Rightarrow> (hist_window \<Rightarrow> hist_window) \<Rightarrow> analyzer_core \<Rightarrow> analyzer_core" where
  "upd_window c f core =
     core\<lparr>co_windows := (co_windows core)[commitment_index c := f (co_windows core ! commitment_index c)]\<rparr>"

fun record_transition_in :: "historical_transition \<Rightarrow> hist_window \<Rightarrow> hist_window" where
  "record_transition_in FirstObservationFound w =
     w\<lparr>hw_first_observation_found_count := hw_first_observation_found_count w + 1\<rparr>"
| "record_transition_in FirstObservationNull w =
     w\<lparr>hw_first_observation_null_count := hw_first_observation_null_count w + 1\<rparr>"
| "record_transition_in NullRepeat w = w\<lparr>hw_null_repeat_count := hw_null_repeat_count w + 1\<rparr>"
| "record_transition_in NullToFound w = w\<lparr>hw_null_to_found_count := hw_null_to_found_count w + 1\<rparr>"
| "record_transition_in FoundRepeat w = w\<lparr>hw_found_repeat_count := hw_found_repeat_count w + 1\<rparr>"
| "record_transition_in FoundToNullRegression w =
     w\<lparr>hw_found_to_null_regression_count := hw_found_to_null_regression_count w + 1\<rparr>"

definition record_transition :: "historical_commitment \<Rightarrow> historical_transition \<Rightarrow> analyzer_core \<Rightarrow> analyzer_core" where
  "record_transition c t core = upd_window c (record_transition_in t) core"

definition record_error :: "historical_commitment \<Rightarrow> historical_error_kind \<Rightarrow> analyzer_core \<Rightarrow> analyzer_core" where
  "record_error c kind core =
     upd_window c (\<lambda>w.
       let w = w\<lparr>hw_logical_request_count := hw_logical_request_count w + 1,
                 hw_analyzed_request_count := hw_analyzed_request_count w + 1\<rparr>
       in case kind of
            ErrRpc \<Rightarrow> w\<lparr>hw_rpc_error_count := hw_rpc_error_count w + 1\<rparr>
          | ErrParse \<Rightarrow> w\<lparr>hw_parse_error_count := hw_parse_error_count w + 1\<rparr>) core"

definition record_slot_age ::
  "historical_commitment \<Rightarrow> u64 option \<Rightarrow> commitment_slots \<Rightarrow> analyzer_core \<Rightarrow> analyzer_core" where
  "record_slot_age c returned_slot tips core =
     (let tip = (case c of HProcessed \<Rightarrow> cs_processed tips | HConfirmed \<Rightarrow> cs_confirmed tips
                         | HFinalized \<Rightarrow> cs_finalized tips | HUnknown \<Rightarrow> None)
      in upd_window c (\<lambda>w.
        case (returned_slot, tip) of
          (Some slot, Some tip) \<Rightarrow>
            if slot \<le> tip
            then w\<lparr>hw_slot_age_bucket_counts := bump (slot_age_bucket (tip - slot)) (hw_slot_age_bucket_counts w)\<rparr>
            else w\<lparr>hw_slot_age_tip_behind_count := hw_slot_age_tip_behind_count w + 1\<rparr>
        | _ \<Rightarrow> w\<lparr>hw_slot_age_unknown_count := hw_slot_age_unknown_count w + 1\<rparr>) core)"

definition count_eviction :: "eviction_reason \<Rightarrow> lifecycle \<Rightarrow> hist_window \<Rightarrow> hist_window" where
  "count_eviction reason lc w =
     (let null = (case lc of NullSeen _ _ \<Rightarrow> 1 | Found _ \<Rightarrow> 0) in
      case reason of
        Capacity \<Rightarrow>
          w\<lparr>hw_state_capacity_eviction_count := hw_state_capacity_eviction_count w + 1,
            hw_unresolved_null_capacity_eviction_count := hw_unresolved_null_capacity_eviction_count w + null\<rparr>
      | Ttl \<Rightarrow>
          w\<lparr>hw_state_ttl_expiration_count := hw_state_ttl_expiration_count w + 1,
            hw_unresolved_null_ttl_expiration_count := hw_unresolved_null_ttl_expiration_count w + null\<rparr>)"

definition evict_oldest :: "eviction_reason \<Rightarrow> analyzer_core \<Rightarrow> analyzer_core" where
  "evict_oldest reason core =
     (case co_lru core of
        [] \<Rightarrow> core
      | (last_seen, fp) # rest \<Rightarrow>
          (let core = core\<lparr>co_lru := rest\<rparr> in
           case map_of (co_state core) fp of
             None \<Rightarrow> core
           | Some entry \<Rightarrow>
               upd_window (se_commitment entry) (count_eviction reason (se_lifecycle entry))
                 (core\<lparr>co_state := AList.delete fp (co_state core)\<rparr>)))"

text \<open>Every turn of the two eviction loops pops one element of the set, which bounds them.\<close>

fun expire_loop :: "nat \<Rightarrow> instant \<Rightarrow> analyzer_core \<Rightarrow> analyzer_core" where
  "expire_loop n now core =
     (case (n, co_lru core) of
        (Suc n, (last_seen, fp) # _) \<Rightarrow>
          if saturating_duration_since now last_seen < co_ttl core then core
          else expire_loop n now (evict_oldest Ttl core)
      | _ \<Rightarrow> core)"

declare expire_loop.simps [simp del]

definition expire :: "instant \<Rightarrow> analyzer_core \<Rightarrow> analyzer_core" where
  "expire now core = expire_loop (length (co_lru core)) now core"

fun shrink_loop :: "nat \<Rightarrow> analyzer_core \<Rightarrow> analyzer_core" where
  "shrink_loop 0 core = core"
| "shrink_loop (Suc n) core =
     (if co_capacity core < length (co_state core) then shrink_loop n (evict_oldest Capacity core) else core)"

definition shrink :: "analyzer_core \<Rightarrow> analyzer_core" where
  "shrink core = shrink_loop (length (co_lru core)) core"

definition next_lifecycle ::
  "state_entry option \<Rightarrow> historical_commitment \<Rightarrow> bool \<Rightarrow> instant \<Rightarrow> analyzer_core \<Rightarrow> lifecycle \<times> analyzer_core" where
  "next_lifecycle previous c found now core =
     (case (previous, found) of
        (None, False) \<Rightarrow> (NullSeen now 1, record_transition c FirstObservationNull core)
      | (None, True) \<Rightarrow>
          (Found now, upd_window c (\<lambda>w. w\<lparr>hw_polls_before_found_bucket_counts :=
              bump 0 (hw_polls_before_found_bucket_counts w)\<rparr>) (record_transition c FirstObservationFound core))
      | (Some entry, False) \<Rightarrow>
          (case se_lifecycle entry of
             NullSeen first_null_at polls \<Rightarrow>
               (NullSeen first_null_at (u64_saturating_add polls 1), record_transition c NullRepeat core)
           | Found last_found_at \<Rightarrow> (Found last_found_at, record_transition c FoundToNullRegression core))
      | (Some entry, True) \<Rightarrow>
          (case se_lifecycle entry of
             NullSeen first_null_at polls \<Rightarrow>
               (Found now, upd_window c (\<lambda>w.
                  w\<lparr>hw_polls_before_found_bucket_counts :=
                       bump (polls_bucket polls) (hw_polls_before_found_bucket_counts w),
                    hw_time_to_found_bucket_counts :=
                       bump (duration_bucket (saturating_duration_since now first_null_at) [1, 2, 5, 15, 60])
                         (hw_time_to_found_bucket_counts w)\<rparr>) (record_transition c NullToFound core))
           | Found last_found_at \<Rightarrow>
               (Found now, upd_window c (\<lambda>w.
                  w\<lparr>hw_found_reuse_bucket_counts :=
                       bump (duration_bucket (saturating_duration_since now last_found_at) [300, 3600, 86400, 172800])
                         (hw_found_reuse_bucket_counts w)\<rparr>) (record_transition c FoundRepeat core))))"

definition forget :: "fingerprint \<Rightarrow> analyzer_core \<Rightarrow> state_entry option \<times> analyzer_core" where
  "forget fp core =
     (case map_of (co_state core) fp of
        None \<Rightarrow> (None, core)
      | Some entry \<Rightarrow>
          (Some entry, core\<lparr>co_state := AList.delete fp (co_state core),
             co_lru := remove1 (se_last_seen_at entry, fp) (co_lru core)\<rparr>))"

definition remember :: "fingerprint \<Rightarrow> state_entry \<Rightarrow> analyzer_core \<Rightarrow> analyzer_core" where
  "remember fp entry core =
     core\<lparr>co_state := AList.update fp entry (co_state core),
          co_lru := insort_insert (se_last_seen_at entry, fp) (co_lru core)\<rparr>"

definition transition ::
  "fingerprint \<Rightarrow> historical_commitment \<Rightarrow> bool \<Rightarrow> instant \<Rightarrow> analyzer_core \<Rightarrow> analyzer_core" where
  "transition fp c found now core =
     (case forget fp core of (previous, core) \<Rightarrow>
        (case next_lifecycle previous c found now core of (lc, core) \<Rightarrow>
           shrink (remember fp \<lparr>se_lifecycle = lc, se_commitment = c, se_last_seen_at = now\<rparr> core)))"

section \<open>Jobs\<close>

record hist_job =
  hj_request :: bytes
  hj_response :: bytes
  hj_status :: u16
  hj_observed_at :: instant
  hj_tips :: commitment_slots
  hj_class :: historical_request_class
  hj_permit :: nat

definition count_batch_call :: "historical_commitment \<Rightarrow> analyzer_core \<Rightarrow> analyzer_core" where
  "count_batch_call c core =
     upd_window c (\<lambda>w. w\<lparr>hw_logical_request_count := hw_logical_request_count w + 1,
       hw_unsupported_batch_count := hw_unsupported_batch_count w + 1\<rparr>) core"

definition batch_commitments :: "json_parser \<Rightarrow> bytes \<Rightarrow> historical_commitment list" where
  "batch_commitments parse request =
     (case parse request of
        Some (JArr calls) \<Rightarrow>
          map commitment_from_request
            (filter (\<lambda>call. Option.bind (json_get ''method'' call) json_as_str = Some ''getTransaction'') calls)
      | _ \<Rightarrow> [])"

definition process_batch :: "json_parser \<Rightarrow> bytes \<Rightarrow> u64 \<Rightarrow> analyzer_core \<Rightarrow> analyzer_core" where
  "process_batch parse request eligible core =
     (let seen = batch_commitments parse request;
          core = fold count_batch_call seen core
      in fold (\<lambda>_. count_batch_call HUnknown) [length seen..<unat eligible] core)"

definition count_analyzed :: "bool \<Rightarrow> hist_window \<Rightarrow> hist_window" where
  "count_analyzed found w =
     (let w = w\<lparr>hw_logical_request_count := hw_logical_request_count w + 1,
                hw_analyzed_request_count := hw_analyzed_request_count w + 1\<rparr>
      in if found then w\<lparr>hw_found_count := hw_found_count w + 1\<rparr>
         else w\<lparr>hw_null_count := hw_null_count w + 1\<rparr>)"

definition process_single :: "json_parser \<Rightarrow> hashers \<Rightarrow> hist_job \<Rightarrow> analyzer_core \<Rightarrow> analyzer_core" where
  "process_single parse hashers job core =
     (case parse (hj_request job) of
        None \<Rightarrow> record_error HUnknown ErrParse core
      | Some request \<Rightarrow>
          (let c = commitment_from_request request in
           case fingerprint hashers request of
             None \<Rightarrow> record_error c ErrParse core
           | Some fp \<Rightarrow>
               (case parse_response parse (hj_status job) (hj_response job) of
                  ParsedRpcError \<Rightarrow> record_error c ErrRpc core
                | ParsedParseError \<Rightarrow> record_error c ErrParse core
                | ParsedNull \<Rightarrow>
                    transition fp c False (hj_observed_at job) (upd_window c (count_analyzed False) core)
                | ParsedFound slot \<Rightarrow>
                    transition fp c True (hj_observed_at job)
                      (record_slot_age c slot (hj_tips job) (upd_window c (count_analyzed True) core)))))"

definition process :: "json_parser \<Rightarrow> hashers \<Rightarrow> hist_job \<Rightarrow> analyzer_core \<Rightarrow> analyzer_core" where
  "process parse hashers job core =
     (let core = expire (hj_observed_at job) core in
      case hj_class job of
        HistNone \<Rightarrow> core
      | HistSingle \<Rightarrow> process_single parse hashers job core
      | HistBatch n \<Rightarrow> process_batch parse (hj_request job) n core)"

section \<open>Flushing\<close>

record quality_counters =
  qc_dropped_logical :: u64
  qc_queue_full :: u64
  qc_byte_budget :: u64
  qc_oversized :: u64
  qc_resets :: u64

definition quality_new :: quality_counters where
  "quality_new = \<lparr>qc_dropped_logical = 0, qc_queue_full = 0, qc_byte_budget = 0, qc_oversized = 0, qc_resets = 1\<rparr>"

definition quality_zero :: quality_counters where
  "quality_zero = \<lparr>qc_dropped_logical = 0, qc_queue_full = 0, qc_byte_budget = 0, qc_oversized = 0, qc_resets = 0\<rparr>"

definition window_is_empty :: "hist_window \<Rightarrow> bool" where
  "window_is_empty w \<longleftrightarrow> hw_logical_request_count w = 0 \<and> hw_state_capacity_eviction_count w = 0 \<and>
     hw_state_ttl_expiration_count w = 0"

definition flush_window ::
  "u64 \<Rightarrow> nat \<Rightarrow> quality_counters \<Rightarrow> analyzer_core \<Rightarrow> nat \<Rightarrow> telemetry_event option \<times> hist_window" where
  "flush_window end' configured q core i =
     (let w = co_windows core ! i;
          is_unknown = (i = commitment_index HUnknown);
          present = (0 < qc_dropped_logical q + qc_queue_full q + qc_byte_budget q + qc_oversized q + qc_resets q)
      in if window_is_empty w \<and> \<not> (is_unknown \<and> present) then (None, w)
         else
           let w = (if is_unknown
                    then w\<lparr>hw_logical_request_count := hw_logical_request_count w + qc_dropped_logical q\<rparr> else w);
               pick = (\<lambda>n. if is_unknown then n else 0)
           in (Some (HistoricalGetTransactionAggregate
                 \<lparr>hg_schema_version = HISTORICAL_GET_TRANSACTION_AGGREGATE_VERSION,
                  hg_window_start_ms = co_window_start_ms core, hg_window_end_ms = end',
                  hg_commitment = commitment_name (commitment_for_index i), hg_window = w,
                  hg_queue_full_drop_count = pick (qc_queue_full q),
                  hg_byte_budget_exhausted_drop_count = pick (qc_byte_budget q),
                  hg_oversized_job_drop_count = pick (qc_oversized q),
                  hg_state_reset_count = pick (qc_resets q),
                  hg_current_state_entries = of_nat (length (co_state core)),
                  hg_configured_state_capacity = of_nat configured\<rparr>),
               window_default))"

definition core_flush ::
  "u64 \<Rightarrow> nat \<Rightarrow> quality_counters \<Rightarrow> analyzer_core \<Rightarrow> telemetry_event list \<times> analyzer_core" where
  "core_flush end' configured q core =
     (let flushed = map (flush_window end' configured q core) [0..<length (co_windows core)] in
      (List.map_filter fst flushed, core\<lparr>co_windows := map snd flushed, co_window_start_ms := end'\<rparr>))"

section \<open>Admission and the worker\<close>

datatype hist_message = Analyze hist_job | FlushMessage nat

text \<open>
  The queue, the free permits of the byte budget, the shared quality counters, the worker's analyzer,
  the events it handed to the reporter, and the flush callers it answered.
\<close>

record hist_analytics =
  hn_queue :: "hist_message list"
  hn_permits :: nat
  hn_quality :: quality_counters
  hn_core :: analyzer_core
  hn_emitted :: "telemetry_event list"
  hn_flushed :: "nat list"

definition QUEUE_BYTE_UNIT :: nat where "QUEUE_BYTE_UNIT = 4096"

definition permit_count :: "historical_config \<Rightarrow> nat" where
  "permit_count cfg = max (unat (ha_max_queued_bytes cfg) div QUEUE_BYTE_UNIT) 1"

definition hist_new :: "historical_config \<Rightarrow> u64 \<Rightarrow> hist_analytics" where
  "hist_new cfg now =
     \<lparr>hn_queue = [], hn_permits = permit_count cfg, hn_quality = quality_new,
      hn_core = core_new (unat (ha_state_capacity cfg)) (ha_state_ttl_secs cfg) now, hn_emitted = [],
      hn_flushed = []\<rparr>"

fun count_drop :: "drop_reason \<Rightarrow> u64 \<Rightarrow> quality_counters \<Rightarrow> quality_counters" where
  "count_drop QueueFull logical q =
     q\<lparr>qc_dropped_logical := qc_dropped_logical q + logical, qc_queue_full := qc_queue_full q + 1\<rparr>"
| "count_drop ByteBudgetExhausted logical q =
     q\<lparr>qc_dropped_logical := qc_dropped_logical q + logical, qc_byte_budget := qc_byte_budget q + 1\<rparr>"
| "count_drop OversizedJob logical q =
     q\<lparr>qc_dropped_logical := qc_dropped_logical q + logical, qc_oversized := qc_oversized q + 1\<rparr>"

definition drop_job :: "drop_reason \<Rightarrow> u64 \<Rightarrow> hist_analytics \<Rightarrow> hist_analytics" where
  "drop_job reason logical h = h\<lparr>hn_quality := count_drop reason logical (hn_quality h)\<rparr>"

definition job_units :: "nat \<Rightarrow> nat" where
  "job_units job_bytes = max ((job_bytes + QUEUE_BYTE_UNIT - 1) div QUEUE_BYTE_UNIT) 1"

definition hist_finish ::
  "historical_config \<Rightarrow> instant \<Rightarrow> historical_request_class \<Rightarrow> bytes \<Rightarrow> bytes \<Rightarrow> u16 \<Rightarrow> commitment_slots \<Rightarrow>
   hist_analytics \<Rightarrow> hist_analytics" where
  "hist_finish cfg now class' request response status tips h =
     (let logical = eligible_calls class' in
      if logical = 0 then h
      else let job_bytes = length request + length response in
        if 2 ^ 64 \<le> job_bytes then drop_job OversizedJob logical h
        else if unat (ha_max_job_bytes cfg) < job_bytes then drop_job OversizedJob logical h
        else let units = job_units job_bytes in
          if 2 ^ 32 \<le> units then drop_job ByteBudgetExhausted logical h
          else if hn_permits h < units then drop_job ByteBudgetExhausted logical h
          else if length (hn_queue h) < unat (ha_queue_capacity cfg)
            then h\<lparr>hn_permits := hn_permits h - units,
                   hn_queue := hn_queue h @ [Analyze
                     \<lparr>hj_request = request, hj_response = response, hj_status = status,
                      hj_observed_at = now, hj_tips = tips, hj_class = class', hj_permit = units\<rparr>]\<rparr>
            else drop_job QueueFull logical h)"

text \<open>A flush caller waits for a free place in the queue before its message is in it.\<close>

definition hist_flush_call :: "historical_config \<Rightarrow> nat \<Rightarrow> hist_analytics \<Rightarrow> hist_analytics" where
  "hist_flush_call cfg caller h =
     (if length (hn_queue h) < unat (ha_queue_capacity cfg)
      then h\<lparr>hn_queue := hn_queue h @ [FlushMessage caller]\<rparr> else h)"

definition worker_flush :: "historical_config \<Rightarrow> instant \<Rightarrow> u64 \<Rightarrow> hist_analytics \<Rightarrow> hist_analytics" where
  "worker_flush cfg now now_ms h =
     (case core_flush now_ms (unat (ha_state_capacity cfg)) (hn_quality h) (expire now (hn_core h)) of
        (events, core) \<Rightarrow>
          h\<lparr>hn_quality := quality_zero, hn_core := core, hn_emitted := hn_emitted h @ events\<rparr>)"

text \<open>One turn of \<open>worker_loop\<close> on a received message; the job's permit is returned when it is done.\<close>

definition worker_recv ::
  "historical_config \<Rightarrow> json_parser \<Rightarrow> hashers \<Rightarrow> instant \<Rightarrow> u64 \<Rightarrow> hist_analytics \<Rightarrow> hist_analytics" where
  "worker_recv cfg parse hashers now now_ms h =
     (case hn_queue h of
        [] \<Rightarrow> h
      | Analyze job # rest \<Rightarrow>
          h\<lparr>hn_queue := rest, hn_core := process parse hashers job (hn_core h),
            hn_permits := hn_permits h + hj_permit job\<rparr>
      | FlushMessage caller # rest \<Rightarrow>
          (worker_flush cfg now now_ms (h\<lparr>hn_queue := rest\<rparr>))\<lparr>hn_flushed := hn_flushed h @ [caller]\<rparr>)"

datatype hist_event =
    Finish instant historical_request_class bytes bytes u16 commitment_slots
  | FlushRequest nat
  | WorkerRecv instant u64
  | WorkerTick instant u64

fun hist_step ::
  "historical_config \<Rightarrow> json_parser \<Rightarrow> hashers \<Rightarrow> hist_event \<Rightarrow> hist_analytics \<Rightarrow> hist_analytics" where
  "hist_step cfg parse hashers (Finish now cl req resp st tips) h = hist_finish cfg now cl req resp st tips h"
| "hist_step cfg parse hashers (FlushRequest n) h = hist_flush_call cfg n h"
| "hist_step cfg parse hashers (WorkerRecv now ms) h = worker_recv cfg parse hashers now ms h"
| "hist_step cfg parse hashers (WorkerTick now ms) h = worker_flush cfg now ms h"

definition hist_run ::
  "historical_config \<Rightarrow> json_parser \<Rightarrow> hashers \<Rightarrow> hist_event list \<Rightarrow> hist_analytics \<Rightarrow> hist_analytics" where
  "hist_run cfg parse hashers es h = fold (hist_step cfg parse hashers) es h"

text \<open>
  The set of \<open>(last seen, fingerprint)\<close> pairs is exactly the index of the map: what lets the two eviction
  loops end, and lets the front of the set stand for the least recently seen entry.
\<close>

definition index_of :: "fingerprint \<times> state_entry \<Rightarrow> instant \<times> fingerprint" where
  "index_of p = (se_last_seen_at (snd p), fst p)"

definition index_ok :: "analyzer_core \<Rightarrow> bool" where
  "index_ok core \<longleftrightarrow> distinct (map fst (co_state core)) \<and> sorted (co_lru core) \<and>
     distinct (co_lru core) \<and> set (co_lru core) = index_of ` set (co_state core)"

definition fresh :: "duration \<Rightarrow> instant \<Rightarrow> state_entry \<Rightarrow> bool" where
  "fresh ttl now e \<longleftrightarrow> saturating_duration_since now (se_last_seen_at e) < ttl"

text \<open>The memory invariant: the index is right and the map within its capacity.\<close>

definition memory_ok :: "nat \<Rightarrow> analyzer_core \<Rightarrow> bool" where
  "memory_ok cap core \<longleftrightarrow> index_ok core \<and> co_capacity core = cap \<and> length (co_state core) \<le> cap"

text \<open>
  The identities between the counters of one window: every analyzed call has one outcome, every outcome
  one lifecycle transition, every found transaction one slot-age cell, every first find one cell of the
  polls histogram, and so on. All sums are 64-bit, as the counters are.
\<close>

definition window_ok :: "hist_window \<Rightarrow> bool" where
  "window_ok w \<longleftrightarrow>
     hw_analyzed_request_count w =
       hw_found_count w + hw_null_count w + hw_rpc_error_count w + hw_parse_error_count w \<and>
     hw_found_count w =
       hw_first_observation_found_count w + hw_null_to_found_count w + hw_found_repeat_count w \<and>
     hw_null_count w =
       hw_first_observation_null_count w + hw_null_repeat_count w + hw_found_to_null_regression_count w \<and>
     hw_found_count w =
       sum_list (hw_slot_age_bucket_counts w) + hw_slot_age_unknown_count w + hw_slot_age_tip_behind_count w \<and>
     sum_list (hw_polls_before_found_bucket_counts w) =
       hw_first_observation_found_count w + hw_null_to_found_count w \<and>
     sum_list (hw_time_to_found_bucket_counts w) = hw_null_to_found_count w \<and>
     sum_list (hw_found_reuse_bucket_counts w) = hw_found_repeat_count w \<and>
     length (hw_slot_age_bucket_counts w) = HISTORICAL_SLOT_AGE_BUCKET_COUNT \<and>
     length (hw_polls_before_found_bucket_counts w) = HISTORICAL_POLLS_BEFORE_FOUND_BUCKET_COUNT \<and>
     length (hw_time_to_found_bucket_counts w) = HISTORICAL_TIME_TO_FOUND_BUCKET_COUNT \<and>
     length (hw_found_reuse_bucket_counts w) = HISTORICAL_FOUND_REUSE_BUCKET_COUNT"

definition windows_ok :: "analyzer_core \<Rightarrow> bool" where
  "windows_ok core \<longleftrightarrow> length (co_windows core) = 4 \<and> (\<forall>w \<in> set (co_windows core). window_ok w)"

definition slot_age_in :: "historical_commitment \<Rightarrow> u64 option \<Rightarrow> commitment_slots \<Rightarrow> hist_window \<Rightarrow> hist_window" where
  "slot_age_in c returned_slot tips w =
     (case (returned_slot, case c of HProcessed \<Rightarrow> cs_processed tips | HConfirmed \<Rightarrow> cs_confirmed tips
                         | HFinalized \<Rightarrow> cs_finalized tips | HUnknown \<Rightarrow> None) of
          (Some slot, Some tip) \<Rightarrow>
            if slot \<le> tip
            then w\<lparr>hw_slot_age_bucket_counts := bump (slot_age_bucket (tip - slot)) (hw_slot_age_bucket_counts w)\<rparr>
            else w\<lparr>hw_slot_age_tip_behind_count := hw_slot_age_tip_behind_count w + 1\<rparr>
        | _ \<Rightarrow> w\<lparr>hw_slot_age_unknown_count := hw_slot_age_unknown_count w + 1\<rparr>)"

definition lifecycle_in :: "lifecycle option \<Rightarrow> bool \<Rightarrow> instant \<Rightarrow> hist_window \<Rightarrow> hist_window" where
  "lifecycle_in prev found now w =
     (case (prev, found) of
        (None, False) \<Rightarrow> record_transition_in FirstObservationNull w
      | (None, True) \<Rightarrow>
          (let w = record_transition_in FirstObservationFound w in
           w\<lparr>hw_polls_before_found_bucket_counts := bump 0 (hw_polls_before_found_bucket_counts w)\<rparr>)
      | (Some (NullSeen t p), False) \<Rightarrow> record_transition_in NullRepeat w
      | (Some (Found t), False) \<Rightarrow> record_transition_in FoundToNullRegression w
      | (Some (NullSeen t p), True) \<Rightarrow>
          (let w = record_transition_in NullToFound w in
           w\<lparr>hw_polls_before_found_bucket_counts := bump (polls_bucket p) (hw_polls_before_found_bucket_counts w),
             hw_time_to_found_bucket_counts :=
               bump (duration_bucket (saturating_duration_since now t) [1, 2, 5, 15, 60]) (hw_time_to_found_bucket_counts w)\<rparr>)
      | (Some (Found t), True) \<Rightarrow>
          (let w = record_transition_in FoundRepeat w in
           w\<lparr>hw_found_reuse_bucket_counts :=
               bump (duration_bucket (saturating_duration_since now t) [300, 3600, 86400, 172800]) (hw_found_reuse_bucket_counts w)\<rparr>))"

text \<open>
  How far each identity is off: the outcome count and the slot-age cell of one call leave the transition
  identity open by one, and the transition closes it.
\<close>

definition shape_ok :: "hist_window \<Rightarrow> bool" where
  "shape_ok w \<longleftrightarrow>
     length (hw_slot_age_bucket_counts w) = HISTORICAL_SLOT_AGE_BUCKET_COUNT \<and>
     length (hw_polls_before_found_bucket_counts w) = HISTORICAL_POLLS_BEFORE_FOUND_BUCKET_COUNT \<and>
     length (hw_time_to_found_bucket_counts w) = HISTORICAL_TIME_TO_FOUND_BUCKET_COUNT \<and>
     length (hw_found_reuse_bucket_counts w) = HISTORICAL_FOUND_REUSE_BUCKET_COUNT"

definition balance :: "hist_window \<Rightarrow> u64 list" where
  "balance w =
     [hw_analyzed_request_count w -
        (hw_found_count w + hw_null_count w + hw_rpc_error_count w + hw_parse_error_count w),
      hw_found_count w -
        (hw_first_observation_found_count w + hw_null_to_found_count w + hw_found_repeat_count w),
      hw_null_count w -
        (hw_first_observation_null_count w + hw_null_repeat_count w + hw_found_to_null_regression_count w),
      hw_found_count w -
        (sum_list (hw_slot_age_bucket_counts w) + hw_slot_age_unknown_count w + hw_slot_age_tip_behind_count w),
      sum_list (hw_polls_before_found_bucket_counts w) -
        (hw_first_observation_found_count w + hw_null_to_found_count w),
      sum_list (hw_time_to_found_bucket_counts w) - hw_null_to_found_count w,
      sum_list (hw_found_reuse_bucket_counts w) - hw_found_repeat_count w]"

text \<open>The aggregate events the worker hands to the reporter.\<close>

fun event_ok :: "telemetry_event \<Rightarrow> bool" where
  "event_ok (HistoricalGetTransactionAggregate g) =
     (window_ok (hg_window g) \<and> hg_current_state_entries g \<le> hg_configured_state_capacity g)"
| "event_ok _ = False"

definition analytics_ok :: "historical_config \<Rightarrow> hist_analytics \<Rightarrow> bool" where
  "analytics_ok cfg h \<longleftrightarrow> memory_ok (unat (ha_state_capacity cfg)) (hn_core h) \<and> windows_ok (hn_core h) \<and>
     (\<forall>ev \<in> set (hn_emitted h). event_ok ev)"

fun message_permits :: "hist_message \<Rightarrow> nat" where
  "message_permits (Analyze job) = hj_permit job"
| "message_permits (FlushMessage _) = 0"

fun message_bytes :: "hist_message \<Rightarrow> nat" where
  "message_bytes (Analyze job) = length (hj_request job) + length (hj_response job)"
| "message_bytes (FlushMessage _) = 0"

definition queued_bytes :: "hist_analytics \<Rightarrow> nat" where
  "queued_bytes h = sum_list (map message_bytes (hn_queue h))"

definition queued_permits :: "hist_analytics \<Rightarrow> nat" where
  "queued_permits h = sum_list (map message_permits (hn_queue h))"

definition budget_ok :: "historical_config \<Rightarrow> hist_analytics \<Rightarrow> bool" where
  "budget_ok cfg h \<longleftrightarrow> hn_permits h + queued_permits h = permit_count cfg \<and>
     list_all (\<lambda>m. message_bytes m \<le> message_permits m * QUEUE_BYTE_UNIT) (hn_queue h) \<and>
     length (hn_queue h) \<le> unat (ha_queue_capacity cfg)"

fun message_calls :: "hist_message \<Rightarrow> u64" where
  "message_calls (Analyze job) = eligible_calls (hj_class job)"
| "message_calls (FlushMessage _) = 0"

fun logical_calls :: "telemetry_event \<Rightarrow> u64" where
  "logical_calls (HistoricalGetTransactionAggregate g) = hw_logical_request_count (hg_window g)"
| "logical_calls _ = 0"

definition window_calls :: "analyzer_core \<Rightarrow> u64" where
  "window_calls core = sum_list (map hw_logical_request_count (co_windows core))"

definition accounted_calls :: "hist_analytics \<Rightarrow> u64" where
  "accounted_calls h = sum_list (map logical_calls (hn_emitted h)) + window_calls (hn_core h) +
     qc_dropped_logical (hn_quality h) + sum_list (map message_calls (hn_queue h))"

fun finish_calls :: "hist_event \<Rightarrow> u64" where
  "finish_calls (Finish now cl req resp st tips) = eligible_calls cl"
| "finish_calls _ = 0"

text \<open>A batch was classified with at least the eligible calls that the worker will find in it.\<close>

definition well_classified :: "json_parser \<Rightarrow> historical_request_class \<Rightarrow> bytes \<Rightarrow> bool" where
  "well_classified parse cl req \<longleftrightarrow>
     (case cl of HistBatch n \<Rightarrow> length (batch_commitments parse req) \<le> unat n | _ \<Rightarrow> True)"

fun event_classified :: "json_parser \<Rightarrow> hist_event \<Rightarrow> bool" where
  "event_classified parse (Finish now cl req resp st tips) = well_classified parse cl req"
| "event_classified parse _ = True"

definition keeps_calls :: "u64 \<Rightarrow> analyzer_core \<Rightarrow> analyzer_core \<Rightarrow> bool" where
  "keeps_calls n core core' \<longleftrightarrow> length (co_windows core') = 4 \<and> window_calls core' = window_calls core + n"

text \<open>Flushing moves the calls of the windows, and of the dropped jobs, into the emitted events.\<close>

definition quality_total :: "quality_counters \<Rightarrow> nat" where
  "quality_total q = unat (qc_dropped_logical q) + unat (qc_queue_full q) + unat (qc_byte_budget q) +
     unat (qc_oversized q) + unat (qc_resets q)"

definition option_calls :: "telemetry_event option \<Rightarrow> u64" where
  "option_calls ev = (case ev of None \<Rightarrow> 0 | Some e \<Rightarrow> logical_calls e)"

fun message_classified :: "json_parser \<Rightarrow> hist_message \<Rightarrow> bool" where
  "message_classified parse (Analyze job) = well_classified parse (hj_class job) (hj_request job)"
| "message_classified parse (FlushMessage _) = True"

definition tracked :: "json_parser \<Rightarrow> nat \<Rightarrow> u64 \<Rightarrow> hist_analytics \<Rightarrow> bool" where
  "tracked parse bound calls h \<longleftrightarrow> length (co_windows (hn_core h)) = 4 \<and>
     list_all (message_classified parse) (hn_queue h) \<and> quality_total (hn_quality h) \<le> bound \<and>
     accounted_calls h = calls"

text \<open>What an event may add to the quality counters.\<close>

fun event_cost :: "hist_event \<Rightarrow> nat" where
  "event_cost (Finish now cl req resp st tips) = unat (eligible_calls cl) + 1"
| "event_cost _ = 0"

section \<open>The memory of fingerprints\<close>

lemma upd_window_mem [simp]:
  "co_state (upd_window c f core) = co_state core" "co_lru (upd_window c f core) = co_lru core"
  "co_capacity (upd_window c f core) = co_capacity core" "co_ttl (upd_window c f core) = co_ttl core"
  "co_window_start_ms (upd_window c f core) = co_window_start_ms core"
  by (simp_all add: upd_window_def)

lemma index_ok_cong:
  "co_state core' = co_state core \<Longrightarrow> co_lru core' = co_lru core \<Longrightarrow> index_ok core' = index_ok core"
  by (simp add: index_ok_def)

lemma index_ok_upd_window [simp]: "index_ok (upd_window c f core) = index_ok core"
  by (rule index_ok_cong) simp_all

lemma set_AList_delete: "set (AList.delete k xs) = {p \<in> set xs. fst p \<noteq> k}"
  by (induction xs) auto

lemma length_index:
  assumes "index_ok core"
  shows "length (co_lru core) = length (co_state core)"
proof -
  have d: "distinct (map fst (co_state core))" and dl: "distinct (co_lru core)"
    and s: "set (co_lru core) = index_of ` set (co_state core)"
    using assms by (auto simp: index_ok_def)
  have "inj_on index_of (set (co_state core))"
    using d by (auto simp: inj_on_def index_of_def distinct_map)
  then show ?thesis
    using distinct_card[OF dl] distinct_card[of "co_state core"] d by (simp add: s card_image distinct_map)
qed

lemma index_ok_front:
  assumes "index_ok core" "co_lru core = (t, fp) # rest"
  shows "\<exists>e. map_of (co_state core) fp = Some e \<and> se_last_seen_at e = t"
proof -
  have "(t, fp) \<in> index_of ` set (co_state core)"
    using assms by (metis index_ok_def list.set_intros(1))
  then obtain p where p: "p \<in> set (co_state core)" "index_of p = (t, fp)" by auto
  then have "map_of (co_state core) (fst p) = Some (snd p)"
    using assms(1) by (simp add: index_ok_def map_of_eq_Some_iff)
  with p show ?thesis by (auto simp: index_of_def)
qed

lemma index_image_delete:
  assumes "distinct (map fst st)" "map_of st fp = Some e"
  shows "index_of ` set (AList.delete fp st) = index_of ` set st - {(se_last_seen_at e, fp)}"
proof -
  have "(fp, e') \<in> set st \<longleftrightarrow> e' = e" for e'
    using assms by (metis map_of_eq_Some_iff option.inject)
  then show ?thesis by (force simp: set_AList_delete index_of_def)
qed

lemma evict_oldest_mem:
  assumes "index_ok core" "co_lru core = (t, fp) # rest"
  shows "co_state (evict_oldest r core) = AList.delete fp (co_state core)"
    "co_lru (evict_oldest r core) = rest"
    "co_capacity (evict_oldest r core) = co_capacity core"
    "co_ttl (evict_oldest r core) = co_ttl core"
  using index_ok_front[OF assms] assms(2) by (auto simp: evict_oldest_def)

lemma evict_oldest_index:
  assumes "index_ok core"
  shows "index_ok (evict_oldest r core)"
proof (cases "co_lru core")
  case Nil
  then show ?thesis using assms by (simp add: evict_oldest_def)
next
  case (Cons p rest)
  obtain t fp where p: "p = (t, fp)" using surj_pair[of p] by blast
  obtain e where e: "map_of (co_state core) fp = Some e" "se_last_seen_at e = t"
    using index_ok_front[OF assms] Cons p by blast
  have "index_of ` set (AList.delete fp (co_state core)) = set (co_lru core) - {(t, fp)}"
    using index_image_delete[OF _ e(1)] assms e(2) by (simp add: index_ok_def)
  then show ?thesis
    using assms Cons p evict_oldest_mem[OF assms, of t fp rest r]
    by (auto simp: index_ok_def distinct_delete)
qed

lemma evict_oldest_shrinks:
  assumes "index_ok core" "co_state core \<noteq> []"
  shows "Suc (length (co_state (evict_oldest r core))) = length (co_state core)"
proof -
  obtain t fp rest where "co_lru core = (t, fp) # rest"
    using assms length_index[OF assms(1)] by (cases "co_lru core") auto
  then have "length (co_lru core) = Suc (length (co_lru (evict_oldest r core)))"
    using evict_oldest_mem(2)[OF assms(1)] by simp
  then show ?thesis using length_index[OF assms(1)] length_index[OF evict_oldest_index[OF assms(1)]] by simp
qed

lemma evict_oldest_consts [simp]:
  "co_capacity (evict_oldest r core) = co_capacity core" "co_ttl (evict_oldest r core) = co_ttl core"
  by (auto simp: evict_oldest_def Let_def split: list.split option.split)

lemma shrink_loop_consts [simp]:
  "co_capacity (shrink_loop n core) = co_capacity core" "co_ttl (shrink_loop n core) = co_ttl core"
  by (induction n arbitrary: core) auto

lemma shrink_loop_index: "index_ok core \<Longrightarrow> index_ok (shrink_loop n core)"
  by (induction n arbitrary: core) (auto simp: evict_oldest_index)

text \<open>The loop's exit condition is reached: the bound on its turns never cuts it short.\<close>

lemma shrink_loop_exits:
  "index_ok core \<Longrightarrow> length (co_state core) \<le> n \<Longrightarrow> length (co_state (shrink_loop n core)) \<le> co_capacity core"
proof (induction n arbitrary: core)
  case (Suc n)
  show ?case
  proof (cases "co_capacity core < length (co_state core)")
    case True
    then have "co_state core \<noteq> []" by auto
    with Suc.prems have "length (co_state (evict_oldest Capacity core)) \<le> n"
      using evict_oldest_shrinks[of core Capacity] by simp
    with Suc.IH[OF evict_oldest_index[OF Suc.prems(1)]] True show ?thesis by simp
  qed simp
qed simp

lemma shrink_ok:
  assumes "index_ok core"
  shows "index_ok (shrink core)" "length (co_state (shrink core)) \<le> co_capacity core"
    "co_capacity (shrink core) = co_capacity core"
  using assms shrink_loop_index shrink_loop_exits[OF assms] length_index[OF assms]
  by (simp_all add: shrink_def)

section \<open>Expiry\<close>

lemma expire_loop_Nil [simp]: "co_lru core = [] \<Longrightarrow> expire_loop n now core = core"
  by (cases n) (simp_all add: expire_loop.simps)

lemma expire_loop_consts [simp]:
  "co_capacity (expire_loop n now core) = co_capacity core" "co_ttl (expire_loop n now core) = co_ttl core"
  by (induction n arbitrary: core; subst expire_loop.simps; simp split: list.split)+

lemma expire_loop_index: "index_ok core \<Longrightarrow> index_ok (expire_loop n now core)"
  by (induction n arbitrary: core; subst expire_loop.simps)
    (auto simp: evict_oldest_index split: list.split)

lemma filter_all: "(\<forall>x \<in> set xs. P x) \<Longrightarrow> filter P xs = xs"
  by (induction xs) auto

lemma expire_loop_state:
  assumes "index_ok core" "length (co_lru core) \<le> n"
  shows "co_state (expire_loop n now core) = filter (\<lambda>p. fresh (co_ttl core) now (snd p)) (co_state core)"
  using assms
proof (induction n arbitrary: core)
  case 0
  then show ?case using length_index[OF 0(1)] by (simp add: expire_loop.simps)
next
  case (Suc n)
  show ?case
  proof (cases "co_lru core")
    case Nil
    then show ?thesis using length_index[OF Suc.prems(1)] by simp
  next
    case (Cons p rest)
    obtain t fp where p: "p = (t, fp)" using surj_pair[of p] by blast
    note front = Cons[unfolded p]
    obtain e where e: "map_of (co_state core) fp = Some e" "se_last_seen_at e = t"
      using index_ok_front[OF Suc.prems(1) front] by blast
    have le: "t \<le> se_last_seen_at (snd q)" if "q \<in> set (co_state core)" for q
    proof -
      have "index_of q \<in> set (co_lru core)" using that Suc.prems(1) by (simp add: index_ok_def)
      then have "index_of q = (t, fp) \<or> index_of q \<in> set rest" by (simp add: front)
      moreover have "\<forall>r \<in> set rest. (t, fp) \<le> r"
        using Suc.prems(1) front by (simp add: index_ok_def)
      ultimately have "(t, fp) \<le> index_of q" by auto
      then show ?thesis by (auto simp: index_of_def less_eq_prod_def)
    qed
    show ?thesis
    proof (cases "saturating_duration_since now t < co_ttl core")
      case True
      have "fresh (co_ttl core) now (snd q)" if "q \<in> set (co_state core)" for q
        using le[OF that] True by (auto simp: fresh_def saturating_duration_since_def)
      then show ?thesis using True front by (simp add: expire_loop.simps filter_all)
    next
      case False
      let ?f = "\<lambda>q :: fingerprint \<times> state_entry. fresh (co_ttl core) now (snd q)"
      have stale: "\<not> fresh (co_ttl core) now e" using False e(2) by (simp add: fresh_def)
      have "filter ?f (AList.delete fp (co_state core)) = filter ?f (co_state core)"
        unfolding AList.delete_eq filter_filter
      proof (rule filter_cong[OF refl])
        fix q assume "q \<in> set (co_state core)"
        then have "fst q = fp \<Longrightarrow> snd q = e"
          using e(1) Suc.prems(1) by (metis index_ok_def map_of_is_SomeI option.inject prod.collapse)
        then show "(case q of (k', _) \<Rightarrow> fp \<noteq> k') \<and> ?f q \<longleftrightarrow> ?f q"
          using stale by (auto split: prod.split)
      qed
      then show ?thesis
        using False front Suc.IH[OF evict_oldest_index[OF Suc.prems(1)]] Suc.prems(2)
          evict_oldest_mem[OF Suc.prems(1) front]
        by (simp add: expire_loop.simps)
    qed
  qed
qed

lemma expire_state:
  "index_ok core \<Longrightarrow> co_state (expire now core) = filter (\<lambda>p. fresh (co_ttl core) now (snd p)) (co_state core)"
  by (simp add: expire_def expire_loop_state)

lemma expire_ok:
  "index_ok core \<Longrightarrow> index_ok (expire now core)"
  "co_capacity (expire now core) = co_capacity core" "co_ttl (expire now core) = co_ttl core"
  "index_ok core \<Longrightarrow> length (co_state (expire now core)) \<le> length (co_state core)"
  by (simp_all add: expire_def expire_loop_index expire_loop_state)

lemma forget_index:
  assumes "index_ok core"
  shows "index_ok (snd (forget fp core))" "fp \<notin> fst ` set (co_state (snd (forget fp core)))"
    "co_capacity (snd (forget fp core)) = co_capacity core"
    "co_windows (snd (forget fp core)) = co_windows core"
    "length (co_state (snd (forget fp core))) \<le> length (co_state core)"
proof -
  show "index_ok (snd (forget fp core))"
  proof (cases "map_of (co_state core) fp")
    case (Some e)
    then show ?thesis
      using assms index_image_delete[of "co_state core" fp e]
      by (simp add: forget_def index_ok_def distinct_delete sorted_remove1 set_remove1_eq)
  qed (simp add: forget_def assms)
qed (auto simp: forget_def map_of_eq_None_iff length_delete_le split: option.split)

lemma next_lifecycle_mem [simp]:
  "co_state (snd (next_lifecycle prev c found now core)) = co_state core"
  "co_lru (snd (next_lifecycle prev c found now core)) = co_lru core"
  "co_capacity (snd (next_lifecycle prev c found now core)) = co_capacity core"
  "co_ttl (snd (next_lifecycle prev c found now core)) = co_ttl core"
  by (auto simp: next_lifecycle_def record_transition_def split: option.split bool.split lifecycle.split)

lemma update_fresh: "k \<notin> fst ` set xs \<Longrightarrow> AList.update k v xs = xs @ [(k, v)]"
  by (induction xs) auto

lemma remember_index:
  assumes "index_ok core" "fp \<notin> fst ` set (co_state core)"
  shows "index_ok (remember fp e core)"
proof -
  have fresh_key: "(se_last_seen_at e, fp) \<notin> set (co_lru core)"
    using assms by (auto simp: index_ok_def index_of_def)
  show ?thesis
    using assms fresh_key
    by (auto simp: index_ok_def remember_def insort_insert_insort sorted_insort distinct_insort
        set_insort_key index_of_def update_fresh)
qed

lemma transition_decomp:
  "transition fp c found now core =
     shrink (remember fp
       \<lparr>se_lifecycle = fst (next_lifecycle (fst (forget fp core)) c found now (snd (forget fp core))),
        se_commitment = c, se_last_seen_at = now\<rparr>
       (snd (next_lifecycle (fst (forget fp core)) c found now (snd (forget fp core)))))"
  by (simp add: transition_def case_prod_beta)

lemma transition_ok:
  assumes "index_ok core"
  shows "index_ok (transition fp c found now core)"
    "length (co_state (transition fp c found now core)) \<le> co_capacity core"
    "co_capacity (transition fp c found now core) = co_capacity core"
proof -
  let ?f = "snd (forget fp core)"
  let ?n = "next_lifecycle (fst (forget fp core)) c found now ?f"
  let ?r = "remember fp \<lparr>se_lifecycle = fst ?n, se_commitment = c, se_last_seen_at = now\<rparr> (snd ?n)"
  have "index_ok (snd ?n)" using forget_index(1)[OF assms] by (simp add: index_ok_def)
  then have "index_ok ?r" by (rule remember_index) (simp add: forget_index[OF assms])
  moreover have "co_capacity ?r = co_capacity core" by (simp add: remember_def forget_index[OF assms])
  ultimately show "index_ok (transition fp c found now core)"
    "length (co_state (transition fp c found now core)) \<le> co_capacity core"
    "co_capacity (transition fp c found now core) = co_capacity core"
    using shrink_ok by (metis transition_decomp)+
qed

lemma memory_ok_cong:
  "co_state core' = co_state core \<Longrightarrow> co_lru core' = co_lru core \<Longrightarrow> co_capacity core' = co_capacity core \<Longrightarrow>
   memory_ok cap core' = memory_ok cap core"
  by (simp add: memory_ok_def index_ok_def)

lemma memory_ok_upd_window [simp]: "memory_ok cap (upd_window c f core) = memory_ok cap core"
  by (rule memory_ok_cong) simp_all

lemma memory_ok_expire [simp]: "memory_ok cap core \<Longrightarrow> memory_ok cap (expire now core)"
  using expire_ok[where core = core and now = now] by (simp add: memory_ok_def)

lemma memory_ok_transition [simp]: "memory_ok cap core \<Longrightarrow> memory_ok cap (transition fp c found now core)"
  using transition_ok[of core fp c found now] by (auto simp: memory_ok_def)

lemma memory_ok_counts [simp]:
  "memory_ok cap (record_error c k core) = memory_ok cap core"
  "memory_ok cap (record_slot_age c s tips core) = memory_ok cap core"
  "memory_ok cap (count_batch_call c core) = memory_ok cap core"
  by (simp_all add: record_error_def record_slot_age_def count_batch_call_def)

lemma memory_ok_fold: "(\<And>x core. memory_ok cap core \<Longrightarrow> memory_ok cap (f x core)) \<Longrightarrow> memory_ok cap core \<Longrightarrow> memory_ok cap (fold f xs core)"
  by (induction xs arbitrary: core) auto

lemma memory_ok_process [simp]: "memory_ok cap core \<Longrightarrow> memory_ok cap (process parse hs job core)"
  by (auto simp: process_def process_single_def process_batch_def Let_def intro!: memory_ok_fold
      split: historical_request_class.split option.split parsed_outcome.split)

lemma core_flush_mem [simp]:
  "co_state (snd (core_flush e n q core)) = co_state core" "co_lru (snd (core_flush e n q core)) = co_lru core"
  "co_capacity (snd (core_flush e n q core)) = co_capacity core" "co_ttl (snd (core_flush e n q core)) = co_ttl core"
  by (simp_all add: core_flush_def Let_def)

lemma memory_ok_flush [simp]: "memory_ok cap core \<Longrightarrow> memory_ok cap (snd (core_flush e n q core))"
  by (subst memory_ok_cong[of _ core]) simp_all

lemma worker_flush_core [simp]:
  "hn_core (worker_flush cfg now ms h) =
     snd (core_flush ms (unat (ha_state_capacity cfg)) (hn_quality h) (expire now (hn_core h)))"
  by (simp add: worker_flush_def case_prod_beta)

lemma hist_finish_core [simp]: "hn_core (hist_finish cfg now cl req resp st tips h) = hn_core h"
  by (simp add: hist_finish_def drop_job_def Let_def)

lemma memory_ok_step: "memory_ok cap (hn_core h) \<Longrightarrow> memory_ok cap (hn_core (hist_step cfg parse hs e h))"
  by (cases e) (auto simp: hist_flush_call_def worker_recv_def split: list.split hist_message.split)

lemma memory_ok_new: "memory_ok cap (core_new cap ttl now)"
  by (simp add: memory_ok_def index_ok_def core_new_def)

lemma hist_run_invariant:
  assumes "\<And>e h. P h \<Longrightarrow> P (hist_step cfg parse hs e h)" "P h"
  shows "P (hist_run cfg parse hs es h)"
  using assms(2) unfolding hist_run_def by (induction es arbitrary: h) (auto intro: assms(1))

text \<open>C27. In every reachable state of the historical analyzer the remembered fingerprints are within
state_capacity and the recency set is exactly the index of the map, which is what makes both
eviction loops end.\<close>

theorem memory_bounded_and_indexed:
  "index_ok (hn_core (hist_run cfg parse hs es (hist_new cfg start))) \<and>
   length (co_state (hn_core (hist_run cfg parse hs es (hist_new cfg start)))) \<le> unat (ha_state_capacity cfg)"
proof -
  have "memory_ok (unat (ha_state_capacity cfg)) (hn_core (hist_run cfg parse hs es (hist_new cfg start)))"
    by (rule hist_run_invariant) (simp_all add: memory_ok_step memory_ok_new hist_new_def)
  then show ?thesis by (simp add: memory_ok_def)
qed

section \<open>The windows add up\<close>

lemma sum_list_bump:
  "i < length xs \<Longrightarrow> sum_list (bump i xs) = sum_list xs + (1 :: u64)"
proof (induction xs arbitrary: i)
  case (Cons x xs)
  show ?case
  proof (cases i)
    case (Suc j)
    with Cons.IH[of j] Cons.prems show ?thesis by (simp add: bump_def algebra_simps)
  qed (simp add: bump_def algebra_simps)
qed simp

lemma length_bump [simp]: "length (bump i xs) = length xs"
  by (simp add: bump_def)

lemma unwrap_position_less:
  "unwrap_or (position P xs) (length xs) \<le> length xs"
  using position_less_or_None[where P = P and xs = xs] by (simp add: unwrap_or_def split: option.splits)

lemma slot_age_bucket_less: "slot_age_bucket age < HISTORICAL_SLOT_AGE_BUCKET_COUNT"
proof -
  let ?uppers = "[149, 749, 8999, 53999, 215999, 431999, 2159999, 4319999] :: u64 list"
  have l: "length ?uppers = HISTORICAL_SLOT_AGE_BUCKET_COUNT - 1"
    by (simp add: HISTORICAL_SLOT_AGE_BUCKET_COUNT_def)
  have "slot_age_bucket age = unwrap_or (position (\<lambda>upper. age \<le> upper) ?uppers) (length ?uppers)"
    unfolding slot_age_bucket_def l ..
  also have "\<dots> \<le> length ?uppers" by (rule unwrap_position_less)
  finally show ?thesis unfolding l by (simp add: HISTORICAL_SLOT_AGE_BUCKET_COUNT_def)
qed

lemma polls_bucket_less: "polls_bucket p < HISTORICAL_POLLS_BEFORE_FOUND_BUCKET_COUNT"
  by (simp add: polls_bucket_def HISTORICAL_POLLS_BEFORE_FOUND_BUCKET_COUNT_def)

lemma duration_bucket_le: "duration_bucket d uppers \<le> length uppers"
  by (simp add: duration_bucket_def unwrap_position_less)

lemma window_ok_default: "window_ok window_default"
  by (simp add: window_ok_def window_default_def sum_list_replicate)

lemma commitment_index_less: "commitment_index c < 4"
  by (cases c) auto

lemma windows_ok_upd:
  assumes "windows_ok core" "\<And>w. window_ok w \<Longrightarrow> window_ok (f w)"
  shows "windows_ok (upd_window c f core)"
  using assms commitment_index_less[of c]
  by (auto simp: windows_ok_def upd_window_def dest!: set_update_subset_insert[THEN subsetD])

lemma windows_ok_cong: "co_windows core' = co_windows core \<Longrightarrow> windows_ok core' = windows_ok core"
  by (simp add: windows_ok_def)

lemma count_eviction_ok: "window_ok (count_eviction r lc w) = window_ok w"
  by (simp add: window_ok_def count_eviction_def Let_def split: eviction_reason.split)

lemma windows_ok_evict: "windows_ok core \<Longrightarrow> windows_ok (evict_oldest r core)"
  by (auto simp: evict_oldest_def Let_def windows_ok_cong[of "core\<lparr>co_lru := _\<rparr>" core]
      windows_ok_cong[of "core\<lparr>co_lru := _, co_state := _\<rparr>" core] count_eviction_ok
      intro!: windows_ok_upd split: list.split option.split)

lemma windows_ok_expire: "windows_ok core \<Longrightarrow> windows_ok (expire now core)"
proof -
  have "windows_ok core \<Longrightarrow> windows_ok (expire_loop n now core)" for n
    by (induction n arbitrary: core; subst expire_loop.simps) (auto simp: windows_ok_evict split: list.split)
  then show "windows_ok core \<Longrightarrow> windows_ok (expire now core)" by (simp add: expire_def)
qed

lemma windows_ok_shrink: "windows_ok core \<Longrightarrow> windows_ok (shrink core)"
proof -
  have "windows_ok core \<Longrightarrow> windows_ok (shrink_loop n core)" for n
    by (induction n arbitrary: core) (auto simp: windows_ok_evict)
  then show "windows_ok core \<Longrightarrow> windows_ok (shrink core)" by (simp add: shrink_def)
qed

text \<open>
  A single call updates one window in a few writes, between which the identities do not hold. Each write
  is an update of the window of the call's commitment, so the whole is one update of that window.
\<close>

lemma upd_window_twice:
  "commitment_index c < length (co_windows core) \<Longrightarrow>
   upd_window c g (upd_window c f core) = upd_window c (\<lambda>w. g (f w)) core"
  by (simp add: upd_window_def)

lemma record_slot_age_upd: "record_slot_age c s tips core = upd_window c (slot_age_in c s tips) core"
  by (simp add: record_slot_age_def slot_age_in_def[abs_def] Let_def)

lemma next_lifecycle_upd:
  assumes "commitment_index c < length (co_windows core)"
  shows "snd (next_lifecycle prev c found now core) =
     upd_window c (lifecycle_in (map_option se_lifecycle prev) found now) core"
  using assms
  by (auto simp: next_lifecycle_def lifecycle_in_def[abs_def] record_transition_def upd_window_def Let_def
      split: option.split bool.split lifecycle.split)

lemma duration_buckets_less:
  "duration_bucket d [1, 2, 5, 15, 60] < HISTORICAL_TIME_TO_FOUND_BUCKET_COUNT"
  "duration_bucket d [300, 3600, 86400, 172800] < HISTORICAL_FOUND_REUSE_BUCKET_COUNT"
  using duration_bucket_le[of d "[1, 2, 5, 15, 60]"] duration_bucket_le[of d "[300, 3600, 86400, 172800]"]
  by (simp_all add: HISTORICAL_TIME_TO_FOUND_BUCKET_COUNT_def HISTORICAL_FOUND_REUSE_BUCKET_COUNT_def)

lemmas bucket_bounds = slot_age_bucket_less polls_bucket_less duration_buckets_less

lemma first_bucket: "0 < HISTORICAL_POLLS_BEFORE_FOUND_BUCKET_COUNT"
  by (simp add: HISTORICAL_POLLS_BEFORE_FOUND_BUCKET_COUNT_def)

lemma window_ok_balance: "window_ok w \<longleftrightarrow> shape_ok w \<and> balance w = [0, 0, 0, 0, 0, 0, 0]"
  by (auto simp: window_ok_def shape_ok_def balance_def)

lemma balance_null:
  "balance (count_analyzed False w) = (balance w)[2 := balance w ! 2 + 1]"
  by (simp add: balance_def count_analyzed_def Let_def algebra_simps)

lemma balance_found:
  assumes "shape_ok w"
  shows "balance (slot_age_in c s tips (count_analyzed True w)) = (balance w)[1 := balance w ! 1 + 1]"
  using assms
  by (simp add: balance_def shape_ok_def count_analyzed_def Let_def slot_age_in_def sum_list_bump bucket_bounds
      algebra_simps split: option.split)

lemma balance_lifecycle:
  assumes "shape_ok w"
  shows "balance (lifecycle_in prev False now w) = (balance w)[2 := balance w ! 2 - 1]"
    "balance (lifecycle_in prev True now w) = (balance w)[1 := balance w ! 1 - 1]"
  using assms
  by (auto simp: balance_def shape_ok_def lifecycle_in_def Let_def sum_list_bump bucket_bounds first_bucket
      algebra_simps split: option.split lifecycle.split)

lemma shape_ok_keeps:
  "shape_ok (count_analyzed b w) = shape_ok w" "shape_ok (slot_age_in c s tips w) = shape_ok w"
  "shape_ok (lifecycle_in prev found now w) = shape_ok w"
  by (auto simp: shape_ok_def count_analyzed_def slot_age_in_def lifecycle_in_def Let_def
      split: option.split lifecycle.split bool.split)

lemma analyzed_window_ok:
  assumes "window_ok w"
  shows "window_ok (lifecycle_in prev False now (count_analyzed False w))"
    "window_ok (lifecycle_in prev True now (slot_age_in c s tips (count_analyzed True w)))"
  using assms by (simp_all add: window_ok_balance shape_ok_keeps balance_lifecycle balance_found balance_null)

lemma shrink_windows_remember: "co_windows (remember fp e core) = co_windows core"
  by (simp add: remember_def)

lemma forget_windows [simp]: "co_windows (snd (forget fp core)) = co_windows core"
  by (simp add: forget_def split: option.split)

lemma transition_windows:
  assumes "windows_ok (upd_window c (lifecycle_in (map_option se_lifecycle (fst (forget fp core))) found now) core)"
    "length (co_windows core) = 4"
  shows "windows_ok (transition fp c found now core)"
proof -
  let ?n = "snd (next_lifecycle (fst (forget fp core)) c found now (snd (forget fp core)))"
  have "co_windows ?n =
      co_windows (upd_window c (lifecycle_in (map_option se_lifecycle (fst (forget fp core))) found now) core)"
    using assms(2) commitment_index_less[of c] by (simp add: next_lifecycle_upd) (simp add: upd_window_def)
  then have "windows_ok (remember fp e ?n)" for e
    using assms(1) by (simp add: windows_ok_def shrink_windows_remember)
  then show ?thesis by (simp add: transition_decomp windows_ok_shrink)
qed

lemma windows_ok_fold:
  "(\<And>x core. windows_ok core \<Longrightarrow> windows_ok (f x core)) \<Longrightarrow> windows_ok core \<Longrightarrow> windows_ok (fold f xs core)"
  by (induction xs arbitrary: core) auto

lemma window_ok_same_balance:
  "balance w' = balance w \<Longrightarrow> shape_ok w' = shape_ok w \<Longrightarrow> window_ok w' = window_ok w"
  by (simp add: window_ok_balance)

lemma windows_ok_batch_call: "windows_ok core \<Longrightarrow> windows_ok (count_batch_call c core)"
  unfolding count_batch_call_def 
  by (rule windows_ok_upd, assumption, subst window_ok_same_balance) (auto simp: balance_def shape_ok_def)

lemma windows_ok_error: "windows_ok core \<Longrightarrow> windows_ok (record_error c k core)"
  unfolding record_error_def
  by (rule windows_ok_upd, assumption, subst window_ok_same_balance)
    (auto simp: balance_def shape_ok_def Let_def algebra_simps split: historical_error_kind.split)

lemma upd_window_length [simp]: "length (co_windows (upd_window c f core)) = length (co_windows core)"
  by (simp add: upd_window_def)

lemma windows_ok_single: 
  assumes "windows_ok core"
  shows "windows_ok (process_single parse hs job core)"
proof -
  have l: "length (co_windows core) = 4" using assms by (simp add: windows_ok_def)
  have "windows_ok (transition fp c False t (upd_window c (count_analyzed False) core))" for fp c t
    by (rule transition_windows)
      (simp_all add: upd_window_twice l commitment_index_less windows_ok_upd[OF assms] analyzed_window_ok)
  moreover have "windows_ok (transition fp c True t
      (record_slot_age c s tips (upd_window c (count_analyzed True) core)))" for fp c t s tips
    by (rule transition_windows)
      (simp_all add: record_slot_age_upd upd_window_twice l commitment_index_less windows_ok_upd[OF assms] analyzed_window_ok)
  ultimately show ?thesis
    by (simp add: process_single_def Let_def windows_ok_error assms split: option.split parsed_outcome.split)
qed

lemma windows_ok_process: "windows_ok core \<Longrightarrow> windows_ok (process parse hs job core)"
  by (auto simp: process_def process_batch_def Let_def windows_ok_single windows_ok_expire
      intro!: windows_ok_fold windows_ok_batch_call split: historical_request_class.split)

lemma flush_window_ok:
  assumes "windows_ok core" "i < 4"
  shows "window_ok (snd (flush_window e n q core i))"
  using assms by (auto simp: flush_window_def Let_def window_ok_default windows_ok_def)

lemma windows_ok_flush: "windows_ok core \<Longrightarrow> windows_ok (snd (core_flush e n q core))"
  using flush_window_ok[of core] by (auto simp: core_flush_def Let_def windows_ok_def)

lemma flush_event_ok:
  fixes cap :: u64
  assumes "windows_ok core" "memory_ok (unat cap) core" "i < 4" "fst (flush_window e (unat cap) q core i) = Some ev"
  shows "event_ok ev"
proof -
  have w: "window_ok (co_windows core ! i)" using assms by (simp add: windows_ok_def)
  have "of_nat (length (co_state core)) \<le> (cap :: u64)"
    using assms(2) mod_less_eq_dividend[of "length (co_state core)" "2 ^ 64"]
    by (simp add: memory_ok_def word_le_nat_alt unat_of_nat) linarith
  then show ?thesis
    using assms(4) w by (auto simp: flush_window_def Let_def window_ok_def split: if_splits)
qed

lemma core_flush_events_ok:
  fixes cap :: u64
  assumes "windows_ok core" "memory_ok (unat cap) core" "ev \<in> set (fst (core_flush e (unat cap) q core))"
  shows "event_ok ev"
  using assms flush_event_ok[OF assms(1,2)]
  by (auto simp: core_flush_def Let_def map_filter_def windows_ok_def)

lemma analytics_ok_cong:
  "hn_core h' = hn_core h \<Longrightarrow> hn_emitted h' = hn_emitted h \<Longrightarrow> analytics_ok cfg h' = analytics_ok cfg h"
  by (simp add: analytics_ok_def)

lemma worker_flush_emitted:
  "hn_emitted (worker_flush cfg now ms h) = hn_emitted h @
     fst (core_flush ms (unat (ha_state_capacity cfg)) (hn_quality h) (expire now (hn_core h)))"
  by (simp add: worker_flush_def case_prod_beta)

lemma analytics_ok_worker_flush: "analytics_ok cfg h \<Longrightarrow> analytics_ok cfg (worker_flush cfg now ms h)"
  using core_flush_events_ok[of "expire now (hn_core h)" "ha_state_capacity cfg"]
  by (auto simp: analytics_ok_def worker_flush_emitted windows_ok_flush windows_ok_expire)

lemma hist_finish_emitted [simp]: "hn_emitted (hist_finish cfg now cl req resp st tips h) = hn_emitted h"
  by (simp add: hist_finish_def drop_job_def Let_def)

lemma analytics_ok_finish:
  "analytics_ok cfg h \<Longrightarrow> analytics_ok cfg (hist_finish cfg' now cl req resp st tips h)"
  "analytics_ok cfg h \<Longrightarrow> analytics_ok cfg (hist_flush_call cfg' n h)"
  by (simp_all add: analytics_ok_def hist_flush_call_def)

lemma analytics_ok_recv:
  assumes "analytics_ok cfg h"
  shows "analytics_ok cfg (worker_recv cfg parse hs now ms h)"
proof (cases "hn_queue h")
  case (Cons m rest)
  show ?thesis
  proof (cases m)
    case (Analyze job)
    then show ?thesis using assms Cons by (simp add: worker_recv_def analytics_ok_def windows_ok_process)
  next
    case (FlushMessage caller)
    have "analytics_ok cfg (h\<lparr>hn_queue := rest\<rparr>)" using assms by (simp add: analytics_ok_def)
    from analytics_ok_worker_flush[OF this, of now ms] show ?thesis
      using Cons FlushMessage by (simp add: worker_recv_def analytics_ok_def)
  qed
qed (simp add: worker_recv_def assms)

lemma analytics_ok_step: "analytics_ok cfg h \<Longrightarrow> analytics_ok cfg (hist_step cfg parse hs e h)"
  by (cases e) (simp_all add: analytics_ok_worker_flush analytics_ok_finish analytics_ok_recv)

lemma analytics_ok_new: "analytics_ok cfg (hist_new cfg start)"
  unfolding analytics_ok_def hist_new_def
  by (simp add: memory_ok_new) (simp add: core_new_def windows_ok_def window_ok_default)

text \<open>C28. Every aggregate the analyzer emits adds up: outcomes sum to the analyzed calls, transitions to
the outcomes, each histogram to the events it classifies, and the reported entries are within the
reported capacity.\<close>

theorem aggregates_add_up:
  "list_all event_ok (hn_emitted (hist_run cfg parse hs es (hist_new cfg start)))"
proof -
  have "analytics_ok cfg (hist_run cfg parse hs es (hist_new cfg start))"
    by (rule hist_run_invariant) (simp_all add: analytics_ok_step analytics_ok_new)
  then show ?thesis by (simp add: analytics_ok_def list_all_iff)
qed

section \<open>The byte budget\<close>

lemma job_units_cover: "n \<le> job_units n * QUEUE_BYTE_UNIT"
proof -
  have "n + 4095 = (n + 4095) div 4096 * 4096 + (n + 4095) mod 4096" by (rule div_mod_decomp)
  then have "n \<le> (n + 4095) div 4096 * 4096" using mod_less_divisor[of 4096 "n + 4095"] by linarith
  also have "\<dots> \<le> max ((n + 4095) div 4096) 1 * 4096" by (rule mult_le_mono1) simp
  finally show ?thesis by (simp add: job_units_def QUEUE_BYTE_UNIT_def add.commute)
qed

lemma drop_job_queue [simp]:
  "hn_queue (drop_job r n h) = hn_queue h" "hn_permits (drop_job r n h) = hn_permits h"
  by (simp_all add: drop_job_def)

lemma budget_ok_cong:
  "hn_queue h' = hn_queue h \<Longrightarrow> hn_permits h' = hn_permits h \<Longrightarrow> budget_ok cfg h' = budget_ok cfg h"
  by (simp add: budget_ok_def queued_permits_def)

lemma budget_ok_finish:
  "budget_ok cfg h \<Longrightarrow> budget_ok cfg (hist_finish cfg now cl req resp st tips h)"
  using job_units_cover[of "length req + length resp"]
  by (auto simp: hist_finish_def Let_def budget_ok_cong[of "drop_job _ _ h" h])
    (auto simp: budget_ok_def queued_permits_def)

lemma worker_flush_queue [simp]:
  "hn_queue (worker_flush cfg now ms h) = hn_queue h" "hn_permits (worker_flush cfg now ms h) = hn_permits h"
  by (simp_all add: worker_flush_def case_prod_beta)

lemma budget_ok_recv: "budget_ok cfg h \<Longrightarrow> budget_ok cfg (worker_recv cfg parse hs now ms h)"
  by (auto simp: worker_recv_def budget_ok_def queued_permits_def split: list.split hist_message.split)

interpretation hist_flushes: bounded_channel hn_queue "unat (ha_queue_capacity cfg)" "\<lambda>h. True" FlushMessage
  "hist_flush_call cfg"
  by unfold_locales (auto simp: hist_flush_call_def)

lemma budget_ok_flush_call: "budget_ok cfg h \<Longrightarrow> budget_ok cfg (hist_flush_call cfg n h)"
  using hist_flushes.send_within[of h cfg n] by (auto simp: hist_flush_call_def budget_ok_def queued_permits_def)

lemma budget_ok_step: "budget_ok cfg h \<Longrightarrow> budget_ok cfg (hist_step cfg parse hs e h)"
  by (cases e) (simp_all add: budget_ok_finish budget_ok_recv budget_ok_flush_call budget_ok_cong[of "worker_flush _ _ _ h" h])

lemma budget_ok_new: "budget_ok cfg (hist_new cfg start)"
  by (simp add: budget_ok_def hist_new_def queued_permits_def)

lemma sum_list_bounded:
  "list_all (\<lambda>m. f m \<le> g m * k) xs \<Longrightarrow> sum_list (map f xs) \<le> sum_list (map g xs) * (k :: nat)"
  by (induction xs) (auto simp: add_mult_distrib intro: add_mono)

theorem queue_within_budget:
  "queued_bytes (hist_run cfg parse hs es (hist_new cfg start)) \<le> max (unat (ha_max_queued_bytes cfg)) QUEUE_BYTE_UNIT \<and>
   length (hn_queue (hist_run cfg parse hs es (hist_new cfg start))) \<le> unat (ha_queue_capacity cfg) \<and>
   hn_permits (hist_run cfg parse hs es (hist_new cfg start)) +
     queued_permits (hist_run cfg parse hs es (hist_new cfg start)) = permit_count cfg"
proof -
  let ?h = "hist_run cfg parse hs es (hist_new cfg start)"
  have "budget_ok cfg ?h"
    by (rule hist_run_invariant) (simp_all add: budget_ok_step budget_ok_new)
  then have ok: "hn_permits ?h + queued_permits ?h = permit_count cfg"
    "length (hn_queue ?h) \<le> unat (ha_queue_capacity cfg)"
    "queued_bytes ?h \<le> queued_permits ?h * QUEUE_BYTE_UNIT"
    by (simp_all add: budget_ok_def queued_bytes_def queued_permits_def sum_list_bounded)
  have "queued_permits ?h * QUEUE_BYTE_UNIT \<le> permit_count cfg * QUEUE_BYTE_UNIT" using ok(1) by simp
  moreover have "permit_count cfg * QUEUE_BYTE_UNIT \<le> max (unat (ha_max_queued_bytes cfg)) QUEUE_BYTE_UNIT"
    by (simp add: permit_count_def QUEUE_BYTE_UNIT_def max_def)
  ultimately show ?thesis using ok by linarith
qed

section \<open>No logical call is lost\<close>

lemma sum_list_update_plus:
  "i < length xs \<Longrightarrow> sum_list (map f (xs[i := y])) + f (xs ! i) = sum_list (map f xs) + (f y :: u64)"
proof (induction xs arbitrary: i)
  case (Cons x xs)
  show ?case
  proof (cases i)
    case (Suc j)
    with Cons.IH[of j] Cons.prems show ?thesis by (simp add: algebra_simps)
  qed (simp add: algebra_simps)
qed simp

lemma window_calls_upd:
  assumes "length (co_windows core) = 4" "\<And>w. hw_logical_request_count (f w) = hw_logical_request_count w + n"
  shows "window_calls (upd_window c f core) = window_calls core + n"
proof -
  have "window_calls (upd_window c f core) + hw_logical_request_count (co_windows core ! commitment_index c) =
      window_calls core + (hw_logical_request_count (co_windows core ! commitment_index c) + n)"
    using sum_list_update_plus[of "commitment_index c" "co_windows core" hw_logical_request_count] assms
      commitment_index_less[of c] by (simp add: window_calls_def upd_window_def)
  then show ?thesis by (simp add: algebra_simps)
qed

lemma keeps_calls_refl: "length (co_windows core) = 4 \<Longrightarrow> keeps_calls 0 core core"
  by (simp add: keeps_calls_def)

lemma keeps_calls_trans: "keeps_calls n a b \<Longrightarrow> keeps_calls m b c \<Longrightarrow> keeps_calls (n + m) a c"
  by (simp add: keeps_calls_def algebra_simps)

lemma keeps_calls_upd:
  "length (co_windows core) = 4 \<Longrightarrow> (\<And>w. hw_logical_request_count (f w) = hw_logical_request_count w + n) \<Longrightarrow>
   keeps_calls n core (upd_window c f core)"
  by (simp add: keeps_calls_def window_calls_upd)

lemma keeps_calls_windows:
  "co_windows core' = co_windows core \<Longrightarrow> length (co_windows core) = 4 \<Longrightarrow> keeps_calls 0 core core'"
  by (simp add: keeps_calls_def window_calls_def)

lemma keeps_calls_evict:
  assumes "length (co_windows core) = 4"
  shows "keeps_calls 0 core (evict_oldest r core)"
proof -
  have "keeps_calls 0 core (upd_window c (count_eviction r lc) (core\<lparr>co_lru := l, co_state := s\<rparr>))" for c lc l s
    using keeps_calls_upd[of "core\<lparr>co_lru := l, co_state := s\<rparr>" "count_eviction r lc" 0 c] assms
    by (simp add: count_eviction_def Let_def keeps_calls_def window_calls_def split: eviction_reason.splits)
  moreover have "keeps_calls 0 core (core\<lparr>co_lru := l\<rparr>)" for l
    using assms by (simp add: keeps_calls_windows)
  ultimately show ?thesis
    using keeps_calls_refl[OF assms] by (auto simp: evict_oldest_def Let_def split: list.split option.split)
qed

lemma keeps_calls_zero_trans: "keeps_calls 0 a b \<Longrightarrow> keeps_calls n b c \<Longrightarrow> keeps_calls n a c"
  by (simp add: keeps_calls_def)

lemma keeps_calls_expire: "length (co_windows core) = 4 \<Longrightarrow> keeps_calls 0 core (expire now core)"
proof -
  have "length (co_windows core) = 4 \<Longrightarrow> keeps_calls 0 core (expire_loop n now core)" for n
  proof (induction n arbitrary: core)
    case (Suc n)
    have e: "keeps_calls 0 core (evict_oldest Ttl core)" by (rule keeps_calls_evict[OF Suc.prems])
    then have "keeps_calls 0 (evict_oldest Ttl core) (expire_loop n now (evict_oldest Ttl core))"
      by (intro Suc.IH) (simp add: keeps_calls_def)
    with e have "keeps_calls 0 core (expire_loop n now (evict_oldest Ttl core))"
      by (rule keeps_calls_zero_trans)
    then show ?case using keeps_calls_refl[OF Suc.prems]
      by (subst expire_loop.simps) (auto split: list.split)
  qed (simp add: expire_loop.simps keeps_calls_refl)
  then show "length (co_windows core) = 4 \<Longrightarrow> keeps_calls 0 core (expire now core)" by (simp add: expire_def)
qed

lemma keeps_calls_shrink: "length (co_windows core) = 4 \<Longrightarrow> keeps_calls 0 core (shrink core)"
proof -
  have "length (co_windows core) = 4 \<Longrightarrow> keeps_calls 0 core (shrink_loop n core)" for n
  proof (induction n arbitrary: core)
    case (Suc n)
    have e: "keeps_calls 0 core (evict_oldest Capacity core)" by (rule keeps_calls_evict[OF Suc.prems])
    then have "keeps_calls 0 (evict_oldest Capacity core) (shrink_loop n (evict_oldest Capacity core))"
      by (intro Suc.IH) (simp add: keeps_calls_def)
    with e keeps_calls_refl[OF Suc.prems] show ?case by (auto intro: keeps_calls_zero_trans)
  qed (simp add: keeps_calls_refl)
  then show "length (co_windows core) = 4 \<Longrightarrow> keeps_calls 0 core (shrink core)" by (simp add: shrink_def)
qed

lemma lifecycle_in_calls [simp]: "hw_logical_request_count (lifecycle_in prev found now w) = hw_logical_request_count w"
  by (simp add: lifecycle_in_def Let_def split: option.split lifecycle.split bool.split)

lemma slot_age_in_calls [simp]: "hw_logical_request_count (slot_age_in c s tips w) = hw_logical_request_count w"
  by (simp add: slot_age_in_def split: option.split)

lemma keeps_calls_transition:
  assumes "length (co_windows core) = 4"
  shows "keeps_calls 0 core (transition fp c found now core)"
proof -
  let ?f = "forget fp core"
  let ?n = "snd (next_lifecycle (fst ?f) c found now (snd ?f))"
  have "keeps_calls 0 core (snd ?f)" using assms by (simp add: keeps_calls_windows)
  moreover have "keeps_calls 0 (snd ?f) ?n"
    using assms by (simp add: next_lifecycle_upd commitment_index_less keeps_calls_upd)
  ultimately have n: "keeps_calls 0 core ?n" by (rule keeps_calls_zero_trans)
  then have "keeps_calls 0 ?n (remember fp e ?n)" for e
    by (intro keeps_calls_windows) (simp_all add: shrink_windows_remember keeps_calls_def)
  then have r: "keeps_calls 0 core (remember fp e ?n)" for e by (rule keeps_calls_zero_trans[OF n])
  then have "keeps_calls 0 (remember fp e ?n) (shrink (remember fp e ?n))" for e
    by (intro keeps_calls_shrink) (simp add: keeps_calls_def)
  then show ?thesis unfolding transition_decomp using keeps_calls_zero_trans[OF r] by blast
qed

lemma keeps_calls_single:
  assumes "length (co_windows core) = 4"
  shows "keeps_calls 1 core (process_single parse hs job core)"
proof -
  have err: "keeps_calls 1 core (record_error c k core)" for c k
    unfolding record_error_def
    by (rule keeps_calls_upd[OF assms]) (simp add: Let_def split: historical_error_kind.split)
  have count: "keeps_calls 1 core (upd_window c (count_analyzed b) core)" for c b
    by (rule keeps_calls_upd[OF assms]) (simp add: count_analyzed_def Let_def)
  have age: "keeps_calls 1 core (record_slot_age c s tips (upd_window c (count_analyzed b) core))" for c b s tips
    unfolding record_slot_age_upd
    by (subst upd_window_twice; (rule keeps_calls_upd[OF assms])?)
      (simp_all add: assms commitment_index_less count_analyzed_def Let_def)
  have tr: "keeps_calls 1 core (transition fp c found now core')" if "keeps_calls 1 core core'" for fp c found now core'
    using keeps_calls_trans[OF that keeps_calls_transition, of fp c found now] that by (simp add: keeps_calls_def)
  show ?thesis
    by (simp add: process_single_def Let_def err tr[OF count] tr[OF age] split: option.split parsed_outcome.split)
qed

lemma keeps_calls_fold:
  assumes "\<And>x core. length (co_windows core) = 4 \<Longrightarrow> keeps_calls 1 core (f x core)" "length (co_windows core) = 4"
  shows "keeps_calls (of_nat (length xs)) core (fold f xs core)"
  using assms(2)
proof (induction xs arbitrary: core)
  case (Cons x xs)
  have "keeps_calls 1 core (f x core)" by (rule assms(1)[OF Cons.prems])
  moreover from this have "keeps_calls (of_nat (length xs)) (f x core) (fold f xs (f x core))"
    by (intro Cons.IH) (simp add: keeps_calls_def)
  ultimately show ?case using keeps_calls_trans by fastforce
qed (simp add: keeps_calls_refl)

lemma keeps_calls_batch_call: "length (co_windows core) = 4 \<Longrightarrow> keeps_calls 1 core (count_batch_call c core)"
  unfolding count_batch_call_def by (rule keeps_calls_upd) simp_all

lemma keeps_calls_batch:
  assumes "length (co_windows core) = 4" "length (batch_commitments parse req) \<le> unat n"
  shows "keeps_calls n core (process_batch parse req n core)"
proof -
  let ?seen = "batch_commitments parse req"
  have 1: "keeps_calls (of_nat (length ?seen)) core (fold count_batch_call ?seen core)"
    by (rule keeps_calls_fold) (simp_all add: keeps_calls_batch_call assms)
  have "keeps_calls (of_nat (length [length ?seen..<unat n])) (fold count_batch_call ?seen core)
      (fold (\<lambda>_. count_batch_call HUnknown) [length ?seen..<unat n] (fold count_batch_call ?seen core))"
    using 1 by (intro keeps_calls_fold keeps_calls_batch_call) (simp_all add: keeps_calls_def)
  from keeps_calls_trans[OF 1 this] assms(2) show ?thesis
    by (simp add: process_batch_def Let_def flip: of_nat_add)
qed

lemma keeps_calls_process:
  assumes "length (co_windows core) = 4" "well_classified parse (hj_class job) (hj_request job)"
  shows "keeps_calls (eligible_calls (hj_class job)) core (process parse hs job core)"
proof -
  have e: "keeps_calls 0 core (expire (hj_observed_at job) core)" by (rule keeps_calls_expire[OF assms(1)])
  then have "length (co_windows (expire (hj_observed_at job) core)) = 4" by (simp add: keeps_calls_def)
  then have "keeps_calls (eligible_calls (hj_class job)) (expire (hj_observed_at job) core) (process parse hs job core)"
    using assms(2) by (cases "hj_class job")
      (simp_all add: process_def Let_def keeps_calls_refl keeps_calls_single keeps_calls_batch well_classified_def)
  with e show ?thesis by (rule keeps_calls_zero_trans)
qed

lemma quality_present_iff:
  assumes "quality_total q < 2 ^ 64"
  shows "0 < qc_dropped_logical q + qc_queue_full q + qc_byte_budget q + qc_oversized q + qc_resets q \<longleftrightarrow>
    0 < quality_total q"
proof -
  have "unat (qc_dropped_logical q + qc_queue_full q + qc_byte_budget q + qc_oversized q + qc_resets q) = quality_total q"
    using assms by (simp add: quality_total_def unat_word_ariths)
  then show ?thesis by (metis word_gt_0 unat_gt_0 unat_0)
qed

lemma flush_window_calls:
  assumes "quality_total q < 2 ^ 64"
  shows "option_calls (fst (flush_window e n q core i)) + hw_logical_request_count (snd (flush_window e n q core i)) =
     hw_logical_request_count (co_windows core ! i) + (if i = 3 then qc_dropped_logical q else 0)"
proof (cases "quality_total q = 0")
  case True
  then have "qc_dropped_logical q = 0" by (simp add: quality_total_def unat_eq_0)
  then show ?thesis
    by (simp add: flush_window_def Let_def option_calls_def window_default_def)
next
  case False
  then show ?thesis
    by (simp add: flush_window_def Let_def option_calls_def window_default_def quality_present_iff[OF assms])
qed

lemma core_flush_calls:
  assumes "quality_total q < 2 ^ 64" "length (co_windows core) = 4"
  shows "sum_list (map logical_calls (fst (core_flush e n q core))) + window_calls (snd (core_flush e n q core)) =
     window_calls core + qc_dropped_logical q"
proof -
  have sum_filter: "sum_list (map logical_calls (List.map_filter fst xs)) = sum_list (map (\<lambda>p. option_calls (fst p)) xs)"
    for xs :: "(telemetry_event option \<times> hist_window) list"
    by (induction xs) (auto simp: option_calls_def map_filter_simps split: option.split)
  have four: "[0..<4] = [0, 1, 2, 3 :: nat]" by (simp add: upt_rec)
  obtain a b c d where w: "co_windows core = [a, b, c, d]"
    using assms(2) by (auto simp: eval_nat_numeral length_Suc_conv)
  let ?fw = "flush_window e n q core"
  have emitted: "sum_list (map logical_calls (fst (core_flush e n q core))) =
      sum_list (map (\<lambda>i. option_calls (fst (?fw i))) [0..<4])"
    by (simp only: core_flush_def Let_def fst_conv sum_filter assms(2) map_map o_def)
  have "sum_list (map logical_calls (fst (core_flush e n q core))) + window_calls (snd (core_flush e n q core)) =
      (option_calls (fst (?fw 0)) + hw_logical_request_count (snd (?fw 0))) +
      (option_calls (fst (?fw 1)) + hw_logical_request_count (snd (?fw 1))) +
      (option_calls (fst (?fw 2)) + hw_logical_request_count (snd (?fw 2))) +
      (option_calls (fst (?fw 3)) + hw_logical_request_count (snd (?fw 3)))"
    unfolding emitted by (simp add: core_flush_def Let_def assms(2) four window_calls_def algebra_simps)
  also have "\<dots> = window_calls core + qc_dropped_logical q"
    by (simp add: flush_window_calls[OF assms(1)] w window_calls_def algebra_simps)
  finally show ?thesis .
qed

lemma unat_plus_le: "unat (a + b :: u64) \<le> unat a + unat b"
  by (simp add: unat_word_ariths)

lemma quality_total_drop: "quality_total (count_drop r n q) \<le> quality_total q + unat n + 1"
  using unat_plus_le[of "qc_dropped_logical q" n] unat_plus_le[of "qc_queue_full q" 1]
    unat_plus_le[of "qc_byte_budget q" 1] unat_plus_le[of "qc_oversized q" 1]
  by (cases r) (simp_all add: quality_total_def)

lemma tracked_mono: "tracked parse b t h \<Longrightarrow> b \<le> b' \<Longrightarrow> tracked parse b' t h"
  by (simp add: tracked_def)

lemma tracked_drop:
  assumes "tracked parse b t h"
  shows "tracked parse (b + unat n + 1) (t + n) (drop_job r n h)"
  using assms quality_total_drop[of r n "hn_quality h"]
  by (cases r) (simp_all add: tracked_def drop_job_def accounted_calls_def algebra_simps)

lemma tracked_finish:
  assumes "tracked parse b t h" "well_classified parse cl req"
  shows "tracked parse (b + unat (eligible_calls cl) + 1) (t + eligible_calls cl)
    (hist_finish cfg now cl req resp st tips h)"
  using tracked_drop[OF assms(1)] assms tracked_mono[OF assms(1)]
  by (auto simp: hist_finish_def Let_def) (auto simp: tracked_def accounted_calls_def algebra_simps)

lemma tracked_flush_call: "tracked parse b t h \<Longrightarrow> tracked parse b t (hist_flush_call cfg n h)"
  by (auto simp: hist_flush_call_def tracked_def accounted_calls_def)

lemma worker_flush_quality [simp]: "hn_quality (worker_flush cfg now ms h) = quality_zero"
  by (simp add: worker_flush_def case_prod_beta)

lemma tracked_worker_flush:
  assumes "tracked parse b t h" "b < 2 ^ 64"
  shows "tracked parse b t (worker_flush cfg now ms h)"
proof -
  let ?c = "expire now (hn_core h)"
  have e: "keeps_calls 0 (hn_core h) ?c" using assms by (intro keeps_calls_expire) (simp add: tracked_def)
  then have "length (co_windows ?c) = 4" "window_calls ?c = window_calls (hn_core h)"
    by (simp_all add: keeps_calls_def)
  moreover have "length (co_windows (snd (core_flush ms n q ?c))) = length (co_windows ?c)" for n q
    by (simp add: core_flush_def Let_def)
  moreover have "quality_total quality_zero = 0" "qc_dropped_logical quality_zero = 0"
    by (simp_all add: quality_total_def quality_zero_def)
  moreover have "quality_total (hn_quality h) < 2 ^ 64" using assms by (simp add: tracked_def)
  note core_flush_calls[OF this, of ?c ms "unat (ha_state_capacity cfg)"]
  ultimately show ?thesis
    using assms by (simp add: tracked_def accounted_calls_def worker_flush_emitted algebra_simps)
qed

lemma tracked_recv:
  assumes "tracked parse b t h" "b < 2 ^ 64"
  shows "tracked parse b t (worker_recv cfg parse hs now ms h)"
proof (cases "hn_queue h")
  case (Cons m rest)
  show ?thesis
  proof (cases m)
    case (Analyze job)
    have "keeps_calls (eligible_calls (hj_class job)) (hn_core h) (process parse hs job (hn_core h))"
      using assms Cons Analyze by (intro keeps_calls_process) (simp_all add: tracked_def)
    then show ?thesis
      using assms Cons Analyze by (simp add: tracked_def worker_recv_def keeps_calls_def accounted_calls_def algebra_simps)
  next
    case (FlushMessage caller)
    have "tracked parse b t (h\<lparr>hn_queue := rest\<rparr>)"
      using assms Cons FlushMessage by (simp add: tracked_def accounted_calls_def)
    from tracked_worker_flush[OF this assms(2), of cfg now ms] show ?thesis
      using Cons FlushMessage by (simp add: worker_recv_def tracked_def accounted_calls_def)
  qed
qed (simp add: worker_recv_def assms)

lemma tracked_step:
  assumes "tracked parse b t h" "event_classified parse e" "b < 2 ^ 64"
  shows "tracked parse (b + event_cost e) (t + finish_calls e) (hist_step cfg parse hs e h)"
  using assms tracked_finish[OF assms(1)]
  by (cases e) (simp_all add: tracked_flush_call tracked_worker_flush tracked_recv)

lemma tracked_run:
  assumes "tracked parse b t h" "list_all (event_classified parse) es" "b + sum_list (map event_cost es) < 2 ^ 64"
  shows "tracked parse (b + sum_list (map event_cost es)) (t + sum_list (map finish_calls es)) (hist_run cfg parse hs es h)"
  using assms
proof (induction es arbitrary: b t h)
  case (Cons e es)
  have "tracked parse (b + event_cost e) (t + finish_calls e) (hist_step cfg parse hs e h)"
    using Cons.prems by (intro tracked_step) simp_all
  from Cons.IH[OF this] Cons.prems show ?case by (simp add: hist_run_def algebra_simps)
qed (simp add: hist_run_def)

lemma tracked_new: "tracked parse 1 0 (hist_new cfg start)"
  by (simp add: tracked_def hist_new_def core_new_def quality_new_def quality_total_def accounted_calls_def
      window_calls_def window_default_def sum_list_replicate)

text \<open>C29. No eligible call disappears: calls in emitted aggregates, open windows, drop counters and the
queue sum to the calls handed to finish (modulo 2^64), whatever was dropped, evicted or flushed.\<close>

theorem historical_calls_conserved:
  assumes "list_all (event_classified parse) es" "1 + sum_list (map event_cost es) < 2 ^ 64"
  shows "accounted_calls (hist_run cfg parse hs es (hist_new cfg start)) = sum_list (map finish_calls es)"
  using tracked_run[OF tracked_new assms, where cfg = cfg and hs = hs] by (simp add: tracked_def)

section \<open>Expiry and recency\<close>

lemma map_of_filter_values:
  "distinct (map fst xs) \<Longrightarrow>
   map_of (filter (\<lambda>p. P (snd p)) xs) k =
     (case map_of xs k of None \<Rightarrow> None | Some v \<Rightarrow> if P v then Some v else None)"
  by (induction xs) (auto simp: map_of_eq_None_iff split: option.split)

text \<open>C30. The expiry loop ends within as many turns as there are entries, and when it ends it has removed
exactly the entries whose age has reached the time to live and kept every other entry as it is.\<close>

theorem expiry_exact:
  "index_ok core \<Longrightarrow>
   map_of (co_state (expire now core)) fp =
     (case map_of (co_state core) fp of
        None \<Rightarrow> None
      | Some e \<Rightarrow> if saturating_duration_since now (se_last_seen_at e) < co_ttl core then Some e else None)"
  using map_of_filter_values[of "co_state core" "fresh (co_ttl core) now" fp]
  by (simp add: expire_state fresh_def index_ok_def cong: option.case_cong)

theorem expiry_exact_witness:
  "map_of (co_state (expire 3000000000
     \<lparr>co_state = [((1, 1), \<lparr>se_lifecycle = Found 0, se_commitment = HConfirmed, se_last_seen_at = 0\<rparr>),
                  ((2, 2), \<lparr>se_lifecycle = Found 5, se_commitment = HFinalized, se_last_seen_at = 2000000000\<rparr>)],
      co_lru = [(0, (1, 1)), (2000000000, (2, 2))], co_capacity = 4, co_ttl = duration_from_secs 2,
      co_windows = replicate 4 window_default, co_window_start_ms = 0\<rparr>)) (1, 1) = None"
  by (subst expiry_exact)
    (simp_all add: index_ok_def index_of_def saturating_duration_since_def duration_from_secs_def)

lemma length_delete_present:
  "distinct (map fst xs) \<Longrightarrow> map_of xs k = Some v \<Longrightarrow> Suc (length (AList.delete k xs)) = length xs"
  by (induction xs) (auto split: if_splits)

lemma forget_length:
  assumes "index_ok core"
  shows "length (co_state (snd (forget fp core))) =
    length (co_state core) - (if map_of (co_state core) fp = None then 0 else 1)"
proof (cases "map_of (co_state core) fp")
  case (Some e)
  with assms length_delete_present[OF _ Some] show ?thesis by (simp add: forget_def index_ok_def)
qed (simp add: forget_def)

lemma transition_lookup:
  assumes "index_ok core" "length (co_state (snd (forget fp core))) < co_capacity core"
  shows "map_of (co_state (transition fp c found now core)) =
     (map_of (co_state core))(fp \<mapsto>
        \<lparr>se_lifecycle = fst (next_lifecycle (map_of (co_state core) fp) c found now (snd (forget fp core))),
         se_commitment = c, se_last_seen_at = now\<rparr>)"
proof -
  let ?f = "snd (forget fp core)"
  let ?e = "\<lparr>se_lifecycle = fst (next_lifecycle (fst (forget fp core)) c found now ?f),
         se_commitment = c, se_last_seen_at = now\<rparr>"
  let ?r = "remember fp ?e (snd (next_lifecycle (fst (forget fp core)) c found now ?f))"
  have fst_forget: "fst (forget fp core) = map_of (co_state core) fp"
    by (simp add: forget_def split: option.split)
  have "co_state ?r = co_state ?f @ [(fp, ?e)]"
    by (simp add: remember_def update_fresh forget_index(2)[OF assms(1)])
  moreover have "co_capacity ?r = co_capacity core" by (simp add: remember_def forget_index(3)[OF assms(1)])
  ultimately have "length (co_state ?r) \<le> co_capacity ?r" using assms(2) by simp
  then have "shrink_loop n ?r = ?r" for n by (cases n) simp_all
  then have t: "transition fp c found now core = ?r" by (simp add: transition_decomp shrink_def)
  have "map_of (co_state ?f) = (map_of (co_state core))(fp := None)"
    by (auto simp: forget_def delete_conv' split: option.split)
  then have "map_of (co_state ?r) = (map_of (co_state core))(fp \<mapsto> ?e)"
    unfolding remember_def by (simp add: update_conv')
  with t show ?thesis by (simp add: fst_forget)
qed

text \<open>A run of polls that all found nothing, in a memory that has room for the fingerprint.\<close>

lemma null_polls_from:
  assumes "memory_ok cap core" "map_of (co_state core) fp = Some e" "se_lifecycle e = NullSeen t0 n"
    "unat n + length ts < 2 ^ 64"
  shows "map_option se_lifecycle (map_of (co_state (fold (transition fp c False) ts core)) fp) =
    Some (NullSeen t0 (n + of_nat (length ts)))"
  using assms
proof (induction ts arbitrary: core e n)
  case (Cons t ts)
  let ?core = "transition fp c False t core"
  have "length (co_state (snd (forget fp core))) < co_capacity core"
    using Cons.prems(1,2) forget_length[of core fp] by (cases "co_state core") (auto simp: memory_ok_def)
  then have "map_of (co_state ?core) = (map_of (co_state core))(fp \<mapsto>
        \<lparr>se_lifecycle = fst (next_lifecycle (map_of (co_state core) fp) c False t (snd (forget fp core))),
         se_commitment = c, se_last_seen_at = t\<rparr>)"
    by (intro transition_lookup) (use Cons.prems(1) in \<open>simp add: memory_ok_def\<close>)
  moreover have "u64_saturating_add n 1 = n + 1" using Cons.prems(4) by (simp add: u64_saturating_add_def)
  ultimately have e: "map_of (co_state ?core) fp =
      Some \<lparr>se_lifecycle = NullSeen t0 (n + 1), se_commitment = c, se_last_seen_at = t\<rparr>"
    using Cons.prems(2,3) by (simp add: next_lifecycle_def)
  have "unat (n + 1) + length ts < 2 ^ 64" using Cons.prems(4) by (simp add: unat_word_ariths)
  then show ?case
    using Cons.IH[OF memory_ok_transition[OF Cons.prems(1)] e, of "n + 1"] by (simp add: algebra_simps)
qed simp

theorem null_polls_counted:
  assumes "memory_ok cap core" "map_of (co_state core) fp = None" "length (co_state core) < cap"
    "length ts + 1 < 2 ^ 64"
  shows "map_option se_lifecycle (map_of (co_state (fold (transition fp c False) (t # ts) core)) fp) =
    Some (NullSeen t (of_nat (length (t # ts))))"
proof -
  have "map_of (co_state (transition fp c False t core)) = (map_of (co_state core))(fp \<mapsto>
        \<lparr>se_lifecycle = fst (next_lifecycle (map_of (co_state core) fp) c False t (snd (forget fp core))),
         se_commitment = c, se_last_seen_at = t\<rparr>)"
    using assms forget_length[of core fp] by (intro transition_lookup) (auto simp: memory_ok_def)
  then have "map_of (co_state (transition fp c False t core)) fp =
      Some \<lparr>se_lifecycle = NullSeen t 1, se_commitment = c, se_last_seen_at = t\<rparr>"
    using assms(2) by (simp add: next_lifecycle_def)
  from null_polls_from[OF memory_ok_transition[OF assms(1)] this, of t 1 ts] assms(4) show ?thesis by simp
qed

theorem null_polls_counted_witness:
  "map_option se_lifecycle
     (map_of (co_state (fold (transition (7, 9) HConfirmed False) [10, 20, 30] (core_new 2 60 0))) (7, 9)) =
   Some (NullSeen 10 3)"
  using null_polls_counted[OF memory_ok_new[of 2 60 0], of "(7, 9)" "[20, 30]" HConfirmed 10]
  by (simp add: core_new_def)

theorem historical_calls_conserved_witness:
  "accounted_calls (hist_run
     \<lparr>ha_queue_capacity = 4, ha_max_queued_bytes = 8192, ha_max_job_bytes = 4096, ha_state_capacity = 2,
      ha_state_ttl_secs = 60, ha_flush_interval_ms = 1000\<rparr>
     (\<lambda>_. None) (\<lambda>_. 0, \<lambda>_. 0)
     [Finish 0 HistSingle [1] [2] 200 cs_default, Finish 1 (HistBatch 3) [1] [2] 200 cs_default, WorkerRecv 2 0,
      WorkerTick 3 1000]
     (hist_new \<lparr>ha_queue_capacity = 4, ha_max_queued_bytes = 8192, ha_max_job_bytes = 4096, ha_state_capacity = 2,
      ha_state_ttl_secs = 60, ha_flush_interval_ms = 1000\<rparr> 0)) = 4"
  by (subst historical_calls_conserved) (simp_all add: well_classified_def batch_commitments_def)

theorem object_member_order_irrelevant:
  assumes "distinct (map fst ms)" "mset ms = mset ms'"
  shows "hash_json (JObj ms) = hash_json (JObj ms')"
proof -
  have "mset (map fst ms) = mset (map fst ms')" using assms(2) by simp
  with assms(1) have d: "distinct (map fst ms')" by (metis mset_eq_imp_distinct_iff)
  have "mset (remdups (map fst ms)) = mset (remdups (map fst ms'))"
    using assms d by (simp add: distinct_remdups_id)
  then have keys: "sort (remdups (map fst ms)) = sort (remdups (map fst ms'))"
    by (metis sorted_list_of_multiset_mset)
  have "set ms = set ms'" using assms(2) by (rule mset_eq_setD)
  moreover have "distinct (map fst (map (\<lambda>(k, v). (k, hash_json v)) xs)) = distinct (map fst xs)"
    for xs :: "(string \<times> json) list"
    by (simp add: case_prod_beta o_def)
  ultimately have "map_of (rev (map (\<lambda>(k, v). (k, hash_json v)) ms)) = map_of (rev (map (\<lambda>(k, v). (k, hash_json v)) ms'))"
    using assms(1) d by (subst map_of_inject_set) (simp_all flip: rev_map)
  then show ?thesis using keys by simp
qed

theorem object_member_order_irrelevant_witness:
  "hash_json (JObj [(''commitment'', JStr False ''confirmed''), (''encoding'', JNull)]) =
   hash_json (JObj [(''encoding'', JNull), (''commitment'', JStr False ''confirmed'')])"
  by (rule object_member_order_irrelevant) simp_all

end
