(* ===== verification/Proxy.thy ===== *)
theory Proxy
  imports Router Monitor Telemetry Historical
begin

text \<open>
  The request path of \<open>src/src/proxy.rs\<close>: classification of a body, the outcome of a forwarded leg and
  where it is recorded, the analytics hand-off, the sequential fail-over loop, the broadcast race, and
  the handlers. A handler owns its local variables; everything it shares with other tasks is one
  \<open>proxy_state\<close>. What other tasks change meanwhile is collected at the waits for a forward, so the inputs of one
  forward are a \<open>turn\<close>: the reply as a function of the request that is sent, the measured latency, the clock readings,
  and \<open>tn_env\<close>, an arbitrary change of the shared state by the other tasks during the wait. The order in which
  the legs of a broadcast finish is given by \<open>tn_done_at\<close>. The configuration is the handler's snapshot.
  Tracing, request ids and the text of error messages are left out.
\<close>

section \<open>Shared state\<close>

datatype reporter = NoopReporter | RemoteReporter reporting_config remote_reporter

fun rep_emit :: "telemetry_event \<Rightarrow> reporter \<Rightarrow> reporter" where
  "rep_emit e NoopReporter = NoopReporter"
| "rep_emit e (RemoteReporter cfg r) = RemoteReporter cfg (remote_emit cfg e r)"

fun rep_record :: "(agg_state \<Rightarrow> agg_state) \<Rightarrow> reporter \<Rightarrow> reporter" where
  "rep_record f NoopReporter = NoopReporter"
| "rep_record f (RemoteReporter cfg r) = RemoteReporter cfg (remote_record f r)"

record transaction_job =
  tj_body :: bytes
  tj_provider :: string
  tj_accepted :: bool

datatype transaction_message = Decode transaction_job | TxFlush nat

record proxy_state =
  ps_config :: config
  ps_clients :: clients
  ps_monitor :: monitor
  ps_reporter :: reporter
  ps_tx_queue :: "transaction_message list"
  ps_tx_flushed :: "nat list"
  ps_historical :: "(historical_config \<times> hist_analytics) option"

definition upd_metrics :: "(metrics \<Rightarrow> metrics) \<Rightarrow> proxy_state \<Rightarrow> proxy_state" where
  "upd_metrics f s = s\<lparr>ps_monitor := (ps_monitor s)\<lparr>mo_metrics := f (mo_metrics (ps_monitor s))\<rparr>\<rparr>"

definition upd_monitor :: "(monitor \<Rightarrow> monitor) \<Rightarrow> proxy_state \<Rightarrow> proxy_state" where
  "upd_monitor f s = s\<lparr>ps_monitor := f (ps_monitor s)\<rparr>"

definition upd_reporter :: "(reporter \<Rightarrow> reporter) \<Rightarrow> proxy_state \<Rightarrow> proxy_state" where
  "upd_reporter f s = s\<lparr>ps_reporter := f (ps_reporter s)\<rparr>"

definition build_client :: "provider_config \<Rightarrow> usize \<Rightarrow> client" where
  "build_client p pool = \<lparr>cl_http3 = pv_http3 p, cl_pool_max_idle_per_host = pool\<rparr>"

definition build_clients :: "provider_config list \<Rightarrow> usize \<Rightarrow> clients" where
  "build_clients providers pool = fold (\<lambda>p cls. AList.update (pv_name p) (build_client p pool) cls) providers []"

definition proxy_new :: "instant \<Rightarrow> u64 \<Rightarrow> metrics \<Rightarrow> config \<Rightarrow> reporter \<Rightarrow> proxy_state" where
  "proxy_new now now_ms metrics cfg rep =
     (let cls = build_clients (cfg_providers cfg) (sc_pool_max_idle_per_host (cfg_server cfg)) in
      \<lparr>ps_config = cfg, ps_clients = cls,
       ps_monitor = start cls (cfg_providers cfg) (monitor_new now (cfg_providers cfg) (cfg_health cfg) metrics),
       ps_reporter = rep, ps_tx_queue = [], ps_tx_flushed = [],
       ps_historical = map_option (\<lambda>h. (h, hist_new h now_ms)) (cfg_historical cfg)\<rparr>)"

definition client_for :: "string \<Rightarrow> proxy_state \<Rightarrow> client option" where
  "client_for name s = map_of (ps_clients s) name"

section \<open>Transaction analytics\<close>

definition TX_DECODE_QUEUE_CAPACITY :: nat where "TX_DECODE_QUEUE_CAPACITY = 1024"

datatype transaction_request = TxNone | TxSingle | TxBatch

definition tx_finish :: "transaction_request \<Rightarrow> bytes \<Rightarrow> string option \<Rightarrow> proxy_state \<Rightarrow> proxy_state" where
  "tx_finish cls body acknowledging_provider s =
     (let provider = unwrap_or acknowledging_provider ''none'';
          accepted = (acknowledging_provider \<noteq> None)
      in case cls of
           TxNone \<Rightarrow> s
         | TxBatch \<Rightarrow>
             upd_reporter (rep_record (agg_record_transaction_decode provider ''batch_unsupported'' None))
               (upd_metrics (record_transaction_decode provider ''batch_unsupported'' None) s)
         | TxSingle \<Rightarrow>
             (let s = upd_metrics (record_transaction_submission provider accepted) s in
              if length (ps_tx_queue s) < TX_DECODE_QUEUE_CAPACITY
              then s\<lparr>ps_tx_queue := ps_tx_queue s @
                     [Decode \<lparr>tj_body = body, tj_provider = provider, tj_accepted = accepted\<rparr>]\<rparr>
              else upd_reporter (rep_record (agg_record_transaction_result provider accepted ''queue_dropped'' None))
                     (upd_metrics (record_transaction_decode provider ''queue_dropped'' None) s)))"

definition decode_label :: "decode_error + transaction_info \<Rightarrow> string \<times> transaction_info option" where
  "decode_label decoded =
     (case decoded of
        Inr info \<Rightarrow> (''parsed'', Some info)
      | Inl Unparsed \<Rightarrow> (''unparsed'', None)
      | Inl Unsupported \<Rightarrow> (''unsupported'', None)
      | Inl InvalidBudget \<Rightarrow> (''invalid_budget'', None))"

text \<open>One turn of the decode worker.\<close>

definition tx_worker ::
  "json_parser \<Rightarrow> (string \<Rightarrow> bytes option) \<Rightarrow> (string \<Rightarrow> bytes option) \<Rightarrow> proxy_state \<Rightarrow> proxy_state" where
  "tx_worker parse base58 base64 s =
     (case ps_tx_queue s of
        [] \<Rightarrow> s
      | TxFlush caller # rest \<Rightarrow> s\<lparr>ps_tx_queue := rest, ps_tx_flushed := ps_tx_flushed s @ [caller]\<rparr>
      | Decode job # rest \<Rightarrow>
          (case decode_label (decode_request parse base58 base64 (tj_body job)) of (res, info) \<Rightarrow>
             (let sample = (if tj_accepted job then info else None) in
              upd_reporter (rep_record (agg_record_transaction_result (tj_provider job) (tj_accepted job) res sample))
                (upd_metrics (record_transaction_decode (tj_provider job) res sample)
                  (s\<lparr>ps_tx_queue := rest\<rparr>)))))"

text \<open>A flush caller waits for a free place in the queue.\<close>

definition tx_flush_call :: "nat \<Rightarrow> proxy_state \<Rightarrow> proxy_state" where
  "tx_flush_call caller s =
     (if length (ps_tx_queue s) < TX_DECODE_QUEUE_CAPACITY
      then s\<lparr>ps_tx_queue := ps_tx_queue s @ [TxFlush caller]\<rparr> else s)"

section \<open>Outcome of a leg\<close>

datatype outcome = OkOutcome | ProviderError | RateLimitedOutcome | ClientError | Miss | Behind | UnsupportedOutcome

definition from_status :: "u16 \<Rightarrow> outcome" where
  "from_status status =
     (if is_success status then OkOutcome
      else if status = 429 then RateLimitedOutcome
      else if status = 501 then UnsupportedOutcome
      else if is_client_error status then ClientError
      else ProviderError)"

definition from_rpc_error :: "int option \<Rightarrow> outcome" where
  "from_rpc_error code =
     (case code of
        None \<Rightarrow> ProviderError
      | Some c \<Rightarrow>
          if is_client_rpc_code c then ClientError
          else if is_behind_rpc_code c then Behind
          else if is_history_gap_code c then Miss
          else ProviderError)"

definition has_rpc_error :: "json_parser \<Rightarrow> bytes \<Rightarrow> bool" where
  "has_rpc_error parse body =
     (case Option.bind (parse body) (de_struct1 ''error'' de_any) of Some (Some _) \<Rightarrow> True | _ \<Rightarrow> False)"

definition has_result :: "json_parser \<Rightarrow> bytes \<Rightarrow> bool" where
  "has_result parse body =
     (case Option.bind (parse body) (de_struct1 ''result'' de_any) of Some (Some _) \<Rightarrow> True | _ \<Rightarrow> False)"

definition is_history_miss :: "json_parser \<Rightarrow> provider_config \<Rightarrow> int option \<Rightarrow> bytes \<Rightarrow> bool" where
  "is_history_miss parse provider rpc_code body =
     (case pv_history provider of
        Full \<Rightarrow> (case rpc_code of None \<Rightarrow> False | Some c \<Rightarrow> is_history_gap_code c)
      | Recent \<Rightarrow>
          (case rpc_code of
             Some code \<Rightarrow> \<not> is_client_rpc_code code \<and> \<not> is_behind_rpc_code code
           | None \<Rightarrow> \<not> has_result parse body))"

definition from_leg :: "json_parser \<Rightarrow> u16 \<Rightarrow> bytes \<Rightarrow> bool \<Rightarrow> provider_config \<Rightarrow> outcome" where
  "from_leg parse status body history_lookup provider =
     (if \<not> is_success status then from_status status
      else let code = extract_rpc_error_code parse body in
        if history_lookup \<and> is_history_miss parse provider code body then Miss
        else if has_rpc_error parse body then from_rpc_error code
        else OkOutcome)"

fun label :: "outcome \<Rightarrow> string" where
  "label OkOutcome = ''ok''"
| "label ProviderError = ''error''"
| "label RateLimitedOutcome = ''rate_limited''"
| "label ClientError = ''client_error''"
| "label Miss = ''miss''"
| "label Behind = ''behind''"
| "label UnsupportedOutcome = ''unsupported''"

definition broadcast_error_rank :: "outcome \<Rightarrow> u16 \<Rightarrow> int option \<Rightarrow> nat" where
  "broadcast_error_rank oc status rpc_code =
     (if oc = Miss then 3
      else case rpc_code of
          Some code \<Rightarrow> if \<not> is_retryable_rpc_code code then 4 else 2
        | None \<Rightarrow> if \<not> is_success status then 1 else 0)"

definition health_effect :: "readings \<Rightarrow> string \<Rightarrow> outcome \<Rightarrow> f64 \<Rightarrow> monitor \<Rightarrow> monitor" where
  "health_effect ts name oc latency_ms m =
     (case oc of
        OkOutcome \<Rightarrow> mo_record ts name True latency_ms False m
      | ProviderError \<Rightarrow> mo_record ts name False latency_ms False m
      | RateLimitedOutcome \<Rightarrow> mo_record_throttled ts name latency_ms m
      | _ \<Rightarrow> m)"

definition recorder_record ::
  "readings \<Rightarrow> string \<Rightarrow> string \<Rightarrow> outcome \<Rightarrow> f64 \<Rightarrow> u64 \<Rightarrow> proxy_state \<Rightarrow> proxy_state" where
  "recorder_record ts meth name oc latency_ms calls s =
     upd_monitor (health_effect ts name oc latency_ms)
       (upd_reporter (rep_record (agg_record meth name (label oc) latency_ms calls))
         (upd_metrics (record_request meth name (label oc) latency_ms calls) s))"

section \<open>Classification of a request body\<close>

definition MAX_BATCH_LABEL_METHODS :: nat where "MAX_BATCH_LABEL_METHODS = 5"

definition MAX_METHOD_LABEL_LEN :: nat where "MAX_METHOD_LABEL_LEN = 128"

record request_class =
  rq_method :: string
  rq_calls :: u64
  rq_batch :: bool
  rq_full_history :: bool
  rq_transaction :: transaction_request
  rq_historical :: historical_request_class

definition is_ascii_whitespace :: "byte \<Rightarrow> bool" where
  "is_ascii_whitespace b \<longleftrightarrow> b \<in> {9, 10, 12, 13, 32}"

text \<open>\<open>str::is_char_boundary\<close> on UTF-8 bytes: the end, or a byte that does not continue a character.\<close>

definition is_char_boundary :: "string \<Rightarrow> nat \<Rightarrow> bool" where
  "is_char_boundary s i \<longleftrightarrow>
     i = 0 \<or> i = length s \<or> (i < length s \<and> \<not> (128 \<le> (of_char (s ! i) :: nat) \<and> (of_char (s ! i) :: nat) < 192))"

fun floor_char_boundary :: "string \<Rightarrow> nat \<Rightarrow> nat" where
  "floor_char_boundary s 0 = 0"
| "floor_char_boundary s (Suc i) = (if is_char_boundary s (Suc i) then Suc i else floor_char_boundary s i)"

definition truncate_label :: "string \<Rightarrow> string" where
  "truncate_label s =
     (if MAX_METHOD_LABEL_LEN < length s then take (floor_char_boundary s MAX_METHOD_LABEL_LEN) s else s)"

fun join_comma :: "string list \<Rightarrow> string" where
  "join_comma [] = []"
| "join_comma [m] = m"
| "join_comma (m # ms) = m @ '','' @ join_comma ms"

definition push_unique :: "string \<Rightarrow> string list \<Rightarrow> string list" where
  "push_unique m uniques = (if m \<in> set uniques then uniques else uniques @ [m])"

definition batch_label :: "string list \<Rightarrow> string" where
  "batch_label uniques =
     (let shown = min (length uniques) MAX_BATCH_LABEL_METHODS;
          lbl = join_comma (take shown uniques)
      in truncate_label
           (if shown < length uniques then lbl @ ''+'' @ nat_text (length uniques - shown) else lbl))"

definition method_field :: "json \<Rightarrow> string option option" where
  "method_field = de_struct1 ''method'' de_str"

definition classify_single :: "string \<Rightarrow> string list \<Rightarrow> request_class" where
  "classify_single m full_history_methods =
     \<lparr>rq_method = m, rq_calls = 1, rq_batch = False, rq_full_history = m \<in> set full_history_methods,
      rq_transaction = (if m = ''sendTransaction'' then TxSingle else TxNone),
      rq_historical = (if m = ''getTransaction'' then HistSingle else HistNone)\<rparr>"

definition classify_batch :: "string list \<Rightarrow> string list \<Rightarrow> request_class option" where
  "classify_batch methods full_history_methods =
     (let uniques = fold push_unique methods [];
          historical_calls = of_nat (length (filter (\<lambda>m. m = ''getTransaction'') methods))
      in if uniques = [] then None
         else Some
           \<lparr>rq_method = batch_label uniques, rq_calls = of_nat (length methods), rq_batch = True,
            rq_full_history = list_ex (\<lambda>m. m \<in> set full_history_methods) uniques,
            rq_transaction = (if ''sendTransaction'' \<in> set methods then TxBatch else TxNone),
            rq_historical = (if 0 < historical_calls then HistBatch historical_calls else HistNone)\<rparr>)"

definition classify_request :: "json_parser \<Rightarrow> bytes \<Rightarrow> string list \<Rightarrow> request_class option" where
  "classify_request parse body full_history_methods =
     (case find (\<lambda>b. \<not> is_ascii_whitespace b) body of
        None \<Rightarrow> None
      | Some first \<Rightarrow>
          if first = 123 then
            (case Option.bind (parse body) method_field of
               Some (Some m) \<Rightarrow> Some (classify_single m full_history_methods)
             | _ \<Rightarrow> None)
          else
            (case Option.bind (parse body) (de_vec method_field) of
               None \<Rightarrow> None
             | Some ms \<Rightarrow> classify_batch (List.map_filter id ms) full_history_methods))"

definition extract_method :: "json_parser \<Rightarrow> bytes \<Rightarrow> (string \<times> u64) option" where
  "extract_method parse body = map_option (\<lambda>c. (rq_method c, rq_calls c)) (classify_request parse body [])"

definition unknown_request :: request_class where
  "unknown_request = \<lparr>rq_method = ''unknown'', rq_calls = 1, rq_batch = False, rq_full_history = False,
     rq_transaction = TxNone, rq_historical = HistNone\<rparr>"

section \<open>Forwarding\<close>

record outbound =
  ob_url :: string
  ob_http3 :: bool
  ob_headers :: "(string \<times> string) list"
  ob_body :: bytes

text \<open>The request \<open>forward\<close> builds; \<open>headers\<close> gives the first value of an incoming header.\<close>

definition forward_request :: "provider_config \<Rightarrow> (string \<Rightarrow> string option) \<Rightarrow> bytes \<Rightarrow> outbound" where
  "forward_request p headers body =
     \<lparr>ob_url = pv_url p, ob_http3 = pv_http3 p,
      ob_headers = [(''content-type'', ''application/json''), (''accept'', ''application/json'')] @
        List.map_filter (\<lambda>n. map_option (Pair n) (headers n))
          [''x-request-id'', ''x-trace-id'', ''traceparent'', ''tracestate''],
      ob_body = body\<rparr>"

record turn =
  tn_now :: instant
  tn_reply :: "outbound \<Rightarrow> string + u16 \<times> bytes"
  tn_env :: "proxy_state \<Rightarrow> proxy_state"
  tn_latency_ms :: f64
  tn_readings :: readings
  tn_finish_now :: instant
  tn_done_at :: nat
  tn_panics :: bool

record request_ctx =
  cx_method :: string
  cx_headers :: "string \<Rightarrow> string option"
  cx_body :: bytes
  cx_count :: u64
  cx_history_lookup :: bool
  cx_transaction :: transaction_request
  cx_historical :: historical_request_class
  cx_tips :: commitment_slots

record response =
  rs_status :: u16
  rs_body :: bytes

text \<open>\<open>StatusCode::from_u16\<close> accepts 100 to 999.\<close>

definition status_or_bad_gateway :: "u16 \<Rightarrow> u16" where
  "status_or_bad_gateway status = (if 100 \<le> status \<and> status < 1000 then status else 502)"

definition json_error_body :: "(json \<Rightarrow> bytes) \<Rightarrow> int \<Rightarrow> string \<Rightarrow> bytes" where
  "json_error_body print code message =
     print (JObj [(''jsonrpc'', JStr False ''2.0''),
       (''error'', JObj [(''code'', JInt code), (''message'', JStr False message)]), (''id'', JNull)])"

definition json_response :: "u16 \<Rightarrow> bytes \<Rightarrow> response" where
  "json_response status body = \<lparr>rs_status = status, rs_body = body\<rparr>"

definition finish_analytics ::
  "instant \<Rightarrow> request_ctx \<Rightarrow> bytes \<Rightarrow> u16 \<Rightarrow> string option \<Rightarrow> proxy_state \<Rightarrow> proxy_state" where
  "finish_analytics now ctx res status acknowledging_provider s =
     (let s = tx_finish (cx_transaction ctx) (cx_body ctx) acknowledging_provider s in
      case ps_historical s of
        None \<Rightarrow> s
      | Some (cfg, h) \<Rightarrow>
          s\<lparr>ps_historical := Some (cfg, hist_finish cfg now (cx_historical ctx) (cx_body ctx) res status
              (cx_tips ctx) h)\<rparr>)"

text \<open>
  The rate gate of one provider: only a capped provider touches its bucket; an empty bucket sheds the
  request unless the decision is degraded.
\<close>

definition rate_gate :: "instant \<Rightarrow> bool \<Rightarrow> provider_config \<Rightarrow> string \<Rightarrow> proxy_state \<Rightarrow> bool \<times> proxy_state" where
  "rate_gate now gate p name s =
     (if pv_max_rps p = None then (True, s)
      else case try_acquire now name (ps_monitor s) of (granted, m) \<Rightarrow>
        (let s = s\<lparr>ps_monitor := m\<rparr> in
         if \<not> granted \<and> gate then (False, upd_metrics (record_rate_limited name) s) else (True, s)))"

section \<open>Sequential fail-over\<close>

record seq_locals =
  sl_attempt :: nat
  sl_prev_failed :: "(string \<times> string) option"
  sl_miss :: "bytes option"
  sl_retried :: "bytes option"
  sl_sent :: "(string \<times> outbound) list"

definition find_provider :: "config \<Rightarrow> string \<Rightarrow> provider_config option" where
  "find_provider cfg name = find (\<lambda>p. pv_name p = name) (cfg_providers cfg)"

definition full_history_provider :: "config \<Rightarrow> string \<Rightarrow> bool" where
  "full_history_provider cfg name = list_ex (\<lambda>p. pv_name p = name \<and> pv_history p = Full) (cfg_providers cfg)"

definition max_attempts :: "config \<Rightarrow> string list \<Rightarrow> nat" where
  "max_attempts cfg providers = min (unat (rc_max_retries (cfg_routing cfg) + 1)) (length providers)"

definition note_failover :: "string \<Rightarrow> seq_locals \<Rightarrow> proxy_state \<Rightarrow> proxy_state" where
  "note_failover name l s =
     (if 0 < sl_attempt l then
        (case sl_prev_failed l of
           None \<Rightarrow> s
         | Some (from, reason) \<Rightarrow>
             upd_reporter (rep_emit (Failover from name reason)) (upd_metrics (record_failover from name) s))
      else s)"

text \<open>
  What the loop body does with the reply to one forward: answer the client, or go on with the next
  provider. The attempt has been counted.
\<close>

definition seq_reply ::
  "json_parser \<Rightarrow> config \<Rightarrow> request_ctx \<Rightarrow> nat \<Rightarrow> string list \<Rightarrow> string \<Rightarrow> provider_config \<Rightarrow> turn \<Rightarrow>
   string + u16 \<times> bytes \<Rightarrow> seq_locals \<Rightarrow> proxy_state \<Rightarrow> response option \<times> seq_locals \<times> proxy_state" where
  "seq_reply parse cfg ctx limit later name p t result l s =
     (let rec = (\<lambda>oc. recorder_record (tn_readings t) (cx_method ctx) name oc (tn_latency_ms t) (cx_count ctx));
          answer = (\<lambda>oc status body ack. (Some (json_response (status_or_bad_gateway status) body), l,
              finish_analytics (tn_finish_now t) ctx body status ack (rec oc s)))
      in case result of
        Inl e \<Rightarrow> (None, l\<lparr>sl_prev_failed := Some (name, ''provider_error'')\<rparr>, rec ProviderError s)
      | Inr (status, body) \<Rightarrow>
          if is_retryable_http status then
            (None, l\<lparr>sl_prev_failed := Some (name, ''retryable_http'')\<rparr>, rec (from_status status) s)
          else if \<not> is_success status then answer (from_status status) status body None
          else
            let code = extract_rpc_error_code parse body in
            if cx_history_lookup ctx \<and> is_history_miss parse p code body then
              (if sl_attempt l < limit \<and> list_ex (full_history_provider cfg) later
               then (None, l\<lparr>sl_prev_failed := Some (name, ''history_miss''),
                             sl_miss := Some (unwrap_or (sl_miss l) body)\<rparr>, rec Miss s)
               else answer Miss 200 body None)
            else if (case code of None \<Rightarrow> False | Some c \<Rightarrow> is_retryable_rpc_code c) \<and> sl_attempt l < limit then
              (let oc = from_rpc_error code in
               (None, l\<lparr>sl_prev_failed := Some (name, if oc = Behind then ''behind'' else ''retryable_rpc_error''),
                        sl_retried := Some body\<rparr>, rec oc s))
            else if has_rpc_error parse body then answer (from_rpc_error code) 200 body None
            else answer OkOutcome 200 body (Some name))"

fun seq_loop ::
  "json_parser \<Rightarrow> config \<Rightarrow> request_ctx \<Rightarrow> bool \<Rightarrow> nat \<Rightarrow> (string \<Rightarrow> turn) \<Rightarrow> string list \<Rightarrow> seq_locals \<Rightarrow>
   proxy_state \<Rightarrow> response option \<times> seq_locals \<times> proxy_state" where
  "seq_loop parse cfg ctx gate limit turns [] l s = (None, l, s)"
| "seq_loop parse cfg ctx gate limit turns (name # later) l s =
     (if limit \<le> sl_attempt l then (None, l, s)
      else case find_provider cfg name of
        None \<Rightarrow> seq_loop parse cfg ctx gate limit turns later l s
      | Some p \<Rightarrow>
          if sl_miss l \<noteq> None \<and> pv_history p = Recent then seq_loop parse cfg ctx gate limit turns later l s
          else if client_for name s = None then seq_loop parse cfg ctx gate limit turns later l s
          else let t = turns name in
            case rate_gate (tn_now t) gate p name s of (pass, s) \<Rightarrow>
              if \<not> pass then seq_loop parse cfg ctx gate limit turns later l s
              else
                let s = note_failover name l s;
                    out = forward_request p (cx_headers ctx) (cx_body ctx);
                    l = l\<lparr>sl_attempt := sl_attempt l + 1, sl_sent := sl_sent l @ [(name, out)]\<rparr>
                in case seq_reply parse cfg ctx limit later name p t (tn_reply t out) l (tn_env t s) of
                     (Some r, l, s) \<Rightarrow> (Some r, l, s)
                   | (None, l, s) \<Rightarrow> seq_loop parse cfg ctx gate limit turns later l s)"

declare seq_loop.simps(2) [simp del]

definition seq_start :: seq_locals where
  "seq_start = \<lparr>sl_attempt = 0, sl_prev_failed = None, sl_miss = None, sl_retried = None, sl_sent = []\<rparr>"

text \<open>
  \<open>sequential\<close>; \<open>end_now\<close> is the clock reading of the hand-off after the loop. Besides the response it
  returns the locals, whose \<open>sl_sent\<close> lists the forwards that were made.
\<close>

definition sequential ::
  "json_parser \<Rightarrow> (json \<Rightarrow> bytes) \<Rightarrow> config \<Rightarrow> string list \<Rightarrow> request_ctx \<Rightarrow> bool \<Rightarrow> (string \<Rightarrow> turn) \<Rightarrow>
   instant \<Rightarrow> proxy_state \<Rightarrow> response \<times> seq_locals \<times> proxy_state" where
  "sequential parse print cfg providers ctx gate turns end_now s =
     (case seq_loop parse cfg ctx gate (max_attempts cfg providers) turns providers seq_start s of
        (Some r, l, s) \<Rightarrow> (r, l, s)
      | (None, l, s) \<Rightarrow>
          (case (sl_miss l, sl_retried l) of
             (Some body, _) \<Rightarrow> (json_response 200 body, l, finish_analytics end_now ctx body 200 None s)
           | (None, Some body) \<Rightarrow> (json_response 200 body, l, finish_analytics end_now ctx body 200 None s)
           | (None, None) \<Rightarrow>
               (let body = json_error_body print (- 32603) ''all providers failed'' in
                (json_response 502 body, l, finish_analytics end_now ctx body 502 None s))))"

section \<open>Broadcast race\<close>

type_synonym leg = "string \<times> provider_config"

fun fan_out :: "config \<Rightarrow> bool \<Rightarrow> (string \<Rightarrow> turn) \<Rightarrow> string list \<Rightarrow> proxy_state \<Rightarrow> leg list \<times> proxy_state" where
  "fan_out cfg gate turns [] s = ([], s)"
| "fan_out cfg gate turns (name # later) s =
     (case find_provider cfg name of
        None \<Rightarrow> fan_out cfg gate turns later s
      | Some p \<Rightarrow>
          if client_for name s = None then fan_out cfg gate turns later s
          else case rate_gate (tn_now (turns name)) gate p name s of (pass, s) \<Rightarrow>
            if \<not> pass then fan_out cfg gate turns later s
            else case fan_out cfg gate turns later s of (legs, s) \<Rightarrow> ((name, p) # legs, s))"

definition leg_result :: "json_parser \<Rightarrow> request_ctx \<Rightarrow> turn \<Rightarrow> provider_config \<Rightarrow> string + u16 \<times> bytes \<times> outcome" where
  "leg_result parse ctx t p =
     (case tn_reply t (forward_request p (cx_headers ctx) (cx_body ctx)) of
        Inl e \<Rightarrow> Inl e
      | Inr (status, body) \<Rightarrow> Inr (status, body, from_leg parse status body (cx_history_lookup ctx) p))"

definition record_leg :: "request_ctx \<Rightarrow> turn \<Rightarrow> string \<Rightarrow> outcome \<Rightarrow> proxy_state \<Rightarrow> proxy_state" where
  "record_leg ctx t name oc s =
     recorder_record (tn_readings t) (cx_method ctx) name oc (tn_latency_ms t) (cx_count ctx) s"

text \<open>The body kept for the case that no leg succeeds: the first of the highest rank.\<close>

definition better_error :: "nat \<Rightarrow> u16 \<Rightarrow> bytes \<Rightarrow> (u16 \<times> bytes \<times> nat) option \<Rightarrow> (u16 \<times> bytes \<times> nat) option" where
  "better_error rank status body best =
     (case best of
        None \<Rightarrow> Some (status, body, rank)
      | Some (st, b, best_rank) \<Rightarrow> if best_rank < rank then Some (status, body, rank) else best)"

text \<open>The legs in the order in which they finish; what is left when one succeeds goes to the drain.\<close>

fun bc_race ::
  "json_parser \<Rightarrow> request_ctx \<Rightarrow> (string \<Rightarrow> turn) \<Rightarrow> leg list \<Rightarrow> (u16 \<times> bytes \<times> nat) option \<Rightarrow> proxy_state \<Rightarrow>
   (string \<times> bytes) option \<times> leg list \<times> (u16 \<times> bytes \<times> nat) option \<times> proxy_state" where
  "bc_race parse ctx turns [] best s = (None, [], best, s)"
| "bc_race parse ctx turns ((name, p) # rest) best s =
     (let t = turns name; s = tn_env t s in
      if tn_panics t then bc_race parse ctx turns rest best s
      else case leg_result parse ctx t p of
        Inl e \<Rightarrow> bc_race parse ctx turns rest best (record_leg ctx t name ProviderError s)
      | Inr (status, body, oc) \<Rightarrow>
          (let s = record_leg ctx t name oc s in
           if oc = OkOutcome then (Some (name, body), rest, best, s)
           else bc_race parse ctx turns rest
             (better_error (broadcast_error_rank oc status (extract_rpc_error_code parse body)) status body best) s))"

text \<open>The detached drain of the legs that finish after the client has been answered.\<close>

fun straggler_drain :: "json_parser \<Rightarrow> request_ctx \<Rightarrow> (string \<Rightarrow> turn) \<Rightarrow> leg list \<Rightarrow> proxy_state \<Rightarrow> proxy_state" where
  "straggler_drain parse ctx turns [] s = s"
| "straggler_drain parse ctx turns ((name, p) # rest) s =
     (let t = turns name; s = tn_env t s in
      if tn_panics t then straggler_drain parse ctx turns rest s
      else case leg_result parse ctx t p of
        Inl e \<Rightarrow> straggler_drain parse ctx turns rest (record_leg ctx t name ProviderError s)
      | Inr (status, body, oc) \<Rightarrow> straggler_drain parse ctx turns rest (record_leg ctx t name oc s))"

definition completion_order :: "(string \<Rightarrow> turn) \<Rightarrow> leg list \<Rightarrow> leg list" where
  "completion_order turns legs = sort_key (\<lambda>l. tn_done_at (turns (fst l))) legs"

text \<open>The response, the legs that were sent, the stragglers left to the drain, and the state.\<close>

definition broadcast ::
  "json_parser \<Rightarrow> (json \<Rightarrow> bytes) \<Rightarrow> config \<Rightarrow> string list \<Rightarrow> request_ctx \<Rightarrow> bool \<Rightarrow> (string \<Rightarrow> turn) \<Rightarrow>
   instant \<Rightarrow> proxy_state \<Rightarrow> response \<times> leg list \<times> leg list \<times> proxy_state" where
  "broadcast parse print cfg providers ctx gate turns end_now s =
     (if providers = [] then
        (let body = json_error_body print (- 32603) ''no providers available'' in
         (json_response 503 body, [], [], finish_analytics end_now ctx body 503 None s))
      else case fan_out cfg gate turns providers s of (legs, s) \<Rightarrow>
        (case bc_race parse ctx turns (completion_order turns legs) None s of
           (Some (name, body), rest, best, s) \<Rightarrow>
             (json_response 200 body, legs, rest,
              finish_analytics (tn_finish_now (turns name)) ctx body 200 (Some name) s)
         | (None, rest, Some (status, body, rank), s) \<Rightarrow>
             (json_response (status_or_bad_gateway status) body, legs, rest,
              finish_analytics end_now ctx body status None s)
         | (None, rest, None, s) \<Rightarrow>
             (let body = json_error_body print (- 32603) ''all providers failed'' in
              (json_response 502 body, legs, rest, finish_analytics end_now ctx body 502 None s))))"

section \<open>Handlers\<close>

definition request_class_of :: "json_parser \<Rightarrow> bytes \<Rightarrow> config \<Rightarrow> request_class" where
  "request_class_of parse body cfg =
     unwrap_or (classify_request parse body (rc_full_history_methods (cfg_routing cfg))) unknown_request"

definition request_ctx_of ::
  "config \<Rightarrow> request_class \<Rightarrow> (string \<Rightarrow> string option) \<Rightarrow> bytes \<Rightarrow> commitment_slots \<Rightarrow> request_ctx" where
  "request_ctx_of cfg rq headers body tips =
     \<lparr>cx_method = rq_method rq, cx_headers = headers, cx_body = body, cx_count = rq_calls rq,
      cx_history_lookup = (\<not> rq_batch rq \<and> rq_method rq \<in> set (rc_history_methods (cfg_routing cfg))),
      cx_transaction = rq_transaction rq, cx_historical = rq_historical rq, cx_tips = tips\<rparr>"

text \<open>What a handled request leaves: the response, the requests sent to providers, the stragglers.\<close>

record handled =
  hd_response :: response
  hd_sent :: "(string \<times> outbound) list"
  hd_ctx :: request_ctx
  hd_stragglers :: "leg list"

definition route_request :: "f64 \<Rightarrow> config \<Rightarrow> request_class \<Rightarrow> health_snapshot list \<Rightarrow> route_decision" where
  "route_request u cfg rq snaps =
     (let rt = cfg_routing cfg in
      route u (rq_method rq) snaps (rc_strategy rt) (cfg_providers cfg) (rc_broadcast_writes rt)
        (rc_write_methods rt) (rq_full_history rq))"

definition handle_rpc ::
  "json_parser \<Rightarrow> (json \<Rightarrow> bytes) \<Rightarrow> f64 \<Rightarrow> instant \<Rightarrow> (string \<Rightarrow> turn) \<Rightarrow> instant \<Rightarrow> (string \<Rightarrow> string option) \<Rightarrow>
   bytes \<Rightarrow> proxy_state \<Rightarrow> handled \<times> proxy_state" where
  "handle_rpc parse print u now turns end_now headers body s =
     (let cfg = ps_config s; rq = request_class_of parse body cfg in
      case snapshots_with_tips now (ps_monitor s) of ((snaps, tips), m) \<Rightarrow>
        (let s = s\<lparr>ps_monitor := m\<rparr>;
             decision = route_request u cfg rq snaps;
             ctx = request_ctx_of cfg rq headers body tips;
             gate = (\<not> rd_degraded decision)
         in if rd_broadcast decision then
              (case broadcast parse print cfg (rd_providers decision) ctx gate turns end_now s of
                 (r, legs, rest, s) \<Rightarrow>
                   (\<lparr>hd_response = r,
                     hd_sent = map (\<lambda>(n, p). (n, forward_request p headers body)) legs,
                     hd_ctx = ctx, hd_stragglers = rest\<rparr>, s))
            else
              (case sequential parse print cfg (rd_providers decision) ctx gate turns end_now s of
                 (r, l, s) \<Rightarrow>
                   (\<lparr>hd_response = r, hd_sent = sl_sent l, hd_ctx = ctx, hd_stragglers = []\<rparr>, s))))"

definition export_health :: "health_snapshot \<Rightarrow> metrics \<Rightarrow> metrics" where
  "export_health sn m =
     fold (\<lambda>(level, ch). update_provider_commitment (hs_name sn) level (ch_slot ch) (ch_drift ch))
       [(''processed'', hs_processed sn), (''confirmed'', hs_confirmed sn), (''finalized'', hs_finalized sn)]
       (update_provider_health (hs_name sn) (hs_score sn) (hs_slot_height sn) (hs_slot_drift sn)
          (hs_circuit sn = Open) m)"

definition handle_metrics :: "instant \<Rightarrow> proxy_state \<Rightarrow> metrics \<times> proxy_state" where
  "handle_metrics now s =
     (case snapshots now (ps_monitor s) of (snaps, m) \<Rightarrow>
        (let s = upd_metrics (fold export_health snaps) (s\<lparr>ps_monitor := m\<rparr>)
         in (mo_metrics (ps_monitor s), s)))"

text \<open>\<open>f64::round\<close>: half away from zero.\<close>

fun f64_round :: "f64 \<Rightarrow> f64" where
  "f64_round (Fin a) = Fin (if 0 \<le> a then of_int \<lfloor>a + 1 / 2\<rfloor> else - of_int \<lfloor>1 / 2 - a\<rfloor>)"
| "f64_round x = x"

definition round_to :: "nat \<Rightarrow> f64 \<Rightarrow> f64" where
  "round_to k x = f64_div (f64_round (f64_mul x (Fin (of_nat k)))) (Fin (of_nat k))"

fun circuit_text :: "circuit_state \<Rightarrow> string" where
  "circuit_text Closed = ''closed''"
| "circuit_text Open = ''open''"
| "circuit_text HalfOpen = ''halfopen''"

text \<open>One element of the \<open>providers\<close> array of \<open>/health\<close>; the remaining members are those of the snapshot.\<close>

record health_report =
  hr_snapshot :: health_snapshot
  hr_score :: f64
  hr_latency_ms :: f64
  hr_error_rate :: f64
  hr_circuit :: string
  hr_available :: bool

definition report_of :: "health_snapshot \<Rightarrow> health_report" where
  "report_of sn =
     \<lparr>hr_snapshot = sn, hr_score = round_to 1000 (hs_score sn), hr_latency_ms = round_to 10 (hs_latency_ms sn),
      hr_error_rate = round_to 1000 (hs_error_rate sn), hr_circuit = circuit_text (hs_circuit sn),
      hr_available = is_available sn\<rparr>"

definition handle_health ::
  "instant \<Rightarrow> proxy_state \<Rightarrow> (health_report list \<times> commitment_slots option) \<times> proxy_state" where
  "handle_health now s =
     (case snapshots now (ps_monitor s) of (snaps, m) \<Rightarrow>
        ((map report_of snaps, reference_tip m), s\<lparr>ps_monitor := m\<rparr>))"

definition health_neutral :: "outcome \<Rightarrow> bool" where
  "health_neutral oc \<longleftrightarrow> oc \<in> {ClientError, Miss, Behind, UnsupportedOutcome}"

text \<open>The events of the transaction analytics: a finished request, a turn of the worker, a flush.\<close>

datatype tx_event = TxFinish transaction_request bytes "string option" | TxWork | TxFlushRequest nat

fun tx_step ::
  "json_parser \<Rightarrow> (string \<Rightarrow> bytes option) \<Rightarrow> (string \<Rightarrow> bytes option) \<Rightarrow> tx_event \<Rightarrow> proxy_state \<Rightarrow> proxy_state" where
  "tx_step parse base58 base64 (TxFinish cls body ack) s = tx_finish cls body ack s"
| "tx_step parse base58 base64 TxWork s = tx_worker parse base58 base64 s"
| "tx_step parse base58 base64 (TxFlushRequest c) s = tx_flush_call c s"

definition tx_run ::
  "json_parser \<Rightarrow> (string \<Rightarrow> bytes option) \<Rightarrow> (string \<Rightarrow> bytes option) \<Rightarrow> tx_event list \<Rightarrow> proxy_state \<Rightarrow> proxy_state" where
  "tx_run parse base58 base64 evs s = fold (tx_step parse base58 base64) evs s"

fun is_submission :: "metric_call \<Rightarrow> bool" where
  "is_submission (IncBy TxSubmissions ls x) = True"
| "is_submission _ = False"

fun is_single_decode :: "metric_call \<Rightarrow> bool" where
  "is_single_decode (IncBy TxDecode [p, res] x) = (res \<noteq> ''batch_unsupported'')"
| "is_single_decode _ = False"

fun is_decode_job :: "transaction_message \<Rightarrow> bool" where
  "is_decode_job (Decode job) = True"
| "is_decode_job (TxFlush c) = False"

text \<open>Submissions counted, decode results counted for them, and jobs waiting for the worker.\<close>

definition tx_submitted :: "proxy_state \<Rightarrow> nat" where
  "tx_submitted s = length (filter is_submission (mo_metrics (ps_monitor s)))"

definition tx_decoded :: "proxy_state \<Rightarrow> nat" where
  "tx_decoded s = length (filter is_single_decode (mo_metrics (ps_monitor s)))"

definition tx_pending :: "proxy_state \<Rightarrow> nat" where
  "tx_pending s = length (filter is_decode_job (ps_tx_queue s))"

lemma code_implies_error:
  assumes "extract_rpc_error_code parse body = Some c"
  shows "has_rpc_error parse body"
proof -
  obtain j where j: "parse body = Some j" using assms by (cases "parse body") (auto simp: extract_rpc_error_code_def)
  then have e: "de_struct1 ''error'' (de_struct1 ''code'' de_i64) j = Some (Some (Some c))"
    using assms by (auto simp: extract_rpc_error_code_def split: option.splits)
  have "de_struct1 ''error'' de_any j = Some (Some ())"
    using e by (auto simp: de_struct1_def de_option_def de_any_def split: json.splits list.splits option.splits)
  with j show ?thesis by (simp add: has_rpc_error_def)
qed

lemma success_not_retryable: "is_success status \<Longrightarrow> \<not> is_retryable_http status"
  by (auto simp: is_success_def is_retryable_http_def)

lemma from_leg_ok:
  "from_leg parse status body lookup p = OkOutcome \<longleftrightarrow>
     is_success status \<and> \<not> (lookup \<and> is_history_miss parse p (extract_rpc_error_code parse body) body) \<and>
     \<not> has_rpc_error parse body"
  by (auto simp: from_leg_def from_status_def from_rpc_error_def Let_def split: option.splits if_splits)

section \<open>Attribution\<close>

lemma neutral_monitor:
  "health_neutral oc \<Longrightarrow> mo_healths (ps_monitor (recorder_record ts me n oc ms c s)) = mo_healths (ps_monitor s)"
  by (auto simp: health_neutral_def recorder_record_def health_effect_def upd_monitor_def upd_reporter_def upd_metrics_def)

theorem leg_attribution:
  "from_leg parse status body lookup p =
     (if is_success status then
        (if lookup \<and> is_history_miss parse p (extract_rpc_error_code parse body) body then Miss
         else case extract_rpc_error_code parse body of
             None \<Rightarrow> if has_rpc_error parse body then ProviderError else OkOutcome
           | Some c \<Rightarrow>
               if c \<in> {- 32700, - 32600, - 32601, - 32602, - 32002, - 32003, - 32006, - 32013, - 32015} then ClientError
               else if c \<in> {- 32014, - 32016} then Behind
               else if c \<in> {- 32001, - 32004, - 32011, - 32019, - 32020} then Miss
               else ProviderError)
      else if status = 429 then RateLimitedOutcome
      else if status = 501 then UnsupportedOutcome
      else if status \<in> {400, 404, 405, 413, 415, 422} then ClientError
      else ProviderError)"
  using code_implies_error[of parse body]
  by (simp add: from_leg_def from_status_def from_rpc_error_def is_client_rpc_code_def is_behind_rpc_code_def
      is_history_gap_code_def is_client_error_def Let_def split: option.split)

section \<open>Labels\<close>

lemma floor_char_boundary_le: "floor_char_boundary s i \<le> i"
  by (induction i) (auto intro: le_SucI)

lemma floor_char_boundary_ok: "is_char_boundary s (floor_char_boundary s i)"
  by (induction i) (auto simp: is_char_boundary_def)

lemma truncate_label_bounded: "length (truncate_label s) \<le> MAX_METHOD_LABEL_LEN"
  using floor_char_boundary_le[of s MAX_METHOD_LABEL_LEN] by (auto simp: truncate_label_def)

theorem batch_label_bounded:
  assumes "classify_request parse body fh = Some c" "rq_batch c"
  shows "length (rq_method c) \<le> 128"
  using assms truncate_label_bounded
  by (auto simp: classify_request_def classify_single_def classify_batch_def batch_label_def Let_def
      MAX_METHOD_LABEL_LEN_def split: option.splits if_splits)

theorem single_label_unbounded:
  assumes "find (\<lambda>b. \<not> is_ascii_whitespace b) body = Some 123" "parse body = Some (JObj [(''method'', JStr False m)])"
  shows "map_option rq_method (classify_request parse body fh) = Some m"
  using assms by (simp add: classify_request_def method_field_def de_struct1_def de_option_def de_str_def classify_single_def)

text \<open>A batch of one call: the reply is an array of one object, which the derived reader takes by position.\<close>

theorem singleton_batch_reply_blamed:
  assumes "parse body = Some (JArr [JObj members])" "''code'' \<notin> fst ` set members" "is_success status"
  shows "from_leg parse status body False p = ProviderError"
proof -
  have "filter (\<lambda>(k, v). k = ''code'') members = []"
    using assms(2) by (force simp: filter_empty_conv)
  then have "de_struct1 ''code'' de_i64 (JObj members) = Some None" by (simp add: de_struct1_def)
  then have "extract_rpc_error_code parse body = None"
    using assms(1) by (simp add: extract_rpc_error_code_def de_option_def)
  moreover have "has_rpc_error parse body" using assms(1) by (simp add: has_rpc_error_def de_any_present)
  ultimately show ?thesis using assms(3) by (simp add: from_leg_def from_rpc_error_def Let_def)
qed

theorem batch_label_bounded_witness:
  "\<exists>c. classify_request (\<lambda>_. Some (JArr [JObj [(''method'', JStr False ''getSlot'')]])) [91] [] = Some c \<and>
     rq_batch c \<and> length (rq_method c) \<le> 128"
proof -
  let ?p = "\<lambda>_. Some (JArr [JObj [(''method'', JStr False ''getSlot'')]])"
  obtain c where c: "classify_request ?p [91] [] = Some c" "rq_batch c"
    by (simp add: classify_request_def is_ascii_whitespace_def method_field_def de_struct1_def de_option_def de_str_def de_vec_def
        classify_batch_def push_unique_def map_filter_simps Let_def)
  with batch_label_bounded[OF c] show ?thesis by blast
qed

theorem single_label_unbounded_witness:
  "map_option rq_method (classify_request (\<lambda>_. Some (JObj [(''method'', JStr False (replicate 5000 CHR ''x''))])) [123] []) =
     Some (replicate 5000 CHR ''x'')"
  by (rule single_label_unbounded) (simp_all add: is_ascii_whitespace_def)

theorem singleton_batch_reply_blamed_witness:
  "from_leg (\<lambda>_. Some (JArr [JObj [(''jsonrpc'', JStr False ''2.0''), (''id'', JInt 1), (''result'', JInt 7)]])) 200 [91] False
     (default_provider ''a'' ''u'') = ProviderError"
  by (rule singleton_batch_reply_blamed) (auto simp: is_success_def)

section \<open>Transaction analytics\<close>

lemma decode_label_single: "decode_label d = (res, info) \<Longrightarrow> res \<noteq> ''batch_unsupported''"
  by (auto simp: decode_label_def split: sum.splits decode_error.splits)

lemma tx_metrics_counts [simp]:
  "tx_submitted (upd_metrics (record_transaction_submission p a) s) = Suc (tx_submitted s)"
  "tx_decoded (upd_metrics (record_transaction_submission p a) s) = tx_decoded s"
  "tx_submitted (upd_metrics (record_transaction_decode p res smp) s) = tx_submitted s"
  "tx_decoded (upd_metrics (record_transaction_decode p res smp) s) =
     tx_decoded s + (if res = ''batch_unsupported'' then 0 else 1)"
  "tx_pending (upd_metrics f s) = tx_pending s" "ps_tx_queue (upd_metrics f s) = ps_tx_queue s"
  "ps_tx_flushed (upd_metrics f s) = ps_tx_flushed s"
  by (auto simp: tx_submitted_def tx_decoded_def tx_pending_def upd_metrics_def record_transaction_submission_def
      record_transaction_decode_def split: option.split)

lemma tx_reporter_counts [simp]:
  "tx_submitted (upd_reporter f s) = tx_submitted s" "tx_decoded (upd_reporter f s) = tx_decoded s"
  "tx_pending (upd_reporter f s) = tx_pending s" "ps_tx_queue (upd_reporter f s) = ps_tx_queue s"
  "ps_tx_flushed (upd_reporter f s) = ps_tx_flushed s"
  by (simp_all add: tx_submitted_def tx_decoded_def tx_pending_def upd_reporter_def)

lemma tx_queue_counts [simp]:
  "tx_submitted (s\<lparr>ps_tx_queue := q\<rparr>) = tx_submitted s" "tx_decoded (s\<lparr>ps_tx_queue := q\<rparr>) = tx_decoded s"
  "tx_pending (s\<lparr>ps_tx_queue := q\<rparr>) = length (filter is_decode_job q)"
  "tx_submitted (s\<lparr>ps_tx_flushed := fl\<rparr>) = tx_submitted s" "tx_decoded (s\<lparr>ps_tx_flushed := fl\<rparr>) = tx_decoded s"
  "tx_pending (s\<lparr>ps_tx_flushed := fl\<rparr>) = tx_pending s"
  by (simp_all add: tx_submitted_def tx_decoded_def tx_pending_def)

lemma tx_worker_Decode:
  assumes "ps_tx_queue s = Decode job # rest"
  shows "tx_submitted (tx_worker parse base58 base64 s) = tx_submitted s"
    "tx_decoded (tx_worker parse base58 base64 s) = Suc (tx_decoded s)"
    "ps_tx_queue (tx_worker parse base58 base64 s) = rest" "ps_tx_flushed (tx_worker parse base58 base64 s) = ps_tx_flushed s"
proof -
  obtain res info where d: "decode_label (decode_request parse base58 base64 (tj_body job)) = (res, info)" by force
  with decode_label_single[OF d] assms
  show "tx_submitted (tx_worker parse base58 base64 s) = tx_submitted s"
    "tx_decoded (tx_worker parse base58 base64 s) = Suc (tx_decoded s)"
    "ps_tx_queue (tx_worker parse base58 base64 s) = rest" "ps_tx_flushed (tx_worker parse base58 base64 s) = ps_tx_flushed s"
    by (simp_all add: tx_worker_def Let_def)
qed

lemma tx_worker_Flush:
  assumes "ps_tx_queue s = TxFlush c # rest"
  shows "tx_worker parse base58 base64 s = s\<lparr>ps_tx_queue := rest, ps_tx_flushed := ps_tx_flushed s @ [c]\<rparr>"
  using assms by (simp add: tx_worker_def)

lemma tx_step_balance:
  assumes "tx_submitted s = tx_decoded s + tx_pending s"
  shows "tx_submitted (tx_step parse base58 base64 ev s) =
    tx_decoded (tx_step parse base58 base64 ev s) + tx_pending (tx_step parse base58 base64 ev s)"
proof (cases ev)
  case (TxFinish cls body ack)
  have p: "tx_pending s = length (filter is_decode_job (ps_tx_queue s))" by (simp add: tx_pending_def)
  show ?thesis using TxFinish assms
    by (cases cls) (simp_all add: tx_finish_def Let_def p)
next
  case TxWork
  show ?thesis
  proof (cases "ps_tx_queue s")
    case Nil
    then show ?thesis using TxWork assms by (simp add: tx_worker_def)
  next
    case (Cons msg rest)
    then show ?thesis using TxWork assms
      by (cases msg) (auto simp: tx_worker_Decode tx_worker_Flush tx_pending_def)
  qed
next
  case (TxFlushRequest c)
  then show ?thesis using assms by (auto simp: tx_flush_call_def tx_pending_def)
qed

lemma proxy_new_metrics: "mo_metrics (ps_monitor (proxy_new now now_ms mt cfg rep)) = mt"
proof -
  have "mo_metrics (fold (start_provider cls) qs m) = mo_metrics m" for cls qs m
    by (induction qs arbitrary: m) (auto simp: start_provider_def spawn_loops_def split: option.split)
  moreover have "mo_metrics (fold (insert_provider now) ps m) = mo_metrics m" for ps m
    by (induction ps arbitrary: m) (auto simp: insert_provider_def alloc_entry_def)
  ultimately show ?thesis by (simp add: proxy_new_def start_def monitor_new_def Let_def)
qed

text \<open>C15. Every counted submission of a transaction has either one counted decode result (queue_dropped
included) or a job waiting for the decode worker, in every interleaving of requests, worker and
flushes.\<close>

theorem transactions_accounted:
  "tx_submitted (tx_run parse base58 base64 evs (proxy_new now now_ms (metrics_new v c b r) cfg rep)) =
   tx_decoded (tx_run parse base58 base64 evs (proxy_new now now_ms (metrics_new v c b r) cfg rep)) +
   tx_pending (tx_run parse base58 base64 evs (proxy_new now now_ms (metrics_new v c b r) cfg rep))"
proof -
  have "tx_submitted s = tx_decoded s + tx_pending s \<Longrightarrow>
      tx_submitted (tx_run parse base58 base64 evs s) = tx_decoded (tx_run parse base58 base64 evs s) + tx_pending (tx_run parse base58 base64 evs s)" for s
    unfolding tx_run_def by (induction evs arbitrary: s) (simp_all add: tx_step_balance del: tx_step.simps)
  moreover have "ps_tx_queue (proxy_new now now_ms mt cfg rep) = []" for mt by (simp add: proxy_new_def Let_def)
  ultimately show ?thesis
    by (simp add: tx_submitted_def tx_decoded_def tx_pending_def proxy_new_metrics metrics_new_def Let_def)
qed

lemma tx_worker_drains:
  "ps_tx_queue ((tx_worker parse base58 base64 ^^ length (ps_tx_queue s)) s) = [] \<and>
   tx_decoded ((tx_worker parse base58 base64 ^^ length (ps_tx_queue s)) s) = tx_decoded s + tx_pending s \<and>
   (\<forall>c. TxFlush c \<in> set (ps_tx_queue s) \<longrightarrow> c \<in> set (ps_tx_flushed ((tx_worker parse base58 base64 ^^ length (ps_tx_queue s)) s))) \<and>
   set (ps_tx_flushed s) \<subseteq> set (ps_tx_flushed ((tx_worker parse base58 base64 ^^ length (ps_tx_queue s)) s))"
proof (induction "ps_tx_queue s" arbitrary: s)
  case Nil
  then show ?case by (simp add: tx_pending_def)
next
  case (Cons msg rest)
  let ?w = "tx_worker parse base58 base64"
  have q: "ps_tx_queue (?w s) = rest"
    using Cons(2)[symmetric] by (cases msg) (simp_all add: tx_worker_Decode tx_worker_Flush)
  have "(?w ^^ length (ps_tx_queue s)) s = (?w ^^ length (ps_tx_queue (?w s))) (?w s)"
    using Cons(2)[symmetric] q by (simp add: funpow_swap1)
  with Cons(1)[OF q[symmetric]] Cons(2)[symmetric] q show ?case
    by (cases msg) (auto simp: tx_worker_Decode tx_worker_Flush tx_pending_def)
qed

interpretation tx_flushes: bounded_channel ps_tx_queue TX_DECODE_QUEUE_CAPACITY "\<lambda>s. True" TxFlush tx_flush_call
  by unfold_locales (auto simp: tx_flush_call_def)

theorem tx_flush_waits_for_jobs:
  assumes "length (ps_tx_queue s) < TX_DECODE_QUEUE_CAPACITY"
  shows "let s' = (tx_worker parse base58 base64 ^^ Suc (length (ps_tx_queue s))) (tx_flush_call c s) in
    c \<in> set (ps_tx_flushed s') \<and> ps_tx_queue s' = [] \<and> tx_decoded s' = tx_decoded s + tx_pending s"
proof -
  let ?t = "tx_flush_call c s"
  have t: "ps_tx_queue ?t = ps_tx_queue s @ [TxFlush c]" "tx_pending ?t = tx_pending s" "tx_decoded ?t = tx_decoded s"
    using assms by (simp_all add: tx_flushes.send_queue tx_flush_call_def tx_pending_def)
  then have "Suc (length (ps_tx_queue s)) = length (ps_tx_queue ?t)" by simp
  then show ?thesis unfolding Let_def using tx_worker_drains[where s = ?t and parse = parse and ?base58.0 = base58 and ?base64.0 = base64] t by simp
qed

theorem tx_flush_waits_for_jobs_witness:
  "let s = (proxy_new 0 0 [] \<lparr>cfg_server = default_server, cfg_health = default_health, cfg_routing = default_routing,
      cfg_providers = [], cfg_reporting = None, cfg_historical = None\<rparr> NoopReporter)\<lparr>ps_tx_queue :=
        [Decode \<lparr>tj_body = [], tj_provider = ''a'', tj_accepted = True\<rparr>]\<rparr>;
       s' = (tx_worker (\<lambda>_. None) (\<lambda>_. None) (\<lambda>_. None) ^^ 2) (tx_flush_call 5 s)
   in 5 \<in> set (ps_tx_flushed s') \<and> tx_decoded s' = tx_decoded s + 1"
proof -
  let ?s = "(proxy_new 0 0 [] \<lparr>cfg_server = default_server, cfg_health = default_health, cfg_routing = default_routing,
      cfg_providers = [], cfg_reporting = None, cfg_historical = None\<rparr> NoopReporter)\<lparr>ps_tx_queue :=
        [Decode \<lparr>tj_body = [], tj_provider = ''a'', tj_accepted = True\<rparr>]\<rparr>"
  have q: "length (ps_tx_queue ?s) = 1" "tx_pending ?s = 1" by simp_all
  have two: "Suc (length (ps_tx_queue ?s)) = 2" by simp
  have "length (ps_tx_queue ?s) < TX_DECODE_QUEUE_CAPACITY" by (simp add: TX_DECODE_QUEUE_CAPACITY_def)
  from tx_flush_waits_for_jobs[OF this, of "\<lambda>_. None" "\<lambda>_. None" "\<lambda>_. None" 5, unfolded two q(2)]
  show ?thesis by (simp only: Let_def simp_thms)
qed

section \<open>Classification agrees with the worker\<close>

lemma filter_last_member:
  fixes members :: "(string \<times> json) list"
  assumes "filter (\<lambda>(k, v). k = field) members = [(k, v)]"
  shows "map_of (rev members) field = Some v"
proof -
  have keep: "map_of xs field = map_of (filter (\<lambda>(k, v). k = field) xs) field" for xs :: "(string \<times> json) list"
    by (induction xs) auto
  have "filter (\<lambda>(k, v). k = field) (rev members) = rev (filter (\<lambda>(k, v). k = field) members)" by (simp add: rev_filter)
  moreover have "k = field" using arg_cong[OF assms, of set] by auto
  ultimately show ?thesis using assms keep[of "rev members"] by simp
qed

lemma worker_sees_classified:
  assumes "method_field j = Some x" "Option.bind (json_get ''method'' j) json_as_str = Some m"
  shows "x = Some m"
proof -
  obtain v where v: "json_get ''method'' j = Some v" "json_as_str v = Some m" using assms(2) by (auto simp: bind_eq_Some_conv)
  then obtain members where j: "j = JObj members" "map_of (rev members) ''method'' = Some v"
    by (auto simp: json_get_def split: json.splits)
  obtain e where e: "v = JStr e m" using v(2) by (auto simp: json_as_str_def split: json.splits)
  have "filter (\<lambda>(k, v). k = ''method'') members \<noteq> []"
    using map_of_SomeD[OF j(2)] by (auto simp: filter_empty_conv)
  with assms(1) j obtain k w where w: "filter (\<lambda>(k, v). k = ''method'') members = [(k, w)]" "de_option de_str w = Some x"
    by (auto simp: method_field_def de_struct1_def split: list.splits)
  with filter_last_member[OF w(1)] j e have "de_option de_str (JStr e m) = Some x" by simp
  then show ?thesis by (auto simp: de_option_def de_str_def split: if_splits)
qed

lemma worker_finds_classified:
  assumes "de_all method_field calls = Some ms"
  shows "length (filter (\<lambda>call. Option.bind (json_get ''method'' call) json_as_str = Some m) calls) \<le>
    length (filter (\<lambda>x. x = m) (List.map_filter id ms)) \<and> length ms = length calls"
  using assms
proof (induction calls arbitrary: ms)
  case (Cons j calls)
  then obtain x xs where x: "method_field j = Some x" "de_all method_field calls = Some xs" "ms = x # xs"
    by (auto split: option.splits)
  with Cons.IH[OF x(2)] worker_sees_classified[OF x(1), of m] show ?case
    by (cases x) (auto simp: map_filter_simps)
qed simp

text \<open>C16. The number of getTransaction calls a batch is classified with is never below the number the
analytics worker finds in the same body, although the two read it with different JSON readers.\<close>

theorem classification_covers_worker:
  assumes "classify_request parse body fh = Some c"
    and "case parse body of Some (JArr calls) \<Rightarrow> length calls < 2 ^ 64 | _ \<Rightarrow> True"
  shows "well_classified parse (rq_historical c) body"
proof (cases "rq_historical c")
  case (HistBatch n)
  with assms(1) obtain ms where ms: "Option.bind (parse body) (de_vec method_field) = Some ms"
    "classify_batch (List.map_filter id ms) fh = Some c"
    by (auto simp: classify_request_def classify_single_def split: option.splits if_splits)
  then obtain calls where calls: "parse body = Some (JArr calls)" "de_all method_field calls = Some ms"
    by (cases "parse body"; cases "the (parse body)") (auto simp: de_vec_def)
  let ?k = "length (filter (\<lambda>m. m = ''getTransaction'') (List.map_filter id ms))"
  have n: "n = of_nat ?k"
    using ms(2) HistBatch by (auto simp: classify_batch_def Let_def split: if_splits)
  have "?k \<le> length ms" unfolding map_filter_def by (metis (no_types, lifting) length_filter_le length_map order_trans)
  then have "?k < 2 ^ 64" using assms(2) calls worker_finds_classified[OF calls(2)] by simp
  then have "unat n = ?k" by (simp add: n unat_of_nat take_bit_nat_eq_self)
  then show ?thesis
    using HistBatch worker_finds_classified[OF calls(2), of "''getTransaction''"]
    by (simp add: well_classified_def batch_commitments_def calls(1))
qed (simp_all add: well_classified_def)

theorem classification_covers_worker_witness:
  "well_classified (\<lambda>_. Some (JArr [JObj [(''method'', JStr False ''getTransaction'')]])) (HistBatch 1) [91]"
proof -
  let ?p = "\<lambda>_. Some (JArr [JObj [(''method'', JStr False ''getTransaction'')]])"
  obtain c where c: "classify_request ?p [91] [] = Some c" "rq_historical c = HistBatch 1"
    by (simp add: classify_request_def is_ascii_whitespace_def method_field_def de_struct1_def de_option_def de_str_def de_vec_def
        classify_batch_def push_unique_def map_filter_simps Let_def)
  show ?thesis using classification_covers_worker[OF c(1)] by (simp add: c(2))
qed

end
