(* ===== verification/Sequential.thy ===== *)
theory Sequential
  imports Proxy "HOL-Library.Sublist"
begin

text \<open>
  The fail-over loop of \<open>sequential\<close> (\<open>src/src/proxy.rs\<close>): which providers are asked and in which order, when the
  loop stops, where the client's answer comes from, when the client sees a failure, and what happens after a
  history miss. The definitions of this theory are specification vocabulary; the loop itself is in \<open>Proxy\<close>.
\<close>

text \<open>
  The shape of one turn of the loop: the provider is skipped, or it is asked and its reply ends the loop
  or not. Every proof about the loop is an induction over this case distinction.
\<close>

definition seq_state :: "bool \<Rightarrow> turn \<Rightarrow> provider_config \<Rightarrow> string \<Rightarrow> seq_locals \<Rightarrow> proxy_state \<Rightarrow> proxy_state" where
  "seq_state gate t p name l s = tn_env t (note_failover name l (snd (rate_gate (tn_now t) gate p name s)))"

definition seq_count :: "string \<Rightarrow> outbound \<Rightarrow> seq_locals \<Rightarrow> seq_locals" where
  "seq_count name out l = l\<lparr>sl_attempt := sl_attempt l + 1, sl_sent := sl_sent l @ [(name, out)]\<rparr>"

text \<open>What a forward of \<open>n\<close> is: the configured provider, the client's body, and nothing of its own.\<close>

definition sent_ok :: "config \<Rightarrow> request_ctx \<Rightarrow> string \<times> outbound \<Rightarrow> bool" where
  "sent_ok cfg ctx e \<longleftrightarrow>
     (\<exists>p. find_provider cfg (fst e) = Some p \<and> snd e = forward_request p (cx_headers ctx) (cx_body ctx))"

text \<open>A reply after which the loop asks the next provider, whatever the history depth.\<close>

definition seq_retries :: "json_parser \<Rightarrow> request_ctx \<Rightarrow> provider_config \<Rightarrow> string + u16 \<times> bytes \<Rightarrow> bool" where
  "seq_retries parse ctx p res \<longleftrightarrow>
     (case res of
        Inl _ \<Rightarrow> True
      | Inr (status, body) \<Rightarrow>
          is_retryable_http status \<or>
          (is_success status \<and>
           \<not> (cx_history_lookup ctx \<and> is_history_miss parse p (extract_rpc_error_code parse body) body) \<and>
           (case extract_rpc_error_code parse body of None \<Rightarrow> False | Some c \<Rightarrow> is_retryable_rpc_code c)))"

text \<open>A provider that the loop can ask: configured, with a client, and not subject to the rate gate.\<close>

definition askable :: "config \<Rightarrow> bool \<Rightarrow> proxy_state \<Rightarrow> string \<Rightarrow> provider_config \<Rightarrow> bool" where
  "askable cfg gate s n p \<longleftrightarrow>
     find_provider cfg n = Some p \<and> client_for n s \<noteq> None \<and> (gate \<longrightarrow> pv_max_rps p = None)"

definition reply_to :: "(string \<Rightarrow> turn) \<Rightarrow> string \<times> outbound \<Rightarrow> string + u16 \<times> bytes" where
  "reply_to turns e = tn_reply (turns (fst e)) (snd e)"

text \<open>The response is the reply to one of the forwards, which the loop does not retry on its status.\<close>

definition came_from :: "(string \<Rightarrow> turn) \<Rightarrow> (string \<times> outbound) list \<Rightarrow> response \<Rightarrow> bool" where
  "came_from turns es r \<longleftrightarrow>
     (\<exists>e st. e \<in> set es \<and> reply_to turns e = Inr (st, rs_body r) \<and> \<not> is_retryable_http st \<and>
        rs_status r = (if is_success st then 200 else status_or_bad_gateway st))"

definition kept_ok :: "(string \<Rightarrow> turn) \<Rightarrow> seq_locals \<Rightarrow> bool" where
  "kept_ok turns l \<longleftrightarrow> (\<forall>b. sl_miss l = Some b \<or> sl_retried l = Some b \<longrightarrow>
     came_from turns (sl_sent l) (json_response 200 b))"

definition failed_reply :: "string + u16 \<times> bytes \<Rightarrow> bool" where
  "failed_reply res \<longleftrightarrow> (case res of Inl _ \<Rightarrow> True | Inr (st, _) \<Rightarrow> is_retryable_http st)"

definition nothing_kept :: "seq_locals \<Rightarrow> bool" where
  "nothing_kept l \<longleftrightarrow> sl_miss l = None \<and> sl_retried l = None"

text \<open>Every HTTP status code the client library reports is in the range of \<open>StatusCode\<close>.\<close>

definition valid_statuses :: "(string \<Rightarrow> turn) \<Rightarrow> bool" where
  "valid_statuses turns \<longleftrightarrow> (\<forall>n out st b. tn_reply (turns n) out = Inr (st, b) \<longrightarrow> 100 \<le> st \<and> st < 1000)"

definition is_miss_reply :: "json_parser \<Rightarrow> config \<Rightarrow> request_ctx \<Rightarrow> (string \<Rightarrow> turn) \<Rightarrow> string \<times> outbound \<Rightarrow> bool" where
  "is_miss_reply parse cfg ctx turns e \<longleftrightarrow>
     cx_history_lookup ctx \<and>
     (case (find_provider cfg (fst e), reply_to turns e) of
        (Some p, Inr (st, b)) \<Rightarrow> is_success st \<and> is_history_miss parse p (extract_rpc_error_code parse b) b
      | _ \<Rightarrow> False)"

definition keeps_full_history :: "config \<Rightarrow> string \<times> outbound \<Rightarrow> bool" where
  "keeps_full_history cfg e \<longleftrightarrow> (case find_provider cfg (fst e) of Some p \<Rightarrow> pv_history p = Full | None \<Rightarrow> False)"

fun full_after_miss :: "json_parser \<Rightarrow> config \<Rightarrow> request_ctx \<Rightarrow> (string \<Rightarrow> turn) \<Rightarrow> (string \<times> outbound) list \<Rightarrow> bool" where
  "full_after_miss parse cfg ctx turns [] = True"
| "full_after_miss parse cfg ctx turns (e # es) =
     (if is_miss_reply parse cfg ctx turns e then list_all (keeps_full_history cfg) es
      else full_after_miss parse cfg ctx turns es)"

definition demo_config :: config where
  "demo_config =
     \<lparr>cfg_server = default_server, cfg_health = default_health, cfg_routing = default_routing,
      cfg_providers = [default_provider ''a'' ''u'', default_provider ''b'' ''v''], cfg_reporting = None,
      cfg_historical = None\<rparr>"

definition demo_state :: proxy_state where
  "demo_state = proxy_new 0 0 (metrics_new ''0.1.0'' None None None) demo_config NoopReporter"

definition demo_parse :: json_parser where
  "demo_parse body = (if body = [9] then Some (JObj [(''error'', JObj [(''code'', JInt (- 32602))])])
     else Some (JObj [(''result'', JInt 7)]))"

definition demo_turn :: "nat \<Rightarrow> string + u16 \<times> bytes \<Rightarrow> turn" where
  "demo_turn at' res = \<lparr>tn_now = 0, tn_reply = (\<lambda>_. res), tn_env = (\<lambda>s. s), tn_latency_ms = Fin 5, tn_readings = (0, 0, 0),
     tn_finish_now = 0, tn_done_at = at', tn_panics = False\<rparr>"

definition demo_turns :: "string + u16 \<times> bytes \<Rightarrow> string + u16 \<times> bytes \<Rightarrow> string \<Rightarrow> turn" where
  "demo_turns a b n = (if n = ''a'' then demo_turn 0 a else demo_turn 1 b)"

definition demo_ctx :: request_ctx where
  "demo_ctx = \<lparr>cx_method = ''getSlot'', cx_headers = (\<lambda>_. None), cx_body = [1], cx_count = 1, cx_history_lookup = False,
     cx_transaction = TxNone, cx_historical = HistNone, cx_tips = cs_default\<rparr>"

section \<open>The fail-over loop\<close>

lemma seq_reply_locals [simp]:
  "sl_attempt (fst (snd (seq_reply parse cfg ctx limit later name p t res l s))) = sl_attempt l"
  "sl_sent (fst (snd (seq_reply parse cfg ctx limit later name p t res l s))) = sl_sent l"
  by (auto simp: seq_reply_def Let_def split: sum.split prod.split)

lemma seq_loop_Cons:
  "seq_loop parse cfg ctx gate limit turns (name # later) l s =
     (if limit \<le> sl_attempt l then (None, l, s)
      else case find_provider cfg name of
        None \<Rightarrow> seq_loop parse cfg ctx gate limit turns later l s
      | Some p \<Rightarrow>
          if (sl_miss l \<noteq> None \<and> pv_history p = Recent) \<or> client_for name s = None
          then seq_loop parse cfg ctx gate limit turns later l s
          else if \<not> fst (rate_gate (tn_now (turns name)) gate p name s)
          then seq_loop parse cfg ctx gate limit turns later l (snd (rate_gate (tn_now (turns name)) gate p name s))
          else case seq_reply parse cfg ctx limit later name p (turns name)
              (tn_reply (turns name) (forward_request p (cx_headers ctx) (cx_body ctx)))
              (seq_count name (forward_request p (cx_headers ctx) (cx_body ctx)) l)
              (seq_state gate (turns name) p name l s) of
                (r, l', s') \<Rightarrow>
                  (case r of Some resp \<Rightarrow> (Some resp, l', s')
                   | None \<Rightarrow> seq_loop parse cfg ctx gate limit turns later l' s'))"
  by (auto simp: seq_loop.simps(2) Let_def case_prod_beta seq_state_def seq_count_def split: option.split)

lemma seq_loop_cases:
  obtains
    (stop) "seq_loop parse cfg ctx gate limit turns (name # later) l s = (None, l, s)" "limit \<le> sl_attempt l"
  | (skip) s' where "seq_loop parse cfg ctx gate limit turns (name # later) l s =
        seq_loop parse cfg ctx gate limit turns later l s'"
  | (ask) p out r l' s' where "find_provider cfg name = Some p" "sl_attempt l < limit"
      "sl_miss l = None \<or> pv_history p = Full"
      "out = forward_request p (cx_headers ctx) (cx_body ctx)"
      "seq_reply parse cfg ctx limit later name p (turns name) (tn_reply (turns name) out) (seq_count name out l)
         (seq_state gate (turns name) p name l s) = (r, l', s')"
      "seq_loop parse cfg ctx gate limit turns (name # later) l s =
         (case r of Some resp \<Rightarrow> (Some resp, l', s') | None \<Rightarrow> seq_loop parse cfg ctx gate limit turns later l' s')"
proof (cases "sl_attempt l < limit \<and> (\<exists>p. find_provider cfg name = Some p \<and>
    (sl_miss l = None \<or> pv_history p \<noteq> Recent) \<and> client_for name s \<noteq> None \<and>
    fst (rate_gate (tn_now (turns name)) gate p name s))")
  case True
  then obtain p where p: "find_provider cfg name = Some p" "sl_miss l = None \<or> pv_history p \<noteq> Recent"
      "client_for name s \<noteq> None" "fst (rate_gate (tn_now (turns name)) gate p name s)" by blast
  obtain r l' s' where r: "seq_reply parse cfg ctx limit later name p (turns name)
      (tn_reply (turns name) (forward_request p (cx_headers ctx) (cx_body ctx)))
      (seq_count name (forward_request p (cx_headers ctx) (cx_body ctx)) l)
      (seq_state gate (turns name) p name l s) = (r, l', s')" by (metis prod_cases3)
  have "pv_history p \<noteq> Recent \<Longrightarrow> pv_history p = Full" by (cases "pv_history p") auto
  with p(2) have "sl_miss l = None \<or> pv_history p = Full" by blast
  moreover have "seq_loop parse cfg ctx gate limit turns (name # later) l s =
      (case r of Some resp \<Rightarrow> (Some resp, l', s') | None \<Rightarrow> seq_loop parse cfg ctx gate limit turns later l' s')"
    using True p r by (subst seq_loop_Cons) auto
  ultimately show ?thesis using ask[OF p(1) _ _ refl r] True by blast
next
  case False
  show ?thesis
  proof (cases "limit \<le> sl_attempt l")
    case True
    then show ?thesis using stop by (simp add: seq_loop_Cons)
  next
    case lt: False
    with False have "\<exists>s'. seq_loop parse cfg ctx gate limit turns (name # later) l s =
        seq_loop parse cfg ctx gate limit turns later l s'"
      by (subst seq_loop_Cons) (auto split: option.split)
    then show ?thesis using skip by blast
  qed
qed

lemma seq_count_simps [simp]:
  "sl_attempt (seq_count n out l) = Suc (sl_attempt l)" "sl_sent (seq_count n out l) = sl_sent l @ [(n, out)]"
  "sl_miss (seq_count n out l) = sl_miss l" "sl_retried (seq_count n out l) = sl_retried l"
  by (simp_all add: seq_count_def)

lemma seq_loop_sent:
  assumes "seq_loop parse cfg ctx gate limit turns providers l s = (r, l', s')"
  shows "\<exists>es. sl_sent l' = sl_sent l @ es \<and> sl_attempt l' = sl_attempt l + length es \<and>
    length es \<le> limit - sl_attempt l \<and> subseq (map fst es) providers \<and> list_all (sent_ok cfg ctx) es"
  using assms
proof (induction providers arbitrary: l s)
  case (Cons name later)
  show ?case
  proof (cases rule: seq_loop_cases[of parse cfg ctx gate limit turns name later l s])
    case stop
    with Cons.prems show ?thesis by (intro exI[of _ "[]"]) auto
  next
    case (skip s1)
    with Cons.IH[of l s1] Cons.prems show ?thesis by auto
  next
    case (ask p out r1 l1 s1)
    have l1: "sl_attempt l1 = Suc (sl_attempt l)" "sl_sent l1 = sl_sent l @ [(name, out)]"
      using seq_reply_locals[of parse cfg ctx limit later name p "turns name" "tn_reply (turns name) out"
          "seq_count name out l" "seq_state gate (turns name) p name l s"] ask(5) by simp_all
    have ok: "sent_ok cfg ctx (name, out)" using ask by (simp add: sent_ok_def)
    show ?thesis
    proof (cases r1)
      case None
      with ask(6) Cons.prems have "seq_loop parse cfg ctx gate limit turns later l1 s1 = (r, l', s')" by simp
      from Cons.IH[OF this] l1 obtain es where "sl_sent l' = sl_sent l @ (name, out) # es"
        "sl_attempt l' = sl_attempt l + length ((name, out) # es)" "length es \<le> limit - Suc (sl_attempt l)"
        "subseq (map fst es) later" "list_all (sent_ok cfg ctx) es" by auto
      with ask(2) ok show ?thesis by (intro exI[of _ "(name, out) # es"]) auto
    next
      case (Some resp)
      with ask(6) Cons.prems have "l' = l1" by simp
      with l1 ask(2) ok show ?thesis by (intro exI[of _ "[(name, out)]"]) auto
    qed
  qed
qed simp

lemma sequential_locals:
  "fst (snd (sequential parse print cfg providers ctx gate turns now s)) =
   fst (snd (seq_loop parse cfg ctx gate (max_attempts cfg providers) turns providers seq_start s))"
  by (simp add: sequential_def Let_def split: prod.split option.split)

text \<open>C8. The sequential path makes at most max_retries + 1 forwards (in the machine's arithmetic), asks
the listed providers in their order, each at most once, and only with the client's request.\<close>

theorem sequential_attempts_bounded:
  "length (sl_sent (fst (snd (sequential parse print cfg providers ctx gate turns now s))))
     \<le> min (unat (rc_max_retries (cfg_routing cfg) + 1)) (length providers) \<and>
   subseq (map fst (sl_sent (fst (snd (sequential parse print cfg providers ctx gate turns now s))))) providers \<and>
   list_all (sent_ok cfg ctx) (sl_sent (fst (snd (sequential parse print cfg providers ctx gate turns now s))))"
proof -
  obtain r l s' where "seq_loop parse cfg ctx gate (max_attempts cfg providers) turns providers seq_start s = (r, l, s')"
    by (metis prod_cases3)
  with seq_loop_sent[OF this] show ?thesis
    unfolding sequential_locals by (auto simp: seq_start_def max_attempts_def)
qed

section \<open>What ends the loop\<close>

lemma seq_reply_retries:
  assumes "seq_retries parse ctx p res" "sl_attempt l < limit"
  shows "fst (seq_reply parse cfg ctx limit later name p t res l s) = None \<and>
    sl_miss (fst (snd (seq_reply parse cfg ctx limit later name p t res l s))) = sl_miss l"
  using assms success_not_retryable
  by (auto simp: seq_reply_def seq_retries_def Let_def split: sum.splits option.splits)

lemma seq_reply_ok:
  assumes "from_leg parse status body (cx_history_lookup ctx) p = OkOutcome"
  shows "fst (seq_reply parse cfg ctx limit later name p t (Inr (status, body)) l s) = Some (json_response 200 body)"
proof -
  have "extract_rpc_error_code parse body = None"
    using assms code_implies_error by (cases "extract_rpc_error_code parse body") (auto simp: from_leg_ok)
  with assms show ?thesis
    by (auto simp: seq_reply_def from_leg_ok Let_def success_not_retryable status_or_bad_gateway_def)
qed

lemma recorder_record_clients [simp]: "ps_clients (recorder_record ts me n oc ms c s) = ps_clients s"
  by (simp add: recorder_record_def upd_monitor_def upd_reporter_def upd_metrics_def)

lemma rate_gate_clients [simp]: "ps_clients (snd (rate_gate now gate p n s)) = ps_clients s"
  by (simp add: rate_gate_def upd_metrics_def case_prod_beta Let_def)

lemma note_failover_clients [simp]: "ps_clients (note_failover n l s) = ps_clients s"
  by (simp add: note_failover_def upd_metrics_def upd_reporter_def split: option.split)

lemma tx_finish_clients [simp]: "ps_clients (tx_finish c b a s) = ps_clients s"
  by (simp add: tx_finish_def Let_def upd_metrics_def upd_reporter_def split: transaction_request.split)

lemma finish_analytics_clients [simp]: "ps_clients (finish_analytics now ctx b st a s) = ps_clients s"
  by (simp add: finish_analytics_def Let_def split: option.split)

lemma seq_reply_clients [simp]:
  "ps_clients (snd (snd (seq_reply parse cfg ctx limit later name p t res l s))) = ps_clients s"
  by (simp add: seq_reply_def Let_def split: sum.split)

lemma rate_gate_pass: "gate \<longrightarrow> pv_max_rps p = None \<Longrightarrow> fst (rate_gate now gate p n s)"
  by (auto simp: rate_gate_def case_prod_beta Let_def)

lemma askable_clients: "ps_clients s' = ps_clients s \<Longrightarrow> askable cfg gate s' n p = askable cfg gate s n p"
  by (simp add: askable_def client_for_def)

lemma seq_loop_ask:
  assumes "askable cfg gate s m p" "sl_attempt l < limit" "sl_miss l = None"
    and "seq_reply parse cfg ctx limit later m p (turns m)
      (tn_reply (turns m) (forward_request p (cx_headers ctx) (cx_body ctx)))
      (seq_count m (forward_request p (cx_headers ctx) (cx_body ctx)) l) (seq_state gate (turns m) p m l s) = (r, l1, s1)"
  shows "seq_loop parse cfg ctx gate limit turns (m # later) l s =
    (case r of Some resp \<Rightarrow> (Some resp, l1, s1) | None \<Rightarrow> seq_loop parse cfg ctx gate limit turns later l1 s1)"
proof -
  have "fst (rate_gate (tn_now (turns m)) gate p m s)" using assms(1) by (simp add: askable_def rate_gate_pass)
  with assms show ?thesis by (auto simp: seq_loop_Cons askable_def)
qed

lemma seq_loop_reaches:
  assumes env: "\<And>m s. ps_clients (tn_env (turns m) s) = ps_clients s"
    and pre: "\<forall>m \<in> set pre. \<exists>p. askable cfg gate s m p \<and>
      seq_retries parse ctx p (tn_reply (turns m) (forward_request p (cx_headers ctx) (cx_body ctx)))"
    and n: "askable cfg gate s n p"
      "tn_reply (turns n) (forward_request p (cx_headers ctx) (cx_body ctx)) = Inr (status, body)"
      "from_leg parse status body (cx_history_lookup ctx) p = OkOutcome"
    and room: "sl_attempt l + length pre < limit" and miss: "sl_miss l = None"
  shows "\<exists>l' s'. seq_loop parse cfg ctx gate limit turns (pre @ n # post) l s =
      (Some (json_response 200 body), l', s') \<and> map fst (sl_sent l') = map fst (sl_sent l) @ pre @ [n]"
  using pre n(1) room miss
proof (induction pre arbitrary: l s)
  case Nil
  let ?out = "forward_request p (cx_headers ctx) (cx_body ctx)"
  let ?q = "seq_reply parse cfg ctx limit post n p (turns n) (Inr (status, body)) (seq_count n ?out l)
    (seq_state gate (turns n) p n l s)"
  have "fst ?q = Some (json_response 200 body)" by (rule seq_reply_ok[OF n(3)])
  moreover have "sl_sent (fst (snd ?q)) = sl_sent l @ [(n, ?out)]" by simp
  moreover obtain r l' s' where q: "?q = (r, l', s')" by (metis prod_cases3)
  ultimately show ?case
    using seq_loop_ask[where turns = turns, OF Nil(2) _ Nil(4) q[folded n(2)]] Nil(3) by simp
next
  case (Cons m pre)
  obtain pm where pm: "askable cfg gate s m pm"
    "seq_retries parse ctx pm (tn_reply (turns m) (forward_request pm (cx_headers ctx) (cx_body ctx)))"
    using Cons.prems(1) by auto
  let ?out = "forward_request pm (cx_headers ctx) (cx_body ctx)"
  let ?s = "seq_state gate (turns m) pm m l s"
  let ?q = "seq_reply parse cfg ctx limit (pre @ n # post) m pm (turns m) (tn_reply (turns m) ?out) (seq_count m ?out l) ?s"
  obtain r l1 s1 where q: "?q = (r, l1, s1)" by (metis prod_cases3)
  have l1: "r = None" "sl_miss l1 = None" "sl_attempt l1 = Suc (sl_attempt l)" "sl_sent l1 = sl_sent l @ [(m, ?out)]"
    using seq_reply_retries[OF pm(2), of "seq_count m ?out l" limit cfg "pre @ n # post" m "turns m" ?s]
      seq_reply_locals[of parse cfg ctx limit "pre @ n # post" m pm "turns m" "tn_reply (turns m) ?out" "seq_count m ?out l" ?s]
      q Cons.prems(3,4) by simp_all
  have "ps_clients ?s = ps_clients s" by (simp add: seq_state_def env)
  moreover have "ps_clients s1 = ps_clients ?s" using arg_cong[OF q, of "\<lambda>x. ps_clients (snd (snd x))"] by simp
  ultimately have "ps_clients s1 = ps_clients s" by simp
  then have ask: "askable cfg gate s1 = askable cfg gate s" by (intro ext askable_clients)
  have "seq_loop parse cfg ctx gate limit turns ((m # pre) @ n # post) l s =
      seq_loop parse cfg ctx gate limit turns (pre @ n # post) l1 s1"
    using seq_loop_ask[where turns = turns, OF pm(1) _ Cons.prems(4) q] l1(1) Cons.prems(3) by simp
  moreover have "\<exists>l' s'. seq_loop parse cfg ctx gate limit turns (pre @ n # post) l1 s1 =
      (Some (json_response 200 body), l', s') \<and> map fst (sl_sent l') = map fst (sl_sent l1) @ pre @ [n]"
    using Cons.prems l1 by (intro Cons.IH) (simp_all add: ask)
  ultimately show ?case using l1(4) by auto
qed

text \<open>C5. If the providers before one all fail in a retryable way and that one answers successfully,
within the attempt limit and with nobody capped, the client gets exactly that answer, whatever the
other tasks do meanwhile to health and metrics.\<close>

theorem failover_reaches_first_success:
  assumes "\<forall>m s. ps_clients (tn_env (turns m) s) = ps_clients s"
    and "\<forall>m \<in> set pre. \<exists>p. askable cfg gate s m p \<and>
      seq_retries parse ctx p (tn_reply (turns m) (forward_request p (cx_headers ctx) (cx_body ctx)))"
    and "askable cfg gate s n p"
      "tn_reply (turns n) (forward_request p (cx_headers ctx) (cx_body ctx)) = Inr (status, body)"
      "from_leg parse status body (cx_history_lookup ctx) p = OkOutcome"
    and "length pre < unat (rc_max_retries (cfg_routing cfg) + 1)"
  shows "fst (sequential parse print cfg (pre @ n # post) ctx gate turns now s) = json_response 200 body \<and>
    map fst (sl_sent (fst (snd (sequential parse print cfg (pre @ n # post) ctx gate turns now s)))) = pre @ [n]"
proof -
  have "\<exists>l' s'. seq_loop parse cfg ctx gate (max_attempts cfg (pre @ n # post)) turns (pre @ n # post) seq_start s =
      (Some (json_response 200 body), l', s') \<and> map fst (sl_sent l') = map fst (sl_sent seq_start) @ pre @ [n]"
    using assms by (intro seq_loop_reaches) (auto simp: seq_start_def max_attempts_def)
  then show ?thesis by (auto simp: sequential_def seq_start_def)
qed

section \<open>Where an answer comes from\<close>

lemma came_from_mono: "came_from turns es r \<Longrightarrow> set es \<subseteq> set es' \<Longrightarrow> came_from turns es' r"
  unfolding came_from_def by blast

lemma came_from_reply:
  assumes "(name, out) \<in> set es" "tn_reply (turns name) out = Inr (st, b)" "is_success st"
  shows "came_from turns es (json_response 200 b)"
  unfolding came_from_def
  using assms success_not_retryable[OF assms(3)]
  by (intro exI[of _ "(name, out)"] exI[of _ st]) (simp add: reply_to_def json_response_def)

lemma came_from_error:
  assumes "(name, out) \<in> set es" "tn_reply (turns name) out = Inr (st, b)" "\<not> is_success st" "\<not> is_retryable_http st"
  shows "came_from turns es (json_response (status_or_bad_gateway st) b)"
  unfolding came_from_def
  using assms by (intro exI[of _ "(name, out)"] exI[of _ st]) (simp add: reply_to_def json_response_def)

lemma seq_reply_kept:
  assumes "kept_ok turns l" "(name, out) \<in> set (sl_sent l)"
    and "seq_reply parse cfg ctx limit later name p t (tn_reply (turns name) out) l s = (r, l', s')"
  shows "kept_ok turns l' \<and> (case r of Some resp \<Rightarrow> came_from turns (sl_sent l') resp | None \<Rightarrow> True)"
proof (cases "tn_reply (turns name) out")
  case (Inl e)
  with assms show ?thesis by (auto simp: seq_reply_def Let_def kept_ok_def)
next
  case (Inr sb)
  obtain st b where sb: "sb = (st, b)" by force
  note reply = Inr[unfolded sb]
  show ?thesis
  proof (cases "is_success st")
    case True
    have src: "came_from turns (sl_sent l) (json_response 200 b)" by (rule came_from_reply[where turns = turns, OF assms(2) reply True])
    have "came_from turns (sl_sent l) (json_response 200 (unwrap_or (sl_miss l) b))"
      using src assms(1) by (cases "sl_miss l") (auto simp: kept_ok_def unwrap_or_def)
    moreover have "status_or_bad_gateway 200 = 200" by (simp add: status_or_bad_gateway_def)
    moreover note assms True reply src success_not_retryable[OF True]
    ultimately show ?thesis
      by (auto simp: seq_reply_def Let_def kept_ok_def split: if_splits option.splits)
  next
    case False
    with assms reply came_from_error[of name out "sl_sent l" turns st b] show ?thesis
      by (auto simp: seq_reply_def Let_def kept_ok_def split: if_splits)
  qed
qed

lemma kept_ok_count: "kept_ok turns l \<Longrightarrow> kept_ok turns (seq_count n out l)"
  unfolding kept_ok_def by (auto intro: came_from_mono)

lemma seq_loop_kept:
  assumes "kept_ok turns l" "seq_loop parse cfg ctx gate limit turns providers l s = (r, l', s')"
  shows "kept_ok turns l' \<and> (case r of Some resp \<Rightarrow> came_from turns (sl_sent l') resp | None \<Rightarrow> True)"
  using assms
proof (induction providers arbitrary: l s)
  case (Cons name later)
  show ?case
  proof (cases rule: seq_loop_cases[of parse cfg ctx gate limit turns name later l s])
    case (ask p out r1 l1 s1)
    have k: "kept_ok turns l1 \<and> (case r1 of Some resp \<Rightarrow> came_from turns (sl_sent l1) resp | None \<Rightarrow> True)"
      using seq_reply_kept[OF kept_ok_count[OF Cons.prems(1)] _ ask(5)] by simp
    show ?thesis
    proof (cases r1)
      case None
      with ask(6) Cons.prems(2) have "seq_loop parse cfg ctx gate limit turns later l1 s1 = (r, l', s')" by simp
      with k Cons.IH show ?thesis by blast
    next
      case (Some resp)
      with k ask(6) Cons.prems(2) show ?thesis by auto
    qed
  qed (use Cons in auto)
qed auto

text \<open>C7. Every answer of the sequential path is the body of a reply to one of the forwards that were
made, or the synthetic 502: no answer is made up or mixed.\<close>

theorem sequential_answer_is_a_reply:
  "fst (sequential parse print cfg providers ctx gate turns now s) =
     json_response 502 (json_error_body print (- 32603) ''all providers failed'') \<or>
   came_from turns (sl_sent (fst (snd (sequential parse print cfg providers ctx gate turns now s))))
     (fst (sequential parse print cfg providers ctx gate turns now s))"
proof -
  obtain r l s' where loop: "seq_loop parse cfg ctx gate (max_attempts cfg providers) turns providers seq_start s = (r, l, s')"
    by (metis prod_cases3)
  have "kept_ok turns seq_start" by (simp add: kept_ok_def seq_start_def)
  from seq_loop_kept[OF this loop] show ?thesis
    unfolding sequential_locals using loop
    by (auto simp: sequential_def kept_ok_def Let_def split: option.splits)
qed

section \<open>When the client sees a failure\<close>

lemma seq_reply_nothing_kept:
  assumes "seq_reply parse cfg ctx limit later name p t res l s = (None, l', s')" "nothing_kept l'"
  shows "nothing_kept l \<and> failed_reply res"
  using assms by (auto simp: seq_reply_def Let_def nothing_kept_def failed_reply_def split: sum.splits if_splits prod.splits)

lemma seq_reply_kept_mono:
  "nothing_kept (fst (snd (seq_reply parse cfg ctx limit later name p t res l s))) \<Longrightarrow> nothing_kept l"
  by (auto simp: seq_reply_def Let_def nothing_kept_def split: sum.splits if_splits prod.splits)

lemma seq_loop_kept_mono:
  "nothing_kept (fst (snd (seq_loop parse cfg ctx gate limit turns providers l s))) \<Longrightarrow> nothing_kept l"
proof (induction providers arbitrary: l s)
  case (Cons name later)
  show ?case
  proof (cases rule: seq_loop_cases[of parse cfg ctx gate limit turns name later l s])
    case (ask p out r1 l1 s1)
    have "nothing_kept l1"
      using Cons.prems Cons.IH[of l1 s1] ask(6) by (cases r1) simp_all
    then have "nothing_kept (seq_count name out l)"
      using seq_reply_kept_mono[of parse cfg ctx limit later name p "turns name" "tn_reply (turns name) out"] ask(5)
      by (metis fst_conv snd_conv)
    then show ?thesis by (simp add: nothing_kept_def)
  qed (use Cons in auto)
qed simp

lemma seq_loop_nothing_kept:
  assumes "seq_loop parse cfg ctx gate limit turns providers l s = (None, l', s')" "nothing_kept l'"
    and "list_all (\<lambda>e. failed_reply (reply_to turns e)) (sl_sent l)"
  shows "list_all (\<lambda>e. failed_reply (reply_to turns e)) (sl_sent l')"
  using assms
proof (induction providers arbitrary: l s)
  case (Cons name later)
  show ?case
  proof (cases rule: seq_loop_cases[of parse cfg ctx gate limit turns name later l s])
    case (ask p out r1 l1 s1)
    have r1: "r1 = None" using ask(6) Cons.prems(1) by (cases r1) simp_all
    with ask(6) Cons.prems(1) have loop: "seq_loop parse cfg ctx gate limit turns later l1 s1 = (None, l', s')" by simp
    with Cons.prems(2) have "nothing_kept l1"
      using seq_loop_kept_mono[of parse cfg ctx gate limit turns later l1 s1] by simp
    with seq_reply_nothing_kept ask(5) r1 have "failed_reply (tn_reply (turns name) out)" by blast
    moreover have "sl_sent l1 = sl_sent l @ [(name, out)]"
      using arg_cong[OF ask(5), of "\<lambda>x. sl_sent (fst (snd x))"] by simp
    ultimately show ?thesis
      using Cons.IH[OF loop Cons.prems(2)] Cons.prems(3) by (simp add: reply_to_def)
  qed (use Cons in auto)
qed simp

text \<open>C6. The client sees the synthetic 502 only if every forward that was made failed in transport or
with a retryable status.\<close>

theorem bad_gateway_only_if_all_failed:
  assumes "valid_statuses turns"
    and "rs_status (fst (sequential parse print cfg providers ctx gate turns now s)) = 502"
  shows "list_all (\<lambda>e. failed_reply (reply_to turns e))
    (sl_sent (fst (snd (sequential parse print cfg providers ctx gate turns now s))))"
proof -
  obtain r l s' where loop: "seq_loop parse cfg ctx gate (max_attempts cfg providers) turns providers seq_start s = (r, l, s')"
    by (metis prod_cases3)
  have "kept_ok turns seq_start" by (simp add: kept_ok_def seq_start_def)
  note kept = seq_loop_kept[OF this loop]
  have "r = None"
  proof (cases r)
    case (Some resp)
    with loop assms(2) have "rs_status resp = 502" by (simp add: sequential_def)
    moreover from Some kept have "came_from turns (sl_sent l) resp" by simp
    ultimately show ?thesis using assms(1)
      by (auto simp: came_from_def valid_statuses_def reply_to_def is_retryable_http_def status_or_bad_gateway_def
          split: if_splits)
  qed
  moreover from this have "nothing_kept l"
    using loop assms(2) by (auto simp: sequential_def nothing_kept_def json_response_def split: option.splits)
  ultimately show ?thesis
    unfolding sequential_locals using loop seq_loop_nothing_kept[of parse cfg ctx gate _ turns providers seq_start s l s']
    by (simp add: seq_start_def)
qed

section \<open>After a history miss\<close>

lemma full_implies_full_after_miss: "list_all (keeps_full_history cfg) es \<Longrightarrow> full_after_miss parse cfg ctx turns es"
  by (induction es) auto

lemma seq_reply_miss_mono:
  "sl_miss l \<noteq> None \<Longrightarrow> sl_miss (fst (snd (seq_reply parse cfg ctx limit later name p t res l s))) \<noteq> None"
  by (auto simp: seq_reply_def Let_def split: sum.splits)

lemma seq_reply_miss_sets:
  assumes "seq_reply parse cfg ctx limit later name p t (Inr (st, b)) l s = (None, l', s')"
    and "cx_history_lookup ctx" "is_success st" "is_history_miss parse p (extract_rpc_error_code parse b) b"
  shows "sl_miss l' \<noteq> None"
  using assms success_not_retryable[OF assms(3)] by (auto simp: seq_reply_def Let_def split: if_splits)

lemma seq_loop_full_after_miss:
  assumes "seq_loop parse cfg ctx gate limit turns providers l s = (r, l', s')"
  shows "\<exists>es. sl_sent l' = sl_sent l @ es \<and> full_after_miss parse cfg ctx turns es \<and>
    (sl_miss l \<noteq> None \<longrightarrow> list_all (keeps_full_history cfg) es)"
  using assms
proof (induction providers arbitrary: l s)
  case (Cons name later)
  show ?case
  proof (cases rule: seq_loop_cases[of parse cfg ctx gate limit turns name later l s])
    case stop
    with Cons.prems show ?thesis by (intro exI[of _ "[]"]) auto
  next
    case (skip s1)
    with Cons.IH[of l s1] Cons.prems show ?thesis by auto
  next
    case (ask p out r1 l1 s1)
    have l1: "sl_sent l1 = sl_sent l @ [(name, out)]"
      using arg_cong[OF ask(5), of "\<lambda>x. sl_sent (fst (snd x))"] by simp
    have mono: "sl_miss l \<noteq> None \<Longrightarrow> sl_miss l1 \<noteq> None"
      using seq_reply_miss_mono[of "seq_count name out l" parse cfg ctx limit later name p "turns name"
          "tn_reply (turns name) out" "seq_state gate (turns name) p name l s"] ask(5) by simp
    have full: "sl_miss l \<noteq> None \<Longrightarrow> keeps_full_history cfg (name, out)"
      using ask(1,3) by (auto simp: keeps_full_history_def)
    show ?thesis
    proof (cases r1)
      case None
      with ask(6) Cons.prems have "seq_loop parse cfg ctx gate limit turns later l1 s1 = (r, l', s')" by simp
      from Cons.IH[OF this] l1 obtain es where es: "sl_sent l' = sl_sent l @ (name, out) # es"
        "full_after_miss parse cfg ctx turns es" "sl_miss l1 \<noteq> None \<longrightarrow> list_all (keeps_full_history cfg) es" by auto
      have "is_miss_reply parse cfg ctx turns (name, out) \<Longrightarrow> sl_miss l1 \<noteq> None"
        using seq_reply_miss_sets ask(5)[unfolded None] ask(1)
        by (auto simp: is_miss_reply_def reply_to_def split: sum.splits)
      with es mono full show ?thesis by (intro exI[of _ "(name, out) # es"]) auto
    next
      case (Some resp)
      with ask(6) Cons.prems l1 full show ?thesis by (intro exI[of _ "[(name, out)]"]) auto
    qed
  qed
qed auto

text \<open>C9. After a history miss every later forward of the request goes to a provider that keeps the full
history.\<close>

theorem full_history_after_miss:
  "full_after_miss parse cfg ctx turns
     (sl_sent (fst (snd (sequential parse print cfg providers ctx gate turns now s))))"
proof -
  obtain r l s' where "seq_loop parse cfg ctx gate (max_attempts cfg providers) turns providers seq_start s = (r, l, s')"
    by (metis prod_cases3)
  with seq_loop_full_after_miss[OF this] show ?thesis unfolding sequential_locals by (auto simp: seq_start_def)
qed

lemma demo_clients: "client_for ''a'' demo_state \<noteq> None" "client_for ''b'' demo_state \<noteq> None"
  by (simp_all add: client_for_def demo_state_def proxy_new_def demo_config_def build_clients_def default_provider_def Let_def)

lemma demo_providers_found:
  "find_provider demo_config ''a'' = Some (default_provider ''a'' ''u'')"
  "find_provider demo_config ''b'' = Some (default_provider ''b'' ''v'')"
  by (simp_all add: find_provider_def demo_config_def default_provider_def)

lemma demo_turn_simps [simp]:
  "tn_reply (demo_turns a b n) out = (if n = ''a'' then a else b)" "tn_env (demo_turns a b n) s = s"
  "\<not> tn_panics (demo_turns a b n)" "tn_done_at (demo_turns a b n) = (if n = ''a'' then 0 else 1)"
  by (simp_all add: demo_turns_def demo_turn_def)

lemma demo_askable:
  "askable demo_config g demo_state ''a'' (default_provider ''a'' ''u'')"
  "askable demo_config g demo_state ''b'' (default_provider ''b'' ''v'')"
  using demo_clients by (simp_all add: askable_def demo_providers_found) (simp_all add: default_provider_def)

lemma demo_ok_leg: "from_leg demo_parse 200 [7] False p = OkOutcome"
  by (simp add: from_leg_ok is_success_def has_rpc_error_def demo_parse_def de_struct1_def)

theorem failover_reaches_first_success_witness:
  "fst (sequential demo_parse (\<lambda>_. []) demo_config ([''a''] @ ''b'' # []) demo_ctx True
     (demo_turns (Inl ''refused'') (Inr (200, [7]))) 0 demo_state) = json_response 200 [7]"
proof -
  have "seq_retries demo_parse demo_ctx p (Inl e)" for p e by (simp add: seq_retries_def)
  moreover have "from_leg demo_parse 200 [7] (cx_history_lookup demo_ctx) (default_provider ''b'' ''v'') = OkOutcome"
    using demo_ok_leg by (simp add: demo_ctx_def)
  moreover have "length [''a''] < unat (rc_max_retries (cfg_routing demo_config) + 1)"
    by (simp add: demo_config_def default_routing_def)
  ultimately show ?thesis
    using failover_reaches_first_success[of "demo_turns (Inl ''refused'') (Inr (200, [7]))" "[''a'']" demo_config True
        demo_state demo_parse demo_ctx "''b''" "default_provider ''b'' ''v''" 200 "[7]" "\<lambda>_. []" "[]" 0] demo_askable
    by fastforce
qed

lemma demo_all_fail:
  "rs_status (fst (sequential demo_parse (\<lambda>_. []) demo_config [''a''] demo_ctx True
     (demo_turns (Inr (503, [])) (Inl ''refused'')) 0 demo_state)) = 502"
proof -
  let ?turns = "demo_turns (Inr (503, [])) (Inl ''refused'')"
  let ?out = "forward_request (default_provider ''a'' ''u'') (cx_headers demo_ctx) (cx_body demo_ctx)"
  have "max_attempts demo_config [''a''] = 1" by (simp add: max_attempts_def demo_config_def default_routing_def)
  moreover obtain r l s where reply: "seq_reply demo_parse demo_config demo_ctx 1 [] ''a'' (default_provider ''a'' ''u'')
      (?turns ''a'') (tn_reply (?turns ''a'') ?out) (seq_count ''a'' ?out seq_start)
      (seq_state True (?turns ''a'') (default_provider ''a'' ''u'') ''a'' seq_start demo_state) = (r, l, s)"
    by (metis prod_cases3)
  moreover have "r = None \<and> nothing_kept l"
    using reply by (simp add: seq_reply_def is_retryable_http_def nothing_kept_def seq_start_def Let_def seq_count_def) auto
  moreover have "seq_loop demo_parse demo_config demo_ctx True 1 ?turns [''a''] seq_start demo_state =
      (case r of Some resp \<Rightarrow> (Some resp, l, s) | None \<Rightarrow> seq_loop demo_parse demo_config demo_ctx True 1 ?turns [] l s)"
    by (rule seq_loop_ask[where turns = ?turns, OF demo_askable(1) _ _ reply]) (simp_all add: seq_start_def)
  ultimately show ?thesis by (simp add: sequential_def nothing_kept_def json_response_def Let_def)
qed

theorem bad_gateway_only_if_all_failed_witness:
  "list_all (\<lambda>e. failed_reply (reply_to (demo_turns (Inr (503, [])) (Inl ''refused'')) e))
     (sl_sent (fst (snd (sequential demo_parse (\<lambda>_. []) demo_config [''a''] demo_ctx True
       (demo_turns (Inr (503, [])) (Inl ''refused'')) 0 demo_state))))"
  by (rule bad_gateway_only_if_all_failed[OF _ demo_all_fail]) (simp add: valid_statuses_def)

end
