(* ===== verification/Broadcast.thy ===== *)
theory Broadcast
  imports Sequential
begin

text \<open>
  The race of \<open>broadcast\<close> (\<open>src/src/proxy.rs\<close>): the first leg that succeeds answers the client, a lost race answers
  with an error of the highest rank, and every leg is recorded exactly once, by the race or by the drain.
\<close>

definition leg_ok :: "json_parser \<Rightarrow> request_ctx \<Rightarrow> (string \<Rightarrow> turn) \<Rightarrow> leg \<Rightarrow> bool" where
  "leg_ok parse ctx turns g \<longleftrightarrow> \<not> tn_panics (turns (fst g)) \<and>
     (case leg_result parse ctx (turns (fst g)) (snd g) of Inr (_, _, oc) \<Rightarrow> oc = OkOutcome | Inl _ \<Rightarrow> False)"

definition leg_rank :: "json_parser \<Rightarrow> request_ctx \<Rightarrow> (string \<Rightarrow> turn) \<Rightarrow> leg \<Rightarrow> nat option" where
  "leg_rank parse ctx turns g =
     (if tn_panics (turns (fst g)) then None
      else case leg_result parse ctx (turns (fst g)) (snd g) of
          Inl _ \<Rightarrow> None
        | Inr (st, b, oc) \<Rightarrow> Some (broadcast_error_rank oc st (extract_rpc_error_code parse b)))"

text \<open>The kept error is one of the highest rank over the legs that replied.\<close>

definition kept_error ::
  "json_parser \<Rightarrow> request_ctx \<Rightarrow> (string \<Rightarrow> turn) \<Rightarrow> leg list \<Rightarrow> (u16 \<times> bytes \<times> nat) option \<Rightarrow> bool" where
  "kept_error parse ctx turns legs best \<longleftrightarrow>
     (case best of
        None \<Rightarrow> (\<forall>g \<in> set legs. leg_rank parse ctx turns g = None)
      | Some (st, b, k) \<Rightarrow>
          (\<exists>n p oc. (n, p) \<in> set legs \<and> leg_result parse ctx (turns n) p = Inr (st, b, oc) \<and>
             leg_rank parse ctx turns (n, p) = Some k) \<and>
          (\<forall>g \<in> set legs. \<forall>k'. leg_rank parse ctx turns g = Some k' \<longrightarrow> k' \<le> k))"

fun is_request_call :: "metric_call \<Rightarrow> bool" where
  "is_request_call (IncBy Requests ls x) = True"
| "is_request_call _ = False"

definition request_log :: "proxy_state \<Rightarrow> metrics" where
  "request_log s = filter is_request_call (mo_metrics (ps_monitor s))"

definition leg_outcome :: "json_parser \<Rightarrow> request_ctx \<Rightarrow> (string \<Rightarrow> turn) \<Rightarrow> leg \<Rightarrow> outcome" where
  "leg_outcome parse ctx turns g =
     (case leg_result parse ctx (turns (fst g)) (snd g) of Inl _ \<Rightarrow> ProviderError | Inr (_, _, oc) \<Rightarrow> oc)"

definition leg_entry :: "json_parser \<Rightarrow> request_ctx \<Rightarrow> (string \<Rightarrow> turn) \<Rightarrow> leg \<Rightarrow> metric_call" where
  "leg_entry parse ctx turns g =
     IncBy Requests [cx_method ctx, fst g, label (leg_outcome parse ctx turns g)] (f64_of_nat (unat (cx_count ctx)))"

text \<open>
  What the request log gains while a leg finishes: what other tasks append during the wait, then the leg's
  own entry, unless its task panics.
\<close>

definition leg_gain :: "json_parser \<Rightarrow> request_ctx \<Rightarrow> (string \<Rightarrow> turn) \<Rightarrow> (string \<Rightarrow> metrics) \<Rightarrow> leg \<Rightarrow> metrics" where
  "leg_gain parse ctx turns added g =
     added (fst g) @ (if tn_panics (turns (fst g)) then [] else [leg_entry parse ctx turns g])"

definition legs_gain :: "json_parser \<Rightarrow> request_ctx \<Rightarrow> (string \<Rightarrow> turn) \<Rightarrow> (string \<Rightarrow> metrics) \<Rightarrow> leg list \<Rightarrow> metrics" where
  "legs_gain parse ctx turns added legs = concat (map (leg_gain parse ctx turns added) legs)"

section \<open>The race\<close>

lemma mset_completion_order [simp]: "mset (completion_order turns legs) = mset legs"
  by (simp add: completion_order_def)

lemma set_completion_order [simp]: "set (completion_order turns legs) = set legs"
  by (simp add: completion_order_def)

text \<open>The race stops at the first leg that succeeds, and what comes after it is left to the drain.\<close>

lemma bc_race_first_ok:
  assumes "\<forall>g \<in> set pre. \<not> leg_ok parse ctx turns g" "leg_ok parse ctx turns (n, p)"
  shows "\<exists>st b best' s'. leg_result parse ctx (turns n) p = Inr (st, b, OkOutcome) \<and>
    bc_race parse ctx turns (pre @ (n, p) # post) best s = (Some (n, b), post, best', s')"
  using assms(1)
proof (induction pre arbitrary: best s)
  case Nil
  then show ?case using assms(2) by (auto simp: leg_ok_def Let_def split: sum.splits)
next
  case (Cons g pre)
  obtain m q where g: "g = (m, q)" by force
  with Cons.prems have "\<not> leg_ok parse ctx turns (m, q)" by simp
  with Cons g show ?case by (auto simp: leg_ok_def Let_def split: sum.splits)
qed

lemma bc_race_none:
  assumes "\<forall>g \<in> set legs. \<not> leg_ok parse ctx turns g"
  shows "\<exists>best' s'. bc_race parse ctx turns legs best s = (None, [], best', s')"
  using assms
proof (induction legs arbitrary: best s)
  case (Cons g legs)
  obtain m q where g: "g = (m, q)" by force
  with Cons.prems have "\<not> leg_ok parse ctx turns (m, q)" by simp
  with Cons g show ?case by (auto simp: leg_ok_def Let_def split: sum.splits)
qed simp

text \<open>C10. In a broadcast, the first leg to finish with a 2xx reply without error body and without history
miss answers the client; legs that fail earlier never do, and the legs still running are left to the
drain.\<close>

theorem broadcast_first_success_wins:
  assumes "fan_out cfg gate turns providers s = (legs, s1)" "providers \<noteq> []"
    and "completion_order turns legs = pre @ (n, p) # post"
    and "\<forall>g \<in> set pre. \<not> leg_ok parse ctx turns g" "leg_ok parse ctx turns (n, p)"
  shows "\<exists>st b. leg_result parse ctx (turns n) p = Inr (st, b, OkOutcome) \<and>
    fst (broadcast parse print cfg providers ctx gate turns now s) = json_response 200 b \<and>
    fst (snd (snd (broadcast parse print cfg providers ctx gate turns now s))) = post"
proof -
  obtain st b best' s' where "leg_result parse ctx (turns n) p = Inr (st, b, OkOutcome)"
    "bc_race parse ctx turns (pre @ (n, p) # post) None s1 = (Some (n, b), post, best', s')"
    using bc_race_first_ok[OF assms(4,5)] by blast
  then show ?thesis using assms(1-3) by (simp add: broadcast_def)
qed

section \<open>The error of a lost race\<close>

lemma kept_error_skip:
  "leg_rank parse ctx turns g = None \<Longrightarrow> kept_error parse ctx turns legs best \<Longrightarrow>
   kept_error parse ctx turns (legs @ [g]) best"
  by (auto simp: kept_error_def split: option.splits)

lemma kept_error_better:
  assumes "kept_error parse ctx turns legs best" "leg_result parse ctx (turns n) p = Inr (st, b, oc)"
    and "leg_rank parse ctx turns (n, p) = Some k"
  shows "kept_error parse ctx turns (legs @ [(n, p)]) (better_error k st b best)"
proof (cases best)
  case None
  then show ?thesis using assms by (fastforce simp: kept_error_def better_error_def)
next
  case (Some q)
  obtain st0 b0 k0 where q: "q = (st0, b0, k0)" by (cases q) auto
  show ?thesis
  proof (cases "k0 < k")
    case True
    then show ?thesis using assms Some q by (fastforce simp: kept_error_def better_error_def)
  next
    case False
    then show ?thesis using assms Some q by (fastforce simp: kept_error_def better_error_def)
  qed
qed

lemma bc_race_kept_error:
  assumes "kept_error parse ctx turns seen best" "\<forall>g \<in> set legs. \<not> leg_ok parse ctx turns g"
  shows "\<exists>best' s'. bc_race parse ctx turns legs best s = (None, [], best', s') \<and>
    kept_error parse ctx turns (seen @ legs) best'"
  using assms
proof (induction legs arbitrary: seen best s)
  case (Cons g legs)
  obtain n p where g: "g = (n, p)" by force
  have nok: "\<not> leg_ok parse ctx turns (n, p)" "\<forall>g \<in> set legs. \<not> leg_ok parse ctx turns g" using Cons.prems g by auto
  show ?case
  proof (cases "leg_rank parse ctx turns (n, p)")
    case None
    from Cons.IH[OF kept_error_skip[OF None Cons.prems(1)] nok(2)] None g show ?thesis
      by (auto simp: leg_rank_def Let_def split: if_splits sum.splits prod.splits)
  next
    case (Some k)
    then obtain st b oc where r: "leg_result parse ctx (turns n) p = Inr (st, b, oc)" "\<not> tn_panics (turns n)"
        "k = broadcast_error_rank oc st (extract_rpc_error_code parse b)"
      by (auto simp: leg_rank_def split: if_splits sum.splits prod.splits)
    from Cons.IH[OF kept_error_better[OF Cons.prems(1) r(1) Some] nok(2)] r nok(1) g show ?thesis
      by (auto simp: leg_ok_def Let_def)
  qed
qed (simp add: kept_error_def)

text \<open>C11. If no leg succeeds the client gets the reply of a leg of the highest error rank, or the
synthetic 502 if no leg replied at all.\<close>

theorem broadcast_returns_best_error:
  assumes "fan_out cfg gate turns providers s = (legs, s1)" "providers \<noteq> []"
    and "\<forall>g \<in> set legs. \<not> leg_ok parse ctx turns g"
  shows "\<exists>best. kept_error parse ctx turns legs best \<and>
    fst (broadcast parse print cfg providers ctx gate turns now s) =
      (case best of
         None \<Rightarrow> json_response 502 (json_error_body print (- 32603) ''all providers failed'')
       | Some (st, b, k) \<Rightarrow> json_response (status_or_bad_gateway st) b)"
proof -
  have "kept_error parse ctx turns [] None" by (simp add: kept_error_def)
  moreover have "\<forall>g \<in> set (completion_order turns legs). \<not> leg_ok parse ctx turns g" using assms(3) by simp
  ultimately obtain best s' where race: "bc_race parse ctx turns (completion_order turns legs) None s1 = (None, [], best, s')"
    "kept_error parse ctx turns ([] @ completion_order turns legs) best"
    using bc_race_kept_error by blast
  from race(2) have "kept_error parse ctx turns legs best"
    by (auto simp: kept_error_def split: option.splits)
  then show ?thesis using race(1) assms(1,2)
    by (intro exI[of _ best]) (auto simp: broadcast_def Let_def split: option.split)
qed

section \<open>Every leg is counted once\<close>

lemma health_effect_metrics [simp]: "mo_metrics (health_effect ts n oc ms m) = mo_metrics m"
  by (simp add: health_effect_def mo_record_def mo_record_throttled_def update_health_def
      split: outcome.split option.split prod.split)

lemma request_log_record [simp]:
  "request_log (recorder_record ts me n oc ms c s) =
     request_log s @ [IncBy Requests [me, n, label oc] (f64_of_nat (unat c))]"
  by (simp add: request_log_def recorder_record_def upd_monitor_def upd_reporter_def upd_metrics_def record_request_def)

lemma request_log_finish [simp]: "request_log (finish_analytics now ctx b st a s) = request_log s"
  by (auto simp: request_log_def finish_analytics_def tx_finish_def Let_def upd_metrics_def upd_reporter_def
      record_transaction_decode_def record_transaction_submission_def
      split: option.split transaction_request.split)

lemma try_acquire_metrics [simp]: "mo_metrics (snd (try_acquire now n m)) = mo_metrics m"
  by (auto simp: try_acquire_def set_limiter_def case_prod_beta split: option.split)

lemma request_log_gate [simp]: "request_log (snd (rate_gate now gate p n s)) = request_log s"
  by (simp add: request_log_def rate_gate_def case_prod_beta Let_def upd_metrics_def record_rate_limited_def)

lemma request_log_fan_out:
  "request_log (snd (fan_out cfg gate turns providers s)) = request_log s"
proof (induction providers arbitrary: s)
  case (Cons n providers)
  show ?case
    using Cons.IH[of s] Cons.IH[of "snd (rate_gate (tn_now (turns n)) gate p n s)" for p]
    by (auto simp: case_prod_beta split: option.split)
qed simp

lemma straggler_drain_log:
  assumes "\<forall>n s. request_log (tn_env (turns n) s) = request_log s @ added n"
  shows "request_log (straggler_drain parse ctx turns legs s) =
    request_log s @ legs_gain parse ctx turns added legs"
proof (induction legs arbitrary: s)
  case (Cons g legs)
  obtain n p where "g = (n, p)" by force
  with Cons.IH assms show ?case
    by (auto simp: Let_def legs_gain_def leg_gain_def record_leg_def leg_entry_def leg_outcome_def split: sum.split)
qed (simp add: legs_gain_def)

lemma bc_race_log:
  assumes "\<forall>n s. request_log (tn_env (turns n) s) = request_log s @ added n"
    and "bc_race parse ctx turns legs best s = (w, rest, best', s')"
  shows "request_log s' @ legs_gain parse ctx turns added rest =
    request_log s @ legs_gain parse ctx turns added legs"
  using assms(2)
proof (induction legs arbitrary: best s)
  case (Cons g legs)
  obtain n p where g: "g = (n, p)" by force
  show ?case
  proof (cases "tn_panics (turns n)")
    case True
    with Cons.IH[of best "tn_env (turns n) s"] Cons.prems g assms(1) show ?thesis
      by (simp add: Let_def legs_gain_def leg_gain_def)
  next
    case False
    show ?thesis
    proof (cases "leg_result parse ctx (turns n) p")
      case (Inl e)
      with Cons.IH Cons.prems False g assms(1) show ?thesis
        by (simp add: Let_def legs_gain_def leg_gain_def record_leg_def leg_entry_def leg_outcome_def)
    next
      case (Inr q)
      obtain st b oc where "q = (st, b, oc)" by (cases q) auto
      with Inr Cons.IH Cons.prems False g assms(1) show ?thesis
        by (auto simp: Let_def legs_gain_def leg_gain_def record_leg_def leg_entry_def leg_outcome_def split: if_splits)
    qed
  qed
qed simp

text \<open>C12. Every leg of a broadcast that does not panic is counted in the request metric exactly once, by
the race or by the drain, under its own outcome and in the order of completion: the log of request
counts grows by exactly these entries, interleaved with those that the other tasks append during the
waits, which may be any entries (a fixed list for each wait).\<close>

theorem every_leg_counted_once:
  assumes "\<forall>n s. request_log (tn_env (turns n) s) = request_log s @ added n"
    and "broadcast parse print cfg providers ctx gate turns now s = (r, legs, rest, s')"
  shows "request_log (straggler_drain parse ctx turns rest s') =
    request_log s @ legs_gain parse ctx turns added (completion_order turns legs)"
proof (cases "providers = []")
  case True
  then show ?thesis using assms(2) by (auto simp: broadcast_def Let_def legs_gain_def completion_order_def)
next
  case False
  obtain legs' s1 where f: "fan_out cfg gate turns providers s = (legs', s1)" by force
  obtain w rest' best s2 where race: "bc_race parse ctx turns (completion_order turns legs') None s1 = (w, rest', best, s2)"
    by (metis prod_cases4)
  have "legs = legs'" "rest = rest'" "request_log s' = request_log s2"
    using assms(2) f race False by (auto simp: broadcast_def Let_def split: option.splits)
  moreover have "request_log s1 = request_log s"
    using request_log_fan_out[of cfg gate turns providers s] f by simp
  ultimately show ?thesis
    using bc_race_log[OF assms(1) race] straggler_drain_log[OF assms(1)] by simp
qed

lemma demo_fan_out:
  "fan_out demo_config g t [''a'', ''b''] demo_state =
     ([(''a'', default_provider ''a'' ''u''), (''b'', default_provider ''b'' ''v'')], demo_state)"
proof -
  have "rate_gate now g (default_provider n u) n s = (True, s)" for now n u s
    by (simp add: rate_gate_def default_provider_def)
  then show ?thesis using demo_clients by (auto simp: demo_providers_found)
qed

lemma demo_completion_order:
  "completion_order (demo_turns x y) [(''a'', p), (''b'', q)] = [(''a'', p), (''b'', q)]"
  by (simp add: completion_order_def)

theorem broadcast_first_success_wins_witness:
  "fst (broadcast demo_parse (\<lambda>_. []) demo_config [''a'', ''b''] demo_ctx True
     (demo_turns (Inr (200, [9])) (Inr (200, [7]))) 0 demo_state) = json_response 200 [7]"
proof -
  let ?turns = "demo_turns (Inr (200, [9])) (Inr (200, [7]))"
  let ?a = "(''a'', default_provider ''a'' ''u'')"
  have "leg_result demo_parse demo_ctx (?turns ''b'') (default_provider ''b'' ''v'') = Inr (200, [7], OkOutcome)"
    using demo_ok_leg by (simp add: leg_result_def demo_ctx_def)
  moreover have "\<not> leg_ok demo_parse demo_ctx ?turns ?a"
    by (simp add: leg_ok_def leg_result_def demo_ctx_def from_leg_ok has_rpc_error_def demo_parse_def de_struct1_def
        de_option_def de_any_def)
  ultimately show ?thesis
    using broadcast_first_success_wins[where pre = "[?a]" and n = "''b''" and p = "default_provider ''b'' ''v''" and post = "[]"
        and parse = demo_parse and ctx = demo_ctx and turns = ?turns and cfg = demo_config and gate = True and
        providers = "[''a'', ''b'']" and s = demo_state and print = "\<lambda>_. []" and now = 0, OF demo_fan_out]
    by (simp add: demo_completion_order leg_ok_def)
qed

theorem broadcast_returns_best_error_witness:
  "fst (broadcast demo_parse (\<lambda>_. []) demo_config [''a'', ''b''] demo_ctx True
     (demo_turns (Inr (503, [7])) (Inr (200, [9]))) 0 demo_state) = json_response 200 [9]"
proof -
  let ?turns = "demo_turns (Inr (503, [7])) (Inr (200, [9]))"
  let ?legs = "[(''a'', default_provider ''a'' ''u''), (''b'', default_provider ''b'' ''v'')]"
  have a: "leg_result demo_parse demo_ctx (?turns ''a'') p = Inr (503, [7], ProviderError)" for p
    by (simp add: leg_result_def demo_ctx_def from_leg_def from_status_def is_success_def is_client_error_def)
  have code: "extract_rpc_error_code demo_parse [9] = Some (- 32602)"
    by (simp add: extract_rpc_error_code_def demo_parse_def de_struct1_def de_option_def de_i64_def)
  have b: "leg_result demo_parse demo_ctx (?turns ''b'') p = Inr (200, [9], ClientError)" for p
    using code code_implies_error[OF code]
    by (simp add: leg_result_def demo_ctx_def from_leg_def from_rpc_error_def is_client_rpc_code_def is_success_def)
  have ranks: "leg_rank demo_parse demo_ctx ?turns (''a'', p) = Some 1"
      "leg_rank demo_parse demo_ctx ?turns (''b'', p) = Some 4" for p
    using a b code
    by (simp_all add: leg_rank_def broadcast_error_rank_def is_success_def extract_rpc_error_code_def demo_parse_def
        de_struct1_def is_retryable_rpc_code_def is_behind_rpc_code_def is_history_gap_code_def is_client_rpc_code_def)
  have "\<forall>g \<in> set ?legs. \<not> leg_ok demo_parse demo_ctx ?turns g" using a b by (simp add: leg_ok_def)
  from broadcast_returns_best_error[where parse = demo_parse and ctx = demo_ctx and turns = ?turns and cfg = demo_config
      and gate = True and providers = "[''a'', ''b'']" and s = demo_state and print = "\<lambda>_. []" and now = 0, OF demo_fan_out _ this]
  obtain best where best: "kept_error demo_parse demo_ctx ?turns ?legs best"
    "fst (broadcast demo_parse (\<lambda>_. []) demo_config [''a'', ''b''] demo_ctx True ?turns 0 demo_state) =
      (case best of None \<Rightarrow> json_response 502 (json_error_body (\<lambda>_. []) (- 32603) ''all providers failed'')
       | Some (st, b, k) \<Rightarrow> json_response (status_or_bad_gateway st) b)" by auto
  then show ?thesis using a b ranks
    by (auto simp: kept_error_def status_or_bad_gateway_def split: option.splits)
qed

text \<open>Here another task counts a request during each of the two waits.\<close>

theorem every_leg_counted_once_witness:
  "(let turns = (\<lambda>n. (demo_turns (Inr (200, [7])) (Inl ''refused'') n)
        \<lparr>tn_env := upd_metrics (record_request ''getSlot'' ''c'' ''error'' (Fin 0) 1)\<rparr>)
    in case broadcast demo_parse (\<lambda>_. []) demo_config [''a'', ''b''] demo_ctx True turns 0 demo_state of (r, legs, rest, s) \<Rightarrow>
      length (request_log (straggler_drain demo_parse demo_ctx turns rest s)) = length (request_log demo_state) + 4)"
proof -
  let ?turns = "\<lambda>n. (demo_turns (Inr (200, [7])) (Inl ''refused'') n)
    \<lparr>tn_env := upd_metrics (record_request ''getSlot'' ''c'' ''error'' (Fin 0) 1)\<rparr>"
  let ?added = "\<lambda>n :: string. [IncBy Requests [''getSlot'', ''c'', ''error''] (f64_of_nat 1)]"
  obtain r legs rest s where b: "broadcast demo_parse (\<lambda>_. []) demo_config [''a'', ''b''] demo_ctx True ?turns 0 demo_state =
      (r, legs, rest, s)" by (metis prod_cases4)
  have "legs = fst (fan_out demo_config True ?turns [''a'', ''b''] demo_state)"
    using b by (auto simp: broadcast_def case_prod_beta Let_def simp del: fan_out.simps split: option.splits)
  then have "length (legs_gain demo_parse demo_ctx ?turns ?added (completion_order ?turns legs)) = 4"
    using demo_fan_out[of True ?turns]
    by (simp add: completion_order_def legs_gain_def leg_gain_def demo_turns_def demo_turn_def del: fan_out.simps)
  moreover have "\<forall>n s. request_log (tn_env (?turns n) s) = request_log s @ ?added n"
    by (simp add: request_log_def upd_metrics_def record_request_def)
  note every_leg_counted_once[OF this b]
  ultimately show ?thesis using b by simp
qed

end
