(* ===== verification/Reload.thy ===== *)
theory Reload
  imports Sequential
begin

text \<open>
  Hot reload: \<open>watch_config\<close> of \<open>src/src/main.rs\<close>. A reload runs beside the request handlers and takes its
  locks one at a time, so it is the list of locked operations it makes, in their order. A hash map built
  from the providers is an association list; the order in which it is iterated is an argument. The two
  warnings about settings that need a restart are kept as the conditions under which they are logged.
\<close>

section \<open>Operations of a reload\<close>

datatype reload_op =
    DropClient string
  | DropEntry string
  | InsertClient string client
  | AddEntry instant client provider_config
  | SetCap instant string "u32 option"
  | SwapConfig config

fun apply_op :: "reload_op \<Rightarrow> proxy_state \<Rightarrow> proxy_state" where
  "apply_op (DropClient n) s = s\<lparr>ps_clients := AList.delete n (ps_clients s)\<rparr>"
| "apply_op (DropEntry n) s = upd_monitor (remove_provider n) s"
| "apply_op (InsertClient n cl) s = s\<lparr>ps_clients := AList.update n cl (ps_clients s)\<rparr>"
| "apply_op (AddEntry now cl p) s = upd_monitor (add_provider now cl p) s"
| "apply_op (SetCap now n cap) s = upd_monitor (apply_rate_limit now n cap) s"
| "apply_op (SwapConfig cfg) s = s\<lparr>ps_config := cfg\<rparr>"

definition apply_ops :: "reload_op list \<Rightarrow> proxy_state \<Rightarrow> proxy_state" where
  "apply_ops ops s = fold apply_op ops s"

definition client_rebuild_reason :: "provider_config option \<Rightarrow> provider_config \<Rightarrow> bool \<Rightarrow> string option" where
  "client_rebuild_reason old new pool_size_changed =
     (case old of
        None \<Rightarrow> Some ''added''
      | Some o' \<Rightarrow>
          if pool_size_changed then Some ''pool size changed''
          else if pv_url o' \<noteq> pv_url new then Some ''URL updated''
          else if pv_http3 o' \<noteq> pv_http3 new then Some ''http3 toggled''
          else None)"

type_synonym provider_map = "(string \<times> provider_config) list"

definition provider_map :: "config \<Rightarrow> provider_map" where
  "provider_map cfg = fold (\<lambda>p m. AList.update (pv_name p) p m) (cfg_providers cfg) []"

definition removed_ops :: "provider_map \<Rightarrow> provider_map \<Rightarrow> reload_op list" where
  "removed_ops old new =
     concat (map (\<lambda>(n, p). if map_of new n = None then [DropClient n, DropEntry n] else []) old)"

definition rebuild_op ::
  "(string \<Rightarrow> instant) \<Rightarrow> provider_map \<Rightarrow> bool \<Rightarrow> usize \<Rightarrow> string \<times> provider_config \<Rightarrow> reload_op list" where
  "rebuild_op now old pool_changed pool e =
     (case e of (n, p) \<Rightarrow>
        (case client_rebuild_reason (map_of old n) p pool_changed of
           None \<Rightarrow> []
         | Some reason \<Rightarrow>
             (if map_of old n \<noteq> None then [DropClient n, DropEntry n] else []) @
             (let cl = build_client p pool in [InsertClient n cl, AddEntry (now n) cl p])))"

definition cap_op :: "(string \<Rightarrow> instant) \<Rightarrow> provider_map \<Rightarrow> string \<times> provider_config \<Rightarrow> reload_op list" where
  "cap_op now old e =
     (case e of (n, p) \<Rightarrow>
        if Option.bind (map_of old n) pv_max_rps \<noteq> pv_max_rps p then [SetCap (now n) n (pv_max_rps p)] else [])"

text \<open>
  The operations for the new configuration: \<open>old_order\<close> and \<open>new_order\<close> are the iteration orders of the
  two maps, \<open>add_now\<close> and \<open>cap_now\<close> the clock readings made for a provider.
\<close>

definition reload_ops ::
  "(string \<Rightarrow> instant) \<Rightarrow> (string \<Rightarrow> instant) \<Rightarrow> (provider_map \<Rightarrow> provider_map) \<Rightarrow> (provider_map \<Rightarrow> provider_map) \<Rightarrow>
   config \<Rightarrow> config \<Rightarrow> reload_op list" where
  "reload_ops add_now cap_now old_order new_order old new =
     (let old_providers = provider_map old; new_providers = new_order (provider_map new);
          pool = sc_pool_max_idle_per_host (cfg_server new);
          pool_changed = (sc_pool_max_idle_per_host (cfg_server old) \<noteq> pool)
      in removed_ops (old_order old_providers) new_providers @
         concat (map (rebuild_op add_now old_providers pool_changed pool) new_providers) @
         concat (map (cap_op cap_now old_providers) new_providers) @
         [SwapConfig new])"

definition restart_warnings :: "config \<Rightarrow> config \<Rightarrow> bool \<times> bool" where
  "restart_warnings old new =
     (let a = cfg_server old; b = cfg_server new in
      (sc_listen a \<noteq> sc_listen b \<or> sc_metrics_listen a \<noteq> sc_metrics_listen b \<or>
       sc_listen_backlog a \<noteq> sc_listen_backlog b \<or> sc_worker_threads a \<noteq> sc_worker_threads b,
       cfg_historical old \<noteq> cfg_historical new))"

text \<open>
  One tick of the watcher: the modification time it sees, and what loading gives when the time has
  changed. The result is the remembered time and the operations to make.
\<close>

definition watch_tick ::
  "(string \<Rightarrow> instant) \<Rightarrow> (string \<Rightarrow> instant) \<Rightarrow> (provider_map \<Rightarrow> provider_map) \<Rightarrow> (provider_map \<Rightarrow> provider_map) \<Rightarrow>
   nat option \<Rightarrow> (load_error + config) \<Rightarrow> nat option \<Rightarrow> config \<Rightarrow> nat option \<times> reload_op list" where
  "watch_tick add_now cap_now old_order new_order current loaded last_mtime old =
     (if current = last_mtime then (last_mtime, [])
      else case loaded of
          Inl e \<Rightarrow> (current, [])
        | Inr new \<Rightarrow> (current, reload_ops add_now cap_now old_order new_order old new))"

text \<open>The telemetry tick of \<open>run\<close>: one health event per provider.\<close>

definition health_event :: "health_snapshot \<Rightarrow> telemetry_event" where
  "health_event sn = ProviderHealth (hs_name sn) (hs_score sn) (hs_slot_height sn) (hs_slot_drift sn)
     (circuit_text (hs_circuit sn))"

definition health_report_tick :: "instant \<Rightarrow> proxy_state \<Rightarrow> proxy_state" where
  "health_report_tick now s =
     (case snapshots now (ps_monitor s) of (snaps, m) \<Rightarrow>
        fold (\<lambda>sn. upd_reporter (rep_emit (health_event sn))) snaps (s\<lparr>ps_monitor := m\<rparr>))"

definition is_unix_path :: "string \<Rightarrow> bool" where
  "is_unix_path addr \<longleftrightarrow> take 1 addr = ''/'' \<or> take 2 addr = ''./''"

text \<open>
  What is deployed: the configuration in force, the client of each name, and for each monitored name the
  rate cap of its bucket and the probe loops spawned for its health, each with whether it is still running: a loop
  ends at its stop flag, and at once for a provider that cannot answer \<open>getSlot\<close>.
\<close>

record deployment =
  dp_config :: config
  dp_clients :: "string \<Rightarrow> client option"
  dp_entries :: "string \<Rightarrow> ((f64 \<times> f64) option \<times> (client \<times> provider_config \<times> bool) list) option"

definition cap_of :: "u32 option \<Rightarrow> (f64 \<times> f64) option" where
  "cap_of max_rps = map_option (\<lambda>r. (f64_of_nat (unat r), f64_of_nat (unat r))) max_rps"

definition limiter_cap :: "token_bucket option \<Rightarrow> (f64 \<times> f64) option" where
  "limiter_cap l = map_option (\<lambda>b. (tk_rate b, tk_capacity b)) l"

definition loop_alive :: "monitor \<Rightarrow> loop_task \<Rightarrow> bool" where
  "loop_alive m t \<longleftrightarrow> \<not> lt_done t \<and> \<not> mo_stops m ! lt_stop t"

definition probed_by :: "monitor \<Rightarrow> nat \<Rightarrow> (client \<times> provider_config \<times> bool) list" where
  "probed_by m h = map (\<lambda>t. (lt_client t, lt_provider t, loop_alive m t)) (filter (\<lambda>t. lt_health t = h) (mo_loops m))"

text \<open>What matters of a loop task for \<open>probed_by\<close>.\<close>

definition loop_key :: "loop_task \<Rightarrow> nat \<times> nat \<times> client \<times> provider_config \<times> bool" where
  "loop_key t = (lt_health t, lt_stop t, lt_client t, lt_provider t, lt_done t)"

definition deployed :: "proxy_state \<Rightarrow> deployment" where
  "deployed s =
     \<lparr>dp_config = ps_config s, dp_clients = map_of (ps_clients s),
      dp_entries = (\<lambda>n. map_option (\<lambda>e. (limiter_cap (pe_limiter e), probed_by (ps_monitor s) (pe_health e)))
        (map_of (mo_entries (ps_monitor s)) n))\<rparr>"

fun plan_op :: "reload_op \<Rightarrow> deployment \<Rightarrow> deployment" where
  "plan_op (DropClient n) d = d\<lparr>dp_clients := (dp_clients d)(n := None)\<rparr>"
| "plan_op (DropEntry n) d = d\<lparr>dp_entries := (dp_entries d)(n := None)\<rparr>"
| "plan_op (InsertClient n cl) d = d\<lparr>dp_clients := (dp_clients d)(n \<mapsto> cl)\<rparr>"
| "plan_op (AddEntry now cl p) d = d\<lparr>dp_entries := (dp_entries d)(pv_name p \<mapsto> (cap_of (pv_max_rps p), [(cl, p, supports p ''getSlot'')]))\<rparr>"
| "plan_op (SetCap now n cap) d =
     d\<lparr>dp_entries := (dp_entries d)(n := map_option (\<lambda>(c, ps). (cap_of cap, ps)) (dp_entries d n))\<rparr>"
| "plan_op (SwapConfig cfg) d = d\<lparr>dp_config := cfg\<rparr>"

text \<open>
  The deployment that a configuration asks for: exactly its providers, each with the client built from it,
  its cap, and one loop task on its URL. The task probes if and only if the methods include \<open>getSlot\<close> that the
  provider had when the entry was made, \<open>q\<close>: a reload that changes only the methods leaves the task as it is
  (\<open>reenabled_probe_never_starts\<close>).
\<close>

definition provider_deployed :: "deployment \<Rightarrow> string \<Rightarrow> bool" where
  "provider_deployed d n \<longleftrightarrow>
     (case find_provider (dp_config d) n of
        None \<Rightarrow> dp_clients d n = None \<and> dp_entries d n = None
      | Some p \<Rightarrow>
          (let cl = build_client p (sc_pool_max_idle_per_host (cfg_server (dp_config d))) in
           dp_clients d n = Some cl \<and>
           (\<exists>q. dp_entries d n = Some (cap_of (pv_max_rps p), [(cl, q, supports q ''getSlot'')]) \<and>
              pv_name q = n \<and> pv_url q = pv_url p)))"

definition in_sync :: "deployment \<Rightarrow> bool" where
  "in_sync d \<longleftrightarrow> distinct (map pv_name (cfg_providers (dp_config d))) \<and> (\<forall>n. provider_deployed d n)"

fun op_name :: "reload_op \<Rightarrow> string option" where
  "op_name (DropClient n) = Some n"
| "op_name (DropEntry n) = Some n"
| "op_name (InsertClient n cl) = Some n"
| "op_name (AddEntry now cl p) = Some (pv_name p)"
| "op_name (SetCap now n cap) = Some n"
| "op_name (SwapConfig cfg) = None"

abbreviation ops_of :: "string \<Rightarrow> reload_op list \<Rightarrow> reload_op list" where
  "ops_of n ops \<equiv> filter (\<lambda>op. op_name op = Some n) ops"

definition iterates :: "(provider_map \<Rightarrow> provider_map) \<Rightarrow> bool" where
  "iterates order \<longleftrightarrow> (\<forall>m. mset (order m) = mset m)"

text \<open>The operations a reload makes on one name.\<close>

definition name_ops ::
  "instant \<Rightarrow> instant \<Rightarrow> provider_config option \<Rightarrow> provider_config option \<Rightarrow> bool \<Rightarrow> usize \<Rightarrow> string \<Rightarrow> reload_op list" where
  "name_ops add_now cap_now old new pool_changed pool n =
     (case new of
        None \<Rightarrow> if old \<noteq> None then [DropClient n, DropEntry n] else []
      | Some p \<Rightarrow>
          (if client_rebuild_reason old p pool_changed = None then []
           else (if old \<noteq> None then [DropClient n, DropEntry n] else []) @
             [InsertClient n (build_client p pool), AddEntry add_now (build_client p pool) p]) @
          (if Option.bind old pv_max_rps \<noteq> pv_max_rps p then [SetCap cap_now n (pv_max_rps p)] else []))"

text \<open>The health entry of a name, with the health it refers to.\<close>

definition health_of :: "string \<Rightarrow> proxy_state \<Rightarrow> (nat \<times> nat \<times> string \<times> inner) option" where
  "health_of n s =
     map_option (\<lambda>e. (pe_health e, pe_stop e, mo_healths (ps_monitor s) ! pe_health e)) (map_of (mo_entries (ps_monitor s)) n)"

definition stop_set :: "nat \<Rightarrow> proxy_state \<Rightarrow> bool" where
  "stop_set i s \<longleftrightarrow> i < length (mo_stops (ps_monitor s)) \<and> mo_stops (ps_monitor s) ! i"

text \<open>
  The \<open>check\<close> command: the names of unset variables, then the load, then one request per provider and one
  to the reference. \<open>replies\<close> is what a request to a URL meets. The result of a successful load is the
  printed lines and the exit code.
\<close>

definition check_marker :: "string + u16 \<Rightarrow> string" where
  "check_marker reply =
     (case reply of Inl e \<Rightarrow> ''FAIL'' | Inr status \<Rightarrow> if is_success status then ''OK  '' else ''WARN'')"

definition reply_ok :: "string + u16 \<Rightarrow> bool" where
  "reply_ok reply = (case reply of Inl e \<Rightarrow> False | Inr status \<Rightarrow> is_success status)"

definition check_command ::
  "(string \<Rightarrow> string option) \<Rightarrow> (string \<Rightarrow> piece list) \<Rightarrow> (string \<Rightarrow> string option) \<Rightarrow> (string \<Rightarrow> config option) \<Rightarrow> string \<Rightarrow>
   (string \<Rightarrow> string + u16) \<Rightarrow> string list \<times> (load_error + (string \<times> string) list \<times> nat)" where
  "check_command read_to_string scan env toml path replies =
     ((case read_to_string path of None \<Rightarrow> [] | Some raw \<Rightarrow> snd (expand_env_vars_with scan raw env)),
      (case load read_to_string scan env toml path of
         Inl e \<Rightarrow> Inl e
       | Inr cfg \<Rightarrow>
           (let targets = map (\<lambda>p. (pv_name p, pv_url p)) (cfg_providers cfg) @
                  (case hc_reference_url (cfg_health cfg) of None \<Rightarrow> [] | Some u \<Rightarrow> [(REFERENCE_LABEL, u)]);
                all_ok = list_all (\<lambda>(n, u). reply_ok (replies u)) targets
            in Inr (map (\<lambda>(n, u). (check_marker (replies u), n)) targets, if all_ok then 0 else 1))))"

text \<open>The tasks that probe the provider a name refers to.\<close>

definition loops_of :: "string \<Rightarrow> proxy_state \<Rightarrow> loop_task list" where
  "loops_of n s =
     (case map_of (mo_entries (ps_monitor s)) n of
        None \<Rightarrow> [] | Some e \<Rightarrow> filter (\<lambda>t. lt_health t = pe_health e) (mo_loops (ps_monitor s)))"

definition demo_new_config :: config where
  "demo_new_config = demo_config\<lparr>cfg_providers :=
     [(default_provider ''a'' ''u'')\<lparr>pv_max_rps := Some 7\<rparr>, default_provider ''b'' ''w'', default_provider ''c'' ''x'']\<rparr>"

definition demo_submit_config :: config where
  "demo_submit_config = demo_config\<lparr>cfg_providers :=
     [(default_provider ''a'' ''u'')\<lparr>pv_methods := Some [''sendTransaction'']\<rparr>]\<rparr>"

definition demo_submit_state :: proxy_state where
  "demo_submit_state = proxy_new 0 0 [] demo_submit_config NoopReporter"

abbreviation demo_reload :: "config \<Rightarrow> proxy_state" where
  "demo_reload new \<equiv> apply_ops (reload_ops (\<lambda>_. 0) (\<lambda>_. 0) (\<lambda>m. m) (\<lambda>m. m) (ps_config demo_state) new) demo_state"

section \<open>The operations on the abstract deployment\<close>

lemma probed_by_fresh:
  assumes "monitor_ok m"
  shows "probed_by m (length (mo_healths m)) = []"
proof -
  have "lt_health t \<noteq> length (mo_healths m)" if "t \<in> set (mo_loops m)" for t
    using assms that by (auto simp: monitor_ok_def skeleton_def)
  then show ?thesis by (simp add: probed_by_def filter_empty_conv)
qed

lemma entry_health_bound:
  assumes "monitor_ok m" "map_of (mo_entries m) n = Some e"
  shows "pe_health e < length (mo_healths m)"
  using assms map_of_SomeD[OF assms(2)] by (force simp: monitor_ok_def skeleton_def)

lemma limiter_cap_new [simp]: "limiter_cap (build_limiter now cap) = cap_of cap"
  by (cases cap) (simp_all add: limiter_cap_def build_limiter_def cap_of_def bucket_new_def Let_def)

lemma deployed_drop_client: "deployed (apply_op (DropClient n) s) = plan_op (DropClient n) (deployed s)"
  by (simp add: deployed_def delete_conv')

lemma deployed_insert_client: "deployed (apply_op (InsertClient n cl) s) = plan_op (InsertClient n cl) (deployed s)"
  by (simp add: deployed_def update_conv')

text \<open>The loop of an entry obeys the entry's stop flag, which no other entry shares.\<close>

lemma loop_stop:
  assumes "monitor_ok m" "map_of (mo_entries m) n = Some e" "t \<in> set (mo_loops m)" "lt_health t = pe_health e"
  shows "lt_stop t = pe_stop e"
  using assms(1,3,4) map_of_SomeD[OF assms(2)] by (fastforce simp: monitor_ok_def skeleton_def)

lemma entries_share_no_stop:
  assumes "monitor_ok m" "map_of (mo_entries m) a = Some e" "map_of (mo_entries m) b = Some f" "pe_stop e = pe_stop f"
  shows "a = b"
proof -
  have "distinct (map (\<lambda>(n, h, s). s) (map (\<lambda>(n, e). (n, pe_health e, pe_stop e)) (mo_entries m)))"
    using assms(1) by (simp add: monitor_ok_def skeleton_def)
  then have "inj_on (\<lambda>x. pe_stop (snd x)) (set (mo_entries m))"
    by (simp add: distinct_map o_def case_prod_unfold)
  with assms(4) map_of_SomeD[OF assms(2)] map_of_SomeD[OF assms(3)] show ?thesis
    by (metis inj_onD prod.inject snd_conv)
qed

lemma probed_by_remove:
  assumes "monitor_ok m" "map_of (mo_entries m) a = Some e" "a \<noteq> n"
  shows "probed_by (remove_provider n m) (pe_health e) = probed_by m (pe_health e)"
proof (cases "map_of (mo_entries m) n")
  case None
  then show ?thesis by (simp add: remove_provider_def)
next
  case (Some f)
  then have "pe_stop f \<noteq> pe_stop e" using entries_share_no_stop[OF assms(1,2) Some] assms(3) by auto
  with Some show ?thesis
    by (auto simp: probed_by_def remove_provider_def loop_alive_def loop_stop[OF assms(1,2)])
qed

lemma deployed_drop_entry:
  assumes "monitor_ok (ps_monitor s)"
  shows "deployed (apply_op (DropEntry n) s) = plan_op (DropEntry n) (deployed s)"
proof -
  have "map_of (mo_entries (remove_provider n m)) a = (if a = n then None else map_of (mo_entries m) a)" for a m
    by (auto simp: remove_provider_def delete_conv' split: option.split)
  then show ?thesis
    using probed_by_remove[OF assms]
    by (auto simp: deployed_def upd_monitor_def fun_eq_iff intro!: option.map_cong)
qed

lemma deployed_add_entry:
  assumes "monitor_ok (ps_monitor s)"
  shows "deployed (apply_op (AddEntry now cl p) s) = plan_op (AddEntry now cl p) (deployed s)"
proof -
  let ?m = "ps_monitor s"
  let ?m' = "add_provider now cl p ?m"
  have "lt_stop t < length (mo_stops ?m)" if "t \<in> set (mo_loops ?m)" for t
    using assms that by (auto simp: monitor_ok_def skeleton_def)
  then have alive: "loop_alive ?m' t = loop_alive ?m t" if "t \<in> set (mo_loops ?m)" for t
    using that by (simp add: loop_alive_def add_provider_def alloc_entry_def spawn_loops_def Let_def nth_append)
  have loops: "mo_loops ?m' = mo_loops ?m @ [\<lparr>lt_health = length (mo_healths ?m), lt_stop = length (mo_stops ?m),
      lt_client = cl, lt_provider = p, lt_done = \<not> supports p ''getSlot'', lt_stage = Resting\<rparr>]"
    "mo_stops ?m' = mo_stops ?m @ [False]"
    by (simp_all add: add_provider_def alloc_entry_def spawn_loops_def Let_def)
  have old: "probed_by ?m' (pe_health e) = probed_by ?m (pe_health e)" if "map_of (mo_entries ?m) n = Some e" for n e
    using entry_health_bound[OF assms that] alive by (simp add: probed_by_def loops(1))
  have new: "probed_by ?m' (length (mo_healths ?m)) = [(cl, p, supports p ''getSlot'')]"
    using probed_by_fresh[OF assms] by (simp add: probed_by_def loops(1)) (simp add: loop_alive_def loops(2))
  have entries: "map_of (mo_entries ?m') = (map_of (mo_entries ?m))(pv_name p \<mapsto>
      \<lparr>pe_health = length (mo_healths ?m), pe_limiter = build_limiter now (pv_max_rps p), pe_stop = length (mo_stops ?m)\<rparr>)"
    by (simp add: add_provider_def alloc_entry_def spawn_loops_def Let_def update_conv')
  show ?thesis
    using old new by (auto simp: deployed_def upd_monitor_def entries fun_eq_iff intro!: option.map_cong)
qed

lemma map_of_set_limiter:
  "map_of (mo_entries (set_limiter n e l m)) = (map_of (mo_entries m))(n \<mapsto> e\<lparr>pe_limiter := l\<rparr>)"
  by (simp add: set_limiter_def update_conv')

lemma probed_by_set_limiter [simp]: "probed_by (set_limiter n e l m) = probed_by m"
  by (simp add: probed_by_def loop_alive_def set_limiter_def fun_eq_iff)

lemma deployed_set_cap: "deployed (apply_op (SetCap now n cap) s) = plan_op (SetCap now n cap) (deployed s)"
proof (cases "map_of (mo_entries (ps_monitor s)) n")
  case None
  then show ?thesis by (auto simp: deployed_def upd_monitor_def apply_rate_limit_def fun_eq_iff)
next
  case (Some e)
  then show ?thesis
    by (auto simp: deployed_def upd_monitor_def apply_rate_limit_def fun_eq_iff map_of_set_limiter limiter_cap_def cap_of_def
        bucket_new_def bucket_reconfigure_def Let_def split: option.split)
qed

lemma deployed_apply_op:
  assumes "monitor_ok (ps_monitor s)"
  shows "deployed (apply_op op s) = plan_op op (deployed s)"
  using assms deployed_drop_client deployed_insert_client deployed_drop_entry deployed_add_entry deployed_set_cap
  by (cases op) (auto simp: deployed_def)

lemma apply_rate_limit_ok: "monitor_ok m \<Longrightarrow> monitor_ok (apply_rate_limit now n cap m)"
  by (simp add: monitor_ok_def skeleton_apply_rate_limit)

lemma apply_op_ok: "monitor_ok (ps_monitor s) \<Longrightarrow> monitor_ok (ps_monitor (apply_op op s))"
  by (cases op) (auto simp: upd_monitor_def add_provider_ok remove_provider_ok apply_rate_limit_ok)

lemma deployed_apply_ops:
  "monitor_ok (ps_monitor s) \<Longrightarrow>
     deployed (apply_ops ops s) = fold plan_op ops (deployed s) \<and> monitor_ok (ps_monitor (apply_ops ops s))"
  unfolding apply_ops_def by (induction ops arbitrary: s) (auto simp: apply_op_ok deployed_apply_op)

section \<open>What a reload does to one provider\<close>

lemma plan_op_other:
  "op_name op \<noteq> Some n \<Longrightarrow> dp_clients (plan_op op d) n = dp_clients d n \<and> dp_entries (plan_op op d) n = dp_entries d n"
  by (cases op) auto

lemma plan_op_same:
  "dp_clients d n = dp_clients d' n \<Longrightarrow> dp_entries d n = dp_entries d' n \<Longrightarrow>
   dp_clients (plan_op op d) n = dp_clients (plan_op op d') n \<and> dp_entries (plan_op op d) n = dp_entries (plan_op op d') n"
  by (cases op) auto

text \<open>What happens to a name depends on the operations on that name only.\<close>

lemma plan_ops_of:
  assumes "dp_clients d n = dp_clients d' n" "dp_entries d n = dp_entries d' n"
  shows "dp_clients (fold plan_op ops d) n = dp_clients (fold plan_op (ops_of n ops) d') n \<and>
    dp_entries (fold plan_op ops d) n = dp_entries (fold plan_op (ops_of n ops) d') n"
  using assms
proof (induction ops arbitrary: d d')
  case (Cons op ops)
  show ?case
    using Cons.IH[of "plan_op op d" d'] Cons.IH[of "plan_op op d" "plan_op op d'"] Cons.prems
      plan_op_other[of op n d] plan_op_same[of d n d' op] by auto
qed simp

lemma filter_concat_map_key:
  assumes "distinct (map fst xs)" "\<And>e. e \<in> set xs \<Longrightarrow> fst e \<noteq> n \<Longrightarrow> filter P (f e) = []"
  shows "filter P (concat (map f xs)) = (case map_of xs n of None \<Rightarrow> [] | Some v \<Rightarrow> filter P (f (n, v)))"
  using assms
proof (induction xs)
  case (Cons e xs)
  obtain k v where e: "e = (k, v)" by force
  show ?case
  proof (cases "k = n")
    case True
    with Cons.prems(1) e have "map_of xs n = None" by (force simp: map_of_eq_None_iff)
    with True e Cons show ?thesis by simp
  next
    case False
    with Cons e show ?thesis by simp
  qed
qed simp

lemma provider_map_of:
  "distinct (map pv_name ps) \<Longrightarrow>
   map_of (fold (\<lambda>p m. AList.update (pv_name p) p m) ps acc) n =
     (case find (\<lambda>p. pv_name p = n) ps of Some p \<Rightarrow> Some p | None \<Rightarrow> map_of acc n)"
proof (induction ps arbitrary: acc)
  case (Cons p ps)
  have "find (\<lambda>q. pv_name q = pv_name p) ps = None" using Cons.prems by (auto simp: find_None_iff) (metis image_eqI)
  with Cons show ?case by (auto simp: update_conv' split: option.split)
qed simp

lemma provider_map_find:
  "distinct (map pv_name (cfg_providers cfg)) \<Longrightarrow> map_of (provider_map cfg) n = find_provider cfg n"
  by (simp add: provider_map_def provider_map_of find_provider_def split: option.split)

lemma provider_map_distinct: "distinct (map fst (provider_map cfg))"
proof -
  have "distinct (map fst (fold (\<lambda>p m. AList.update (pv_name p) p m) ps acc))" if "distinct (map fst acc)" for ps and acc :: provider_map
    using that by (induction ps arbitrary: acc) (auto simp: distinct_update)
  then show ?thesis by (simp add: provider_map_def)
qed

lemma find_provider_name: "find_provider cfg n = Some p \<Longrightarrow> pv_name p = n"
  by (auto simp: find_provider_def find_Some_iff)

lemma iterates_map:
  assumes "iterates order" "distinct (map fst m)"
  shows "distinct (map fst (order m)) \<and> map_of (order m) = map_of m"
proof -
  have "mset (order m) = mset m" using assms(1) by (simp add: iterates_def)
  then have "mset (map fst (order m)) = mset (map fst m)" "set (order m) = set m"
    by (auto dest: mset_eq_setD)
  then have "distinct (map fst (order m))" using assms(2) by (metis mset_eq_imp_distinct_iff)
  with \<open>set (order m) = set m\<close> assms(2) show ?thesis by (metis map_of_inject_set)
qed

lemma ops_of_reload:
  assumes "distinct (map pv_name (cfg_providers old))" "distinct (map pv_name (cfg_providers new))"
    and "iterates old_order" "iterates new_order"
  shows "ops_of n (reload_ops add_now cap_now old_order new_order old new) =
    name_ops (add_now n) (cap_now n) (find_provider old n) (find_provider new n)
      (sc_pool_max_idle_per_host (cfg_server old) \<noteq> sc_pool_max_idle_per_host (cfg_server new))
      (sc_pool_max_idle_per_host (cfg_server new)) n"
proof -
  let ?o = "old_order (provider_map old)" and ?w = "new_order (provider_map new)"
  have o: "distinct (map fst ?o)" "map_of ?o = find_provider old" "map_of (provider_map old) = find_provider old"
    using iterates_map[OF assms(3) provider_map_distinct[of old]] provider_map_find[OF assms(1)] by (auto simp: fun_eq_iff)
  have w: "distinct (map fst ?w)" "map_of ?w = find_provider new"
    using iterates_map[OF assms(4) provider_map_distinct[of new]] provider_map_find[OF assms(2)] by (auto simp: fun_eq_iff)
  have name: "pv_name p = k" if "(k, p) \<in> set ?w" for k p
    using that w find_provider_name by (metis map_of_is_SomeI)
  have removed: "ops_of n (removed_ops ?o ?w) =
      (if find_provider old n \<noteq> None \<and> find_provider new n = None then [DropClient n, DropEntry n] else [])"
    unfolding removed_ops_def
    by (subst filter_concat_map_key[OF o(1), where n = n]) (auto simp: o w split: option.split)
  have rebuilt: "ops_of n (concat (map (rebuild_op add_now (provider_map old) b pool) ?w)) =
      (case find_provider new n of None \<Rightarrow> []
       | Some p \<Rightarrow> rebuild_op add_now (provider_map old) b pool (n, p))" for b pool
    using find_provider_name[of new n]
    by (subst filter_concat_map_key[OF w(1), where n = n])
      (auto simp: w rebuild_op_def Let_def name split: option.split)
  have caps: "ops_of n (concat (map (cap_op cap_now (provider_map old)) ?w)) =
      (case find_provider new n of None \<Rightarrow> [] | Some p \<Rightarrow> cap_op cap_now (provider_map old) (n, p))"
    by (subst filter_concat_map_key[OF w(1), where n = n]) (auto simp: w cap_op_def split: option.split)
  show ?thesis
    by (auto simp: reload_ops_def Let_def removed rebuilt caps name_ops_def rebuild_op_def cap_op_def o split: option.split)
qed

section \<open>A reload installs the new configuration\<close>

lemma plan_config: "dp_config (fold plan_op ops d) =
    fold (\<lambda>op c. case op of SwapConfig cfg \<Rightarrow> cfg | _ \<Rightarrow> c) ops (dp_config d)"
proof (induction ops arbitrary: d)
  case (Cons op ops)
  then show ?case by (cases op) auto
qed simp

lemma reload_config: "dp_config (fold plan_op (reload_ops a c oo no old new) d) = new"
  by (simp add: reload_ops_def Let_def)

lemma rebuild_reason_None:
  "client_rebuild_reason old p b = None \<longleftrightarrow>
     (\<exists>q. old = Some q \<and> \<not> b \<and> pv_url q = pv_url p \<and> pv_http3 q = pv_http3 p)"
  by (auto simp: client_rebuild_reason_def split: option.split)

lemma name_ops_deploys:
  assumes "provider_deployed d n" "dp_config d = old"
    and "d' = fold plan_op (name_ops t t' (find_provider old n) (find_provider new n)
      (sc_pool_max_idle_per_host (cfg_server old) \<noteq> sc_pool_max_idle_per_host (cfg_server new))
      (sc_pool_max_idle_per_host (cfg_server new)) n) d"
    and "dp_clients d'' n = dp_clients d' n" "dp_entries d'' n = dp_entries d' n" "dp_config d'' = new"
  shows "provider_deployed d'' n"
proof (cases "find_provider new n")
  case None
  then show ?thesis
    using assms by (auto simp: provider_deployed_def name_ops_def Let_def split: if_splits option.splits)
next
  case (Some p)
  have n: "pv_name p = n" using Some by (rule find_provider_name)
  show ?thesis
  proof (cases "client_rebuild_reason (find_provider old n) p
      (sc_pool_max_idle_per_host (cfg_server old) \<noteq> sc_pool_max_idle_per_host (cfg_server new))")
    case None
    then obtain q where q: "find_provider old n = Some q" "pv_url q = pv_url p" "pv_http3 q = pv_http3 p"
      "sc_pool_max_idle_per_host (cfg_server old) = sc_pool_max_idle_per_host (cfg_server new)"
      by (auto simp: rebuild_reason_None)
    then have "build_client q pool = build_client p pool" for pool by (simp add: build_client_def)
    with assms Some None q show ?thesis
      by (auto simp: provider_deployed_def name_ops_def Let_def)
  next
    case reason: (Some r)
    with assms(3) Some n show ?thesis
      using assms(4-6) by (auto simp: provider_deployed_def name_ops_def Let_def)
  qed
qed

lemma reload_in_sync:
  assumes "in_sync d" "dp_config d = old" "distinct (map pv_name (cfg_providers new))"
    and "iterates old_order" "iterates new_order"
  shows "in_sync (fold plan_op (reload_ops add_now cap_now old_order new_order old new) d)"
proof -
  let ?ops = "reload_ops add_now cap_now old_order new_order old new"
  have dist: "distinct (map pv_name (cfg_providers old))" using assms(1,2) by (simp add: in_sync_def)
  have "provider_deployed (fold plan_op ?ops d) n" for n
  proof (rule name_ops_deploys)
    show "provider_deployed d n" using assms(1) by (simp add: in_sync_def)
    show "dp_clients (fold plan_op ?ops d) n = dp_clients (fold plan_op (ops_of n ?ops) d) n"
        "dp_entries (fold plan_op ?ops d) n = dp_entries (fold plan_op (ops_of n ?ops) d) n"
      using plan_ops_of[of d n d ?ops, OF refl refl] by blast+
    show "fold plan_op (ops_of n ?ops) d = fold plan_op (name_ops (add_now n) (cap_now n) (find_provider old n)
        (find_provider new n) (sc_pool_max_idle_per_host (cfg_server old) \<noteq> sc_pool_max_idle_per_host (cfg_server new))
        (sc_pool_max_idle_per_host (cfg_server new)) n) d"
      by (simp only: ops_of_reload[OF dist assms(3-5)])
  qed (rule assms(2) reload_config)+
  then show ?thesis using assms(3) by (simp add: in_sync_def reload_config)
qed

text \<open>C13. A reload from a consistent deployment ends in the deployment the new configuration asks for and
puts it in force, in whatever order the provider maps are iterated.\<close>

theorem reload_installs_config:
  assumes "in_sync (deployed s)" "monitor_ok (ps_monitor s)" "valid_config new"
    and "iterates old_order" "iterates new_order"
  shows "in_sync (deployed (apply_ops (reload_ops add_now cap_now old_order new_order (ps_config s) new) s)) \<and>
    ps_config (apply_ops (reload_ops add_now cap_now old_order new_order (ps_config s) new) s) = new"
proof -
  let ?ops = "reload_ops add_now cap_now old_order new_order (ps_config s) new"
  have d: "deployed (apply_ops ?ops s) = fold plan_op ?ops (deployed s)"
    using deployed_apply_ops[OF assms(2)] by simp
  have "dp_config (deployed s) = ps_config s" by (simp add: deployed_def)
  then have "in_sync (deployed (apply_ops ?ops s))"
    unfolding d by (rule reload_in_sync[OF assms(1) _ valid_config_distinct[OF assms(3)] assms(4,5)])
  moreover have "ps_config (apply_ops ?ops s) = dp_config (deployed (apply_ops ?ops s))" by (simp add: deployed_def)
  ultimately show ?thesis by (simp add: d reload_config)
qed

section \<open>What a reload leaves alone\<close>

lemma health_of_other:
  assumes "op_name op \<noteq> Some n \<or> (\<exists>now cap. op = SetCap now n cap)" "monitor_ok (ps_monitor s)"
  shows "health_of n (apply_op op s) = health_of n s"
proof (cases op)
  case (AddEntry now cl p)
  then show ?thesis
    using assms entry_health_bound[OF assms(2), of n]
    by (auto simp: health_of_def upd_monitor_def add_provider_def alloc_entry_def spawn_loops_def Let_def update_conv'
        nth_append intro!: option.map_cong)
next
  case (DropEntry m)
  then show ?thesis
    using assms(1) by (auto simp: health_of_def upd_monitor_def remove_provider_def delete_conv' split: option.split)
next
  case (SetCap now m cap)
  then show ?thesis
    by (auto simp: health_of_def upd_monitor_def apply_rate_limit_def map_of_set_limiter set_limiter_def update_conv'
        split: option.split)
qed (auto simp: health_of_def)

lemma health_of_ops:
  assumes "\<forall>op \<in> set (ops_of n ops). \<exists>now cap. op = SetCap now n cap" "monitor_ok (ps_monitor s)"
  shows "health_of n (apply_ops ops s) = health_of n s"
  using assms unfolding apply_ops_def
proof (induction ops arbitrary: s)
  case (Cons op ops)
  have "health_of n (apply_op op s) = health_of n s"
    using Cons.prems by (intro health_of_other) (auto split: if_splits)
  then show ?case using Cons by (auto simp: apply_op_ok split: if_splits)
qed simp

text \<open>A provider whose client inputs did not change meets at most a new cap.\<close>

lemma unchanged_ops:
  assumes "in_sync (deployed s)" "valid_config new" "iterates old_order" "iterates new_order"
    and "find_provider (ps_config s) n = Some p" "find_provider new n = Some q"
    and "pv_url p = pv_url q" "pv_http3 p = pv_http3 q"
    and "sc_pool_max_idle_per_host (cfg_server (ps_config s)) = sc_pool_max_idle_per_host (cfg_server new)"
  shows "\<forall>op \<in> set (ops_of n (reload_ops add_now cap_now old_order new_order (ps_config s) new)).
    \<exists>now cap. op = SetCap now n cap"
proof -
  have "distinct (map pv_name (cfg_providers (ps_config s)))"
    using assms(1) by (simp add: in_sync_def deployed_def)
  then have "ops_of n (reload_ops add_now cap_now old_order new_order (ps_config s) new) =
      (if pv_max_rps p \<noteq> pv_max_rps q then [SetCap (cap_now n) n (pv_max_rps q)] else [])"
    using assms(2-9) by (simp add: ops_of_reload valid_config_distinct name_ops_def client_rebuild_reason_def)
  then show ?thesis by simp
qed

text \<open>C14. A reload leaves the health of a provider alone (same record, same stop flag, same content) if
its URL, http3 flag and the pool size did not change, even if its rate cap, weight or methods did.\<close>

theorem reload_keeps_health:
  assumes "monitor_ok (ps_monitor s)" "in_sync (deployed s)" "valid_config new"
    and "iterates old_order" "iterates new_order"
    and "find_provider (ps_config s) n = Some p" "find_provider new n = Some q"
    and "pv_url p = pv_url q" "pv_http3 p = pv_http3 q"
    and "sc_pool_max_idle_per_host (cfg_server (ps_config s)) = sc_pool_max_idle_per_host (cfg_server new)"
  shows "health_of n (apply_ops (reload_ops add_now cap_now old_order new_order (ps_config s) new) s) = health_of n s"
  by (rule health_of_ops[OF unchanged_ops[OF assms(2-10)] assms(1)])

theorem failed_reload_changes_nothing:
  "apply_ops (snd (watch_tick add_now cap_now old_order new_order current (Inl e) last_mtime (ps_config s))) s = s \<and>
   apply_ops (snd (watch_tick add_now cap_now old_order new_order last_mtime loaded last_mtime (ps_config s))) s = s"
  by (simp add: watch_tick_def apply_ops_def)

section \<open>A rebuilt provider starts afresh\<close>

lemma health_of_add:
  "health_of (pv_name p) (apply_op (AddEntry now cl p) s) =
     Some (length (mo_healths (ps_monitor s)), length (mo_stops (ps_monitor s)), pv_name p, inner_new)"
  by (simp add: health_of_def upd_monitor_def add_provider_def alloc_entry_def spawn_loops_def Let_def update_conv')

lemma stop_set_apply_op: "stop_set i s \<Longrightarrow> stop_set i (apply_op op s)"
  by (cases op) (auto simp: stop_set_def upd_monitor_def add_provider_def alloc_entry_def spawn_loops_def Let_def
      nth_append remove_provider_def apply_rate_limit_def nth_set_True split: option.split)

lemma stop_set_apply_ops: "stop_set i s \<Longrightarrow> stop_set i (apply_ops ops s)"
  unfolding apply_ops_def by (induction ops arbitrary: s) (auto simp: stop_set_apply_op)

lemma healths_grow: "length (mo_healths (ps_monitor s)) \<le> length (mo_healths (ps_monitor (apply_ops ops s)))"
  unfolding apply_ops_def
proof (induction ops arbitrary: s)
  case (Cons op ops)
  have "length (mo_healths (ps_monitor s)) \<le> length (mo_healths (ps_monitor (apply_op op s)))"
    by (cases op) (auto simp: upd_monitor_def add_provider_def alloc_entry_def spawn_loops_def Let_def
        remove_provider_def apply_rate_limit_def set_limiter_def split: option.split)
  with Cons[of "apply_op op s"] show ?case by simp
qed simp

lemma drop_entry_stops:
  assumes "monitor_ok (ps_monitor s)" "health_of n s = Some (h, st, g)"
  shows "stop_set st (apply_op (DropEntry n) s)"
proof -
  obtain e where e: "map_of (mo_entries (ps_monitor s)) n = Some e" "pe_stop e = st"
    using assms(2) by (auto simp: health_of_def)
  then have "st < length (mo_stops (ps_monitor s))"
    using assms(1) map_of_SomeD[OF e(1)] by (force simp: monitor_ok_def skeleton_def)
  with e show ?thesis by (simp add: stop_set_def upd_monitor_def remove_provider_def)
qed

lemma apply_ops_append [simp]: "apply_ops (xs @ ys) s = apply_ops ys (apply_ops xs s)"
  by (simp add: apply_ops_def)

lemma apply_ops_Cons [simp]: "apply_ops (op # ops) s = apply_ops ops (apply_op op s)"
  by (simp add: apply_ops_def)

lemma filter_split:
  assumes "filter P xs = y # ys"
  obtains us vs where "xs = us @ y # vs" "filter P us = []" "filter P vs = ys"
  using assms by (auto simp: filter_eq_Cons_iff filter_empty_conv)

lemma rebuild_effect:
  assumes "monitor_ok (ps_monitor s)" "health_of n s = Some (h, st, g)" "pv_name q = n"
    and "ops_of n ops = [DropClient n, DropEntry n, InsertClient n cl, AddEntry now cl q] @ caps"
    and "\<forall>op \<in> set caps. \<exists>t cap. op = SetCap t n cap"
  shows "stop_set st (apply_ops ops s) \<and>
    (\<exists>h' st'. health_of n (apply_ops ops s) = Some (h', st', n, inner_new) \<and> length (mo_healths (ps_monitor s)) \<le> h')"
proof -
  obtain a b where ab: "ops = a @ DropClient n # b" "ops_of n a = []"
      "ops_of n b = [DropEntry n, InsertClient n cl, AddEntry now cl q] @ caps"
    using assms(4) by (auto elim: filter_split)
  obtain c d where cd: "b = c @ DropEntry n # d" "ops_of n c = []"
      "ops_of n d = [InsertClient n cl, AddEntry now cl q] @ caps"
    using ab(3) by (auto elim: filter_split)
  obtain e f where ef: "d = e @ InsertClient n cl # f" "ops_of n f = [AddEntry now cl q] @ caps"
    using cd(3) by (auto elim: filter_split)
  obtain u v where uv: "f = u @ AddEntry now cl q # v" "ops_of n v = caps"
    using ef(2) by (auto elim: filter_split)
  define s1 where "s1 = apply_ops (a @ DropClient n # c) s"
  define s2 where "s2 = apply_ops (e @ InsertClient n cl # u) (apply_op (DropEntry n) s1)"
  have ok: "monitor_ok (ps_monitor s1)" "monitor_ok (ps_monitor s2)"
    unfolding s1_def s2_def using assms(1) deployed_apply_ops apply_op_ok by metis+
  have "health_of n s1 = health_of n s"
  proof -
    have "health_of n (apply_ops a s) = health_of n s" using health_of_ops[of n a s] ab(2) assms(1) by simp
    moreover have "health_of n (apply_op (DropClient n) t) = health_of n t" for t by (simp add: health_of_def)
    moreover have "health_of n (apply_ops c (apply_op (DropClient n) (apply_ops a s))) =
        health_of n (apply_op (DropClient n) (apply_ops a s))"
      using health_of_ops[of n c] cd(2) assms(1) deployed_apply_ops apply_op_ok by simp
    ultimately show ?thesis by (simp add: s1_def)
  qed
  with assms(2) have stopped: "stop_set st (apply_op (DropEntry n) s1)" by (intro drop_entry_stops[OF ok(1)]) auto
  have "apply_ops ops s = apply_ops v (apply_op (AddEntry now cl q) s2)"
    by (simp add: ab cd ef uv s1_def s2_def)
  moreover have "health_of n (apply_ops v (apply_op (AddEntry now cl q) s2)) =
      Some (length (mo_healths (ps_monitor s2)), length (mo_stops (ps_monitor s2)), n, inner_new)"
    using health_of_ops[of n v "apply_op (AddEntry now cl q) s2"] apply_op_ok[OF ok(2), of "AddEntry now cl q"]
      uv(2) assms(3,5) health_of_add[of q now cl s2] by simp
  moreover have "stop_set st (apply_ops v (apply_op (AddEntry now cl q) s2))"
    unfolding s2_def by (intro stop_set_apply_ops stop_set_apply_op stopped)
  moreover have "length (mo_healths (ps_monitor s)) \<le> length (mo_healths (ps_monitor s2))"
    using healths_grow[of s "(a @ DropClient n # c) @ [DropEntry n] @ e @ InsertClient n cl # u"]
    by (simp add: s1_def s2_def)
  ultimately show ?thesis by auto
qed

theorem reload_resets_changed_provider:
  assumes "monitor_ok (ps_monitor s)" "in_sync (deployed s)" "valid_config new"
    and "iterates old_order" "iterates new_order"
    and "find_provider (ps_config s) n = Some p" "find_provider new n = Some q" "pv_url p \<noteq> pv_url q"
    and "health_of n s = Some (h, st, g)"
    and "s' = apply_ops (reload_ops add_now cap_now old_order new_order (ps_config s) new) s"
  shows "stop_set st s' \<and> (\<exists>h' st'. health_of n s' = Some (h', st', n, inner_new) \<and> h' \<noteq> h)"
proof -
  have h: "h < length (mo_healths (ps_monitor s))"
    using assms(9) entry_health_bound[OF assms(1), of n] by (auto simp: health_of_def)
  have "distinct (map pv_name (cfg_providers (ps_config s)))"
    using assms(2) by (simp add: in_sync_def deployed_def)
  then have "ops_of n (reload_ops add_now cap_now old_order new_order (ps_config s) new) =
      [DropClient n, DropEntry n, InsertClient n (build_client q (sc_pool_max_idle_per_host (cfg_server new))),
       AddEntry (add_now n) (build_client q (sc_pool_max_idle_per_host (cfg_server new))) q] @
      (if pv_max_rps p \<noteq> pv_max_rps q then [SetCap (cap_now n) n (pv_max_rps q)] else [])"
    using assms by (simp add: ops_of_reload valid_config_distinct name_ops_def client_rebuild_reason_def)
  from rebuild_effect[OF assms(1,9) find_provider_name[OF assms(7)] this] show ?thesis
    using h assms(10) by fastforce
qed

section \<open>The initial deployment\<close>

lemma build_clients_find:
  assumes "distinct (map pv_name (cfg_providers cfg))"
  shows "map_of (build_clients (cfg_providers cfg) pool) n = map_option (\<lambda>p. build_client p pool) (find_provider cfg n)"
proof -
  have "map_of (fold (\<lambda>p cls. AList.update (pv_name p) (build_client p pool) cls) ps acc) n =
      (case find (\<lambda>p. pv_name p = n) ps of Some p \<Rightarrow> Some (build_client p pool) | None \<Rightarrow> map_of acc n)"
    if "distinct (map pv_name ps)" for ps acc
    using that
  proof (induction ps arbitrary: acc)
    case (Cons p ps)
    have "find (\<lambda>q. pv_name q = pv_name p) ps = None" using Cons.prems by (auto simp: find_None_iff) (metis image_eqI)
    with Cons show ?case by (auto simp: update_conv' split: option.split)
  qed simp
  with assms show ?thesis by (simp add: build_clients_def find_provider_def split: option.split)
qed

lemma insert_provider_map:
  "map_of (mo_entries (insert_provider now p m)) = (map_of (mo_entries m))(pv_name p \<mapsto>
     \<lparr>pe_health = length (mo_healths m), pe_limiter = build_limiter now (pv_max_rps p), pe_stop = length (mo_stops m)\<rparr>)"
  by (simp add: insert_provider_def alloc_entry_def update_conv')

lemma insert_providers_entry:
  assumes "distinct (map pv_name ps)"
  shows "case find (\<lambda>p. pv_name p = n) ps of
      None \<Rightarrow> map_of (mo_entries (fold (insert_provider now) ps m)) n = map_of (mo_entries m) n
    | Some p \<Rightarrow> \<exists>e. map_of (mo_entries (fold (insert_provider now) ps m)) n = Some e \<and>
        pe_limiter e = build_limiter now (pv_max_rps p)"
  using assms
proof (induction ps arbitrary: m)
  case (Cons p ps)
  have "find (\<lambda>q. pv_name q = pv_name p) ps = None" using Cons.prems by (auto simp: find_None_iff) (metis image_eqI)
  with Cons.IH[of "insert_provider now p m"] Cons.prems show ?case
    by (auto simp: insert_provider_map split: option.splits)
qed simp

lemma insert_provider_loops [simp]: "mo_loops (fold (insert_provider now) ps m) = mo_loops m"
  by (induction ps arbitrary: m) (auto simp: insert_provider_def alloc_entry_def)

lemma probed_by_alt:
  "probed_by m h = map (\<lambda>(h, st, c, p, d). (c, p, \<not> d \<and> \<not> mo_stops m ! st))
     (filter (\<lambda>t. fst t = h) (map loop_key (mo_loops m)))"
  by (simp add: probed_by_def loop_alive_def loop_key_def filter_map o_def)

lemma start_providers:
  assumes "\<And>p. p \<in> set ps \<Longrightarrow> map_of cls (pv_name p) = Some (f p) \<and> map_of (mo_entries m) (pv_name p) = Some (g p)"
  shows "mo_entries (fold (start_provider cls) ps m) = mo_entries m \<and>
    mo_stops (fold (start_provider cls) ps m) = mo_stops m \<and>
    map loop_key (mo_loops (fold (start_provider cls) ps m)) =
      map loop_key (mo_loops m) @ map (\<lambda>p. (pe_health (g p), pe_stop (g p), f p, p, \<not> supports p ''getSlot'')) ps"
  using assms
proof (induction ps arbitrary: m)
  case (Cons p ps)
  have "start_provider cls p m = spawn_loops (pe_health (g p)) (pe_stop (g p)) (f p) p m"
    using Cons.prems[of p] by (simp add: start_provider_def)
  with Cons.IH[of "spawn_loops (pe_health (g p)) (pe_stop (g p)) (f p) p m"] Cons.prems show ?case
    by (simp add: spawn_loops_def loop_key_def)
qed simp

lemma new_stops_clear: "b \<in> set (mo_stops (monitor_new now ps cfg mt)) \<Longrightarrow> \<not> b"
proof -
  have "True \<notin> set (mo_stops m) \<Longrightarrow> True \<notin> set (mo_stops (insert_provider now p m))" for p m
    by (simp add: insert_provider_def alloc_entry_def)
  then have "True \<notin> set (mo_stops m) \<Longrightarrow> True \<notin> set (mo_stops (fold (insert_provider now) ps m))" for m
    by (induction ps arbitrary: m) auto
  then show "b \<in> set (mo_stops (monitor_new now ps cfg mt)) \<Longrightarrow> \<not> b" unfolding monitor_new_def by (cases b) auto
qed

lemma entries_share_no_health:
  assumes "monitor_ok m" "map_of (mo_entries m) a = Some e" "map_of (mo_entries m) b = Some f" "pe_health e = pe_health f"
  shows "a = b"
proof -
  have d: "distinct (map (\<lambda>(n, h, s). h) (map (\<lambda>(n, e). (n, pe_health e, pe_stop e)) (mo_entries m)))"
    using assms(1) by (simp add: monitor_ok_def skeleton_def)
  then have "inj_on (\<lambda>x. pe_health (snd x)) (set (mo_entries m))"
    by (simp add: distinct_map o_def case_prod_unfold)
  with assms(4) map_of_SomeD[OF assms(2)] map_of_SomeD[OF assms(3)] show ?thesis
    by (metis inj_onD prod.inject snd_conv)
qed

lemma filter_unique:
  assumes "distinct (map key xs)" "x \<in> set xs" "\<And>y. y \<in> set xs \<Longrightarrow> P y \<longleftrightarrow> key y = key x"
  shows "filter P xs = [x]"
  using assms
proof (induction xs)
  case (Cons y xs)
  show ?case
  proof (cases "key y = key x")
    case True
    then have "y = x" using Cons.prems by (auto simp: image_iff)
    moreover have "filter P xs = []" using Cons.prems True by (auto simp: filter_empty_conv image_iff)
    ultimately show ?thesis using Cons.prems by simp
  next
    case False
    then show ?thesis using Cons by auto
  qed
qed simp

lemma find_key: "distinct (map key xs) \<Longrightarrow> x \<in> set xs \<Longrightarrow> find (\<lambda>y. key y = key x) xs = Some x"
  by (induction xs) (auto simp: image_iff)

lemma proxy_new_in_sync:
  assumes "valid_config cfg"
  shows "in_sync (deployed (proxy_new now now_ms mt cfg rep)) \<and> monitor_ok (ps_monitor (proxy_new now now_ms mt cfg rep))"
proof -
  let ?pool = "sc_pool_max_idle_per_host (cfg_server cfg)" and ?ps = "cfg_providers cfg"
  let ?cls = "build_clients ?ps ?pool" and ?m = "monitor_new now ?ps (cfg_health cfg) mt"
  let ?s = "proxy_new now now_ms mt cfg rep"
  have dist: "distinct (map pv_name ?ps)" using assms by (rule valid_config_distinct)
  have ok: "monitor_ok ?m" by (rule monitor_new_ok)
  have entry: "case find_provider cfg n of None \<Rightarrow> map_of (mo_entries ?m) n = None
      | Some p \<Rightarrow> \<exists>e. map_of (mo_entries ?m) n = Some e \<and> pe_limiter e = build_limiter now (pv_max_rps p)" for n
    using insert_providers_entry[OF dist, where n = n and now = now and
        m = "monitor_new now [] (cfg_health cfg) mt"]
    by (simp add: monitor_new_def find_provider_def cong: option.case_cong)
  have found: "find_provider cfg (pv_name p) = Some p" if "p \<in> set ?ps" for p
    using find_key[OF dist that] by (simp add: find_provider_def)
  define g where "g p = the (map_of (mo_entries ?m) (pv_name p))" for p :: provider_config
  have g: "map_of (mo_entries ?m) (pv_name p) = Some (g p)" if "p \<in> set ?ps" for p
    using entry[of "pv_name p"] found[OF that] by (auto simp: g_def)
  have st: "mo_entries (ps_monitor ?s) = mo_entries ?m"
    "mo_stops (ps_monitor ?s) = mo_stops ?m"
    "map loop_key (mo_loops (ps_monitor ?s)) =
      map (\<lambda>p. (pe_health (g p), pe_stop (g p), build_client p ?pool, p, \<not> supports p ''getSlot'')) ?ps"
  proof -
    have "map_of ?cls (pv_name p) = Some (build_client p ?pool) \<and> map_of (mo_entries ?m) (pv_name p) = Some (g p)"
      if "p \<in> set ?ps" for p using build_clients_find[OF dist] found[OF that] g[OF that] by simp
    note sp = start_providers[of ?ps ?cls "\<lambda>p. build_client p ?pool" ?m g, OF this]
    have "mo_loops ?m = []" by (simp add: monitor_new_def)
    with sp show "mo_entries (ps_monitor ?s) = mo_entries ?m"
      "mo_stops (ps_monitor ?s) = mo_stops ?m"
      "map loop_key (mo_loops (ps_monitor ?s)) =
        map (\<lambda>p. (pe_health (g p), pe_stop (g p), build_client p ?pool, p, \<not> supports p ''getSlot'')) ?ps"
      by (simp_all add: proxy_new_def start_def Let_def)
  qed
  have probes: "probed_by (ps_monitor ?s) (pe_health (g p)) = [(build_client p ?pool, p, supports p ''getSlot'')]"
    if p: "p \<in> set ?ps" for p
  proof -
    have "pe_stop (g p) < length (mo_stops ?m)" using entry_range[OF ok g[OF p]] by simp
    then have clear: "\<not> mo_stops ?m ! pe_stop (g p)" using new_stops_clear by (metis nth_mem)
    have "filter (\<lambda>q. pe_health (g q) = pe_health (g p)) ?ps = [p]"
      using entries_share_no_health[OF ok g g] p by (intro filter_unique[OF dist p]) (auto simp: g_def)
    then show ?thesis unfolding probed_by_alt st using clear by (simp add: filter_map o_def)
  qed
  have "provider_deployed (deployed ?s) n" for n
  proof (cases "find_provider cfg n")
    case None
    then show ?thesis using entry[of n] build_clients_find[OF dist, of ?pool n]
      by (simp add: provider_deployed_def deployed_def st) (simp add: proxy_new_def Let_def)
  next
    case (Some p)
    then have p: "p \<in> set ?ps" "pv_name p = n" by (auto simp: find_provider_def find_Some_iff)
    have c: "ps_config ?s = cfg" "ps_clients ?s = ?cls" by (simp_all add: proxy_new_def Let_def)
    show ?thesis using Some entry[of n] g[OF p(1)] probes[OF p(1)] build_clients_find[OF dist, of ?pool n] p(2)
      by (auto simp: provider_deployed_def deployed_def st(1) c Let_def)
  qed
  moreover have "monitor_ok (ps_monitor ?s)" using start_ok[OF ok] by (simp add: proxy_new_def Let_def)
  moreover have "dp_config (deployed ?s) = cfg" by (simp add: deployed_def proxy_new_def Let_def)
  ultimately show ?thesis using dist by (simp add: in_sync_def)
qed

theorem startup_in_sync:
  assumes "load rd scan env toml path = Inr cfg"
  shows "in_sync (deployed (proxy_new now now_ms mt cfg rep)) \<and> monitor_ok (ps_monitor (proxy_new now now_ms mt cfg rep))"
  by (rule proxy_new_in_sync[OF load_valid[OF assms]])

theorem check_passes_iff_reachable:
  "(\<exists>lines. snd (check_command rd scan env toml path replies) = Inr (lines, 0)) \<longleftrightarrow>
   (\<exists>cfg. load rd scan env toml path = Inr cfg \<and> valid_config cfg \<and>
      list_all (\<lambda>p. reply_ok (replies (pv_url p))) (cfg_providers cfg) \<and>
      (case hc_reference_url (cfg_health cfg) of None \<Rightarrow> True | Some u \<Rightarrow> reply_ok (replies u)))"
proof (cases "load rd scan env toml path")
  case (Inr cfg)
  have "list_all (\<lambda>(n, u). reply_ok (replies u)) (map (\<lambda>p. (pv_name p, pv_url p)) (cfg_providers cfg)) =
      list_all (\<lambda>p. reply_ok (replies (pv_url p))) (cfg_providers cfg)"
    by (simp add: list.pred_map o_def)
  with Inr load_valid[OF Inr] show ?thesis by (simp add: check_command_def Let_def split: option.split)
qed (simp add: check_command_def)

section \<open>What a reload does not apply\<close>

lemma monitor_cfg_apply_op [simp]: "mo_cfg (ps_monitor (apply_op op s)) = mo_cfg (ps_monitor s)"
  by (cases op) (auto simp: upd_monitor_def add_provider_def alloc_entry_def spawn_loops_def Let_def remove_provider_def
      apply_rate_limit_def set_limiter_def split: option.split)

theorem health_settings_not_reloaded:
  "mo_cfg (ps_monitor (apply_ops (reload_ops add_now cap_now old_order new_order (ps_config s)
      ((ps_config s)\<lparr>cfg_health := h\<rparr>)) s)) = mo_cfg (ps_monitor s) \<and>
   restart_warnings (ps_config s) ((ps_config s)\<lparr>cfg_health := h\<rparr>) = (False, False)"
proof -
  have "mo_cfg (ps_monitor (apply_ops ops s)) = mo_cfg (ps_monitor s)" for ops s
    unfolding apply_ops_def by (induction ops arbitrary: s) auto
  then show ?thesis by (simp add: restart_warnings_def Let_def)
qed

lemma loops_of_other:
  assumes "op_name op \<noteq> Some n \<or> (\<exists>now cap. op = SetCap now n cap)" "monitor_ok (ps_monitor s)"
  shows "loops_of n (apply_op op s) = loops_of n s"
proof (cases op)
  case (AddEntry now cl p)
  then show ?thesis
    using assms entry_health_bound[OF assms(2), of n]
    by (auto simp: loops_of_def upd_monitor_def add_provider_def alloc_entry_def spawn_loops_def Let_def update_conv'
        split: option.split)
next
  case (DropEntry m)
  then show ?thesis
    using assms(1) by (auto simp: loops_of_def upd_monitor_def remove_provider_def delete_conv' split: option.split)
next
  case (SetCap now m cap)
  then show ?thesis
    by (auto simp: loops_of_def upd_monitor_def apply_rate_limit_def map_of_set_limiter set_limiter_def update_conv'
        split: option.split)
qed (auto simp: loops_of_def cong: option.case_cong)

lemma loops_of_ops:
  assumes "\<forall>op \<in> set (ops_of n ops). \<exists>now cap. op = SetCap now n cap" "monitor_ok (ps_monitor s)"
  shows "loops_of n (apply_ops ops s) = loops_of n s"
  using assms unfolding apply_ops_def
proof (induction ops arbitrary: s)
  case (Cons op ops)
  have "loops_of n (apply_op op s) = loops_of n s"
    using Cons.prems by (intro loops_of_other) (auto split: if_splits)
  then show ?case using Cons by (auto simp: apply_op_ok split: if_splits)
qed simp

text \<open>A provider that was deployed without probe loop, because its methods excluded \<open>getSlot\<close>, is still without one after a
reload that changes only its methods.\<close>

theorem reenabled_probe_never_starts:
  assumes "monitor_ok (ps_monitor s)" "in_sync (deployed s)" "valid_config new"
    and "iterates old_order" "iterates new_order"
    and "find_provider (ps_config s) n = Some p" "find_provider new n = Some q"
    and "pv_url p = pv_url q" "pv_http3 p = pv_http3 q"
    and "sc_pool_max_idle_per_host (cfg_server (ps_config s)) = sc_pool_max_idle_per_host (cfg_server new)"
    and "list_all lt_done (loops_of n s)"
  shows "list_all lt_done (loops_of n (apply_ops (reload_ops add_now cap_now old_order new_order (ps_config s) new) s))"
  using loops_of_ops[OF unchanged_ops[OF assms(2-10)] assms(1)] assms(11) by simp

section \<open>Instances\<close>

lemma demo_validates: "validate demo_config = Inr ()" "validate demo_new_config = Inr ()" "validate demo_submit_config = Inr ()"
  by (simp_all add: validate_def validate_provider_def validate_routing_def validate_health_def
      validate_reporting_def validate_historical_def default_provider_def default_routing_def demo_new_config_def
      default_health_def ensure_def blank_def Let_def demo_config_def demo_submit_config_def)

lemmas demo_valid = demo_validates[THEN validate_sound]

lemma iterates_id: "iterates (\<lambda>m. m)" by (simp add: iterates_def)

lemma demo_state_config [simp]: "ps_config demo_state = demo_config"
  by (simp add: demo_state_def proxy_new_def Let_def)

lemma demo_in_sync: "in_sync (deployed demo_state)" "monitor_ok (ps_monitor demo_state)"
  using proxy_new_in_sync[OF demo_valid(1)] by (simp_all add: demo_state_def)

theorem startup_in_sync_witness:
  "in_sync (deployed (proxy_new 0 0 [] demo_config NoopReporter)) \<and>
   monitor_ok (ps_monitor (proxy_new 0 0 [] demo_config NoopReporter))"
  using startup_in_sync[of "\<lambda>_. Some []" "\<lambda>_. []" "\<lambda>_. None" "\<lambda>_. Some demo_config" "[]" demo_config]
    demo_validates(1) by (simp add: load_def)

theorem reload_installs_config_witness:
  "in_sync (deployed (demo_reload demo_new_config)) \<and> ps_config (demo_reload demo_new_config) = demo_new_config"
  by (rule reload_installs_config[OF demo_in_sync demo_valid(2) iterates_id iterates_id])

lemma demo_new_found:
  "find_provider demo_new_config ''a'' = Some ((default_provider ''a'' ''u'')\<lparr>pv_max_rps := Some 7\<rparr>)"
  "find_provider demo_new_config ''b'' = Some (default_provider ''b'' ''w'')"
  by (simp_all add: find_provider_def demo_new_config_def default_provider_def)

theorem reload_keeps_health_witness:
  "health_of ''a'' (demo_reload demo_new_config) = health_of ''a'' demo_state"
  by (rule reload_keeps_health[OF demo_in_sync(2,1) demo_valid(2) iterates_id iterates_id])
    (simp add: demo_providers_found, rule demo_new_found, simp_all add: default_provider_def demo_new_config_def)

theorem reload_resets_changed_provider_witness:
  "\<exists>h' st'. health_of ''b'' (demo_reload demo_new_config) = Some (h', st', ''b'', inner_new) \<and> h' \<noteq> 1"
proof -
  have h: "health_of ''b'' demo_state = Some (1, 1, ''b'', inner_new)"
    by (simp add: health_of_def demo_state_def proxy_new_def monitor_new_def start_def demo_config_def default_provider_def
        insert_provider_def alloc_entry_def start_provider_def spawn_loops_def build_clients_def Let_def default_health_def)
  show ?thesis
    using reload_resets_changed_provider[OF demo_in_sync(2,1) demo_valid(2) iterates_id iterates_id _ demo_new_found(2) _ h refl,
        of "default_provider ''b'' ''v''" "\<lambda>_. 0" "\<lambda>_. 0"]
    by (simp add: demo_providers_found) (simp add: default_provider_def)
qed

lemma demo_submit_in_sync: "in_sync (deployed demo_submit_state)" "monitor_ok (ps_monitor demo_submit_state)"
  using proxy_new_in_sync[OF demo_valid(3)] by (simp_all add: demo_submit_state_def)

text \<open>In this instance the new configuration lets the provider answer \<open>getSlot\<close>.\<close>

theorem reenabled_probe_never_starts_witness:
  "supports (default_provider ''a'' ''u'') ''getSlot'' \<and>
   list_all lt_done (loops_of ''a'' (apply_ops (reload_ops (\<lambda>_. 0) (\<lambda>_. 0) (\<lambda>m. m) (\<lambda>m. m)
     (ps_config demo_submit_state) demo_config) demo_submit_state))"
proof -
  let ?p = "(default_provider ''a'' ''u'')\<lparr>pv_methods := Some [''sendTransaction'']\<rparr>"
  have p: "find_provider (ps_config demo_submit_state) ''a'' = Some ?p"
    by (simp add: demo_submit_state_def proxy_new_def Let_def demo_submit_config_def find_provider_def default_provider_def)
  have "list_all lt_done (loops_of ''a'' demo_submit_state)"
    by (simp add: loops_of_def demo_submit_state_def proxy_new_def monitor_new_def start_def demo_submit_config_def
        demo_config_def default_provider_def supports_def insert_provider_def alloc_entry_def start_provider_def
        spawn_loops_def build_clients_def build_client_def Let_def default_health_def)
  moreover have "cfg_server (ps_config demo_submit_state) = cfg_server demo_config"
    by (simp add: demo_submit_state_def proxy_new_def Let_def demo_submit_config_def)
  ultimately show ?thesis
    using reenabled_probe_never_starts[OF demo_submit_in_sync(2,1) demo_valid(1) iterates_id iterates_id p
        demo_providers_found(1)] by (simp add: default_provider_def supports_def)
qed

end
