(* ===== verification/System.thy ===== *)
theory System
  imports Broadcast Reload
begin

text \<open>
  The running process: request handlers, the probe loops, the reporter task, the two analytics workers and
  the configuration watcher, all on one shared state. An \<open>action\<close> is one thing that one of them does to the shared
  state without waiting: a metric call, a locked update, a send on a queue. Three actions are coarser than the code:
  a snapshot reads the records of all providers, one turn of the decode worker and one turn of the historical worker
  make several updates; each is taken at one point in time. A \<open>step\<close> is an action of any task, so that a run of
  the process is any interleaving of actions. The operations of \<open>Proxy\<close> are shown to be sequences of actions
  (\<open>Execution\<close> does this for whole handlers), and what holds of every reachable state is proved by induction over the
  steps.
\<close>

section \<open>Actions\<close>

fun rep_step :: "reporter_event \<Rightarrow> reporter \<Rightarrow> reporter" where
  "rep_step ev NoopReporter = NoopReporter"
| "rep_step ev (RemoteReporter cfg r) = RemoteReporter cfg (reporter_step cfg ev r)"

text \<open>A turn of the historical worker hands the aggregates it flushes to the reporter.\<close>

definition hist_turn :: "json_parser \<Rightarrow> hashers \<Rightarrow> hist_event \<Rightarrow> proxy_state \<Rightarrow> proxy_state" where
  "hist_turn parse hashers ev s =
     (case ps_historical s of
        None \<Rightarrow> s
      | Some (cfg, h) \<Rightarrow>
          (let h' = hist_step cfg parse hashers ev h in
           upd_reporter (fold rep_emit (drop (length (hn_emitted h)) (hn_emitted h')))
             (s\<lparr>ps_historical := Some (cfg, h')\<rparr>)))"

text \<open>
  The metric calls, each with the arguments its caller passes; the operations of the monitor, the reporter and the
  historical analyzer; \<open>try_send\<close> and \<open>send\<close> on the queue of the decode worker, and a turn of the worker.
\<close>

datatype action =
    CountRequest string string outcome f64 u64
  | CountFailover string string
  | CountLimited string
  | CountSubmission string bool
  | CountDecode string string "transaction_info option"
  | ExportHealth health_snapshot
  | MonitorEvent monitor_event
  | ReporterEvent reporter_event
  | Enqueue transaction_job
  | EnqueueFlush nat
  | DecodeNext
  | HistoricalEvent hist_event

text \<open>\<open>try_send\<close>: a full queue takes nothing.\<close>

definition tx_try_send :: "transaction_job \<Rightarrow> proxy_state \<Rightarrow> proxy_state" where
  "tx_try_send job s =
     (if length (ps_tx_queue s) < TX_DECODE_QUEUE_CAPACITY then s\<lparr>ps_tx_queue := ps_tx_queue s @ [Decode job]\<rparr> else s)"

fun act ::
  "json_parser \<Rightarrow> (string \<Rightarrow> bytes option) \<Rightarrow> (string \<Rightarrow> bytes option) \<Rightarrow> hashers \<Rightarrow> action \<Rightarrow> proxy_state \<Rightarrow> proxy_state" where
  "act parse base58 base64 hashers (CountRequest me p oc ms n) = upd_metrics (record_request me p (label oc) ms n)"
| "act parse base58 base64 hashers (CountFailover p q) = upd_metrics (record_failover p q)"
| "act parse base58 base64 hashers (CountLimited p) = upd_metrics (record_rate_limited p)"
| "act parse base58 base64 hashers (CountSubmission p acc) = upd_metrics (record_transaction_submission p acc)"
| "act parse base58 base64 hashers (CountDecode p res smp) = upd_metrics (record_transaction_decode p res smp)"
| "act parse base58 base64 hashers (ExportHealth sn) = upd_metrics (export_health sn)"
| "act parse base58 base64 hashers (MonitorEvent ev) = upd_monitor (monitor_step parse ev)"
| "act parse base58 base64 hashers (ReporterEvent ev) = upd_reporter (rep_step ev)"
| "act parse base58 base64 hashers (Enqueue job) = tx_try_send job"
| "act parse base58 base64 hashers (EnqueueFlush caller) = tx_flush_call caller"
| "act parse base58 base64 hashers DecodeNext = tx_worker parse base58 base64"
| "act parse base58 base64 hashers (HistoricalEvent ev) = hist_turn parse hashers ev"

abbreviation acts ::
  "json_parser \<Rightarrow> (string \<Rightarrow> bytes option) \<Rightarrow> (string \<Rightarrow> bytes option) \<Rightarrow> hashers \<Rightarrow> action list \<Rightarrow> proxy_state \<Rightarrow> proxy_state" where
  "acts parse base58 base64 hashers \<equiv> fold (act parse base58 base64 hashers)"

fun is_reload_event :: "monitor_event \<Rightarrow> bool" where
  "is_reload_event (AddProvider now cl p) = True"
| "is_reload_event (RemoveProvider n) = True"
| "is_reload_event (ApplyRateLimit now n r) = True"
| "is_reload_event _ = False"

text \<open>Only the configuration watcher adds, removes or recaps providers.\<close>

fun action_ok :: "action \<Rightarrow> bool" where
  "action_ok (MonitorEvent ev) = (\<not> is_reload_event ev)"
| "action_ok a = True"

inductive step ::
  "json_parser \<Rightarrow> (string \<Rightarrow> bytes option) \<Rightarrow> (string \<Rightarrow> bytes option) \<Rightarrow> hashers \<Rightarrow> proxy_state \<Rightarrow> proxy_state \<Rightarrow> bool"
  for parse base58 base64 hashers where
  step: "action_ok a \<Longrightarrow> step parse base58 base64 hashers s (act parse base58 base64 hashers a s)"

inductive_cases stepE: "step parse base58 base64 hashers s s'"

text \<open>Zero or more steps.\<close>

inductive reaches ::
  "json_parser \<Rightarrow> (string \<Rightarrow> bytes option) \<Rightarrow> (string \<Rightarrow> bytes option) \<Rightarrow> hashers \<Rightarrow> proxy_state \<Rightarrow> proxy_state \<Rightarrow> bool"
  for parse base58 base64 hashers where
  refl: "reaches parse base58 base64 hashers s s"
| snoc: "reaches parse base58 base64 hashers s t \<Longrightarrow> step parse base58 base64 hashers t u \<Longrightarrow>
    reaches parse base58 base64 hashers s u"

text \<open>
  What the operations of a handler do, as lists of actions. A leg that ended with outcome \<open>oc\<close> is counted, reported,
  and recorded for the health of its provider: a success, a failure, a throttling, or nothing.
\<close>

fun health_actions :: "readings \<Rightarrow> string \<Rightarrow> outcome \<Rightarrow> f64 \<Rightarrow> action list" where
  "health_actions ts name OkOutcome ms = [MonitorEvent (RecordOutcome ts name True ms)]"
| "health_actions ts name ProviderError ms = [MonitorEvent (RecordOutcome ts name False ms)]"
| "health_actions ts name RateLimitedOutcome ms = [MonitorEvent (RecordThrottled ts name ms)]"
| "health_actions ts name oc ms = []"

definition record_actions :: "readings \<Rightarrow> string \<Rightarrow> string \<Rightarrow> outcome \<Rightarrow> f64 \<Rightarrow> u64 \<Rightarrow> action list" where
  "record_actions ts me name oc ms n =
     [CountRequest me name oc ms n, ReporterEvent (RecordRequest me name (label oc) ms n)] @ health_actions ts name oc ms"

text \<open>
  The hand-off of a finished request to the two analyzers. A single transaction is counted and queued, or counted as
  dropped if the queue is full; a batch with a transaction is counted as unsupported.
\<close>

definition tx_actions :: "transaction_request \<Rightarrow> bytes \<Rightarrow> string option \<Rightarrow> bool \<Rightarrow> action list" where
  "tx_actions cls body ack queue_full =
     (let provider = unwrap_or ack ''none''; accepted = (ack \<noteq> None) in
      case cls of
        TxNone \<Rightarrow> []
      | TxBatch \<Rightarrow>
          [CountDecode provider ''batch_unsupported'' None, ReporterEvent (RecordDecode provider ''batch_unsupported'' None)]
      | TxSingle \<Rightarrow>
          CountSubmission provider accepted #
          (if queue_full
           then [CountDecode provider ''queue_dropped'' None,
                 ReporterEvent (RecordResult provider accepted ''queue_dropped'' None)]
           else [Enqueue \<lparr>tj_body = body, tj_provider = provider, tj_accepted = accepted\<rparr>]))"

definition finish_actions ::
  "instant \<Rightarrow> request_ctx \<Rightarrow> bytes \<Rightarrow> u16 \<Rightarrow> string option \<Rightarrow> bool \<Rightarrow> action list" where
  "finish_actions now ctx res status ack queue_full =
     tx_actions (cx_transaction ctx) (cx_body ctx) ack queue_full @
     [HistoricalEvent (Finish now (cx_historical ctx) (cx_body ctx) res status (cx_tips ctx))]"

text \<open>What a handler does besides: it takes from a bucket, counts a shed request, and notes a fail-over.\<close>

fun is_aside :: "action \<Rightarrow> bool" where
  "is_aside (MonitorEvent (TryAcquire now n)) = True"
| "is_aside (CountLimited p) = True"
| "is_aside (CountFailover p q) = True"
| "is_aside (ReporterEvent (Emit (Failover p q reason))) = True"
| "is_aside a = False"

text \<open>What holds of the shared state between any two steps.\<close>

definition limiter_ok :: "token_bucket option \<Rightarrow> bool" where
  "limiter_ok l \<longleftrightarrow> (case l of None \<Rightarrow> True | Some b \<Rightarrow> \<exists>k. bucket_ok k b)"

definition limiters_ok :: "monitor \<Rightarrow> bool" where
  "limiters_ok m \<longleftrightarrow> list_all (\<lambda>(n, e). limiter_ok (pe_limiter e)) (mo_entries m)"

fun reporter_ok :: "reporter \<Rightarrow> bool" where
  "reporter_ok NoopReporter = True"
| "reporter_ok (RemoteReporter cfg r) = (length (rm_queue r) \<le> unat (rp_buffer_size cfg) \<and> agg_ok (rm_agg r))"

definition proxy_ok :: "proxy_state \<Rightarrow> bool" where
  "proxy_ok s \<longleftrightarrow>
     monitor_ok (ps_monitor s) \<and> tips_cover (ps_monitor s) \<and> limiters_ok (ps_monitor s) \<and>
     list_all call_labels_ok (mo_metrics (ps_monitor s)) \<and>
     length (ps_tx_queue s) \<le> TX_DECODE_QUEUE_CAPACITY \<and> reporter_ok (ps_reporter s) \<and>
     (case ps_historical s of None \<Rightarrow> True | Some (cfg, h) \<Rightarrow> analytics_ok cfg h \<and> budget_ok cfg h)"

text \<open>
  The process: the shared state, the operations a reload in progress has still to make, and the
  modification time the watcher remembers.
\<close>

type_synonym process = "proxy_state \<times> reload_op list \<times> nat option"

inductive runs ::
  "json_parser \<Rightarrow> (string \<Rightarrow> bytes option) \<Rightarrow> (string \<Rightarrow> bytes option) \<Rightarrow> hashers \<Rightarrow> process \<Rightarrow> bool"
  for parse base58 base64 hashers where
  start: "load rd scan env toml path = Inr cfg \<Longrightarrow> reporter_ok rep \<Longrightarrow>
    runs parse base58 base64 hashers (proxy_new now now_ms (metrics_new v c b r) cfg rep, [], mtime)"
| work: "runs parse base58 base64 hashers (s, ops, mtime) \<Longrightarrow> step parse base58 base64 hashers s s' \<Longrightarrow>
    runs parse base58 base64 hashers (s', ops, mtime)"
| watch: "runs parse base58 base64 hashers (s, [], mtime) \<Longrightarrow> iterates old_order \<Longrightarrow> iterates new_order \<Longrightarrow>
    watch_tick add_now cap_now old_order new_order current (load rd scan env toml path) mtime (ps_config s) = (mtime', ops) \<Longrightarrow>
    runs parse base58 base64 hashers (s, ops, mtime')"
| reload: "runs parse base58 base64 hashers (s, op # ops, mtime) \<Longrightarrow>
    runs parse base58 base64 hashers (apply_op op s, ops, mtime)"

text \<open>A rate cap that a configuration may carry.\<close>

fun op_cap_ok :: "reload_op \<Rightarrow> bool" where
  "op_cap_ok (AddEntry now cl p) = (pv_max_rps p \<noteq> Some 0)"
| "op_cap_ok (SetCap now n cap) = (cap \<noteq> Some 0)"
| "op_cap_ok _ = True"

text \<open>The invariant of the process, with the end of a reload in progress as a prophecy.\<close>

definition process_ok :: "process \<Rightarrow> bool" where
  "process_ok q \<longleftrightarrow> (case q of (s, ops, mtime) \<Rightarrow>
     proxy_ok s \<and> in_sync (fold plan_op ops (deployed s)) \<and> list_all op_cap_ok ops)"

text \<open>
  The methods a JSON-RPC document calls: the \<open>method\<close> strings of its request object, or of each request object of a
  batch, whether or not their literals contain an escape.
\<close>

definition object_methods :: "json \<Rightarrow> string list" where
  "object_methods j =
     (case j of JObj members \<Rightarrow> List.map_filter (\<lambda>(k, v). if k = ''method'' then json_as_str v else None) members
      | _ \<Rightarrow> [])"

definition document_methods :: "json \<Rightarrow> string list" where
  "document_methods j = (case j of JArr js \<Rightarrow> concat (map object_methods js) | _ \<Rightarrow> object_methods j)"

text \<open>The body is one the classifier can read, and it calls a method that needs full history.\<close>

definition needs_full_history :: "json_parser \<Rightarrow> config \<Rightarrow> bytes \<Rightarrow> bool" where
  "needs_full_history parse cfg body \<longleftrightarrow>
     classify_request parse body (rc_full_history_methods (cfg_routing cfg)) \<noteq> None \<and>
     (case parse body of
        None \<Rightarrow> False
      | Some j \<Rightarrow> list_ex (\<lambda>m. m \<in> set (rc_full_history_methods (cfg_routing cfg))) (document_methods j))"

text \<open>A forward that the configuration allows for a body.\<close>

definition forward_allowed ::
  "json_parser \<Rightarrow> config \<Rightarrow> (string \<Rightarrow> string option) \<Rightarrow> bytes \<Rightarrow> string \<times> outbound \<Rightarrow> bool" where
  "forward_allowed parse cfg headers body e \<longleftrightarrow>
     (case find_provider cfg (fst e) of
        None \<Rightarrow> False
      | Some p \<Rightarrow> snd e = forward_request p headers body \<and> supports p (rq_method (request_class_of parse body cfg)) \<and>
          (pv_history p = Recent \<longrightarrow> \<not> needs_full_history parse cfg body))"

abbreviation demo_hashers :: hashers where
  "demo_hashers \<equiv> (\<lambda>_. 0, \<lambda>_. 0)"


section \<open>What the handlers need of an invariant\<close>

locale request_invariant =
  fixes inv :: "proxy_state \<Rightarrow> bool"
  assumes inv_record: "inv s \<Longrightarrow> inv (recorder_record ts me n oc ms c s)"
    and inv_gate: "inv s \<Longrightarrow> inv (snd (rate_gate now gate p n s))"
    and inv_failover: "inv s \<Longrightarrow> inv (note_failover n l s)"
    and inv_finish: "inv s \<Longrightarrow> inv (finish_analytics now ctx b st ack s)"
    and inv_peek: "inv s \<Longrightarrow> inv (s\<lparr>ps_monitor := snd (snapshots_with_tips now (ps_monitor s))\<rparr>)"

begin

lemma seq_reply_inv: "inv s \<Longrightarrow> inv (snd (snd (seq_reply parse cfg ctx limit later name p t res l s)))"
  by (auto simp: seq_reply_def Let_def inv_record inv_finish split: sum.split prod.split)

lemma seq_loop_inv:
  assumes "\<And>n s. inv s \<Longrightarrow> inv (tn_env (turns n) s)"
  shows "inv s \<Longrightarrow> inv (snd (snd (seq_loop parse cfg ctx gate limit turns providers l s)))"
proof (induction providers arbitrary: l s)
  case (Cons name later)
  have "inv (seq_state gate (turns name) p name l s)" for p
    unfolding seq_state_def by (intro assms inv_failover inv_gate Cons.prems)
  then have "inv (snd (snd (seq_reply parse cfg ctx limit later name p (turns name)
      (tn_reply (turns name) (forward_request p (cx_headers ctx) (cx_body ctx)))
      (seq_count name (forward_request p (cx_headers ctx) (cx_body ctx)) l) (seq_state gate (turns name) p name l s))))" for p
    by (rule seq_reply_inv)
  with Cons inv_gate show ?case
    by (simp add: seq_loop_Cons case_prod_beta split: option.split)
qed simp

lemma sequential_inv:
  assumes "\<And>n s. inv s \<Longrightarrow> inv (tn_env (turns n) s)" "inv s"
  shows "inv (snd (snd (sequential parse print cfg providers ctx gate turns now s)))"
proof -
  let ?loop = "seq_loop parse cfg ctx gate (max_attempts cfg providers) turns providers seq_start s"
  obtain r l s' where loop: "?loop = (r, l, s')" by (metis prod_cases3)
  have "inv (snd (snd ?loop))" by (rule seq_loop_inv[OF assms])
  then have "inv s'" by (simp add: loop)
  with loop show ?thesis
    by (auto simp: sequential_def Let_def inv_finish split: option.split)
qed

lemma fan_out_inv: "inv s \<Longrightarrow> inv (snd (fan_out cfg gate turns providers s))"
proof (induction providers arbitrary: s)
  case (Cons n providers)
  then show ?case using inv_gate by (auto simp: case_prod_beta split: option.split)
qed simp

lemma record_leg_inv: "inv s \<Longrightarrow> inv (record_leg ctx t n oc s)"
  by (simp add: record_leg_def inv_record)

lemma bc_race_inv:
  assumes "\<And>n s. inv s \<Longrightarrow> inv (tn_env (turns n) s)"
  shows "inv s \<Longrightarrow> inv (snd (snd (snd (bc_race parse ctx turns legs best s))))"
proof (induction legs arbitrary: best s)
  case (Cons g legs)
  obtain n p where "g = (n, p)" by force
  with Cons assms show ?case
    by (auto simp: Let_def record_leg_inv split: sum.split prod.split)
qed simp

lemma straggler_drain_inv:
  assumes "\<And>n s. inv s \<Longrightarrow> inv (tn_env (turns n) s)"
  shows "inv s \<Longrightarrow> inv (straggler_drain parse ctx turns legs s)"
proof (induction legs arbitrary: s)
  case (Cons g legs)
  obtain n p where "g = (n, p)" by force
  with Cons assms show ?case
    by (auto simp: Let_def record_leg_inv split: sum.split prod.split)
qed simp

lemma broadcast_inv:
  assumes "\<And>n s. inv s \<Longrightarrow> inv (tn_env (turns n) s)" "inv s"
  shows "inv (snd (snd (snd (broadcast parse print cfg providers ctx gate turns now s))))"
proof -
  obtain legs s1 where f: "fan_out cfg gate turns providers s = (legs, s1)" by force
  obtain w rest best s2 where r: "bc_race parse ctx turns (completion_order turns legs) None s1 = (w, rest, best, s2)"
    by (metis prod_cases4)
  have s1: "inv s1" using fan_out_inv[OF assms(2), of cfg gate turns providers] f by simp
  have "inv (snd (snd (snd (bc_race parse ctx turns (completion_order turns legs) None s1))))"
    by (rule bc_race_inv[where turns = turns, OF assms(1) s1])
  then have "inv s2" by (simp add: r)
  with f r assms(2) show ?thesis
    by (auto simp: broadcast_def Let_def inv_finish split: option.split)
qed

lemma handle_rpc_inv:
  assumes "\<And>n s. inv s \<Longrightarrow> inv (tn_env (turns n) s)" "inv s"
  shows "inv (snd (handle_rpc parse print u now turns end_now headers body s))"
  using broadcast_inv[OF assms(1) inv_peek[OF assms(2)]] sequential_inv[OF assms(1) inv_peek[OF assms(2)]]
  by (simp add: handle_rpc_def Let_def case_prod_beta)

end

section \<open>Operations as actions\<close>

lemma export_health_append: "export_health sn m = m @ export_health sn []"
  by (simp add: export_health_def update_provider_health_def update_provider_commitment_def split: option.split)

lemma export_health_labels: "list_all call_labels_ok (export_health sn [])"
  by (simp add: export_health_def metric_labels_ok)

lemma record_append:
  "record_request me p st ms n m = m @ record_request me p st ms n []"
  "record_failover p q m = m @ record_failover p q []"
  "record_rate_limited p m = m @ record_rate_limited p []"
  "record_transaction_submission p a m = m @ record_transaction_submission p a []"
  "record_transaction_decode p res smp m = m @ record_transaction_decode p res smp []"
  by (simp_all add: record_request_def record_failover_def record_rate_limited_def
      record_transaction_submission_def record_transaction_decode_def)

lemma upd_reporter_step:
  "upd_reporter (rep_record (agg_record me p st ms n)) = upd_reporter (rep_step (RecordRequest me p st ms n))"
  "upd_reporter (rep_record (agg_record_transaction_result p a res smp)) = upd_reporter (rep_step (RecordResult p a res smp))"
  "upd_reporter (rep_record (agg_record_transaction_decode p res smp)) = upd_reporter (rep_step (RecordDecode p res smp))"
  "upd_reporter (rep_emit e) = upd_reporter (rep_step (Emit e))"
proof -
  have "rep_record (agg_record me p st ms n) r = rep_step (RecordRequest me p st ms n) r"
    "rep_record (agg_record_transaction_result p a res smp) r = rep_step (RecordResult p a res smp) r"
    "rep_record (agg_record_transaction_decode p res smp) r = rep_step (RecordDecode p res smp) r"
    "rep_emit e r = rep_step (Emit e) r" for r
    by (cases r; simp)+
  then show "upd_reporter (rep_record (agg_record me p st ms n)) = upd_reporter (rep_step (RecordRequest me p st ms n))"
    "upd_reporter (rep_record (agg_record_transaction_result p a res smp)) = upd_reporter (rep_step (RecordResult p a res smp))"
    "upd_reporter (rep_record (agg_record_transaction_decode p res smp)) = upd_reporter (rep_step (RecordDecode p res smp))"
    "upd_reporter (rep_emit e) = upd_reporter (rep_step (Emit e))"
    by presburger+
qed

lemma record_is_actions:
  "recorder_record ts me n oc ms c s = acts parse base58 base64 hashers (record_actions ts me n oc ms c) s"
  by (cases oc) (simp_all add: recorder_record_def record_actions_def upd_reporter_step,
    simp_all add: upd_monitor_def health_effect_def)

lemma gate_is_actions:
  "\<exists>as. list_all is_aside as \<and> snd (rate_gate now gate p n s) = acts parse base58 base64 hashers as s"
proof -
  let ?t = "upd_monitor (monitor_step parse (TryAcquire now n)) s"
  have "snd (rate_gate now gate p n s) \<in> {s, ?t, upd_metrics (record_rate_limited n) ?t}"
    by (simp add: rate_gate_def upd_monitor_def case_prod_beta Let_def)
  then consider "snd (rate_gate now gate p n s) = s" | "snd (rate_gate now gate p n s) = ?t"
    | "snd (rate_gate now gate p n s) = upd_metrics (record_rate_limited n) ?t" by blast
  then show ?thesis
  proof cases
    case 1
    then show ?thesis by (intro exI[of _ "[]"]) simp
  next
    case 2
    then show ?thesis by (intro exI[of _ "[MonitorEvent (TryAcquire now n)]"]) simp
  next
    case 3
    then show ?thesis by (intro exI[of _ "[MonitorEvent (TryAcquire now n), CountLimited n]"]) simp
  qed
qed

lemma failover_is_actions:
  "\<exists>as. list_all is_aside as \<and> note_failover n l s = acts parse base58 base64 hashers as s"
proof (cases "0 < sl_attempt l \<and> sl_prev_failed l \<noteq> None")
  case True
  then obtain q reason where "sl_prev_failed l = Some (q, reason)" by force
  with True show ?thesis
    by (intro exI[of _ "[CountFailover q n, ReporterEvent (Emit (Failover q n reason))]"])
      (simp add: note_failover_def upd_reporter_step)
next
  case False
  then show ?thesis by (intro exI[of _ "[]"]) (auto simp: note_failover_def split: option.split)
qed

lemma tx_finish_is_actions:
  "tx_finish cls body ack s =
     acts parse base58 base64 hashers (tx_actions cls body ack (\<not> length (ps_tx_queue s) < TX_DECODE_QUEUE_CAPACITY)) s"
proof -
  have "ps_tx_queue (upd_metrics f s) = ps_tx_queue s" for f by (simp add: upd_metrics_def)
  then show ?thesis
    by (cases cls) (simp_all add: tx_finish_def tx_actions_def Let_def tx_try_send_def upd_reporter_step)
qed

lemma finish_is_actions:
  "finish_analytics now ctx b st ack s =
     acts parse base58 base64 hashers
       (finish_actions now ctx b st ack (\<not> length (ps_tx_queue s) < TX_DECODE_QUEUE_CAPACITY)) s"
proof -
  let ?t = "tx_finish (cx_transaction ctx) (cx_body ctx) ack s"
  have "finish_analytics now ctx b st ack s =
      hist_turn parse hashers (Finish now (cx_historical ctx) (cx_body ctx) b st (cx_tips ctx)) ?t"
    by (auto simp: finish_analytics_def hist_turn_def Let_def upd_reporter_def hist_finish_def drop_job_def
        split: option.split)
  then show ?thesis
    by (simp add: finish_actions_def tx_finish_is_actions[where parse = parse and ?base58.0 = base58 and ?base64.0 = base64 and hashers = hashers])
qed

lemma peek_is_action:
  "s\<lparr>ps_monitor := snd (snapshots_with_tips now (ps_monitor s))\<rparr> =
     act parse base58 base64 hashers (MonitorEvent (Snapshots now)) s"
  by (simp add: upd_monitor_def)

lemma actions_ok:
  "list_all action_ok (record_actions ts me n oc ms c)" "list_all action_ok (finish_actions now ctx b st ack full)"
  "list_all is_aside as \<Longrightarrow> list_all action_ok as"
proof -
  show "list_all action_ok (record_actions ts me n oc ms c)" by (cases oc) (simp_all add: record_actions_def)
  show "list_all action_ok (finish_actions now ctx b st ack full)"
    by (cases "cx_transaction ctx") (simp_all add: finish_actions_def tx_actions_def Let_def)
  have "is_aside a \<Longrightarrow> action_ok a" for a by (cases a rule: is_aside.cases) simp_all
  then show "list_all is_aside as \<Longrightarrow> list_all action_ok as" by (auto simp: list_all_iff)
qed

section \<open>Invariants of the steps\<close>

text \<open>An invariant of the steps is one of the handlers: each of their operations is a sequence of actions.\<close>

locale step_invariant =
  fixes parse :: json_parser and base58 base64 :: "string \<Rightarrow> bytes option" and hashers :: hashers
    and inv :: "proxy_state \<Rightarrow> bool"
  assumes inv_step: "inv s \<Longrightarrow> step parse base58 base64 hashers s s' \<Longrightarrow> inv s'"

begin

lemma inv_act: "inv s \<Longrightarrow> action_ok a \<Longrightarrow> inv (act parse base58 base64 hashers a s)"
  by (blast intro: inv_step step.step)

lemma inv_acts: "inv s \<Longrightarrow> list_all action_ok as \<Longrightarrow> inv (acts parse base58 base64 hashers as s)"
  by (induction as arbitrary: s) (simp_all add: inv_act)

end

sublocale step_invariant \<subseteq> request_invariant inv
proof
  fix s ts me n oc ms c
  assume "inv s"
  then show "inv (recorder_record ts me n oc ms c s)"
    unfolding record_is_actions[where parse = parse and ?base58.0 = base58 and ?base64.0 = base64 and hashers = hashers]
    by (intro inv_acts actions_ok)
next
  fix s now gate p n
  assume "inv s"
  then show "inv (snd (rate_gate now gate p n s))"
    using gate_is_actions[of now gate p n s parse base58 base64 hashers] inv_acts actions_ok(3) by metis
next
  fix s n l
  assume "inv s"
  then show "inv (note_failover n l s)"
    using failover_is_actions[of n l s parse base58 base64 hashers] inv_acts actions_ok(3) by metis
next
  fix s now b st ack and ctx :: request_ctx
  assume "inv s"
  then show "inv (finish_analytics now ctx b st ack s)"
    unfolding finish_is_actions[where parse = parse and ?base58.0 = base58 and ?base64.0 = base64 and hashers = hashers]
    by (intro inv_acts actions_ok)
next
  fix s now
  assume "inv s"
  then show "inv (s\<lparr>ps_monitor := snd (snapshots_with_tips now (ps_monitor s))\<rparr>)"
    unfolding peek_is_action[where parse = parse and ?base58.0 = base58 and ?base64.0 = base64 and hashers = hashers]
    by (intro inv_act) simp_all
qed

interpretation reachable: step_invariant parse base58 base64 hashers "reaches parse base58 base64 hashers s0"
  by unfold_locales (rule reaches.snoc)

section \<open>Every step keeps the invariant\<close>

lemma reporter_step_ok:
  assumes "reporter_ok (RemoteReporter cfg r)"
  shows "reporter_ok (RemoteReporter cfg (reporter_step cfg ev r))"
proof -
  have "agg_ok (rm_agg (reporter_step cfg ev r))"
  proof (cases ev)
    case (Emit e)
    with assms show ?thesis by (simp add: remote_emit_def)
  qed (use assms step_calls[of r ev] in auto)
  moreover have "length (rm_queue (reporter_step cfg ev r)) \<le> unat (rp_buffer_size cfg)"
    using assms
    by (cases ev) (auto simp: events.send_within remote_record_def remote_flush_def remote_flush_and_wait_def task_recv_def
        task_tick_def task_notified_def task_sent_def task_closed_def task_collect_def send_batch_def release_waiters_def
        Let_def split: list.split task_phase.split prod.split)
  ultimately show ?thesis by simp
qed

lemma rep_step_ok: "reporter_ok r \<Longrightarrow> reporter_ok (rep_step ev r)"
  by (cases r) (simp_all add: reporter_step_ok del: reporter_ok.simps(2))

lemma rep_emit_ok: "reporter_ok r \<Longrightarrow> reporter_ok (rep_emit e r)"
  by (cases r) (auto simp: remote_emit_def)

lemma rep_emits_ok: "reporter_ok r \<Longrightarrow> reporter_ok (fold rep_emit es r)"
  by (induction es arbitrary: r) (simp_all add: rep_emit_ok)

lemma list_all_update: "list_all P xs \<Longrightarrow> P (k, v) \<Longrightarrow> list_all P (AList.update k v xs)"
  by (induction xs) auto

lemma limiters_set: "limiters_ok m \<Longrightarrow> limiter_ok l \<Longrightarrow> limiters_ok (set_limiter n e l m)"
  by (simp add: limiters_ok_def set_limiter_def list_all_update)

lemma limiter_ok_acquire: "limiter_ok (Some l) \<Longrightarrow> limiter_ok (Some (snd (bucket_try_acquire now l)))"
  by (auto simp: limiter_ok_def intro: try_acquire_ok)

lemma limiter_ok_peek: "limiter_ok l \<Longrightarrow> limiter_ok (map_option (\<lambda>l. snd (bucket_has_capacity now l)) l)"
  using has_capacity_ok by (auto simp: limiter_ok_def split: option.split) blast

lemma limiters_lookup: "limiters_ok m \<Longrightarrow> map_of (mo_entries m) n = Some e \<Longrightarrow> limiter_ok (pe_limiter e)"
  by (auto simp: limiters_ok_def list_all_iff dest: map_of_SomeD)

lemma limiters_cong: "mo_entries m' = mo_entries m \<Longrightarrow> limiters_ok m' = limiters_ok m"
  by (simp add: limiters_ok_def)

lemma stage_step_entries [simp]: "mo_entries (snd (stage_step t ts st m)) = mo_entries m"
  by (cases st) simp_all

lemma loop_entries [simp]:
  "mo_entries (health_loop_tick i tick now m) = mo_entries m" "mo_entries (health_loop_reply parse i rep el m) = mo_entries m"
  "mo_entries (health_loop_stage i ts m) = mo_entries m" "mo_entries (reference_loop_tick tick now m) = mo_entries m"
  "mo_entries (reference_loop_reply parse rep m) = mo_entries m" "mo_entries (reference_loop_stage m) = mo_entries m"
  "mo_entries (update_health n f m) = mo_entries m"
  by (simp_all add: health_loop_tick_def health_loop_reply_def health_loop_stage_def reference_loop_tick_def
      reference_loop_reply_def reference_loop_stage_def update_health_at case_prod_beta Let_def
      split: probe_stage.split option.split)

lemma limiters_step:
  assumes "limiters_ok m" "\<not> is_reload_event ev"
  shows "limiters_ok (monitor_step parse ev m)"
proof (cases ev)
  case (TryAcquire now n)
  then show ?thesis using assms(1) limiters_lookup[OF assms(1)] limiter_ok_acquire
    by (auto simp: try_acquire_def case_prod_beta intro!: limiters_set split: option.split) (metis)
next
  case (Snapshots now)
  then show ?thesis using assms(1) limiter_ok_peek
    by (auto simp: snapshots_with_tips_def peek_limiters_def limiters_ok_def list_all_iff)
qed (use assms in \<open>auto simp: mo_record_def mo_record_throttled_def limiters_cong[OF loop_entries(1)]
    limiters_cong[OF loop_entries(2)] limiters_cong[OF loop_entries(3)] limiters_cong[OF loop_entries(4)]
    limiters_cong[OF loop_entries(5)] limiters_cong[OF loop_entries(6)] limiters_cong[OF loop_entries(7)]\<close>)

text \<open>The monitor makes metric calls at the end of a probe only.\<close>

lemma count_probe_labels:
  "list_all call_labels_ok (mo_metrics m) \<Longrightarrow> list_all call_labels_ok (mo_metrics (count_probe p t st m))"
  by (simp add: count_probe_def metric_labels_ok)

lemma observe_round_metrics [simp]: "mo_metrics (observe_round rd s m) = mo_metrics m"
  by (simp add: observe_round_def split: option.split)

lemma stage_step_labels:
  "list_all call_labels_ok (mo_metrics m) \<Longrightarrow> list_all call_labels_ok (mo_metrics (snd (stage_step t ts st m)))"
  by (cases st) (simp_all add: count_probe_labels)

lemma loop_metrics [simp]:
  "mo_metrics (health_loop_tick i tick now m) = mo_metrics m" "mo_metrics (health_loop_reply parse i rep el m) = mo_metrics m"
  "mo_metrics (reference_loop_tick tick now m) = mo_metrics m" "mo_metrics (reference_loop_reply parse rep m) = mo_metrics m"
  "mo_metrics (update_health n f m) = mo_metrics m"
  by (simp_all add: health_loop_tick_def health_loop_reply_def reference_loop_tick_def reference_loop_reply_def
      update_health_at Let_def split: probe_stage.split option.split)

lemma monitor_step_labels:
  assumes "list_all call_labels_ok (mo_metrics m)" "\<not> is_reload_event ev"
  shows "list_all call_labels_ok (mo_metrics (monitor_step parse ev m))"
proof (cases ev)
  case (LoopStage i ts)
  with assms(1) show ?thesis by (simp add: health_loop_stage_def case_prod_beta Let_def stage_step_labels)
next
  case ReferenceStage
  with assms(1) show ?thesis by (simp add: reference_loop_stage_def count_probe_labels split: probe_stage.split)
qed (use assms in \<open>auto simp: snapshots_with_tips_def peek_limiters_def mo_record_def mo_record_throttled_def
    try_acquire_def set_limiter_def case_prod_beta split: option.split\<close>)

lemma proxy_ok_metrics:
  assumes "proxy_ok s" "list_all call_labels_ok (f (mo_metrics (ps_monitor s)))"
  shows "proxy_ok (upd_metrics f s)"
  using assms by (auto simp: proxy_ok_def upd_metrics_def monitor_ok_def skeleton_def tips_cover_def limiters_ok_def)

lemma proxy_ok_labels: "proxy_ok s \<Longrightarrow> list_all call_labels_ok (mo_metrics (ps_monitor s))"
  by (simp add: proxy_ok_def)

lemma proxy_ok_reporter: "proxy_ok s \<Longrightarrow> (\<And>r. reporter_ok r \<Longrightarrow> reporter_ok (f r)) \<Longrightarrow> proxy_ok (upd_reporter f s)"
  by (simp add: proxy_ok_def upd_reporter_def)

lemma proxy_ok_monitor:
  "proxy_ok s \<Longrightarrow> \<not> is_reload_event ev \<Longrightarrow> proxy_ok (upd_monitor (monitor_step parse ev) s)"
  by (simp add: proxy_ok_def upd_monitor_def monitor_step_ok tips_cover_step limiters_step monitor_step_labels)

lemma proxy_ok_tx_worker: "proxy_ok s \<Longrightarrow> proxy_ok (tx_worker parse base58 base64 s)"
proof (cases "ps_tx_queue s")
  case (Cons msg rest)
  assume s: "proxy_ok s"
  have q: "proxy_ok (s\<lparr>ps_tx_queue := rest\<rparr>)" using s Cons by (simp add: proxy_ok_def)
  show ?thesis
  proof (cases msg)
    case (Decode job)
    obtain res info where d: "decode_label (decode_request parse base58 base64 (tj_body job)) = (res, info)" by force
    have "proxy_ok (upd_reporter (rep_record (agg_record_transaction_result (tj_provider job) (tj_accepted job) res smp))
        (upd_metrics (record_transaction_decode (tj_provider job) res smp) (s\<lparr>ps_tx_queue := rest\<rparr>)))" for smp
      unfolding upd_reporter_step
      by (intro proxy_ok_reporter proxy_ok_metrics q rep_step_ok metric_labels_ok proxy_ok_labels)
    with Cons Decode d show ?thesis by (simp add: tx_worker_def Let_def)
  next
    case (TxFlush caller)
    with Cons s show ?thesis by (simp add: tx_worker_def proxy_ok_def)
  qed
qed (simp add: tx_worker_def)

lemma proxy_ok_hist: "proxy_ok s \<Longrightarrow> proxy_ok (hist_turn parse hashers ev s)"
  by (auto simp: hist_turn_def proxy_ok_def upd_reporter_def Let_def analytics_ok_step budget_ok_step rep_emits_ok
      split: option.split)

lemma proxy_ok_act: "proxy_ok s \<Longrightarrow> action_ok a \<Longrightarrow> proxy_ok (act parse base58 base64 hashers a s)"
proof (cases a)
  case (ExportHealth sn)
  moreover assume s: "proxy_ok s"
  ultimately show ?thesis using proxy_ok_labels[OF s] export_health_labels[of sn]
    by (simp add: proxy_ok_metrics export_health_append[of sn "mo_metrics (ps_monitor s)"])
next
  case (MonitorEvent ev)
  moreover assume "proxy_ok s" "action_ok a"
  ultimately show ?thesis by (simp add: proxy_ok_monitor)
next
  case (ReporterEvent ev)
  moreover assume "proxy_ok s"
  ultimately show ?thesis by (auto intro: proxy_ok_reporter rep_step_ok simp del: rep_step.simps)
next
  case (Enqueue job)
  moreover assume "proxy_ok s"
  ultimately show ?thesis by (simp add: proxy_ok_def tx_try_send_def)
next
  case (EnqueueFlush caller)
  moreover assume "proxy_ok s"
  ultimately show ?thesis using tx_flushes.send_within[of s caller] by (auto simp: proxy_ok_def tx_flush_call_def)
qed (auto intro!: proxy_ok_metrics metric_labels_ok proxy_ok_labels proxy_ok_tx_worker proxy_ok_hist)

lemma proxy_ok_step: "proxy_ok s \<Longrightarrow> step parse base58 base64 hashers s s' \<Longrightarrow> proxy_ok s'"
  by (erule stepE) (simp add: proxy_ok_act)

interpretation invariant: step_invariant parse base58 base64 hashers proxy_ok
  by unfold_locales (rule proxy_ok_step)

section \<open>No step touches the deployment\<close>

lemma limiter_cap_acquire [simp]: "limiter_cap (Some (snd (bucket_try_acquire now l))) = limiter_cap (Some l)"
  by (simp add: limiter_cap_def bucket_try_acquire_def refill_def Let_def)

lemma limiter_cap_peek [simp]:
  "limiter_cap (map_option (\<lambda>l. snd (bucket_has_capacity now l)) l) = limiter_cap l"
  by (cases l) (simp_all add: limiter_cap_def bucket_has_capacity_def refill_def Let_def)

lemma map_of_map_entry: "map_of (map (\<lambda>(n, e). (n, f e)) xs) n = map_option f (map_of xs n)"
  by (induction xs) auto

lemma probed_by_keys:
  assumes "map (\<lambda>t. (lt_health t, lt_client t, lt_provider t, loop_alive m' t)) (mo_loops m') =
    map (\<lambda>t. (lt_health t, lt_client t, lt_provider t, loop_alive m t)) (mo_loops m)"
  shows "probed_by m' = probed_by m"
proof (rule ext)
  have alt: "probed_by m h = map snd (filter (\<lambda>k. fst k = h)
      (map (\<lambda>t. (lt_health t, lt_client t, lt_provider t, loop_alive m t)) (mo_loops m)))" for m h
    by (simp add: probed_by_def filter_map o_def)
  show "probed_by m' h = probed_by m h" for h by (simp only: alt assms)
qed

lemma probed_by_frame: "mo_stops m' = mo_stops m \<Longrightarrow> mo_loops m' = mo_loops m \<Longrightarrow> probed_by m' = probed_by m"
  by (rule probed_by_keys) (simp add: loop_alive_def)

text \<open>A step of a loop keeps whom it probes, and a loop that ends had been stopped.\<close>

lemma probed_by_set_stage: "i < length (mo_loops m) \<Longrightarrow> probed_by (set_stage i st m) = probed_by m"
  by (rule probed_by_keys) (simp add: set_stage_def map_update list_update_same_conv loop_alive_def)

lemma probed_by_tick: "i < length (mo_loops m) \<Longrightarrow> probed_by (health_loop_tick i tick now m) = probed_by m"
proof -
  assume i: "i < length (mo_loops m)"
  let ?t = "mo_loops m ! i"
  have "probed_by (m\<lparr>mo_loops := (mo_loops m)[i := ?t\<lparr>lt_done := True\<rparr>]\<rparr>) = probed_by m" if "mo_stops m ! lt_stop ?t"
    using i that by (intro probed_by_keys) (simp add: map_update list_update_same_conv loop_alive_def)
  with i show ?thesis by (simp add: health_loop_tick_def Let_def probed_by_set_stage)
qed

lemma stage_step_loops [simp]:
  "mo_stops (snd (stage_step t ts st m)) = mo_stops m" "mo_loops (snd (stage_step t ts st m)) = mo_loops m"
  by (cases st; simp)+

lemma monitor_step_probed:
  assumes "\<not> is_reload_event ev"
  shows "probed_by (monitor_step parse ev m) = probed_by m"
proof (cases ev)
  case (LoopStage i ts)
  let ?m = "snd (stage_step (mo_loops m ! i) ts (lt_stage (mo_loops m ! i)) m)"
  have "probed_by ?m = probed_by m" by (rule probed_by_frame) simp_all
  then show ?thesis using LoopStage by (simp add: health_loop_stage_def Let_def case_prod_beta probed_by_set_stage)
next
  case (LoopReply i rep el)
  then show ?thesis by (simp add: health_loop_reply_def probed_by_set_stage split: probe_stage.split)
next
  case (LoopTick i tick now)
  then show ?thesis by (simp add: probed_by_tick)
qed (use assms in \<open>auto intro!: probed_by_frame simp: snapshots_with_tips_def peek_limiters_def mo_record_def
    mo_record_throttled_def update_health_at try_acquire_def set_limiter_def case_prod_beta reference_loop_tick_def
    reference_loop_reply_def reference_loop_stage_def split: option.split probe_stage.split\<close>)

lemma deployed_monitor_step:
  assumes "\<not> is_reload_event ev"
  shows "deployed (upd_monitor (monitor_step parse ev) s) = deployed s"
proof -
  let ?m = "ps_monitor s" and ?m' = "monitor_step parse ev (ps_monitor s)"
  have "map_option (\<lambda>e. (limiter_cap (pe_limiter e), probed_by ?m (pe_health e))) (map_of (mo_entries ?m') n) =
      map_option (\<lambda>e. (limiter_cap (pe_limiter e), probed_by ?m (pe_health e))) (map_of (mo_entries ?m) n)" for n
    using assms
    by (cases ev) (auto simp: snapshots_with_tips_def peek_limiters_def map_of_map_entry option.map_comp o_def
        mo_record_def mo_record_throttled_def try_acquire_def map_of_set_limiter case_prod_beta split: option.split)
  then show ?thesis by (simp add: deployed_def upd_monitor_def monitor_step_probed[OF assms])
qed

lemma deployed_frame:
  "deployed (upd_metrics f s) = deployed s" "deployed (upd_reporter g s) = deployed s"
  "deployed (s\<lparr>ps_tx_queue := q\<rparr>) = deployed s" "deployed (s\<lparr>ps_tx_flushed := fl\<rparr>) = deployed s"
  "deployed (s\<lparr>ps_historical := h\<rparr>) = deployed s"
  using probed_by_frame[of "ps_monitor (upd_metrics f s)" "ps_monitor s"]
  by (simp_all add: deployed_def upd_metrics_def upd_reporter_def)

lemma deployed_act: "action_ok a \<Longrightarrow> deployed (act parse base58 base64 hashers a s) = deployed s"
  by (cases a) (auto simp: deployed_monitor_step deployed_frame tx_try_send_def tx_flush_call_def tx_worker_def
      hist_turn_def Let_def split: option.split list.split transaction_message.split prod.split)

lemma deployed_step: "step parse base58 base64 hashers s s' \<Longrightarrow> deployed s' = deployed s"
  by (erule stepE) (simp add: deployed_act)

interpretation frame: step_invariant parse base58 base64 hashers "\<lambda>s. deployed s = d"
  by unfold_locales (simp add: deployed_step)

section \<open>The process keeps its invariants\<close>

lemma limiter_ok_new: "cap \<noteq> Some 0 \<Longrightarrow> limiter_ok (build_limiter now cap)"
  by (auto simp: limiter_ok_def build_limiter_def intro: bucket_new_ok split: option.split)

lemma limiter_ok_reconfigure: "r \<noteq> 0 \<Longrightarrow> limiter_ok (Some l) \<Longrightarrow> limiter_ok (Some (bucket_reconfigure now r l))"
  using reconfigure_ok by (fastforce simp: limiter_ok_def)

lemma list_all_delete: "list_all P xs \<Longrightarrow> list_all P (AList.delete k xs)"
  by (induction xs) auto

lemma limiters_apply_op:
  assumes "limiters_ok (ps_monitor s)" "op_cap_ok op"
  shows "limiters_ok (ps_monitor (apply_op op s))"
proof (cases op)
  case (AddEntry now cl p)
  with assms show ?thesis
    by (auto simp: limiters_ok_def upd_monitor_def add_provider_def alloc_entry_def spawn_loops_def Let_def
        limiter_ok_new intro!: list_all_update)
next
  case (DropEntry n)
  with assms show ?thesis
    by (auto simp: limiters_ok_def upd_monitor_def remove_provider_def list_all_delete split: option.split)
next
  case (SetCap now n cap)
  have new: "limiter_ok (Some (bucket_new now r))" if "r \<noteq> 0" for r
    using limiter_ok_new[of "Some r" now] that by (simp add: build_limiter_def)
  show ?thesis using SetCap assms limiters_lookup[OF assms(1), of n] new
    by (auto simp: upd_monitor_def apply_rate_limit_def limiter_ok_reconfigure limiter_ok_def[of None]
        intro!: limiters_set split: option.split)
qed (use assms in auto)

lemma proxy_ok_apply_op:
  assumes "proxy_ok s" "op_cap_ok op"
  shows "proxy_ok (apply_op op s)"
proof -
  have "tips_cover (ps_monitor (apply_op op s))"
    using assms(1) tips_cover_step[of "ps_monitor s" _ "AddProvider _ _ _"] tips_cover_step[of "ps_monitor s" _ "RemoveProvider _"]
      tips_cover_step[of "ps_monitor s" _ "ApplyRateLimit _ _ _"]
    by (cases op) (auto simp: proxy_ok_def upd_monitor_def)
  moreover have "mo_metrics (ps_monitor (apply_op op s)) = mo_metrics (ps_monitor s)"
    by (cases op) (auto simp: upd_monitor_def add_provider_def alloc_entry_def spawn_loops_def remove_provider_def
        apply_rate_limit_def set_limiter_def Let_def split: option.split)
  moreover have "ps_tx_queue (apply_op op s) = ps_tx_queue s" "ps_reporter (apply_op op s) = ps_reporter s"
      "ps_historical (apply_op op s) = ps_historical s"
    by (cases op; simp add: upd_monitor_def)+
  ultimately show ?thesis
    using assms apply_op_ok[of s op] limiters_apply_op[of s op] by (simp add: proxy_ok_def)
qed

lemma valid_caps: "valid_config cfg \<Longrightarrow> find_provider cfg n = Some p \<Longrightarrow> pv_max_rps p \<noteq> Some 0"
  by (auto simp: valid_config_def valid_provider_def find_provider_def find_Some_iff)

lemma name_ops_cap_ok:
  "(\<And>p. new = Some p \<Longrightarrow> pv_max_rps p \<noteq> Some 0) \<Longrightarrow> list_all op_cap_ok (name_ops t t' old new b pool n)"
  by (auto simp: name_ops_def split: option.split)

lemma reload_ops_cap_ok:
  assumes "valid_config new" "distinct (map pv_name (cfg_providers old))" "iterates old_order" "iterates new_order"
  shows "list_all op_cap_ok (reload_ops add_now cap_now old_order new_order old new)"
proof -
  let ?ops = "reload_ops add_now cap_now old_order new_order old new"
  have "op_cap_ok op" if "op \<in> set ?ops" for op
  proof (cases "op_name op")
    case None
    then show ?thesis by (cases op) auto
  next
    case (Some n)
    have "list_all op_cap_ok (ops_of n ?ops)"
      unfolding ops_of_reload[OF assms(2) valid_config_distinct[OF assms(1)] assms(3,4)]
      by (rule name_ops_cap_ok) (rule valid_caps[OF assms(1)])
    with that Some show ?thesis by (simp add: list_all_iff)
  qed
  then show ?thesis by (simp add: list_all_iff)
qed

lemma limiters_new:
  assumes "\<forall>p \<in> set ps. pv_max_rps p \<noteq> Some 0" "limiters_ok m"
  shows "limiters_ok (fold (insert_provider now) ps m)"
  using assms
proof (induction ps arbitrary: m)
  case (Cons p ps)
  have "limiters_ok (insert_provider now p m)"
    using Cons.prems by (auto simp: limiters_ok_def insert_provider_def alloc_entry_def limiter_ok_new intro!: list_all_update)
  with Cons show ?case by simp
qed simp

lemma start_frame:
  "mo_entries (start cls ps m) = mo_entries m" "mo_metrics (start cls ps m) = mo_metrics m"
proof -
  have "mo_entries (fold (start_provider cls) qs m) = mo_entries m \<and> mo_metrics (fold (start_provider cls) qs m) = mo_metrics m" for qs
    by (induction qs arbitrary: m) (auto simp: start_provider_def spawn_loops_def split: option.split)
  then show "mo_entries (start cls ps m) = mo_entries m" "mo_metrics (start cls ps m) = mo_metrics m"
    by (simp_all add: start_def Let_def)
qed

lemma monitor_new_metrics: "mo_metrics (fold (insert_provider now) ps m) = mo_metrics m"
  by (induction ps arbitrary: m) (auto simp: insert_provider_def alloc_entry_def)

lemma proxy_new_ok:
  assumes "valid_config cfg" "list_all call_labels_ok mt" "reporter_ok rep"
  shows "proxy_ok (proxy_new now now_ms mt cfg rep)"
proof -
  have "\<forall>p \<in> set (cfg_providers cfg). pv_max_rps p \<noteq> Some 0"
    using assms(1) by (auto simp: valid_config_def valid_provider_def)
  then have "limiters_ok (monitor_new now (cfg_providers cfg) (cfg_health cfg) mt)"
    unfolding monitor_new_def by (rule limiters_new) (simp add: limiters_ok_def)
  moreover have "mo_metrics (monitor_new now (cfg_providers cfg) (cfg_health cfg) mt) = mt"
    by (simp add: monitor_new_def monitor_new_metrics)
  ultimately show ?thesis
    using assms(2,3)
    by (simp add: proxy_ok_def proxy_new_def Let_def start_ok monitor_new_ok tips_cover_start start_frame
        limiters_ok_def[of "start _ _ _"] limiters_ok_def[symmetric] analytics_ok_new budget_ok_new split: option.split)
qed

lemma runs_process_ok: "runs parse base58 base64 hashers q \<Longrightarrow> process_ok q"
proof (induction rule: runs.induct)
  case (start rd scan env toml path cfg rep now now_ms v c b r mtime)
  have "valid_config cfg" using start(1) by (rule load_valid)
  with start(2) show ?case
    using proxy_new_in_sync proxy_new_ok[OF _ metric_labels_ok(1)] by (simp add: process_ok_def)
next
  case (work s ops mtime s')
  then show ?case using proxy_ok_step[OF _ work(2)] deployed_step[OF work(2)] by (simp add: process_ok_def)
next
  case (watch s mtime old_order new_order add_now cap_now current rd scan env toml path mtime' ops)
  then have s: "proxy_ok s" "in_sync (deployed s)" by (simp_all add: process_ok_def)
  have dist: "distinct (map pv_name (cfg_providers (ps_config s)))" "dp_config (deployed s) = ps_config s"
    using s(2) by (simp_all add: in_sync_def deployed_def)
  show ?case
  proof (cases "ops = []")
    case True
    with s show ?thesis by (simp add: process_ok_def)
  next
    case False
    with watch(4) obtain new where new: "load rd scan env toml path = Inr new"
      "ops = reload_ops add_now cap_now old_order new_order (ps_config s) new"
      by (auto simp: watch_tick_def split: if_splits sum.splits)
    have "valid_config new" using new(1) by (rule load_valid)
    then show ?thesis unfolding process_ok_def new(2)
      using s reload_in_sync[OF s(2) dist(2) valid_config_distinct watch(2,3)] reload_ops_cap_ok[OF _ dist(1) watch(2,3)]
      by simp
  qed
next
  case (reload s op ops mtime)
  then have "proxy_ok s" "op_cap_ok op" "list_all op_cap_ok ops" "in_sync (fold plan_op ops (plan_op op (deployed s)))"
    by (simp_all add: process_ok_def)
  moreover from this have "deployed (apply_op op s) = plan_op op (deployed s)"
    by (intro deployed_apply_op) (simp add: proxy_ok_def)
  ultimately show ?case by (simp add: process_ok_def proxy_ok_apply_op)
qed

section \<open>Handlers as runs\<close>

lemma reaches_trans:
  assumes "reaches parse base58 base64 hashers s t" "reaches parse base58 base64 hashers t u"
  shows "reaches parse base58 base64 hashers s u"
  using assms(2,1) by induction (auto intro: reaches.snoc)

text \<open>C1. In every reachable state of the process, whatever the interleaving of request handlers, probe
loops, reporter, analytics workers and configuration reloads: the monitor is well formed, every
stored slot is covered by its round's tip, every token bucket is within its cap, every metric call
carries the labels its family is registered with, and the three queues (transactions, historical
jobs, telemetry) are within their bounds.\<close>

theorem process_invariant:
  assumes "runs parse base58 base64 hashers (s, ops, mtime)"
  shows "proxy_ok s"
  using runs_process_ok[OF assms] by (simp add: process_ok_def)

text \<open>C2. Whenever no reload is in progress, what is deployed is what the configuration in force asks for:
exactly its providers have a client and a health entry, each client is built from the configured
inputs, each entry carries the configured rate cap, and there is exactly one probe loop task for it,
on the configured URL. That task is running if the methods the provider had when its entry was made
include getSlot, and has ended at once if not; a reload that changes only the methods does not
change this.\<close>

theorem quiescent_process_in_sync:
  assumes "runs parse base58 base64 hashers (s, [], mtime)"
  shows "in_sync (deployed s)"
  using runs_process_ok[OF assms] by (simp add: process_ok_def)

text \<open>The other handlers and the telemetry tick are sequences of steps as well.\<close>

lemma export_all_is_actions:
  "upd_metrics (fold export_health snaps) s = acts parse base58 base64 hashers (map ExportHealth snaps) s"
proof (induction snaps arbitrary: s)
  case (Cons sn snaps)
  have "upd_metrics (fold export_health (sn # snaps)) s = upd_metrics (fold export_health snaps) (upd_metrics (export_health sn) s)"
    by (simp add: upd_metrics_def)
  then show ?case unfolding list.map fold_simps act.simps Cons .
qed (simp add: upd_metrics_def)

lemma health_events_are_actions:
  "fold (\<lambda>sn. upd_reporter (rep_emit (health_event sn))) snaps s =
     acts parse base58 base64 hashers (map (\<lambda>sn. ReporterEvent (Emit (health_event sn))) snaps) s"
  by (induction snaps arbitrary: s) (simp_all add: upd_reporter_step)

context step_invariant
begin

lemma snapshots_inv: "inv s \<Longrightarrow> inv (s\<lparr>ps_monitor := snd (snapshots now (ps_monitor s))\<rparr>)"
  using inv_peek[of s now] by (simp add: snapshots_def case_prod_beta)

lemma handle_health_inv: "inv s \<Longrightarrow> inv (snd (handle_health now s))"
  using snapshots_inv by (simp add: handle_health_def case_prod_beta)

lemma handle_metrics_inv: "inv s \<Longrightarrow> inv (snd (handle_metrics now s))"
  unfolding handle_metrics_def case_prod_beta Let_def snd_conv
    export_all_is_actions[where parse = parse and ?base58.0 = base58 and ?base64.0 = base64 and hashers = hashers]
  by (intro inv_acts snapshots_inv) (simp_all add: list_all_iff)

lemma health_report_tick_inv: "inv s \<Longrightarrow> inv (health_report_tick now s)"
  unfolding health_report_tick_def case_prod_beta Let_def
    health_events_are_actions[where parse = parse and ?base58.0 = base58 and ?base64.0 = base64 and hashers = hashers]
  by (intro inv_acts snapshots_inv) (simp_all add: list_all_iff)

end

lemma background_handlers_are_runs:
  "reaches parse base58 base64 hashers s (snd (handle_metrics now s))"
  "reaches parse base58 base64 hashers s (snd (handle_health now s))"
  "reaches parse base58 base64 hashers s (health_report_tick now s)"
  by (rule reachable.handle_metrics_inv reachable.handle_health_inv reachable.health_report_tick_inv, rule reaches.refl)+

section \<open>What one request sends\<close>

lemma snapshot_names:
  assumes "monitor_ok m"
  shows "map hs_name (fst (fst (snapshots_with_tips now m))) = map fst (mo_entries m)"
proof -
  have "hs_name (snapshot_entry now m e) = fst e" if "e \<in> set (mo_entries m)" for e
  proof -
    have "distinct (map fst (mo_entries m))" using assms by (simp add: monitor_ok_def skeleton_def o_def case_prod_unfold)
    with that have "map_of (mo_entries m) (fst e) = Some (snd e)" by (simp add: map_of_eq_Some_iff)
    from entry_range[OF assms this] show ?thesis by (simp add: snapshot_entry_def snapshot_def Let_def)
  qed
  then show ?thesis by (simp add: snapshots_with_tips_def)
qed

lemma fan_out_legs:
  "subseq (map fst (fst (fan_out cfg gate turns providers s))) providers \<and>
   list_all (\<lambda>(n, p). find_provider cfg n = Some p) (fst (fan_out cfg gate turns providers s))"
proof (induction providers arbitrary: s)
  case (Cons n providers)
  show ?case
    using Cons.IH[of s] Cons.IH[of "snd (rate_gate (tn_now (turns n)) gate p n s)" for p]
    by (auto simp: case_prod_beta split: option.split)
qed simp

lemma broadcast_legs:
  "fst (snd (broadcast parse print cfg providers ctx gate turns now s)) =
     (if providers = [] then [] else fst (fan_out cfg gate turns providers s))"
  by (auto simp: broadcast_def case_prod_beta Let_def simp del: fan_out.simps split: option.split)

lemma subseq_keeps: "subseq xs ys \<Longrightarrow> set xs \<subseteq> set ys \<and> (distinct ys \<longrightarrow> distinct xs)"
  by (induction rule: list_emb.induct) auto

text \<open>What the classifier makes of a body it can read agrees with the methods the document calls.\<close>

lemma field_members:
  assumes "method_field j = Some x" "m \<in> set (object_methods j)"
  shows "x = Some m"
proof -
  obtain members where j: "j = JObj members" using assms(2) by (cases j) (simp_all add: object_methods_def)
  have ms: "object_methods j = List.map_filter (\<lambda>(k, v). json_as_str v) (filter (\<lambda>(k, v). k = ''method'') members)"
    unfolding j object_methods_def json.case by (induction members) (auto simp: map_filter_simps split: option.split if_splits)
  from assms(2) ms have "filter (\<lambda>(k, v). k = ''method'') members \<noteq> []" by (auto simp: map_filter_simps)
  with assms(1) j obtain k v where v: "filter (\<lambda>(k, v). k = ''method'') members = [(k, v)]" "de_option de_str v = Some x"
    by (auto simp: method_field_def de_struct1_def split: list.splits)
  then have "json_as_str v = Some m" using assms(2) ms by (auto simp: map_filter_simps split: option.splits)
  with v(2) show ?thesis by (auto simp: de_option_def de_str_def json_as_str_def split: json.splits if_splits)
qed

lemma batch_members:
  assumes "de_all method_field js = Some xs" "m \<in> set (concat (map object_methods js))"
  shows "Some m \<in> set xs"
  using assms
proof (induction js arbitrary: xs)
  case (Cons j js)
  then obtain x zs where x: "method_field j = Some x" "de_all method_field js = Some zs" "xs = x # zs"
    by (auto split: option.splits)
  show ?case
  proof (cases "m \<in> set (object_methods j)")
    case True
    with field_members[OF x(1)] x(3) show ?thesis by simp
  next
    case False
    with Cons.IH[OF x(2)] Cons.prems(2) x(3) show ?thesis by simp
  qed
qed simp

lemma push_unique_set: "set (fold push_unique ms us) = set us \<union> set ms"
  by (induction ms arbitrary: us) (auto simp: push_unique_def)

lemma classified_full_history:
  assumes "classify_request parse body fh = Some rq" "parse body = Some j" "m \<in> set (document_methods j)" "m \<in> set fh"
  shows "rq_full_history rq"
proof (cases "\<exists>x. method_field j = Some (Some x) \<and> rq = classify_single x fh")
  case True
  then obtain x where x: "method_field j = Some (Some x)" "rq = classify_single x fh" by blast
  have "m \<in> set (object_methods j)"
  proof (cases j)
    case (JArr js)
    with x(1) obtain e s where "js = [JStr e s]"
      by (auto simp: method_field_def de_struct1_def de_option_def de_str_def split: list.splits json.splits)
    with JArr assms(3) show ?thesis by (simp add: document_methods_def object_methods_def)
  qed (use assms(3) in \<open>simp_all add: document_methods_def\<close>)
  from field_members[OF x(1) this] assms(4) x(2) show ?thesis by (simp add: classify_single_def)
next
  case False
  with assms(1,2) obtain xs where xs: "de_vec method_field j = Some xs" "classify_batch (List.map_filter id xs) fh = Some rq"
    by (auto simp: classify_request_def split: option.splits if_splits)
  then obtain js where js: "j = JArr js" "de_all method_field js = Some xs" by (cases j) (simp_all add: de_vec_def)
  with assms(3) have "Some m \<in> set xs" by (intro batch_members) (simp_all add: document_methods_def)
  then have "m \<in> set (List.map_filter id xs)" by (force simp: map_filter_def)
  with xs(2) assms(4) show ?thesis
    by (auto simp: classify_batch_def Let_def list_ex_iff push_unique_set split: if_splits)
qed

lemma needs_classified:
  "needs_full_history parse cfg body \<Longrightarrow> rq_full_history (request_class_of parse body cfg)"
  using classified_full_history
  by (fastforce simp: needs_full_history_def request_class_of_def unwrap_or_def list_ex_iff split: option.splits)

text \<open>
  One method name written with an escape, in any call of a batch, and the classifier cannot read the batch at
  all: a call that needs full history is then no longer kept from recent-history providers.
\<close>

theorem escaped_batch_unprotected:
  fixes calls :: "json list"
  defines "doc \<equiv> JArr [JObj [(''method'', JStr False ''getSignaturesForAddress'')], JObj [(''method'', JStr True ''getSlot'')]]"
  shows "set (document_methods doc) = {''getSignaturesForAddress'', ''getSlot''}"
    and "request_class_of (\<lambda>_. Some doc) [91] cfg = unknown_request"
  by (auto simp: doc_def document_methods_def object_methods_def map_filter_simps json_as_str_def request_class_of_def
      classify_request_def is_ascii_whitespace_def de_vec_def method_field_def de_struct1_def de_option_def de_str_def
      unwrap_or_def)

lemma sent_allowed:
  assumes "route_supports (rq_method (request_class_of parse body cfg)) (cfg_providers cfg)
      (rq_full_history (request_class_of parse body cfg)) n"
    and "find_provider cfg n = Some p"
  shows "forward_allowed parse cfg headers body (n, forward_request p headers body)"
  using assms needs_classified[of parse cfg body]
  by (auto simp: forward_allowed_def route_supports_def find_provider_def)

text \<open>C4. A request is forwarded to each provider at most once and only to configured providers that allow
the method it is classified under (for a batch, its joined label); every forward carries the
client's body unchanged, to the configured URL, with only the listed headers. If the classifier can
read the body, no forward goes to a recent-history provider when any request object in the document
names a full-history method. A batch with one escaped or ill-formed method is one that the
classifier cannot read, and it is not protected.\<close>

theorem request_forwards_allowed:
  assumes "proxy_ok s" "valid_config (ps_config s)"
    and "handle_rpc parse print u now turns end_now headers body s = (h, s')"
  shows "distinct (map fst (hd_sent h)) \<and>
    list_all (forward_allowed parse (ps_config s) headers body) (hd_sent h)"
proof -
  let ?cfg = "ps_config s" and ?m = "ps_monitor s"
  let ?rq = "request_class_of parse body ?cfg"
  let ?snaps = "fst (fst (snapshots_with_tips now ?m))"
  let ?d = "route_request u ?cfg ?rq ?snaps"
  define ctx where "ctx = request_ctx_of ?cfg ?rq headers body (snd (fst (snapshots_with_tips now ?m)))"
  define s1 where "s1 = s\<lparr>ps_monitor := snd (snapshots_with_tips now ?m)\<rparr>"
  have mo: "monitor_ok ?m" using assms(1) by (simp add: proxy_ok_def)
  have "distinct (map fst (mo_entries ?m))" using mo by (simp add: monitor_ok_def skeleton_def o_def case_prod_unfold)
  then have d: "distinct (rd_providers ?d)"
    "\<forall>n \<in> set (rd_providers ?d). route_supports (rq_method ?rq) (cfg_providers ?cfg) (rq_full_history ?rq) n"
    using route_supported[of ?snaps "cfg_providers ?cfg"] snapshot_names[OF mo, of now] valid_config_distinct[OF assms(2)]
    by (fastforce simp: route_request_def Let_def)+
  have ctx: "cx_headers ctx = headers" "cx_body ctx = body" by (simp_all add: ctx_def request_ctx_of_def)
  have "subseq (map fst (hd_sent h)) (rd_providers ?d) \<and> list_all (sent_ok ?cfg ctx) (hd_sent h)"
  proof (cases "rd_broadcast ?d")
    case True
    then have h: "hd_sent h = map (\<lambda>(n, p). (n, forward_request p headers body))
        (fst (snd (broadcast parse print ?cfg (rd_providers ?d) ctx (\<not> rd_degraded ?d) turns end_now s1)))"
      using assms(3) by (auto simp: handle_rpc_def Let_def case_prod_beta ctx_def s1_def)
    show ?thesis
      using fan_out_legs[of ?cfg "\<not> rd_degraded ?d" turns "rd_providers ?d" s1]
      by (auto simp: h broadcast_legs list_all_iff sent_ok_def ctx comp_def case_prod_unfold)
  next
    case False
    then have h: "hd_sent h = sl_sent (fst (snd
        (sequential parse print ?cfg (rd_providers ?d) ctx (\<not> rd_degraded ?d) turns end_now s1)))"
      using assms(3) by (auto simp: handle_rpc_def Let_def case_prod_beta ctx_def s1_def)
    show ?thesis
      unfolding h sequential_locals
      using seq_loop_sent[of parse ?cfg ctx "\<not> rd_degraded ?d" "max_attempts ?cfg (rd_providers ?d)" turns
          "rd_providers ?d" seq_start s1]
      by (cases "seq_loop parse ?cfg ctx (\<not> rd_degraded ?d) (max_attempts ?cfg (rd_providers ?d)) turns
          (rd_providers ?d) seq_start s1") (auto simp: seq_start_def)
  qed
  with d subseq_keeps[of "map fst (hd_sent h)" "rd_providers ?d"]
  have "distinct (map fst (hd_sent h))" "fst ` set (hd_sent h) \<subseteq> set (rd_providers ?d)" "list_all (sent_ok ?cfg ctx) (hd_sent h)"
    by auto
  then show ?thesis using d(2) by (fastforce simp: list_all_iff sent_ok_def ctx intro!: sent_allowed)
qed

section \<open>Instances\<close>

lemma demo_starts: "runs demo_parse (\<lambda>_. None) (\<lambda>_. None) demo_hashers (demo_state, [], None)"
proof -
  have "load (\<lambda>_. Some []) (\<lambda>_. []) (\<lambda>_. None) (\<lambda>_. Some demo_config) [] = Inr demo_config"
    using demo_validates(1) by (simp add: load_def)
  then show ?thesis unfolding demo_state_def by (rule runs.start) simp
qed

theorem process_invariant_witness: "proxy_ok demo_state"
  by (rule process_invariant[OF demo_starts])

theorem quiescent_process_in_sync_witness: "in_sync (deployed demo_state)"
  by (rule quiescent_process_in_sync[OF demo_starts])

lemma demo_proxy_ok: "proxy_ok demo_state"
  using runs_process_ok[OF demo_starts] by (simp add: process_ok_def)

theorem request_forwards_allowed_witness:
  "list_all (forward_allowed demo_parse demo_config (\<lambda>_. None) [1])
     (hd_sent (fst (handle_rpc demo_parse (\<lambda>_. []) (Fin 0) 0 (demo_turns (Inl ''refused'') (Inr (200, [7]))) 0
       (\<lambda>_. None) [1] demo_state)))"
  using request_forwards_allowed[OF demo_proxy_ok, of demo_parse "\<lambda>_. []" "Fin 0" 0
      "demo_turns (Inl ''refused'') (Inr (200, [7]))" 0 "\<lambda>_. None" "[1]", OF _ prod.collapse[symmetric]] demo_valid(1)
  by simp

end
