(* ===== verification/Execution.thy ===== *)
theory Execution
  imports System
begin

text \<open>
  What a handled request does to the shared state, as a labelled execution: a list of its own actions and of its
  waits for a reply, during which the other tasks act. The theorem determines that list: which actions there are for
  every leg, in which order, with which outcome, and what the analyzers are handed at the end; the drain of a broadcast
  is part of it. An execution is a run of the process as soon as the other tasks' part of it is.
\<close>

section \<open>Executions\<close>

datatype event = Own action | Wait string

fun perform_event ::
  "json_parser \<Rightarrow> (string \<Rightarrow> bytes option) \<Rightarrow> (string \<Rightarrow> bytes option) \<Rightarrow> hashers \<Rightarrow> (string \<Rightarrow> turn) \<Rightarrow> event \<Rightarrow>
   proxy_state \<Rightarrow> proxy_state" where
  "perform_event parse base58 base64 hashers turns (Own a) = act parse base58 base64 hashers a"
| "perform_event parse base58 base64 hashers turns (Wait n) = tn_env (turns n)"

definition perform ::
  "json_parser \<Rightarrow> (string \<Rightarrow> bytes option) \<Rightarrow> (string \<Rightarrow> bytes option) \<Rightarrow> hashers \<Rightarrow> (string \<Rightarrow> turn) \<Rightarrow> event list \<Rightarrow>
   proxy_state \<Rightarrow> proxy_state" where
  "perform parse base58 base64 hashers turns es = fold (perform_event parse base58 base64 hashers turns) es"

fun own_ok :: "event \<Rightarrow> bool" where
  "own_ok (Own a) = action_ok a"
| "own_ok (Wait n) = True"

fun is_main :: "event \<Rightarrow> bool" where
  "is_main (Own a) = (\<not> is_aside a)"
| "is_main (Wait n) = True"

text \<open>
  What one leg does once it has been sent: it waits, and records the outcome of its reply; the task of a broadcast
  leg may panic instead, and then records nothing.
\<close>

definition leg_lost :: "bool \<Rightarrow> (string \<Rightarrow> turn) \<Rightarrow> leg \<Rightarrow> bool" where
  "leg_lost broadcasted turns g \<longleftrightarrow> broadcasted \<and> tn_panics (turns (fst g))"

definition leg_events :: "json_parser \<Rightarrow> request_ctx \<Rightarrow> (string \<Rightarrow> turn) \<Rightarrow> bool \<Rightarrow> leg \<Rightarrow> event list" where
  "leg_events parse ctx turns broadcasted g =
     Wait (fst g) #
     (if leg_lost broadcasted turns g then []
      else map Own (record_actions (tn_readings (turns (fst g))) (cx_method ctx) (fst g) (leg_outcome parse ctx turns g)
        (tn_latency_ms (turns (fst g))) (cx_count ctx)))"

definition legs_events :: "json_parser \<Rightarrow> request_ctx \<Rightarrow> (string \<Rightarrow> turn) \<Rightarrow> bool \<Rightarrow> leg list \<Rightarrow> event list" where
  "legs_events parse ctx turns broadcasted legs = concat (map (leg_events parse ctx turns broadcasted) legs)"

text \<open>The provider that acknowledged the request: that of the last leg before the answer, if this leg succeeded.\<close>

definition leg_succeeds :: "json_parser \<Rightarrow> request_ctx \<Rightarrow> (string \<Rightarrow> turn) \<Rightarrow> bool \<Rightarrow> leg \<Rightarrow> bool" where
  "leg_succeeds parse ctx turns broadcasted g \<longleftrightarrow>
     \<not> leg_lost broadcasted turns g \<and> leg_outcome parse ctx turns g = OkOutcome"

definition acknowledged_by :: "json_parser \<Rightarrow> request_ctx \<Rightarrow> (string \<Rightarrow> turn) \<Rightarrow> bool \<Rightarrow> leg list \<Rightarrow> string option" where
  "acknowledged_by parse ctx turns broadcasted legs =
     (if legs \<noteq> [] \<and> leg_succeeds parse ctx turns broadcasted (last legs) then Some (fst (last legs)) else None)"

text \<open>\<open>t\<close> comes from \<open>s\<close> by an execution whose waits and main actions are \<open>es\<close>.\<close>

definition effects ::
  "json_parser \<Rightarrow> (string \<Rightarrow> bytes option) \<Rightarrow> (string \<Rightarrow> bytes option) \<Rightarrow> hashers \<Rightarrow> (string \<Rightarrow> turn) \<Rightarrow> event list \<Rightarrow>
   proxy_state \<Rightarrow> proxy_state \<Rightarrow> bool" where
  "effects parse base58 base64 hashers turns es s t \<longleftrightarrow>
     (\<exists>ls. filter is_main ls = es \<and> perform parse base58 base64 hashers turns ls s = t \<and> list_all own_ok ls)"

text \<open>The routing decision of a request.\<close>

definition decision_of :: "json_parser \<Rightarrow> f64 \<Rightarrow> instant \<Rightarrow> bytes \<Rightarrow> proxy_state \<Rightarrow> route_decision" where
  "decision_of parse u now body s =
     route_request u (ps_config s) (request_class_of parse body (ps_config s))
       (fst (fst (snapshots_with_tips now (ps_monitor s))))"

text \<open>
  The answer \<open>r\<close> with the hand-off: in state \<open>t\<close>, after the legs \<open>legs\<close>, the analyzers get the body and the status of the
  answer and the provider that acknowledged the request, and the state is then \<open>t'\<close>.
\<close>

definition handed_over ::
  "json_parser \<Rightarrow> request_ctx \<Rightarrow> (string \<Rightarrow> turn) \<Rightarrow> bool \<Rightarrow> leg list \<Rightarrow> response \<Rightarrow> proxy_state \<Rightarrow> proxy_state \<Rightarrow> bool" where
  "handed_over parse ctx turns broadcasted legs r t t' \<longleftrightarrow>
     (\<exists>now status. rs_status r = status_or_bad_gateway status \<and>
        t' = finish_analytics now ctx (rs_body r) status (acknowledged_by parse ctx turns broadcasted legs) t)"

abbreviation leg_record :: "json_parser \<Rightarrow> request_ctx \<Rightarrow> (string \<Rightarrow> turn) \<Rightarrow> leg \<Rightarrow> proxy_state \<Rightarrow> proxy_state" where
  "leg_record parse ctx turns g \<equiv> recorder_record (tn_readings (turns (fst g))) (cx_method ctx) (fst g)
     (leg_outcome parse ctx turns g) (tn_latency_ms (turns (fst g))) (cx_count ctx)"

text \<open>A leg of a broadcast, whether it panics or not.\<close>

definition broadcast_leg :: "json_parser \<Rightarrow> request_ctx \<Rightarrow> (string \<Rightarrow> turn) \<Rightarrow> leg \<Rightarrow> proxy_state \<Rightarrow> proxy_state" where
  "broadcast_leg parse ctx turns g s =
     (if tn_panics (turns (fst g)) then tn_env (turns (fst g)) s
      else leg_record parse ctx turns g (tn_env (turns (fst g)) s))"

section \<open>Composing effects\<close>

lemma perform_Own: "perform parse base58 base64 hashers turns (map Own as) s = acts parse base58 base64 hashers as s"
  by (induction as arbitrary: s) (simp_all add: perform_def)

lemma effects_refl: "effects parse base58 base64 hashers turns [] s s"
  unfolding effects_def by (rule exI[of _ "[]"]) (simp add: perform_def)

lemma effects_append:
  assumes "effects parse base58 base64 hashers turns es s t" "effects parse base58 base64 hashers turns fs t u"
  shows "effects parse base58 base64 hashers turns (es @ fs) s u"
proof -
  obtain ls ks where "filter is_main ls = es" "perform parse base58 base64 hashers turns ls s = t"
    "filter is_main ks = fs" "perform parse base58 base64 hashers turns ks t = u"
    "list_all own_ok ls" "list_all own_ok ks"
    using assms by (auto simp: effects_def)
  then show ?thesis unfolding effects_def by (intro exI[of _ "ls @ ks"]) (auto simp: perform_def)
qed

lemma effects_wait: "effects parse base58 base64 hashers turns [Wait n] s (tn_env (turns n) s)"
  unfolding effects_def by (rule exI[of _ "[Wait n]"]) (simp add: perform_def)

lemma effects_acts:
  assumes "list_all (\<lambda>a. \<not> is_aside a) as" "list_all action_ok as"
  shows "effects parse base58 base64 hashers turns (map Own as) s (acts parse base58 base64 hashers as s)"
  using assms unfolding effects_def
  by (intro exI[of _ "map Own as"]) (auto simp: perform_Own list_all_iff filter_id_conv)

lemma effects_aside:
  assumes "list_all is_aside as"
  shows "effects parse base58 base64 hashers turns [] s (acts parse base58 base64 hashers as s)"
  using assms actions_ok(3)[OF assms] unfolding effects_def
  by (intro exI[of _ "map Own as"]) (auto simp: perform_Own list_all_iff filter_empty_conv)

lemma effects_gate: "effects parse base58 base64 hashers turns [] s (snd (rate_gate now gate p n s))"
  using gate_is_actions[of now gate p n s parse base58 base64 hashers] effects_aside by metis

lemma effects_failover: "effects parse base58 base64 hashers turns [] s (note_failover n l s)"
  using failover_is_actions[of n l s parse base58 base64 hashers] effects_aside by metis

lemma effects_record:
  "effects parse base58 base64 hashers turns (map Own (record_actions ts me n oc ms c)) s (recorder_record ts me n oc ms c s)"
proof -
  have "list_all (\<lambda>a. \<not> is_aside a) (record_actions ts me n oc ms c)" by (cases oc) (simp_all add: record_actions_def)
  from effects_acts[OF this actions_ok(1)] show ?thesis
    by (simp add: record_is_actions[where parse = parse and ?base58.0 = base58 and ?base64.0 = base64 and hashers = hashers])
qed

lemma effects_peek:
  "effects parse base58 base64 hashers turns [Own (MonitorEvent (Snapshots now))] s
     (s\<lparr>ps_monitor := snd (snapshots_with_tips now (ps_monitor s))\<rparr>)"
  using effects_acts[of "[MonitorEvent (Snapshots now)]" parse base58 base64 hashers turns s]
  by (simp add: upd_monitor_def)

section \<open>The fail-over loop\<close>

lemma legs_events_simps [simp]:
  "legs_events parse ctx turns b [] = []"
  "legs_events parse ctx turns b (g # legs) = leg_events parse ctx turns b g @ legs_events parse ctx turns b legs"
  by (simp_all add: legs_events_def)

lemma acknowledged_Cons:
  "acknowledged_by parse ctx turns b (g # legs) =
     (if legs = [] then (if leg_succeeds parse ctx turns b g then Some (fst g) else None)
      else acknowledged_by parse ctx turns b legs)"
  by (simp add: acknowledged_by_def)

lemma acknowledged_Nil [simp]: "acknowledged_by parse ctx turns b [] = None"
  by (simp add: acknowledged_by_def)

text \<open>In every branch of the loop body, the recorded outcome is that of the reply, and only a success acknowledges.\<close>

lemma seq_reply_outcome:
  fixes parse :: json_parser and ctx :: request_ctx and p :: provider_config and n :: string and tu :: turn
    and status :: u16 and body :: bytes and s :: proxy_state
  defines "oc \<equiv> from_leg parse status body (cx_history_lookup ctx) p"
  defines "t \<equiv> recorder_record (tn_readings tu) (cx_method ctx) n oc (tn_latency_ms tu) (cx_count ctx) s"
  assumes "seq_reply parse cfg ctx limit later n p tu (Inr (status, body)) l s = (r, l', s')"
  shows "case r of
      None \<Rightarrow> s' = t \<and> oc \<noteq> OkOutcome
    | Some resp \<Rightarrow> \<exists>now st. rs_status resp = status_or_bad_gateway st \<and>
        s' = finish_analytics now ctx (rs_body resp) st (if oc = OkOutcome then Some n else None) t"
proof (cases "is_success status")
  case False
  then have "oc = from_status status" "oc \<noteq> OkOutcome" by (auto simp: oc_def from_leg_def from_status_def)
  with False assms(3) show ?thesis
    by (cases "is_retryable_http status") (simp add: seq_reply_def Let_def t_def,
      auto simp: seq_reply_def Let_def json_response_def t_def intro!: exI[of _ "tn_finish_now tu"] exI[of _ status])
next
  case ok: True
  let ?code = "extract_rpc_error_code parse body"
  have nr: "\<not> is_retryable_http status" using ok by (rule success_not_retryable)
  consider (miss) "cx_history_lookup ctx \<and> is_history_miss parse p ?code body"
    | (error) "\<not> (cx_history_lookup ctx \<and> is_history_miss parse p ?code body)" "has_rpc_error parse body"
    | (fine) "\<not> (cx_history_lookup ctx \<and> is_history_miss parse p ?code body)" "\<not> has_rpc_error parse body" by blast
  then show ?thesis
  proof cases
    case miss
    then have "oc = Miss" using ok by (simp add: oc_def from_leg_def Let_def)
    with miss ok nr assms(3) show ?thesis
      by (auto simp: seq_reply_def Let_def json_response_def t_def intro!: exI[of _ "tn_finish_now tu"] exI[of _ "200 :: u16"]
          split: if_splits)
  next
    case error
    then have "oc = from_rpc_error ?code" using ok by (auto simp: oc_def from_leg_def Let_def)
    moreover have "from_rpc_error ?code \<noteq> OkOutcome" by (auto simp: from_rpc_error_def split: option.split)
    ultimately show ?thesis using error ok nr assms(3)
      by (auto simp: seq_reply_def Let_def json_response_def t_def intro!: exI[of _ "tn_finish_now tu"] exI[of _ "200 :: u16"]
          split: if_splits)
  next
    case fine
    then have oc: "oc = OkOutcome" using ok by (auto simp: oc_def from_leg_def Let_def)
    have "?code = None" using fine(2) code_implies_error[of parse body] by (cases ?code) auto
    with fine oc ok nr assms(3) show ?thesis
      by (auto simp: seq_reply_def Let_def json_response_def t_def intro!: exI[of _ "tn_finish_now tu"] exI[of _ "200 :: u16"])
  qed
qed

lemma acknowledged_single:
  "acknowledged_by parse ctx turns False [g] = (if leg_outcome parse ctx turns g = OkOutcome then Some (fst g) else None)"
  by (simp add: acknowledged_by_def leg_succeeds_def leg_lost_def)

lemma seq_reply_splits:
  assumes "seq_reply parse cfg ctx limit later n p (turns n)
      (tn_reply (turns n) (forward_request p (cx_headers ctx) (cx_body ctx))) l s = (r, l', s')"
  shows "case r of
      None \<Rightarrow> s' = leg_record parse ctx turns (n, p) s \<and> leg_outcome parse ctx turns (n, p) \<noteq> OkOutcome
    | Some resp \<Rightarrow> handed_over parse ctx turns False [(n, p)] resp (leg_record parse ctx turns (n, p) s) s'"
proof (cases "tn_reply (turns n) (forward_request p (cx_headers ctx) (cx_body ctx))")
  case (Inl e)
  with assms show ?thesis by (auto simp: seq_reply_def leg_outcome_def leg_result_def)
next
  case (Inr q)
  obtain status body where q: "q = (status, body)" by (cases q)
  have oc: "leg_outcome parse ctx turns (n, p) = from_leg parse status body (cx_history_lookup ctx) p"
    using Inr q by (simp add: leg_outcome_def leg_result_def)
  from seq_reply_outcome[OF assms[unfolded Inr q]] show ?thesis
    unfolding handed_over_def acknowledged_single oc fst_conv .
qed

lemma effects_leg:
  assumes "\<not> leg_lost b turns g"
  shows "effects parse base58 base64 hashers turns (leg_events parse ctx turns b g) s
    (leg_record parse ctx turns g (tn_env (turns (fst g)) s))"
  using effects_append[OF effects_wait effects_record] assms by (simp add: leg_events_def)

lemma handed_over_Cons:
  "handed_over parse ctx turns b legs r t t' \<Longrightarrow> (legs = [] \<Longrightarrow> \<not> leg_succeeds parse ctx turns b g) \<Longrightarrow>
   handed_over parse ctx turns b (g # legs) r t t'"
  unfolding handed_over_def acknowledged_Cons by (cases "legs = []") simp_all

lemma seq_loop_effects:
  assumes "seq_loop parse cfg ctx gate limit turns providers l s = (r, l', s')"
  shows "\<exists>legs t. sl_sent l' = sl_sent l @ map (\<lambda>(n, p). (n, forward_request p (cx_headers ctx) (cx_body ctx))) legs \<and>
    list_all (\<lambda>(n, p). find_provider cfg n = Some p) legs \<and>
    effects parse base58 base64 hashers turns (legs_events parse ctx turns False legs) s t \<and>
    (case r of None \<Rightarrow> s' = t \<and> acknowledged_by parse ctx turns False legs = None
     | Some resp \<Rightarrow> handed_over parse ctx turns False legs resp t s')"
  using assms
proof (induction providers arbitrary: l s)
  case Nil
  then show ?case using effects_refl by (intro exI[of _ "[]"]) auto
next
  case (Cons n later)
  show ?case
  proof (cases "limit \<le> sl_attempt l")
    case True
    with Cons.prems show ?thesis using effects_refl by (intro exI[of _ "[]"]) (auto simp: seq_loop_Cons)
  next
    case more: False
    show ?thesis
    proof (cases "find_provider cfg n")
      case None
      with Cons more show ?thesis by (simp add: seq_loop_Cons)
    next
      case (Some p)
      let ?gate = "rate_gate (tn_now (turns n)) gate p n s"
      have gate: "effects parse base58 base64 hashers turns [] s (snd ?gate)" by (rule effects_gate)
      consider (skip) "(sl_miss l \<noteq> None \<and> pv_history p = Recent) \<or> client_for n s = None"
        | (shed) "\<not> ((sl_miss l \<noteq> None \<and> pv_history p = Recent) \<or> client_for n s = None)" "\<not> fst ?gate"
        | (ask) "\<not> ((sl_miss l \<noteq> None \<and> pv_history p = Recent) \<or> client_for n s = None)" "fst ?gate" by argo
      then show ?thesis
      proof cases
        case skip
        with Cons Some more show ?thesis by (simp add: seq_loop_Cons)
      next
        case shed
        with Cons.prems Some more have "seq_loop parse cfg ctx gate limit turns later l (snd ?gate) = (r, l', s')"
          by (auto simp: seq_loop_Cons)
        from Cons.IH[OF this] effects_append[OF gate] show ?thesis by fastforce
      next
        case ask
        let ?out = "forward_request p (cx_headers ctx) (cx_body ctx)"
        let ?s = "seq_state gate (turns n) p n l s"
        obtain r1 l1 s1 where q: "seq_reply parse cfg ctx limit later n p (turns n) (tn_reply (turns n) ?out)
            (seq_count n ?out l) ?s = (r1, l1, s1)" by (metis prod_cases3)
        have l1: "sl_sent l1 = sl_sent l @ [(n, ?out)]"
          using seq_reply_locals(2)[of parse cfg ctx limit later n p "turns n" "tn_reply (turns n) ?out" "seq_count n ?out l" ?s]
          by (simp add: q)
        have "effects parse base58 base64 hashers turns [] s (note_failover n l (snd ?gate))"
          using effects_append[OF gate effects_failover] by simp
        from effects_append[OF this effects_leg[of False turns "(n, p)" parse base58 base64 hashers ctx]]
        have leg: "effects parse base58 base64 hashers turns (leg_events parse ctx turns False (n, p)) s
            (leg_record parse ctx turns (n, p) ?s)"
          by (simp add: leg_lost_def seq_state_def)
        note splits = seq_reply_splits[where turns = turns, OF q]
        show ?thesis
        proof (cases r1)
          case None
          with Cons.prems Some more ask q have "seq_loop parse cfg ctx gate limit turns later l1 s1 = (r, l', s')"
            by (auto simp: seq_loop_Cons)
          from Cons.IH[OF this] obtain legs t where IH:
            "sl_sent l' = sl_sent l1 @ map (\<lambda>(n, p). (n, forward_request p (cx_headers ctx) (cx_body ctx))) legs"
            "list_all (\<lambda>(n, p). find_provider cfg n = Some p) legs"
            "effects parse base58 base64 hashers turns (legs_events parse ctx turns False legs) s1 t"
            "case r of None \<Rightarrow> s' = t \<and> acknowledged_by parse ctx turns False legs = None
             | Some resp \<Rightarrow> handed_over parse ctx turns False legs resp t s'" by blast
          have lost: "\<not> leg_succeeds parse ctx turns False (n, p)" "s1 = leg_record parse ctx turns (n, p) ?s"
            using splits None by (simp_all add: leg_succeeds_def)
          from effects_append[OF leg[folded lost(2)] IH(3)] lost(1) IH Some l1 show ?thesis
            by (intro exI[of _ "(n, p) # legs"] exI[of _ t])
              (auto simp: acknowledged_Cons intro: handed_over_Cons split: option.splits)
        next
          case resp: (Some resp)
          with Cons.prems Some more ask q have "r = Some resp" "l' = l1" "s' = s1" by (auto simp: seq_loop_Cons)
          with splits resp leg l1 Some show ?thesis
            by (intro exI[of _ "[(n, p)]"] exI[of _ "leg_record parse ctx turns (n, p) ?s"]) simp
        qed
      qed
    qed
  qed
qed

lemma handed_over_response:
  assumes "resp = json_response (status_or_bad_gateway st) b" "s' = finish_analytics now ctx b st ack t"
    and "ack = acknowledged_by parse ctx turns broadcasted legs"
  shows "handed_over parse ctx turns broadcasted legs resp t s'"
  unfolding handed_over_def using assms by (intro exI[of _ now] exI[of _ st]) (simp add: json_response_def)

lemma sequential_effects:
  assumes "sequential parse print cfg providers ctx gate turns now s = (resp, l, s')"
  shows "\<exists>legs t. sl_sent l = map (\<lambda>(n, p). (n, forward_request p (cx_headers ctx) (cx_body ctx))) legs \<and>
    list_all (\<lambda>(n, p). find_provider cfg n = Some p) legs \<and>
    effects parse base58 base64 hashers turns (legs_events parse ctx turns False legs) s t \<and>
    handed_over parse ctx turns False legs resp t s'"
proof -
  obtain r l1 s1 where loop: "seq_loop parse cfg ctx gate (max_attempts cfg providers) turns providers seq_start s = (r, l1, s1)"
    by (metis prod_cases3)
  obtain legs t where e:
    "sl_sent l1 = map (\<lambda>(n, p). (n, forward_request p (cx_headers ctx) (cx_body ctx))) legs"
    "list_all (\<lambda>(n, p). find_provider cfg n = Some p) legs"
    "effects parse base58 base64 hashers turns (legs_events parse ctx turns False legs) s t"
    "case r of None \<Rightarrow> s1 = t \<and> acknowledged_by parse ctx turns False legs = None
     | Some resp \<Rightarrow> handed_over parse ctx turns False legs resp t s1"
    using seq_loop_effects[OF loop, of base58 base64 hashers] by (auto simp: seq_start_def)
  have l: "l = l1" using assms loop by (auto simp: sequential_def Let_def split: option.splits)
  have "handed_over parse ctx turns False legs resp t s'"
  proof (cases r)
    case (Some q)
    with assms loop e(4) show ?thesis by (simp add: sequential_def)
  next
    case None
    then have t: "s1 = t" "acknowledged_by parse ctx turns False legs = None" using e(4) by simp_all
    have ok: "status_or_bad_gateway 200 = 200" "status_or_bad_gateway 502 = 502" by (simp_all add: status_or_bad_gateway_def)
    from None assms loop have "\<exists>b st. status_or_bad_gateway st = st \<and> resp = json_response st b \<and>
        s' = finish_analytics now ctx b st None s1"
      using ok by (auto simp: sequential_def Let_def split: option.splits)
    then obtain b st where st: "status_or_bad_gateway st = st" and r: "resp = json_response st b"
        "s' = finish_analytics now ctx b st None s1" by blast
    from r(1) have "resp = json_response (status_or_bad_gateway st) b" by (simp only: st)
    from handed_over_response[OF this r(2)[unfolded t(1)] t(2)[symmetric]] show ?thesis .
  qed
  with e l show ?thesis by blast
qed

section \<open>The broadcast race and its drain\<close>

lemma effects_fan_out: "effects parse base58 base64 hashers turns [] s (snd (fan_out cfg gate turns providers s))"
proof (induction providers arbitrary: s)
  case Nil
  show ?case by (simp add: effects_refl)
next
  case (Cons n providers)
  show ?case
    using Cons.IH[of s] effects_append[OF effects_gate Cons.IH]
    by (auto simp: case_prod_beta split: option.split)
qed

lemma effects_broadcast_leg:
  "effects parse base58 base64 hashers turns (leg_events parse ctx turns True g) s (broadcast_leg parse ctx turns g s)"
proof (cases "tn_panics (turns (fst g))")
  case True
  then show ?thesis using effects_wait[of parse base58 base64 hashers turns "fst g" s]
    by (simp add: leg_events_def leg_lost_def broadcast_leg_def)
next
  case False
  then show ?thesis using effects_leg[of True turns g] by (simp add: leg_lost_def broadcast_leg_def)
qed

lemma record_leg_is: "record_leg ctx (turns n) n (leg_outcome parse ctx turns (n, p)) = leg_record parse ctx turns (n, p)"
  by (simp add: record_leg_def fun_eq_iff)

lemma straggler_drain_Cons:
  "straggler_drain parse ctx turns (g # rest) s = straggler_drain parse ctx turns rest (broadcast_leg parse ctx turns g s)"
  by (cases g) (auto simp: Let_def broadcast_leg_def record_leg_def leg_outcome_def split: sum.split)

lemma effects_drain:
  "effects parse base58 base64 hashers turns (legs_events parse ctx turns True legs) s (straggler_drain parse ctx turns legs s)"
proof (induction legs arbitrary: s)
  case Nil
  show ?case by (simp add: effects_refl)
next
  case (Cons g legs)
  then show ?case unfolding legs_events_simps straggler_drain_Cons by (intro effects_append[OF effects_broadcast_leg])
qed

lemma bc_race_cases:
  "bc_race parse ctx turns (g # legs) best s =
     (if leg_succeeds parse ctx turns True g
      then (case leg_result parse ctx (turns (fst g)) (snd g) of
              Inr (st, b, oc) \<Rightarrow> (Some (fst g, b), legs, best, broadcast_leg parse ctx turns g s))
      else bc_race parse ctx turns legs
        (if leg_lost True turns g then best
         else case leg_result parse ctx (turns (fst g)) (snd g) of
             Inl e \<Rightarrow> best
           | Inr (st, b, oc) \<Rightarrow> better_error (broadcast_error_rank oc st (extract_rpc_error_code parse b)) st b best)
        (broadcast_leg parse ctx turns g s))"
  by (cases g) (auto simp: Let_def broadcast_leg_def record_leg_def leg_outcome_def leg_succeeds_def leg_lost_def split: sum.split)

lemma bc_race_effects:
  assumes "bc_race parse ctx turns legs best s = (w, rest, best', s')"
  shows "\<exists>pre. legs = pre @ rest \<and>
    effects parse base58 base64 hashers turns (legs_events parse ctx turns True pre) s s' \<and>
    acknowledged_by parse ctx turns True pre = map_option fst w"
  using assms
proof (induction legs arbitrary: best s)
  case Nil
  then show ?case using effects_refl by (intro exI[of _ "[]"]) auto
next
  case (Cons g legs)
  note leg = effects_broadcast_leg[of parse base58 base64 hashers turns ctx g s]
  show ?case
  proof (cases "leg_succeeds parse ctx turns True g")
    case True
    then obtain q where "leg_result parse ctx (turns (fst g)) (snd g) = Inr q"
      by (cases "leg_result parse ctx (turns (fst g)) (snd g)") (auto simp: leg_succeeds_def leg_outcome_def)
    with True Cons.prems leg show ?thesis
      by (intro exI[of _ "[g]"]) (auto simp: bc_race_cases acknowledged_Cons simp del: bc_race.simps split: prod.splits)
  next
    case False
    with Cons.prems obtain best1 where
      "bc_race parse ctx turns legs best1 (broadcast_leg parse ctx turns g s) = (w, rest, best', s')"
      by (simp add: bc_race_cases del: bc_race.simps)
    from Cons.IH[OF this] obtain pre where IH: "legs = pre @ rest"
      "effects parse base58 base64 hashers turns (legs_events parse ctx turns True pre) (broadcast_leg parse ctx turns g s) s'"
      "acknowledged_by parse ctx turns True pre = map_option fst w" by blast
    from effects_append[OF leg IH(2)] IH(1,3) False show ?thesis
      by (intro exI[of _ "g # pre"]) (auto simp: acknowledged_Cons)
  qed
qed

lemma fan_out_found: "list_all (\<lambda>(n, p). find_provider cfg n = Some p) (fst (fan_out cfg gate turns providers s))"
  using fan_out_legs by blast

lemma broadcast_effects:
  assumes "broadcast parse print cfg providers ctx gate turns now s = (resp, legs, rest, s')"
  shows "\<exists>pre t. pre @ rest = completion_order turns legs \<and> list_all (\<lambda>(n, p). find_provider cfg n = Some p) legs \<and>
    effects parse base58 base64 hashers turns (legs_events parse ctx turns True pre) s t \<and>
    handed_over parse ctx turns True pre resp t s'"
proof (cases "providers = []")
  case True
  have "status_or_bad_gateway 503 = 503" by (simp add: status_or_bad_gateway_def)
  with True assms effects_refl show ?thesis
    by (intro exI[of _ "[]"] exI[of _ s])
      (auto simp: broadcast_def Let_def completion_order_def handed_over_def json_response_def intro!: exI[of _ now] exI[of _ "503 :: u16"])
next
  case False
  obtain legs' s1 where f: "fan_out cfg gate turns providers s = (legs', s1)" by force
  obtain w rest' best t where race: "bc_race parse ctx turns (completion_order turns legs') None s1 = (w, rest', best, t)"
    by (metis prod_cases4)
  obtain pre where pre: "completion_order turns legs' = pre @ rest'"
    "effects parse base58 base64 hashers turns (legs_events parse ctx turns True pre) s1 t"
    "acknowledged_by parse ctx turns True pre = map_option fst w"
    using bc_race_effects[OF race] by blast
  have "effects parse base58 base64 hashers turns [] s s1"
    using effects_fan_out[of parse base58 base64 hashers turns s cfg gate providers] f by simp
  from effects_append[OF this pre(2)] have e:
    "effects parse base58 base64 hashers turns (legs_events parse ctx turns True pre) s t" by simp
  have ok: "status_or_bad_gateway 200 = 200" "status_or_bad_gateway 502 = 502" by (simp_all add: status_or_bad_gateway_def)
  have legs: "legs = legs'" "rest = rest'" using assms f race False by (auto simp: broadcast_def Let_def split: option.splits)
  have "handed_over parse ctx turns True pre resp t s'"
  proof (cases w)
    case (Some q)
    with assms f race False ok(1)[symmetric] pre(3) show ?thesis
      by (cases q) (auto simp: broadcast_def intro!: handed_over_response)
  next
    case None
    with assms f race False ok(2)[symmetric] pre(3) show ?thesis
      by (cases best) (auto simp: broadcast_def Let_def intro!: handed_over_response)
  qed
  moreover have "list_all (\<lambda>(n, p). find_provider cfg n = Some p) legs"
    using fan_out_found[of cfg gate turns providers s] f legs by simp
  ultimately show ?thesis using e pre(1) legs by auto
qed

section \<open>Requests\<close>

text \<open>C3. What a handled request does to the shared state, the drain of a broadcast included. It takes one
snapshot. Then for each leg it sent it waits, and counts, reports and records for the health of the
provider exactly the outcome of that leg's reply (a success, a failure, a throttling, or nothing),
in the order of the forwards or, in a broadcast, of completion; a broadcast leg whose task panics
records nothing. When it answers, it hands the analyzers the client's body, the body and status of
the answer and the provider that acknowledged the request, which is the last leg's if that leg
succeeded, and nobody otherwise; a transaction is queued if there is room and else counted as
dropped. The remaining legs are recorded by the drain. Whatever the other tasks do during the waits,
the handler does nothing else but take tokens, count shed requests and note fail-overs.\<close>

theorem handler_is_a_run:
  assumes "handle_rpc parse print u now turns end_now headers body s = (h, s1)"
  shows "\<exists>legs pre t fin status.
    let bc = rd_broadcast (decision_of parse u now body s); ctx = hd_ctx h; rest = hd_stragglers h in
    ctx = request_ctx_of (ps_config s) (request_class_of parse body (ps_config s)) headers body (observed_tips (ps_monitor s)) \<and>
    hd_sent h = map (\<lambda>(n, p). (n, forward_request p headers body)) legs \<and>
    list_all (\<lambda>(n, p). find_provider (ps_config s) n = Some p) legs \<and>
    pre @ rest = (if bc then completion_order turns legs else legs) \<and>
    effects parse base58 base64 hashers turns
      (Own (MonitorEvent (Snapshots now)) # legs_events parse ctx turns bc pre) s t \<and>
    rs_status (hd_response h) = status_or_bad_gateway status \<and>
    s1 = acts parse base58 base64 hashers
      (finish_actions fin ctx (rs_body (hd_response h)) status (acknowledged_by parse ctx turns bc pre)
        (\<not> length (ps_tx_queue t) < TX_DECODE_QUEUE_CAPACITY)) t \<and>
    effects parse base58 base64 hashers turns (legs_events parse ctx turns bc rest) s1
      (straggler_drain parse ctx turns rest s1)"
proof -
  let ?cfg = "ps_config s" and ?m = "ps_monitor s" and ?d = "decision_of parse u now body s"
  define ctx where "ctx = request_ctx_of ?cfg (request_class_of parse body ?cfg) headers body (observed_tips ?m)"
  define s0 where "s0 = s\<lparr>ps_monitor := snd (snapshots_with_tips now ?m)\<rparr>"
  have ctx: "cx_headers ctx = headers" "cx_body ctx = body" by (simp_all add: ctx_def request_ctx_of_def)
  have tips: "snd (fst (snapshots_with_tips now ?m)) = observed_tips ?m" by (simp add: snapshots_with_tips_def)
  have peek: "effects parse base58 base64 hashers turns [Own (MonitorEvent (Snapshots now))] s s0"
    unfolding s0_def by (rule effects_peek)
  note finish = finish_is_actions[where parse = parse and ?base58.0 = base58 and ?base64.0 = base64 and hashers = hashers]
  show ?thesis
  proof (cases "rd_broadcast ?d")
    case True
    obtain r legs rest s' where b: "broadcast parse print ?cfg (rd_providers ?d) ctx (\<not> rd_degraded ?d) turns end_now s0 =
        (r, legs, rest, s')" by (metis prod_cases4)
    have h: "hd_response h = r" "hd_sent h = map (\<lambda>(n, p). (n, forward_request p headers body)) legs" "hd_ctx h = ctx"
        "hd_stragglers h = rest" "s1 = s'"
      using assms True b by (auto simp: handle_rpc_def Let_def case_prod_beta tips ctx_def s0_def decision_of_def)
    obtain pre t where e: "pre @ rest = completion_order turns legs" "list_all (\<lambda>(n, p). find_provider ?cfg n = Some p) legs"
      "effects parse base58 base64 hashers turns (legs_events parse ctx turns True pre) s0 t"
      "handed_over parse ctx turns True pre r t s'" using broadcast_effects[OF b] by blast
    from e(4) obtain fin status where "rs_status r = status_or_bad_gateway status"
      "s' = finish_analytics fin ctx (rs_body r) status (acknowledged_by parse ctx turns True pre) t"
      by (auto simp: handed_over_def)
    with e effects_append[OF peek e(3)] effects_drain True show ?thesis unfolding h Let_def
      by (intro exI[of _ legs] exI[of _ pre] exI[of _ t] exI[of _ fin] exI[of _ status]) (simp add: ctx_def finish)
  next
    case False
    obtain r l s' where b: "sequential parse print ?cfg (rd_providers ?d) ctx (\<not> rd_degraded ?d) turns end_now s0 = (r, l, s')"
      by (metis prod_cases3)
    have h: "hd_response h = r" "hd_sent h = sl_sent l" "hd_ctx h = ctx" "hd_stragglers h = []" "s1 = s'"
      using assms False b by (auto simp: handle_rpc_def Let_def case_prod_beta tips ctx_def s0_def decision_of_def)
    obtain legs t where e: "sl_sent l = map (\<lambda>(n, p). (n, forward_request p headers body)) legs"
      "list_all (\<lambda>(n, p). find_provider ?cfg n = Some p) legs"
      "effects parse base58 base64 hashers turns (legs_events parse ctx turns False legs) s0 t"
      "handed_over parse ctx turns False legs r t s'" using sequential_effects[OF b] unfolding ctx by blast
    from e(4) obtain fin status where "rs_status r = status_or_bad_gateway status"
      "s' = finish_analytics fin ctx (rs_body r) status (acknowledged_by parse ctx turns False legs) t"
      by (auto simp: handed_over_def)
    with e effects_append[OF peek e(3)] effects_refl False show ?thesis unfolding h Let_def
      by (intro exI[of _ legs] exI[of _ legs] exI[of _ t] exI[of _ fin] exI[of _ status]) (simp add: ctx_def finish)
  qed
qed

text \<open>A handled request with its drain is a run of the process.\<close>

lemma handler_reaches:
  assumes "handle_rpc parse print u now turns end_now headers body s = (h, s1)"
    and "\<And>n t. reaches parse base58 base64 hashers t (tn_env (turns n) t)"
  shows "reaches parse base58 base64 hashers s s1 \<and>
    reaches parse base58 base64 hashers s (straggler_drain parse (hd_ctx h) turns (hd_stragglers h) s1)"
proof -
  have env: "reaches parse base58 base64 hashers s0 t \<Longrightarrow> reaches parse base58 base64 hashers s0 (tn_env (turns n) t)" for s0 n t
    using assms(2) reaches_trans by blast
  have "reaches parse base58 base64 hashers s s1"
    using reachable.handle_rpc_inv[where turns = turns, OF env reaches.refl] assms(1) by (metis snd_conv)
  moreover have "reaches parse base58 base64 hashers s1 (straggler_drain parse (hd_ctx h) turns (hd_stragglers h) s1)"
    by (rule reachable.straggler_drain_inv[where turns = turns, OF env reaches.refl])
  ultimately show ?thesis using reaches_trans by blast
qed

theorem handler_is_a_run_witness:
  "\<exists>h s1 legs pre t fin status.
     handle_rpc demo_parse (\<lambda>_. []) (Fin 0) 0 (demo_turns (Inl ''refused'') (Inr (200, [7]))) 0 (\<lambda>_. None) [1] demo_state = (h, s1) \<and>
     hd_sent h = map (\<lambda>(n, p). (n, forward_request p (\<lambda>_. None) [1])) legs \<and>
     effects demo_parse (\<lambda>_. None) (\<lambda>_. None) demo_hashers (demo_turns (Inl ''refused'') (Inr (200, [7])))
       (Own (MonitorEvent (Snapshots 0)) # legs_events demo_parse (hd_ctx h) (demo_turns (Inl ''refused'') (Inr (200, [7])))
         (rd_broadcast (decision_of demo_parse (Fin 0) 0 [1] demo_state)) pre) demo_state t \<and>
     rs_status (hd_response h) = status_or_bad_gateway status"
proof -
  obtain h s1 where "handle_rpc demo_parse (\<lambda>_. []) (Fin 0) 0 (demo_turns (Inl ''refused'') (Inr (200, [7]))) 0 (\<lambda>_. None) [1]
      demo_state = (h, s1)" by force
  with handler_is_a_run[OF this, of "\<lambda>_. None" "\<lambda>_. None" demo_hashers] show ?thesis unfolding Let_def by blast
qed

end
