(* ===== verification/Shutdown.thy ===== *)
theory Shutdown
  imports System "HOL-Library.Sublist"
begin

text \<open>
  The end of \<open>run\<close> (\<open>main.rs\<close>): once the server has stopped, the historical analyzer is flushed, then the decode
  queue, then the reporter. The other tasks go on meanwhile: the two workers, the flush task, the probe loops, the
  configuration watcher and the drains of broadcasts already answered; no handler is running any more. A flush
  waits for a free place in the queue and for its answer, which are the stages of the relation \<open>shutdown\<close>. The
  theorems say that a completed shutdown has handed over everything, and that completion stays reachable.
\<close>

text \<open>The events of a reporter that is only used and driven: no flush is requested, no sender is dropped.\<close>

fun plain_event :: "reporter_event \<Rightarrow> bool" where
  "plain_event FlushCall = False"
| "plain_event (FlushAndWait w) = False"
| "plain_event (ChannelClosed now) = False"
| "plain_event (Emit e) = is_raw e"
| "plain_event ev = True"

text \<open>A reporter that has never been asked to flush.\<close>

definition quiet :: "remote_reporter \<Rightarrow> bool" where
  "quiet r \<longleftrightarrow> \<not> rm_notified r \<and> rm_waiters r = [] \<and> rm_released r = [] \<and> rm_phase r \<in> {Idle, Sending False}"

text \<open>Everything the reporter holds, in the order in which a flush at \<open>now\<close> sends it.\<close>

definition outstanding :: "u64 \<Rightarrow> remote_reporter \<Rightarrow> telemetry_event list" where
  "outstanding now r = concat (rm_sent r) @ rm_batch r @ fst (agg_drain now (rm_agg r)) @ rm_queue r"

text \<open>The life of a flush: requested, being sent, released.\<close>

definition requested :: "nat \<Rightarrow> remote_reporter \<Rightarrow> bool" where
  "requested w r \<longleftrightarrow> rm_notified r \<and> rm_waiters r = [w] \<and> rm_released r = [] \<and> rm_phase r \<in> {Idle, Sending False}"

definition carried :: "nat \<Rightarrow> remote_reporter \<Rightarrow> bool" where
  "carried w r \<longleftrightarrow> \<not> rm_notified r \<and>
     (rm_waiters r = [w] \<and> rm_released r = [] \<and> rm_phase r = Sending True \<or>
      rm_waiters r = [] \<and> rm_released r = [w] \<and> rm_phase r \<in> {Idle, Sending False})"

section \<open>Background tasks while the process shuts down\<close>

fun worker_event :: "hist_event \<Rightarrow> bool" where
  "worker_event (WorkerRecv now ms) = True"
| "worker_event (WorkerTick now ms) = True"
| "worker_event ev = False"

inductive background ::
  "json_parser \<Rightarrow> (string \<Rightarrow> bytes option) \<Rightarrow> (string \<Rightarrow> bytes option) \<Rightarrow> hashers \<Rightarrow> proxy_state \<Rightarrow> proxy_state \<Rightarrow> bool"
  for parse base58 base64 hashers where
  bg_count: "list_all call_labels_ok calls \<Longrightarrow> background parse base58 base64 hashers s (upd_metrics (\<lambda>m. m @ calls) s)"
| bg_monitor: "\<not> is_reload_event ev \<Longrightarrow> background parse base58 base64 hashers s (upd_monitor (monitor_step parse ev) s)"
| bg_reload: "background parse base58 base64 hashers s (apply_op op s)"
| bg_report: "plain_event ev \<Longrightarrow> background parse base58 base64 hashers s (upd_reporter (rep_step ev) s)"
| bg_tx: "background parse base58 base64 hashers s (tx_worker parse base58 base64 s)"
| bg_hist: "worker_event ev \<Longrightarrow> background parse base58 base64 hashers s (hist_turn parse hashers ev s)"

inductive_cases backgroundE: "background parse base58 base64 hashers s s'"

section \<open>The end of \<open>run\<close>\<close>

datatype shutdown_stage = HistSend | HistWait | TxSend | TxWait | ReporterCall | ReporterWait | Complete

inductive shutdown ::
  "json_parser \<Rightarrow> (string \<Rightarrow> bytes option) \<Rightarrow> (string \<Rightarrow> bytes option) \<Rightarrow> hashers \<Rightarrow> nat \<Rightarrow>
   shutdown_stage \<times> proxy_state \<Rightarrow> shutdown_stage \<times> proxy_state \<Rightarrow> bool"
  for parse base58 base64 hashers c where
  others: "background parse base58 base64 hashers s s' \<Longrightarrow> shutdown parse base58 base64 hashers c (st, s) (st, s')"
| hist_absent: "ps_historical s = None \<Longrightarrow> shutdown parse base58 base64 hashers c (HistSend, s) (TxSend, s)"
| hist_sent: "ps_historical s = Some (cfg, h) \<Longrightarrow> length (hn_queue h) < unat (ha_queue_capacity cfg) \<Longrightarrow>
    shutdown parse base58 base64 hashers c (HistSend, s) (HistWait, hist_turn parse hashers (FlushRequest c) s)"
| hist_answered: "ps_historical s = Some (cfg, h) \<Longrightarrow> c \<in> set (hn_flushed h) \<Longrightarrow>
    shutdown parse base58 base64 hashers c (HistWait, s) (TxSend, s)"
| tx_sent: "length (ps_tx_queue s) < TX_DECODE_QUEUE_CAPACITY \<Longrightarrow>
    shutdown parse base58 base64 hashers c (TxSend, s) (TxWait, tx_flush_call c s)"
| tx_answered: "c \<in> set (ps_tx_flushed s) \<Longrightarrow> shutdown parse base58 base64 hashers c (TxWait, s) (ReporterCall, s)"
| noop_flushed: "ps_reporter s = NoopReporter \<Longrightarrow> shutdown parse base58 base64 hashers c (ReporterCall, s) (Complete, s)"
| flush_called: "ps_reporter s = RemoteReporter cfg r \<Longrightarrow>
    shutdown parse base58 base64 hashers c (ReporterCall, s) (ReporterWait, upd_reporter (rep_step (FlushAndWait c)) s)"
| flush_answered: "ps_reporter s = RemoteReporter cfg r \<Longrightarrow> c \<in> set (rm_released r) \<Longrightarrow>
    shutdown parse base58 base64 hashers c (ReporterWait, s) (Complete, s)"

inductive_cases shutdownE: "shutdown parse base58 base64 hashers c (st, s) (st', s')"

text \<open>No flush has been asked for yet, as during the whole of serving.\<close>

fun is_job :: "hist_message \<Rightarrow> bool" where
  "is_job (Analyze job) = True"
| "is_job (FlushMessage n) = False"

definition hist_unflushed :: "proxy_state \<Rightarrow> bool" where
  "hist_unflushed s \<longleftrightarrow>
     (case ps_historical s of None \<Rightarrow> True | Some (cfg, h) \<Rightarrow> hn_flushed h = [] \<and> list_all is_job (hn_queue h))"

definition tx_unflushed :: "proxy_state \<Rightarrow> bool" where
  "tx_unflushed s \<longleftrightarrow> ps_tx_flushed s = [] \<and> list_all is_decode_job (ps_tx_queue s)"

fun reporter_quiet :: "reporter \<Rightarrow> bool" where
  "reporter_quiet NoopReporter = True"
| "reporter_quiet (RemoteReporter cfg r) = quiet r"

definition unflushed :: "proxy_state \<Rightarrow> bool" where
  "unflushed s \<longleftrightarrow> hist_unflushed s \<and> tx_unflushed s \<and> reporter_quiet (ps_reporter s)"

text \<open>The historical analyzer has nothing left: no message, no call in a window, no dropped call unreported.\<close>

definition hist_drained :: "proxy_state \<Rightarrow> bool" where
  "hist_drained s \<longleftrightarrow>
     (case ps_historical s of
        None \<Rightarrow> True
      | Some (cfg, h) \<Rightarrow> hn_queue h = [] \<and> window_calls (hn_core h) = 0 \<and> qc_dropped_logical (hn_quality h) = 0)"

text \<open>A flush message at the end of the queue, or answered with the analyzer drained.\<close>

definition hist_flushing :: "nat \<Rightarrow> proxy_state \<Rightarrow> bool" where
  "hist_flushing c s \<longleftrightarrow>
     (case ps_historical s of
        None \<Rightarrow> False
      | Some (cfg, h) \<Rightarrow>
          (hn_flushed h = [] \<and> (\<exists>jobs. list_all is_job jobs \<and> hn_queue h = jobs @ [FlushMessage c])) \<or>
          (hn_flushed h = [c] \<and> hist_drained s))"

definition tx_flushing :: "nat \<Rightarrow> proxy_state \<Rightarrow> bool" where
  "tx_flushing c s \<longleftrightarrow>
     (ps_tx_flushed s = [] \<and> (\<exists>jobs. list_all is_decode_job jobs \<and> ps_tx_queue s = jobs @ [TxFlush c])) \<or>
     (ps_tx_flushed s = [c] \<and> ps_tx_queue s = [])"

fun reporter_flushing :: "nat \<Rightarrow> reporter \<Rightarrow> bool" where
  "reporter_flushing c NoopReporter = False"
| "reporter_flushing c (RemoteReporter cfg r) = (requested c r \<or> carried c r)"

fun stage_ok :: "nat \<Rightarrow> shutdown_stage \<times> proxy_state \<Rightarrow> bool" where
  "stage_ok c (HistSend, s) = (hist_unflushed s \<and> tx_unflushed s \<and> reporter_quiet (ps_reporter s))"
| "stage_ok c (HistWait, s) = (hist_flushing c s \<and> tx_unflushed s \<and> reporter_quiet (ps_reporter s))"
| "stage_ok c (TxSend, s) = (hist_drained s \<and> tx_unflushed s \<and> reporter_quiet (ps_reporter s))"
| "stage_ok c (TxWait, s) = (hist_drained s \<and> tx_flushing c s \<and> reporter_quiet (ps_reporter s))"
| "stage_ok c (ReporterCall, s) = (hist_drained s \<and> ps_tx_queue s = [] \<and> reporter_quiet (ps_reporter s))"
| "stage_ok c (ReporterWait, s) = (hist_drained s \<and> ps_tx_queue s = [] \<and> reporter_flushing c (ps_reporter s))"
| "stage_ok c (Complete, s) = (hist_drained s \<and> ps_tx_queue s = [])"

text \<open>A background step reaches the reporter by one plain event, or by records and emissions.\<close>

fun caller_event :: "reporter_event \<Rightarrow> bool" where
  "caller_event (Emit e) = is_raw e"
| "caller_event (RecordResult p a res smp) = True"
| "caller_event ev = False"

abbreviation shutdowns where
  "shutdowns parse base58 base64 hashers c \<equiv> (shutdown parse base58 base64 hashers c)\<^sup>*\<^sup>*"

fun sent_events :: "reporter \<Rightarrow> telemetry_event list" where
  "sent_events NoopReporter = []"
| "sent_events (RemoteReporter cfg r) = concat (rm_sent r)"

fun held_events :: "u64 \<Rightarrow> reporter \<Rightarrow> telemetry_event list" where
  "held_events now NoopReporter = []"
| "held_events now (RemoteReporter cfg r) = outstanding now r"

definition raw_accepted :: "reporter \<Rightarrow> telemetry_event list" where
  "raw_accepted rep = (case rep of NoopReporter \<Rightarrow> [] | RemoteReporter cfg r \<Rightarrow> filter is_raw (delivery r))"

definition hist_room :: "proxy_state \<Rightarrow> bool" where
  "hist_room s \<longleftrightarrow> (case ps_historical s of None \<Rightarrow> True | Some (cfg, h) \<Rightarrow> 0 < unat (ha_queue_capacity cfg))"

abbreviation served_state :: proxy_state where
  "served_state \<equiv> upd_reporter (rep_emit (Failover ''a'' ''b'' ''provider_error''))
     (proxy_new 0 0 [] demo_config (RemoteReporter (default_reporting ''e'') (remote_new 0)))"

section \<open>The reporter under a flush\<close>

lemmas reporter_ops = remote_emit_def remote_record_def remote_flush_def remote_flush_and_wait_def task_recv_def
  task_tick_def task_notified_def task_sent_def task_closed_def task_collect_def send_batch_def release_waiters_def

lemma quiet_step: "quiet r \<Longrightarrow> plain_event ev \<Longrightarrow> quiet (reporter_step cfg ev r)"
  by (cases ev) (auto simp: quiet_def reporter_ops Let_def split: list.split task_phase.split prod.split)

lemma quiet_new: "quiet (remote_new t)"
  by (simp add: quiet_def remote_new_def)

lemma quiet_request: "quiet r \<Longrightarrow> requested w (reporter_step cfg (FlushAndWait w) r)"
  by (simp add: quiet_def requested_def remote_flush_and_wait_def)

lemma sent_grows: "prefix (concat (rm_sent r)) (concat (rm_sent (reporter_step cfg ev r)))"
  by (cases ev) (auto simp: reporter_ops Let_def prefix_def split: list.split task_phase.split prod.split)

lemma requested_step:
  assumes "requested w r" "plain_event ev"
  shows "requested w (reporter_step cfg ev r) \<or>
    carried w (reporter_step cfg ev r) \<and>
    (\<exists>now. prefix (outstanding now r) (concat (rm_sent (reporter_step cfg ev r))))"
proof (cases "\<exists>now. ev = Notified now \<and> rm_phase r = Idle")
  case True
  then obtain now where ev: "ev = Notified now" "rm_phase r = Idle" by blast
  obtain es agg where d: "agg_drain now (rm_agg r) = (es, agg)" by force
  have "prefix (outstanding now r) (concat (rm_sent (reporter_step cfg ev r))) \<and> carried w (reporter_step cfg ev r)"
    using ev assms(1) d
    by (auto simp: requested_def carried_def outstanding_def task_notified_def task_collect_def send_batch_def
        release_waiters_def Let_def)
  then show ?thesis by blast
next
  case False
  with assms have "requested w (reporter_step cfg ev r)"
    by (cases ev) (auto simp: requested_def reporter_ops Let_def split: list.split task_phase.split prod.split)
  then show ?thesis by blast
qed

lemma carried_step: "carried w r \<Longrightarrow> plain_event ev \<Longrightarrow> carried w (reporter_step cfg ev r)"
  by (cases ev) (auto simp: carried_def reporter_ops Let_def split: list.split task_phase.split prod.split)

lemma plain_emits_raw: "plain_event ev \<Longrightarrow> emits_raw ev"
  by (cases ev) auto

section \<open>What the background tasks keep\<close>

lemma upd_frame [simp]:
  "ps_historical (upd_metrics f s) = ps_historical s" "ps_historical (upd_monitor g s) = ps_historical s"
  "ps_historical (upd_reporter k s) = ps_historical s" "ps_historical (apply_op op s) = ps_historical s"
  "ps_tx_queue (upd_monitor g s) = ps_tx_queue s" "ps_tx_queue (apply_op op s) = ps_tx_queue s"
  "ps_tx_flushed (upd_monitor g s) = ps_tx_flushed s" "ps_tx_flushed (apply_op op s) = ps_tx_flushed s"
  "ps_reporter (upd_metrics f s) = ps_reporter s" "ps_reporter (upd_monitor g s) = ps_reporter s"
  "ps_reporter (upd_reporter k s) = k (ps_reporter s)" "ps_reporter (apply_op op s) = ps_reporter s"
  by (cases op; simp add: upd_metrics_def upd_monitor_def upd_reporter_def)+

lemma tx_worker_frame [simp]: "ps_historical (tx_worker parse base58 base64 s) = ps_historical s"
  by (auto simp: tx_worker_def Let_def split: list.split transaction_message.split prod.split)

lemma hist_turn_frame [simp]:
  "ps_tx_queue (hist_turn parse hashers ev s) = ps_tx_queue s" "ps_tx_flushed (hist_turn parse hashers ev s) = ps_tx_flushed s"
  by (auto simp: hist_turn_def Let_def upd_reporter_def split: option.split)

lemma hist_turn_Some:
  "ps_historical s = Some (cfg, h) \<Longrightarrow> ps_historical (hist_turn parse hashers ev s) = Some (cfg, hist_step cfg parse hashers ev h)"
  by (simp add: hist_turn_def Let_def)

lemma hist_turn_None: "ps_historical s = None \<Longrightarrow> hist_turn parse hashers ev s = s"
  by (simp add: hist_turn_def)

lemma hist_flush_call_frame [simp]:
  "hn_emitted (hist_flush_call cfg n h) = hn_emitted h" "hn_flushed (hist_flush_call cfg n h) = hn_flushed h"
  by (simp_all add: hist_flush_call_def)

text \<open>A flush leaves no call in a window and no dropped call unreported.\<close>

lemma flush_window_empty: "hw_logical_request_count (snd (flush_window e n q core i)) = 0"
  by (auto simp: flush_window_def Let_def window_is_empty_def window_default_def)

lemma core_flush_empties [simp]:
  "window_calls (snd (core_flush e n q core)) = 0" "qc_dropped_logical quality_zero = 0"
proof -
  have "sum_list (map hw_logical_request_count (map snd (map (flush_window e n q core) xs))) = 0" for xs
    by (induction xs) (simp_all add: flush_window_empty)
  then show "window_calls (snd (core_flush e n q core)) = 0" by (simp add: core_flush_def window_calls_def Let_def)
qed (simp add: quality_zero_def)

lemma worker_flush_flushed [simp]: "hn_flushed (worker_flush cfg now ms h) = hn_flushed h"
  by (simp add: worker_flush_def case_prod_beta)

lemma hist_unflushed_turn:
  "hist_unflushed s \<Longrightarrow> worker_event ev \<Longrightarrow> hist_unflushed (hist_turn parse hashers ev s)"
  by (cases ev; cases "ps_historical s")
    (auto simp: hist_unflushed_def hist_turn_Some hist_turn_None worker_recv_def split: list.split hist_message.split)

lemma hist_drained_turn:
  "hist_drained s \<Longrightarrow> worker_event ev \<Longrightarrow> hist_drained (hist_turn parse hashers ev s)"
  by (cases ev; cases "ps_historical s")
    (auto simp: hist_drained_def hist_turn_Some hist_turn_None worker_recv_def split: list.split)

lemma hist_flushing_turn:
  assumes "hist_flushing c s" "worker_event ev"
  shows "hist_flushing c (hist_turn parse hashers ev s)"
proof -
  obtain cfg h where h: "ps_historical s = Some (cfg, h)"
    using assms(1) by (auto simp: hist_flushing_def split: option.splits)
  consider (wait) jobs where "hn_flushed h = []" "list_all is_job jobs" "hn_queue h = jobs @ [FlushMessage c]"
    | (answered) "hn_flushed h = [c]" "hist_drained s"
    using assms(1) h by (auto simp: hist_flushing_def)
  then show ?thesis
  proof cases
    case wait
    show ?thesis
    proof (cases ev)
      case (WorkerRecv now ms)
      show ?thesis
      proof (cases jobs)
        case Nil
        with wait h WorkerRecv show ?thesis
          by (simp add: hist_flushing_def hist_turn_Some worker_recv_def hist_drained_def)
      next
        case (Cons m rest)
        then obtain job where "m = Analyze job" using wait(2) by (cases m) auto
        with Cons wait h WorkerRecv show ?thesis
          by (auto simp: hist_flushing_def hist_turn_Some worker_recv_def)
      qed
    next
      case (WorkerTick now ms)
      with wait h show ?thesis by (auto simp: hist_flushing_def hist_turn_Some)
    qed (use assms(2) in simp_all)
  next
    case answered
    with h hist_drained_turn[OF answered(2) assms(2), of parse hashers] assms(2) show ?thesis
      by (cases ev) (auto simp: hist_flushing_def hist_turn_Some worker_recv_def hist_drained_def)
  qed
qed

lemma tx_worker_unflushed: "tx_unflushed s \<Longrightarrow> tx_unflushed (tx_worker parse base58 base64 s)"
proof (cases "ps_tx_queue s")
  case (Cons m rest)
  moreover assume "tx_unflushed s"
  ultimately obtain job where "m = Decode job" by (cases m) (auto simp: tx_unflushed_def)
  with Cons \<open>tx_unflushed s\<close> show ?thesis by (simp add: tx_unflushed_def tx_worker_Decode)
qed (simp add: tx_worker_def)

lemma tx_worker_flushing: "tx_flushing c s \<Longrightarrow> tx_flushing c (tx_worker parse base58 base64 s)"
proof (cases "ps_tx_queue s")
  case (Cons m rest)
  assume "tx_flushing c s"
  then obtain jobs where jobs: "ps_tx_flushed s = []" "list_all is_decode_job jobs" "ps_tx_queue s = jobs @ [TxFlush c]"
    using Cons by (auto simp: tx_flushing_def)
  show ?thesis
  proof (cases m)
    case (Decode job)
    with Cons jobs show ?thesis by (cases jobs) (auto simp: tx_flushing_def tx_worker_Decode)
  next
    case (TxFlush n)
    with Cons jobs show ?thesis by (cases jobs) (auto simp: tx_flushing_def tx_worker_Flush)
  qed
qed (simp add: tx_worker_def)

lemma rep_ops_events:
  "rep_record (agg_record_transaction_result p a res smp) = rep_step (RecordResult p a res smp)"
  "rep_emit e = rep_step (Emit e)"
  by (rule ext, rename_tac r, case_tac r; simp)+

lemma map_filter_fst_raw:
  "\<forall>e \<in> set (List.map_filter fst (map (flush_window en n q core) xs)). is_raw e"
  by (auto simp: map_filter_def flush_window_def Let_def split: if_splits)

lemma worker_emits_raw:
  "worker_event ev \<Longrightarrow> \<exists>es. hn_emitted (hist_step cfg parse hashers ev h) = hn_emitted h @ es \<and> list_all is_raw es"
  by (cases ev)
    (auto simp: worker_recv_def worker_flush_def core_flush_def Let_def case_prod_beta list_all_iff
      dest: map_filter_fst_raw[rule_format] split: list.split hist_message.split)

lemma background_reporter:
  assumes "background parse base58 base64 hashers s s'"
  shows "(\<exists>ev. plain_event ev \<and> ps_reporter s' = rep_step ev (ps_reporter s)) \<or>
    (\<exists>evs. list_all caller_event evs \<and> ps_reporter s' = fold rep_step evs (ps_reporter s))" (is "?one \<or> ?many s'")
  using assms
proof cases
  case (bg_report ev)
  then show ?thesis by auto
next
  case bg_tx
  have "?many (tx_worker parse base58 base64 s)"
  proof (cases "\<exists>job rest. ps_tx_queue s = Decode job # rest")
    case True
    then obtain job rest where q: "ps_tx_queue s = Decode job # rest" by blast
    obtain res info where d: "decode_label (decode_request parse base58 base64 (tj_body job)) = (res, info)" by force
    show ?thesis
      by (intro exI[of _ "[RecordResult (tj_provider job) (tj_accepted job) res (if tj_accepted job then info else None)]"])
        (simp add: tx_worker_def q d Let_def rep_ops_events)
  next
    case False
    then have "ps_reporter (tx_worker parse base58 base64 s) = ps_reporter s"
      by (auto simp: tx_worker_def split: list.split transaction_message.split)
    then show ?thesis by (intro exI[of _ "[]"]) simp
  qed
  with bg_tx show ?thesis by simp
next
  case (bg_hist ev)
  have "?many (hist_turn parse hashers ev s)"
  proof (cases "ps_historical s")
    case (Some ch)
    obtain cfg h where ch: "ch = (cfg, h)" by force
    obtain es where es: "hn_emitted (hist_step cfg parse hashers ev h) = hn_emitted h @ es" "list_all is_raw es"
      using worker_emits_raw[OF bg_hist(2)] by blast
    have "fold rep_emit es rep = fold rep_step (map Emit es) rep" for rep
      by (induction es arbitrary: rep) (simp_all add: rep_ops_events)
    with es show ?thesis
      by (intro exI[of _ "map Emit es"]) (simp add: hist_turn_def Some ch Let_def list_all_iff)
  next
    case None
    then show ?thesis by (intro exI[of _ "[]"]) (simp add: hist_turn_None)
  qed
  with bg_hist show ?thesis by simp
qed (auto intro!: exI[of _ "[]"])

lemma caller_event_plain: "caller_event ev \<Longrightarrow> plain_event ev"
  by (cases ev) auto

lemma background_reporter_keeps:
  assumes "background parse base58 base64 hashers s s'" "P (ps_reporter s)"
    and "\<And>ev rep. plain_event ev \<Longrightarrow> P rep \<Longrightarrow> P (rep_step ev rep)"
  shows "P (ps_reporter s')"
proof -
  have "list_all caller_event evs \<Longrightarrow> P rep \<Longrightarrow> P (fold rep_step evs rep)" for evs rep
    by (induction evs arbitrary: rep) (simp_all add: assms(3) caller_event_plain)
  then show ?thesis using background_reporter[OF assms(1)] assms(2,3) by auto
qed

lemma background_quiet:
  "background parse base58 base64 hashers s s' \<Longrightarrow> reporter_quiet (ps_reporter s) \<Longrightarrow> reporter_quiet (ps_reporter s')"
  by (erule background_reporter_keeps[where P = reporter_quiet], assumption)
    (rename_tac ev rep, case_tac rep; simp add: quiet_step)

lemma background_flushing:
  "background parse base58 base64 hashers s s' \<Longrightarrow> reporter_flushing c (ps_reporter s) \<Longrightarrow> reporter_flushing c (ps_reporter s')"
  by (erule background_reporter_keeps[where P = "reporter_flushing c"], assumption)
    (rename_tac ev rep, case_tac rep; auto dest: requested_step carried_step)

lemma background_hist:
  assumes "background parse base58 base64 hashers s s'"
  shows "ps_historical s' = ps_historical s \<or>
    (\<exists>ev. worker_event ev \<and> s' = hist_turn parse hashers ev s)"
  using assms by cases auto

lemma background_tx:
  assumes "background parse base58 base64 hashers s s'"
  shows "ps_tx_queue s' = ps_tx_queue s \<and> ps_tx_flushed s' = ps_tx_flushed s \<or> s' = tx_worker parse base58 base64 s"
  using assms by cases auto

lemma hist_cong:
  assumes "ps_historical s' = ps_historical s"
  shows "hist_unflushed s' = hist_unflushed s" "hist_flushing c s' = hist_flushing c s" "hist_drained s' = hist_drained s"
proof -
  show d: "hist_drained s' = hist_drained s" by (simp add: hist_drained_def assms)
  show "hist_unflushed s' = hist_unflushed s" "hist_flushing c s' = hist_flushing c s"
    unfolding hist_unflushed_def hist_flushing_def d assms by simp_all
qed

lemma tx_cong:
  assumes "ps_tx_queue s' = ps_tx_queue s" "ps_tx_flushed s' = ps_tx_flushed s"
  shows "tx_unflushed s' = tx_unflushed s" "tx_flushing c s' = tx_flushing c s"
  by (simp_all add: tx_unflushed_def tx_flushing_def assms)

lemma background_queues:
  assumes "background parse base58 base64 hashers s s'"
  shows "hist_unflushed s \<Longrightarrow> hist_unflushed s'" "hist_flushing c s \<Longrightarrow> hist_flushing c s'" "hist_drained s \<Longrightarrow> hist_drained s'"
    "tx_unflushed s \<Longrightarrow> tx_unflushed s'" "tx_flushing c s \<Longrightarrow> tx_flushing c s'" "ps_tx_queue s = [] \<Longrightarrow> ps_tx_queue s' = []"
proof -
  show "hist_unflushed s \<Longrightarrow> hist_unflushed s'" "hist_flushing c s \<Longrightarrow> hist_flushing c s'" "hist_drained s \<Longrightarrow> hist_drained s'"
    using background_hist[OF assms] hist_cong[of s' s] hist_unflushed_turn hist_flushing_turn hist_drained_turn by metis+
  show "tx_unflushed s \<Longrightarrow> tx_unflushed s'" "tx_flushing c s \<Longrightarrow> tx_flushing c s'"
    using background_tx[OF assms] tx_cong[of s' s] tx_worker_unflushed tx_worker_flushing by metis+
  show "ps_tx_queue s = [] \<Longrightarrow> ps_tx_queue s' = []"
    using background_tx[OF assms] by (auto simp: tx_worker_def)
qed

section \<open>The stages\<close>

lemma stage_ok_step:
  assumes "shutdown parse base58 base64 hashers c q q'" "stage_ok c q"
  shows "stage_ok c q'"
  using assms
proof cases
  case (others s s' st)
  then show ?thesis using assms(2)
    by (cases st) (auto dest: background_queues background_quiet background_flushing)
next
  case (hist_absent s)
  then show ?thesis using assms(2) by (simp add: hist_drained_def)
next
  case (hist_sent s cfg h)
  then have "hist_unflushed s" "tx_unflushed s" "reporter_quiet (ps_reporter s)" using assms(2) by simp_all
  moreover have "ps_reporter (hist_turn parse hashers (FlushRequest c) s) = ps_reporter s"
    using hist_sent(3) by (simp add: hist_turn_def Let_def)
  ultimately show ?thesis using hist_sent
    by (auto simp: hist_flushing_def hist_turn_Some hist_unflushed_def hist_flushes.send_queue tx_unflushed_def)
next
  case (hist_answered s cfg h)
  then show ?thesis using assms(2) by (auto simp: hist_flushing_def)
next
  case (tx_sent s)
  then have u: "hist_drained s" "tx_unflushed s" "reporter_quiet (ps_reporter s)" using assms(2) by simp_all
  have "tx_flush_call c s = s\<lparr>ps_tx_queue := ps_tx_queue s @ [TxFlush c]\<rparr>"
    using tx_sent(3) by (simp add: tx_flush_call_def)
  with u tx_sent show ?thesis by (auto simp: tx_flushing_def tx_unflushed_def hist_drained_def)
next
  case (tx_answered s)
  then show ?thesis using assms(2) by (auto simp: tx_flushing_def)
next
  case (flush_called s cfg r)
  then show ?thesis using assms(2)
    using quiet_request by (auto simp: hist_cong(3)[of "upd_reporter _ s" s])
qed simp_all

lemma stage_ok_steps: "shutdowns parse base58 base64 hashers c q q' \<Longrightarrow> stage_ok c q \<Longrightarrow> stage_ok c q'"
  by (induction rule: rtranclp_induct) (auto intro: stage_ok_step)

section \<open>What the reporter has sent\<close>

lemma sent_events_grow: "prefix (sent_events rep) (sent_events (rep_step ev rep))"
  by (cases rep) (simp_all add: sent_grows)

lemma background_sent_grows:
  "background parse base58 base64 hashers s s' \<Longrightarrow> prefix (sent_events (ps_reporter s)) (sent_events (ps_reporter s'))"
  by (erule background_reporter_keeps[where P = "\<lambda>rep. prefix (sent_events (ps_reporter s)) (sent_events rep)"])
    (auto intro: prefix_order.trans sent_events_grow)

lemma reporter_flushing_step:
  assumes "background parse base58 base64 hashers s s'" "ps_reporter s = RemoteReporter cfg r" "requested c r"
  shows "\<exists>r'. ps_reporter s' = RemoteReporter cfg r' \<and>
    (requested c r' \<or> carried c r' \<and> (\<exists>now. prefix (held_events now (ps_reporter s)) (sent_events (ps_reporter s'))))"
  using background_reporter[OF assms(1)]
proof (elim disjE exE conjE)
  fix ev
  assume "plain_event ev" "ps_reporter s' = rep_step ev (ps_reporter s)"
  with requested_step[OF assms(3), of ev cfg] assms(2) show ?thesis by auto
next
  fix evs
  assume evs: "list_all caller_event evs" "ps_reporter s' = fold rep_step evs (ps_reporter s)"
  have one: "requested c r \<Longrightarrow> caller_event ev \<Longrightarrow> requested c (reporter_step cfg ev r)" for ev r
    by (cases ev) (auto simp: requested_def remote_emit_def remote_record_def)
  have "list_all caller_event evs \<Longrightarrow> requested c r \<Longrightarrow>
      \<exists>r'. fold rep_step evs (RemoteReporter cfg r) = RemoteReporter cfg r' \<and> requested c r'" for r
    by (induction evs arbitrary: r) (simp_all add: one)
  with evs assms(2,3) show ?thesis by auto
qed

text \<open>While the flush is awaited, either it is still requested, or everything held at some moment has been sent.\<close>

lemma awaited_flush:
  assumes "shutdowns parse base58 base64 hashers c (HistSend, s0) q" "stage_ok c (HistSend, s0)" "q = (ReporterWait, s)"
  shows "\<exists>cfg r. ps_reporter s = RemoteReporter cfg r \<and>
    (requested c r \<or> carried c r \<and>
      (\<exists>sm now. shutdowns parse base58 base64 hashers c (HistSend, s0) (ReporterWait, sm) \<and>
        shutdowns parse base58 base64 hashers c (ReporterWait, sm) (ReporterWait, s) \<and>
        prefix (held_events now (ps_reporter sm)) (sent_events (ps_reporter s))))"
  using assms(1,3)
proof (induction arbitrary: s rule: rtranclp_induct)
  case (step p q)
  from step(2) show ?case unfolding step(4)
  proof (cases rule: shutdown.cases)
    case (others t)
    obtain cfg r where r: "ps_reporter t = RemoteReporter cfg r"
      "requested c r \<or> carried c r \<and>
      (\<exists>sm now. shutdowns parse base58 base64 hashers c (HistSend, s0) (ReporterWait, sm) \<and>
        shutdowns parse base58 base64 hashers c (ReporterWait, sm) (ReporterWait, t) \<and>
        prefix (held_events now (ps_reporter sm)) (sent_events (ps_reporter t)))"
      using step(3)[OF others(1)] by blast
    have last: "shutdown parse base58 base64 hashers c (ReporterWait, t) (ReporterWait, s)"
      using others(2) by (rule shutdown.others)
    from r(2) show ?thesis
    proof
      assume "requested c r"
      from reporter_flushing_step[OF others(2) r(1) this] obtain r' where r': "ps_reporter s = RemoteReporter cfg r'"
        "requested c r' \<or> carried c r' \<and> (\<exists>now. prefix (held_events now (ps_reporter t)) (sent_events (ps_reporter s)))"
        by blast
      moreover have "shutdowns parse base58 base64 hashers c (HistSend, s0) (ReporterWait, t)" using step(1) others(1) by simp
      ultimately show ?thesis using last by blast
    next
      assume c: "carried c r \<and>
      (\<exists>sm now. shutdowns parse base58 base64 hashers c (HistSend, s0) (ReporterWait, sm) \<and>
        shutdowns parse base58 base64 hashers c (ReporterWait, sm) (ReporterWait, t) \<and>
        prefix (held_events now (ps_reporter sm)) (sent_events (ps_reporter t)))"
      have "case ps_reporter s of NoopReporter \<Rightarrow> False | RemoteReporter cfg r \<Rightarrow> carried c r"
        by (rule background_reporter_keeps[OF others(2)]) (use r(1) c in \<open>auto simp: carried_step split: reporter.splits\<close>)
      then obtain cfg' r' where "ps_reporter s = RemoteReporter cfg' r'" "carried c r'" by (cases "ps_reporter s") auto
      with c last background_sent_grows[OF others(2)] show ?thesis
        by (meson prefix_order.trans rtranclp.rtrancl_into_rtrancl)
    qed
  next
    case (flush_called t cfg r)
    have "stage_ok c (ReporterCall, t)" using stage_ok_steps[OF step(1)[unfolded flush_called(1)] assms(2)] .
    then show ?thesis using flush_called quiet_request[of r c cfg] by auto
  qed
qed simp

section \<open>Shutting down loses nothing\<close>

lemma raw_accepted_grows: "prefix (raw_accepted rep) (raw_accepted (rep_step ev rep))"
  by (cases rep) (simp_all add: raw_accepted_def step_delivery)

lemma shutdown_raw_grows:
  assumes "shutdown parse base58 base64 hashers c q q'"
  shows "prefix (raw_accepted (ps_reporter (snd q))) (raw_accepted (ps_reporter (snd q')))"
  using assms
proof cases
  case (others s s' st)
  then show ?thesis
    using background_reporter_keeps[where P = "\<lambda>rep. prefix (raw_accepted (ps_reporter s)) (raw_accepted rep)", OF others(3)]
    by (auto intro: prefix_order.trans raw_accepted_grows)
qed (auto intro: raw_accepted_grows simp: hist_turn_def Let_def tx_flush_call_def simp del: rep_step.simps intro!: raw_accepted_grows)

lemma shutdowns_raw_grow:
  "shutdowns parse base58 base64 hashers c q q' \<Longrightarrow>
   prefix (raw_accepted (ps_reporter (snd q))) (raw_accepted (ps_reporter (snd q')))"
  by (induction rule: rtranclp_induct) (auto intro: prefix_order.trans shutdown_raw_grows)

lemma held_raw: "filter is_raw (held_events now rep) = raw_accepted rep"
  by (cases rep) (simp_all add: raw_accepted_def outstanding_def delivery_def drain_not_raw)

lemma prefix_filter: "prefix xs ys \<Longrightarrow> prefix (filter P xs) (filter P ys)"
  by (auto simp: prefix_def)

lemma complete_sent:
  assumes "shutdowns parse base58 base64 hashers c (HistSend, s0) q" "stage_ok c (HistSend, s0)" "q = (Complete, s)"
    "ps_reporter s = RemoteReporter cfg r"
  shows "\<exists>sm now. shutdowns parse base58 base64 hashers c (HistSend, s0) (ReporterWait, sm) \<and>
    shutdowns parse base58 base64 hashers c (ReporterWait, sm) (Complete, s) \<and>
    prefix (held_events now (ps_reporter sm)) (sent_events (ps_reporter s))"
  using assms(1,3,4)
proof (induction arbitrary: s cfg r rule: rtranclp_induct)
  case (step p q)
  from step(2) show ?case unfolding step(4)
  proof (cases rule: shutdown.cases)
    case (others t)
    obtain cfg' r' where r': "ps_reporter t = RemoteReporter cfg' r'"
      using background_reporter_keeps[where P = "\<lambda>rep. rep = NoopReporter", OF others(2)] step(5) by (cases "ps_reporter t") auto
    have last: "shutdown parse base58 base64 hashers c (Complete, t) (Complete, s)"
      using others(2) by (rule shutdown.others)
    from step(3)[OF others(1) r'] last background_sent_grows[OF others(2)] show ?thesis
      by (meson prefix_order.trans rtranclp.rtrancl_into_rtrancl)
  next
    case (flush_answered cfg r)
    have last: "shutdown parse base58 base64 hashers c (ReporterWait, s) (Complete, s)"
      using flush_answered(2,3) by (rule shutdown.flush_answered)
    have "\<not> requested c r" using flush_answered(3) by (auto simp: requested_def)
    with awaited_flush[OF step(1) assms(2) flush_answered(1)] flush_answered(2) last show ?thesis
      by (auto intro: rtranclp.rtrancl_into_rtrancl)
  qed (use step(5) in simp)
qed simp

lemma unflushed_stage: "unflushed s \<longleftrightarrow> stage_ok c (HistSend, s)"
  by (simp add: unflushed_def)

text \<open>C31. A completed shutdown has handed over everything: the decode queue is empty, the historical
analyzer has emitted every call it accepted, and the telemetry sent contains, in order, every event
the reporter accepted before, and all it held when its flush was awaited, whatever the background
tasks did meanwhile.\<close>

theorem shutdown_delivers:
  assumes "unflushed s0" "shutdowns parse base58 base64 hashers c (HistSend, s0) (Complete, s1)"
  shows "ps_tx_queue s1 = [] \<and>
    (case ps_historical s1 of
       None \<Rightarrow> True
     | Some (cfg, h) \<Rightarrow> hn_queue h = [] \<and> accounted_calls h = sum_list (map logical_calls (hn_emitted h))) \<and>
    (case ps_reporter s1 of
       NoopReporter \<Rightarrow> True
     | RemoteReporter cfg r \<Rightarrow>
         prefix (raw_accepted (ps_reporter s0)) (filter is_raw (concat (rm_sent r))) \<and>
         (\<exists>sm now. shutdowns parse base58 base64 hashers c (HistSend, s0) (ReporterWait, sm) \<and>
           ps_tx_queue sm = [] \<and> hist_drained sm \<and> prefix (held_events now (ps_reporter sm)) (concat (rm_sent r))))"
    (is "_ \<and> ?hist \<and> ?rep")
proof (intro conjI)
  have ok0: "stage_ok c (HistSend, s0)" using assms(1) by (simp add: unflushed_def)
  have ok1: "stage_ok c (Complete, s1)" by (rule stage_ok_steps[OF assms(2) ok0])
  then show "ps_tx_queue s1 = []" by simp
  show ?hist using ok1 by (auto simp: hist_drained_def accounted_calls_def split: option.splits)
  show ?rep
  proof (cases "ps_reporter s1")
    case (RemoteReporter cfg r)
    obtain sm now where sm: "shutdowns parse base58 base64 hashers c (HistSend, s0) (ReporterWait, sm)"
        "prefix (held_events now (ps_reporter sm)) (concat (rm_sent r))"
      using complete_sent[OF assms(2) ok0 HOL.refl RemoteReporter] RemoteReporter by auto
    have "prefix (raw_accepted (ps_reporter s0)) (raw_accepted (ps_reporter sm))"
      using shutdowns_raw_grow[OF sm(1)] by simp
    also have "prefix (raw_accepted (ps_reporter sm)) (filter is_raw (concat (rm_sent r)))"
      using prefix_filter[OF sm(2), of is_raw] by (simp add: held_raw)
    finally have "prefix (raw_accepted (ps_reporter s0)) (filter is_raw (concat (rm_sent r)))" .
    with sm stage_ok_steps[OF sm(1) ok0] show ?thesis unfolding RemoteReporter by auto
  qed simp
qed

lemma outstanding_calls:
  assumes "agg_ok (rm_agg r)"
  shows "sum_list (map (event_calls k) (outstanding now r)) = total_calls k r"
  using drain_calls[OF assms, of k now] by (simp add: outstanding_def total_calls_def delivery_def algebra_simps)

section \<open>Shutting down can always complete\<close>

lemma hist_room_turn [simp]: "hist_room (hist_turn parse hashers ev s) = hist_room s"
  by (cases "ps_historical s") (auto simp: hist_room_def hist_turn_Some hist_turn_None)

lemma hist_room_frame [simp]:
  "hist_room (tx_flush_call c s) = hist_room s" "hist_room (upd_reporter f s) = hist_room s"
  unfolding hist_room_def by (simp_all add: tx_flush_call_def)

lemma hist_room_step:
  assumes "shutdown parse base58 base64 hashers c q q'" "hist_room (snd q)"
  shows "hist_room (snd q')"
  using assms
proof cases
  case (others s s' st)
  from background_hist[OF others(3)] show ?thesis
  proof (elim disjE exE conjE)
    assume "ps_historical s' = ps_historical s"
    then have "hist_room s' = hist_room s" unfolding hist_room_def by simp
    then show ?thesis using assms(2) others by simp
  qed (use assms(2) others in simp)
qed (use assms(2) in simp_all)

lemma hist_room_steps: "shutdowns parse base58 base64 hashers c q q' \<Longrightarrow> hist_room (snd q) \<Longrightarrow> hist_room (snd q')"
  by (induction rule: rtranclp_induct) (auto intro: hist_room_step)

lemma hist_drains:
  "ps_historical s = Some (cfg, h) \<Longrightarrow>
   \<exists>s' h'. shutdowns parse base58 base64 hashers c (st, s) (st, s') \<and> ps_historical s' = Some (cfg, h') \<and> hn_queue h' = []"
proof (induction "length (hn_queue h)" arbitrary: s h)
  case (Suc n)
  let ?t = "hist_turn parse hashers (WorkerRecv 0 0) s" and ?h = "worker_recv cfg parse hashers 0 0 h"
  have t: "ps_historical ?t = Some (cfg, ?h)" by (simp add: hist_turn_Some[OF Suc(3)])
  have "length (hn_queue ?h) = n"
    using Suc(2) by (cases "hn_queue h"; cases "hd (hn_queue h)") (simp_all add: worker_recv_def)
  then obtain s' h' where s': "shutdowns parse base58 base64 hashers c (st, ?t) (st, s')" "ps_historical s' = Some (cfg, h')" "hn_queue h' = []"
    using Suc(1)[of ?h ?t] t by blast
  have "shutdown parse base58 base64 hashers c (st, s) (st, ?t)" by (intro others bg_hist) simp
  with s' show ?case by (meson converse_rtranclp_into_rtranclp)
qed (use rtranclp.rtrancl_refl in fastforce)

lemma tx_drains:
  "\<exists>s'. shutdowns parse base58 base64 hashers c (st, s) (st, s') \<and> ps_tx_queue s' = []"
proof -
  have "shutdowns parse base58 base64 hashers c (st, s) (st, (tx_worker parse base58 base64 ^^ n) s)" for n
    by (induction n) (auto intro: rtranclp.rtrancl_into_rtrancl others bg_tx)
  with tx_worker_drains[where s = s and parse = parse and ?base58.0 = base58 and ?base64.0 = base64] show ?thesis by blast
qed

lemma reporter_answers:
  assumes "ps_reporter s = RemoteReporter cfg r" "requested c r \<or> carried c r"
  shows "\<exists>s' r'. shutdowns parse base58 base64 hashers c (st, s) (st, s') \<and> ps_reporter s' = RemoteReporter cfg r' \<and>
    c \<in> set (rm_released r')"
proof -
  have one: "shutdowns parse base58 base64 hashers c (st, s) (st, upd_reporter (rep_step ev) s)" if "plain_event ev" for s ev
    using that by (auto intro: others bg_report)
  have carry: "\<exists>s' r'. shutdowns parse base58 base64 hashers c (st, s) (st, s') \<and> ps_reporter s' = RemoteReporter cfg r' \<and>
      c \<in> set (rm_released r')" if "ps_reporter s = RemoteReporter cfg r" "carried c r" for s r
  proof -
    have "c \<in> set (rm_released (reporter_step cfg Sent r))"
      using that(2) by (auto simp: carried_def task_sent_def release_waiters_def Let_def)
    with one[of Sent s] that(1) show ?thesis by auto
  qed
  have notify: "\<exists>s' r'. shutdowns parse base58 base64 hashers c (st, s) (st, s') \<and> ps_reporter s' = RemoteReporter cfg r' \<and>
      c \<in> set (rm_released r')" if "ps_reporter s = RemoteReporter cfg r" "requested c r" "rm_phase r = Idle" for s r
  proof -
    let ?t = "upd_reporter (rep_step (Notified 0)) s"
    have "carried c (reporter_step cfg (Notified 0) r)"
      using that(2,3) by (auto simp: requested_def carried_def task_notified_def task_collect_def send_batch_def
          release_waiters_def Let_def split: prod.split)
    with carry[of ?t "reporter_step cfg (Notified 0) r"] that(1) one[of "Notified 0" s] show ?thesis
      by (auto intro: rtranclp_trans)
  qed
  show ?thesis
  proof (cases "requested c r \<and> rm_phase r \<noteq> Idle")
    case True
    let ?t = "upd_reporter (rep_step Sent) s" and ?r = "reporter_step cfg Sent r"
    have "requested c ?r" "rm_phase ?r = Idle" using True by (auto simp: requested_def task_sent_def Let_def)
    with notify[of ?t ?r] assms(1) one[of Sent s] show ?thesis by (auto intro: rtranclp_trans)
  qed (use assms carry notify in blast)
qed

lemma complete_from_reporter:
  assumes "stage_ok c (ReporterCall, s)"
  shows "\<exists>s1. shutdowns parse base58 base64 hashers c (ReporterCall, s) (Complete, s1)"
proof (cases "ps_reporter s")
  case NoopReporter
  then show ?thesis by (auto intro: noop_flushed)
next
  case (RemoteReporter cfg r)
  let ?t = "upd_reporter (rep_step (FlushAndWait c)) s"
  have "requested c (reporter_step cfg (FlushAndWait c) r)" using assms RemoteReporter by (intro quiet_request) simp
  moreover have "ps_reporter ?t = RemoteReporter cfg (reporter_step cfg (FlushAndWait c) r)" using RemoteReporter by simp
  ultimately obtain s' r' where s': "shutdowns parse base58 base64 hashers c (ReporterWait, ?t) (ReporterWait, s')"
      "ps_reporter s' = RemoteReporter cfg r'" "c \<in> set (rm_released r')"
    using reporter_answers by blast
  have "shutdown parse base58 base64 hashers c (ReporterCall, s) (ReporterWait, ?t)" using RemoteReporter by (rule flush_called)
  moreover have "shutdown parse base58 base64 hashers c (ReporterWait, s') (Complete, s')" using s'(2,3) by (rule flush_answered)
  ultimately show ?thesis using s'(1) by (meson converse_rtranclp_into_rtranclp rtranclp.rtrancl_into_rtrancl)
qed

lemma complete_from_tx:
  assumes "stage_ok c (TxWait, s)"
  shows "\<exists>s1. shutdowns parse base58 base64 hashers c (TxWait, s) (Complete, s1)"
proof -
  obtain t where t: "shutdowns parse base58 base64 hashers c (TxWait, s) (TxWait, t)" "ps_tx_queue t = []"
    using tx_drains by blast
  have "c \<in> set (ps_tx_flushed t)" using stage_ok_steps[OF t(1) assms] t(2) by (auto simp: tx_flushing_def)
  then have "shutdown parse base58 base64 hashers c (TxWait, t) (ReporterCall, t)" by (rule tx_answered)
  with t(1) have path: "shutdowns parse base58 base64 hashers c (TxWait, s) (ReporterCall, t)" by simp
  from complete_from_reporter[OF stage_ok_steps[OF path assms]] path show ?thesis by (meson rtranclp_trans)
qed

lemma complete_from_tx_send:
  assumes "stage_ok c (TxSend, s)"
  shows "\<exists>s1. shutdowns parse base58 base64 hashers c (TxSend, s) (Complete, s1)"
proof -
  obtain t where t: "shutdowns parse base58 base64 hashers c (TxSend, s) (TxSend, t)" "ps_tx_queue t = []"
    using tx_drains by blast
  then have "shutdown parse base58 base64 hashers c (TxSend, t) (TxWait, tx_flush_call c t)"
    by (intro tx_sent) (simp add: TX_DECODE_QUEUE_CAPACITY_def)
  with t(1) have path: "shutdowns parse base58 base64 hashers c (TxSend, s) (TxWait, tx_flush_call c t)" by simp
  from complete_from_tx[OF stage_ok_steps[OF path assms]] path show ?thesis by (meson rtranclp_trans)
qed

lemma complete_from_hist:
  assumes "stage_ok c (HistWait, s)"
  shows "\<exists>s1. shutdowns parse base58 base64 hashers c (HistWait, s) (Complete, s1)"
proof -
  obtain cfg h where "ps_historical s = Some (cfg, h)" using assms by (auto simp: hist_flushing_def split: option.splits)
  from hist_drains[OF this] obtain t h' where t: "shutdowns parse base58 base64 hashers c (HistWait, s) (HistWait, t)"
    "ps_historical t = Some (cfg, h')" "hn_queue h' = []" by blast
  have "c \<in> set (hn_flushed h')" using stage_ok_steps[OF t(1) assms] t(2,3) by (auto simp: hist_flushing_def)
  then have "shutdown parse base58 base64 hashers c (HistWait, t) (TxSend, t)" using t(2) by (intro hist_answered)
  with t(1) have path: "shutdowns parse base58 base64 hashers c (HistWait, s) (TxSend, t)" by simp
  from complete_from_tx_send[OF stage_ok_steps[OF path assms]] path show ?thesis by (meson rtranclp_trans)
qed

lemma complete_from_start:
  assumes "stage_ok c (HistSend, s)" "hist_room s"
  shows "\<exists>s1. shutdowns parse base58 base64 hashers c (HistSend, s) (Complete, s1)"
proof (cases "ps_historical s")
  case None
  then have path: "shutdown parse base58 base64 hashers c (HistSend, s) (TxSend, s)" by (rule hist_absent)
  from complete_from_tx_send[OF stage_ok_step[OF path assms(1)]] path show ?thesis by (meson converse_rtranclp_into_rtranclp)
next
  case (Some ch)
  obtain cfg h where "ps_historical s = Some (cfg, h)" using Some by (cases ch) simp
  from hist_drains[OF this] obtain t h' where t: "shutdowns parse base58 base64 hashers c (HistSend, s) (HistSend, t)"
    "ps_historical t = Some (cfg, h')" "hn_queue h' = []" by blast
  have "0 < unat (ha_queue_capacity cfg)" using hist_room_steps[OF t(1)] assms(2) t(2) by (simp add: hist_room_def)
  then have "length (hn_queue h') < unat (ha_queue_capacity cfg)" unfolding t(3) list.size .
  with t(2) have "shutdown parse base58 base64 hashers c (HistSend, t) (HistWait, hist_turn parse hashers (FlushRequest c) t)"
    by (rule hist_sent)
  with t(1) have path: "shutdowns parse base58 base64 hashers c (HistSend, s) (HistWait, hist_turn parse hashers (FlushRequest c) t)" by simp
  from complete_from_hist[OF stage_ok_steps[OF path assms(1)]] path show ?thesis by (meson rtranclp_trans)
qed

text \<open>C32. From every state a shutdown can get into, whatever the background tasks did, its completion
stays reachable.\<close>

theorem shutdown_never_stuck:
  assumes "unflushed s0" "hist_room s0" "shutdowns parse base58 base64 hashers c (HistSend, s0) (st, s)"
  shows "\<exists>s1. shutdowns parse base58 base64 hashers c (st, s) (Complete, s1)"
proof -
  have ok: "stage_ok c (st, s)" using stage_ok_steps[OF assms(3)] assms(1) by (simp add: unflushed_def)
  show ?thesis
  proof (cases st)
    case HistSend
    with ok hist_room_steps[OF assms(3)] assms(2) show ?thesis using complete_from_start by simp
  next
    case ReporterWait
    then obtain cfg r where "ps_reporter s = RemoteReporter cfg r" "requested c r \<or> carried c r"
      using ok by (cases "ps_reporter s") auto
    from reporter_answers[OF this] obtain t r' where t: "shutdowns parse base58 base64 hashers c (ReporterWait, s) (ReporterWait, t)"
      "ps_reporter t = RemoteReporter cfg r'" "c \<in> set (rm_released r')" by blast
    with ReporterWait show ?thesis by (meson flush_answered rtranclp.rtrancl_into_rtrancl)
  qed (use ok complete_from_hist complete_from_tx_send complete_from_tx complete_from_reporter in auto)
qed

section \<open>Serving never flushes\<close>

lemma unflushed_cong:
  assumes "ps_historical s' = ps_historical s" "ps_tx_queue s' = ps_tx_queue s" "ps_tx_flushed s' = ps_tx_flushed s"
    "reporter_quiet (ps_reporter s) \<Longrightarrow> reporter_quiet (ps_reporter s')"
  shows "unflushed s \<Longrightarrow> unflushed s'"
  using assms by (auto simp: unflushed_def hist_cong[OF assms(1)] tx_cong[OF assms(2,3)])

lemma quiet_rep_step: "plain_event ev \<Longrightarrow> reporter_quiet rep \<Longrightarrow> reporter_quiet (rep_step ev rep)"
  by (cases rep) (simp_all add: quiet_step)

lemma unflushed_report: "plain_event ev \<Longrightarrow> unflushed s \<Longrightarrow> unflushed (upd_reporter (rep_step ev) s)"
  by (rule unflushed_cong[of _ s]) (simp_all add: quiet_rep_step)

lemma unflushed_metrics: "unflushed s \<Longrightarrow> unflushed (upd_metrics f s)"
  by (rule unflushed_cong[of _ s]) simp_all

lemma unflushed_monitor: "unflushed s \<Longrightarrow> unflushed (upd_monitor f s)"
  by (rule unflushed_cong[of _ s]) simp_all

lemma unflushed_tx_finish: "unflushed s \<Longrightarrow> unflushed (tx_finish cls body ack s)"
proof -
  have q: "ps_tx_queue (upd_metrics f s) = ps_tx_queue s" for f by (simp add: upd_metrics_def)
  have send: "unflushed t \<Longrightarrow> unflushed (t\<lparr>ps_tx_queue := ps_tx_queue t @ [Decode job]\<rparr>)" for t job
    by (simp add: unflushed_def hist_unflushed_def tx_unflushed_def)
  show "unflushed s \<Longrightarrow> unflushed (tx_finish cls body ack s)"
    using send[OF unflushed_metrics, unfolded q]
    by (cases cls) (auto simp: tx_finish_def Let_def upd_reporter_step q intro!: unflushed_report unflushed_metrics)
qed

interpretation serving: request_invariant unflushed
proof
  fix s ts me n oc ms c
  assume "unflushed s"
  then show "unflushed (recorder_record ts me n oc ms c s)"
    by (auto simp: recorder_record_def upd_reporter_step intro!: unflushed_monitor unflushed_report unflushed_metrics)
next
  fix s now gate p n
  assume "unflushed s"
  then show "unflushed (snd (rate_gate now gate p n s))"
    using unflushed_monitor[of s "\<lambda>m. snd (try_acquire now n m)"]
    by (auto simp: rate_gate_def case_prod_beta Let_def upd_monitor_def intro!: unflushed_metrics)
next
  fix s n l
  assume "unflushed s"
  moreover have "plain_event (Emit (Failover a b r))" for a b r by simp
  ultimately show "unflushed (note_failover n l s)"
    by (auto simp: note_failover_def upd_reporter_step intro!: unflushed_report unflushed_metrics split: option.split)
next
  fix s now b st ack and ctx :: request_ctx
  assume "unflushed s"
  then have t: "unflushed (tx_finish (cx_transaction ctx) (cx_body ctx) ack s)" by (rule unflushed_tx_finish)
  have "hist_unflushed t \<Longrightarrow> ps_historical t = Some (cfg, h) \<Longrightarrow>
      hn_flushed (hist_finish cfg now (cx_historical ctx) (cx_body ctx) b st (cx_tips ctx) h) = [] \<and>
      list_all is_job (hn_queue (hist_finish cfg now (cx_historical ctx) (cx_body ctx) b st (cx_tips ctx) h))" for t cfg h
    by (auto simp: hist_unflushed_def hist_finish_def drop_job_def Let_def)
  with t show "unflushed (finish_analytics now ctx b st ack s)"
    by (auto simp: finish_analytics_def Let_def unflushed_def tx_unflushed_def split: option.split)
      (auto simp: hist_unflushed_def)
next
  fix s now
  assume "unflushed s"
  from unflushed_monitor[OF this, of "\<lambda>m. snd (snapshots_with_tips now m)"]
  show "unflushed (s\<lparr>ps_monitor := snd (snapshots_with_tips now (ps_monitor s))\<rparr>)" by (simp add: upd_monitor_def)
qed

lemma background_unflushed: "background parse base58 base64 hashers s s' \<Longrightarrow> unflushed s \<Longrightarrow> unflushed s'"
  by (auto simp: unflushed_def dest: background_queues background_quiet)

lemma unflushed_new: "reporter_quiet rep \<Longrightarrow> unflushed (proxy_new now now_ms mt cfg rep)"
  by (simp add: unflushed_def proxy_new_def Let_def hist_unflushed_def tx_unflushed_def hist_new_def split: option.split)

section \<open>Instances\<close>

lemma served_unflushed: "unflushed served_state"
proof -
  have e: "plain_event (Emit (Failover ''a'' ''b'' ''provider_error''))" by simp
  show ?thesis
    unfolding upd_reporter_step by (intro unflushed_report e unflushed_new) (simp add: quiet_new)
qed

lemma served_room: "hist_room served_state"
  by (simp add: hist_room_def upd_reporter_def proxy_new_def Let_def demo_config_def)

lemma served_accepted: "raw_accepted (ps_reporter served_state) = [Failover ''a'' ''b'' ''provider_error'']"
  by (simp add: raw_accepted_def proxy_new_def Let_def remote_emit_def remote_new_def default_reporting_def delivery_def)

theorem shutdown_delivers_witness:
  "\<exists>s1. shutdowns demo_parse (\<lambda>_. None) (\<lambda>_. None) demo_hashers 0 (HistSend, served_state) (Complete, s1) \<and>
    ps_tx_queue s1 = [] \<and>
    (case ps_reporter s1 of NoopReporter \<Rightarrow> True
     | RemoteReporter cfg r \<Rightarrow> prefix [Failover ''a'' ''b'' ''provider_error''] (filter is_raw (concat (rm_sent r))))"
proof -
  have "stage_ok 0 (HistSend, served_state)" using served_unflushed by (simp only: unflushed_stage[symmetric])
  from complete_from_start[OF this served_room] obtain s1 where
    s1: "shutdowns demo_parse (\<lambda>_. None) (\<lambda>_. None) demo_hashers 0 (HistSend, served_state) (Complete, s1)" by blast
  with shutdown_delivers[OF served_unflushed s1, unfolded served_accepted] show ?thesis
    by (intro exI[of _ s1]) (simp split: reporter.splits)
qed

theorem shutdown_never_stuck_witness:
  "\<exists>s1. shutdowns demo_parse (\<lambda>_. None) (\<lambda>_. None) demo_hashers 0 (HistSend, served_state) (Complete, s1)"
  by (rule shutdown_never_stuck[OF served_unflushed served_room]) simp

end
