(* ===== verification/Serving.thy ===== *)
theory Serving
  imports Shutdown Decode
begin

text \<open>
  Starting and serving (\<open>main.rs\<close>): the command line and the thread count, the file system effects of \<open>init\<close> and of
  binding a unix socket, the TCP listeners, the file-descriptor limit, the order in which \<open>run\<close> starts, the routes,
  and the accept loop of \<open>serve_unix\<close> with its graceful end. What the operating system answers is an input. The
  theorems connect a successful start with the reachable states of \<open>System\<close> and with \<open>Shutdown\<close>.
\<close>

section \<open>Command line\<close>

datatype command = RunCommand | CheckCommand | StatusCommand | InitCommand

record cli =
  cli_config :: string
  cli_command :: "command option"

text \<open>\<open>peek\<close> reads \<open>server.worker_threads\<close> of a TOML document, and fails if the document does not parse.\<close>

definition peek_worker_threads :: "(string \<Rightarrow> string option) \<Rightarrow> (string \<Rightarrow> usize option option) \<Rightarrow> string \<Rightarrow> usize option" where
  "peek_worker_threads read_to_string peek path =
     (case read_to_string path of
        None \<Rightarrow> None
      | Some raw \<Rightarrow> (case peek raw of None \<Rightarrow> None | Some n \<Rightarrow> n))"

text \<open>The command and the number of worker threads; the runtime builder panics on zero threads (\<open>None\<close>).\<close>

definition cli_main ::
  "(string \<Rightarrow> string option) \<Rightarrow> (string \<Rightarrow> usize option option) \<Rightarrow> cli \<Rightarrow> (command \<times> usize option) option" where
  "cli_main read_to_string peek c =
     (let worker_threads =
            (case cli_command c of
               None \<Rightarrow> peek_worker_threads read_to_string peek (cli_config c)
             | Some RunCommand \<Rightarrow> peek_worker_threads read_to_string peek (cli_config c)
             | _ \<Rightarrow> None)
      in if worker_threads = Some 0 then None
         else Some (unwrap_or (cli_command c) RunCommand, worker_threads))"

section \<open>Files\<close>

text \<open>What a path names. \<open>remove_file\<close> removes anything but a directory.\<close>

datatype file_kind = RegularFile bytes | SocketFile | Directory

type_synonym files = "string \<Rightarrow> file_kind option"

definition remove_file :: "string \<Rightarrow> files \<Rightarrow> files" where
  "remove_file path fs = (if fs path = Some Directory then fs else fs(path := None))"

definition unix_listen :: "bool \<Rightarrow> string \<Rightarrow> files \<Rightarrow> bool \<times> files" where
  "unix_listen bind_ok path fs =
     (let fs = remove_file path fs in
      if fs path = None \<and> bind_ok then (True, fs(path \<mapsto> SocketFile)) else (False, fs))"

datatype init_result = InitExists | InitWriteFailed | InitCreated

definition init_command :: "bytes \<Rightarrow> bool \<Rightarrow> string \<Rightarrow> files \<Rightarrow> init_result \<times> files" where
  "init_command example write_ok path fs =
     (if fs path \<noteq> None then (InitExists, fs)
      else if write_ok then (InitCreated, fs(path \<mapsto> RegularFile example))
      else (InitWriteFailed, fs))"

section \<open>Listeners\<close>

datatype sock_addr = SockV4 u32 u16 | SockV6 "128 word" u16

datatype net_error = BadAddress | NoSocket | NoOption | BindFailed | ListenFailed

text \<open>The answers of the operating system to the calls of one \<open>tcp_listen\<close>.\<close>

record net_answers =
  na_socket :: bool
  na_reuseaddr :: bool
  na_reuseport :: bool
  na_bind :: "sock_addr \<Rightarrow> bool"
  na_listen :: bool

record tcp_listener =
  tl_addr :: sock_addr
  tl_backlog :: u32

definition tcp_listen ::
  "(string \<Rightarrow> sock_addr option) \<Rightarrow> net_answers \<Rightarrow> string \<Rightarrow> u32 \<Rightarrow> net_error + tcp_listener" where
  "tcp_listen parse_addr na addr backlog =
     (case parse_addr addr of
        None \<Rightarrow> Inl BadAddress
      | Some a \<Rightarrow>
          if \<not> na_socket na then Inl NoSocket
          else if \<not> na_reuseaddr na then Inl NoOption
          else if \<not> na_reuseport na then Inl NoOption
          else if \<not> na_bind na a then Inl BindFailed
          else if \<not> na_listen na then Inl ListenFailed
          else Inr \<lparr>tl_addr = a, tl_backlog = backlog\<rparr>)"

section \<open>File descriptors\<close>

text \<open>The soft limit afterwards and whether the warning is logged; \<open>current\<close> is \<open>None\<close> if \<open>getrlimit\<close> fails.\<close>

definition raise_nofile_limit :: "(u64 \<times> u64) option \<Rightarrow> bool \<Rightarrow> (u64 \<times> u64) option \<times> bool" where
  "raise_nofile_limit current set_ok =
     (case current of
        None \<Rightarrow> (None, False)
      | Some (cur, hard) \<Rightarrow>
          if cur < 65535 then
            (let cur' = min hard 65535 in if set_ok then (Some (cur', hard), False) else (current, True))
          else (current, False))"

section \<open>Starting up\<close>

datatype start_failure =
    ConfigFailed load_error
  | ClientFailed
  | ReporterPanic
  | MetricsListenFailed net_error
  | ListenFailedOn net_error
  | UnixListenFailed

datatype listener = UnixSocket string | TcpListener tcp_listener

text \<open>What starts: the shared state, the two listeners, and the background tasks in the order of their spawn.\<close>

datatype spawned = WatchConfigTask | HealthReportTask | MetricsServerTask

record running =
  rn_state :: proxy_state
  rn_metrics :: tcp_listener
  rn_listener :: listener
  rn_tasks :: "spawned list"

text \<open>\<open>mpsc::channel\<close> panics on a capacity of zero.\<close>

definition build_reporter :: "bool \<Rightarrow> u64 \<Rightarrow> config \<Rightarrow> start_failure + reporter" where
  "build_reporter client_ok now_ms cfg =
     (case cfg_reporting cfg of
        None \<Rightarrow> Inr NoopReporter
      | Some rc \<Rightarrow>
          if \<not> client_ok then Inl ClientFailed
          else if rp_buffer_size rc = 0 then Inl ReporterPanic
          else Inr (RemoteReporter rc (remote_new now_ms)))"

text \<open>The constants the build script sets for \<open>Metrics::new\<close>.\<close>

record build_info =
  bi_version :: string
  bi_commit :: "string option"
  bi_branch :: "string option"
  bi_rustc :: "string option"

definition run_start ::
  "(string \<Rightarrow> sock_addr option) \<Rightarrow> net_answers \<Rightarrow> net_answers \<Rightarrow> bool \<Rightarrow> bool \<Rightarrow> instant \<Rightarrow> u64 \<Rightarrow> build_info \<Rightarrow>
   load_error + config \<Rightarrow> files \<Rightarrow> (start_failure + running) \<times> files" where
  "run_start parse_addr na_metrics na_proxy unix_ok client_ok now now_ms b loaded fs =
     (case loaded of
        Inl e \<Rightarrow> (Inl (ConfigFailed e), fs)
      | Inr cfg \<Rightarrow>
          (let sc = cfg_server cfg in
           case build_reporter client_ok now_ms cfg of
             Inl e \<Rightarrow> (Inl e, fs)
           | Inr rep \<Rightarrow>
               (let s = proxy_new now now_ms (metrics_new (bi_version b) (bi_commit b) (bi_branch b) (bi_rustc b)) cfg rep in
                case tcp_listen parse_addr na_metrics (sc_metrics_listen sc) (sc_listen_backlog sc) of
                  Inl e \<Rightarrow> (Inl (MetricsListenFailed e), fs)
                | Inr ml \<Rightarrow>
                    (let up = (\<lambda>l. \<lparr>rn_state = s, rn_metrics = ml, rn_listener = l,
                                 rn_tasks = [WatchConfigTask, HealthReportTask, MetricsServerTask]\<rparr>) in
                     if is_unix_path (sc_listen sc) then
                       (case unix_listen unix_ok (sc_listen sc) fs of
                          (ok, fs) \<Rightarrow> (if ok then Inr (up (UnixSocket (sc_listen sc))) else Inl UnixListenFailed, fs))
                     else case tcp_listen parse_addr na_proxy (sc_listen sc) (sc_listen_backlog sc) of
                         Inl e \<Rightarrow> (Inl (ListenFailedOn e), fs)
                       | Inr l \<Rightarrow> (Inr (up (TcpListener l)), fs)))))"

section \<open>Routes\<close>

datatype http_method = GetMethod | HeadMethod | PostMethod | OtherMethod

datatype endpoint = RpcEndpoint | HealthEndpoint | MetricsEndpoint

datatype routed = Endpoint endpoint | NotFound | MethodNotAllowed

text \<open>\<open>get\<close> of the router also answers HEAD requests.\<close>

definition route_get :: "http_method \<Rightarrow> endpoint \<Rightarrow> routed" where
  "route_get meth e = (if meth = GetMethod \<or> meth = HeadMethod then Endpoint e else MethodNotAllowed)"

definition proxy_route :: "http_method \<Rightarrow> string \<Rightarrow> routed" where
  "proxy_route meth path =
     (if path = ''/'' then (if meth = PostMethod then Endpoint RpcEndpoint else MethodNotAllowed)
      else if path = ''/health'' then route_get meth HealthEndpoint
      else NotFound)"

definition metrics_route :: "http_method \<Rightarrow> string \<Rightarrow> routed" where
  "metrics_route meth path = (if path = ''/metrics'' then route_get meth MetricsEndpoint else NotFound)"

text \<open>
  The outermost layer of the proxy's router: a handler that panics (\<open>None\<close>) is answered with 500 and the body
  that the layer makes.
\<close>

definition catch_panic :: "bytes \<Rightarrow> response option \<Rightarrow> response" where
  "catch_panic panic_body r = unwrap_or r \<lparr>rs_status = 500, rs_body = panic_body\<rparr>"

section \<open>Serving a unix socket\<close>

text \<open>
  The accept loop of \<open>serve_unix\<close>: the connections it watches, and whether it accepts, waits for them after the
  signal, or has returned. Events are what its \<open>select!\<close> and the watched connections see.
\<close>

datatype serve_phase = Accepting | Draining | Returned

record unix_server =
  us_phase :: serve_phase
  us_open :: "nat list"

datatype serve_event = Accepted nat | AcceptFailed | Finished nat | Signalled

definition serve_unix_new :: unix_server where
  "serve_unix_new = \<lparr>us_phase = Accepting, us_open = []\<rparr>"

text \<open>
  Whether \<open>GracefulShutdown::shutdown\<close> of \<open>hyper_util\<close> has ended, given the watched connections that are still open, is
  the parameter \<open>drained\<close>. Its documentation says: when all of them have closed.
\<close>

definition settle :: "(nat list \<Rightarrow> bool) \<Rightarrow> unix_server \<Rightarrow> unix_server" where
  "settle drained u = (if us_phase u = Draining \<and> drained (us_open u) then u\<lparr>us_phase := Returned\<rparr> else u)"

fun serve_step :: "(nat list \<Rightarrow> bool) \<Rightarrow> serve_event \<Rightarrow> unix_server \<Rightarrow> unix_server" where
  "serve_step drained (Accepted c) u = (if us_phase u = Accepting then u\<lparr>us_open := us_open u @ [c]\<rparr> else u)"
| "serve_step drained AcceptFailed u = u"
| "serve_step drained (Finished c) u = settle drained (u\<lparr>us_open := remove1 c (us_open u)\<rparr>)"
| "serve_step drained Signalled u = (if us_phase u = Accepting then settle drained (u\<lparr>us_phase := Draining\<rparr>) else u)"

definition serve_run :: "(nat list \<Rightarrow> bool) \<Rightarrow> serve_event list \<Rightarrow> unix_server \<Rightarrow> unix_server" where
  "serve_run drained evs u = fold (serve_step drained) evs u"

abbreviation all_closed :: "nat list \<Rightarrow> bool" where
  "all_closed \<equiv> \<lambda>conns. conns = []"

text \<open>The connections accepted before the first signal, and the finished ones.\<close>

fun accepted_before :: "serve_event list \<Rightarrow> nat list" where
  "accepted_before [] = []"
| "accepted_before (Signalled # evs) = []"
| "accepted_before (Accepted c # evs) = c # accepted_before evs"
| "accepted_before (e # evs) = accepted_before evs"

definition finished_in :: "serve_event list \<Rightarrow> nat list" where
  "finished_in evs = List.map_filter (\<lambda>e. case e of Finished c \<Rightarrow> Some c | _ \<Rightarrow> None) evs"

definition serve_ok :: "serve_event list \<Rightarrow> unix_server \<Rightarrow> bool" where
  "serve_ok evs u \<longleftrightarrow>
     mset (accepted_before evs) \<subseteq># mset (finished_in evs) + mset (us_open u) \<and>
     (us_phase u = Accepting \<longleftrightarrow> Signalled \<notin> set evs) \<and> (us_phase u = Returned \<longrightarrow> us_open u = []) \<and>
     (us_phase u = Draining \<longrightarrow> us_open u \<noteq> [])"

abbreviation demo_net :: net_answers where
  "demo_net \<equiv> \<lparr>na_socket = True, na_reuseaddr = True, na_reuseport = True, na_bind = (\<lambda>a. True), na_listen = True\<rparr>"

abbreviation demo_build :: build_info where
  "demo_build \<equiv> \<lparr>bi_version = ''0.1.0'', bi_commit = None, bi_branch = None, bi_rustc = None\<rparr>"

abbreviation demo_load :: "load_error + config" where
  "demo_load \<equiv> load (\<lambda>_. Some []) (\<lambda>_. []) (\<lambda>_. None) (\<lambda>_. Some demo_config) []"

section \<open>Command line and files\<close>

text \<open>The thread count is read from the file as it stands, so one that parses only after expansion is not seen.\<close>

theorem unexpanded_worker_threads_ignored:
  assumes "rd path = Some raw" "peek raw = None"
    and "load rd scan env toml path = Inr cfg" "sc_worker_threads (cfg_server cfg) = Some n"
  shows "cli_main rd peek \<lparr>cli_config = path, cli_command = None\<rparr> = Some (RunCommand, None)"
  using assms(1,2) by (simp add: cli_main_def peek_worker_threads_def unwrap_or_def)

text \<open>Without references in the file the early look gives the runtime the thread count that \<open>load\<close> will report.\<close>

theorem worker_threads_honoured:
  assumes "cli_command ca = None \<or> cli_command ca = Some RunCommand"
    and "rd (cli_config ca) = Some raw" "scan raw = [Lit raw]" "parse raw = Some (TTable t)"
    and "\<And>v. map_of t ''server'' = Some v \<Longrightarrow> \<exists>t'. v = TTable t'"
    and "load rd scan env (config_from_str c parse) (cli_config ca) = Inr cfg"
    and "sc_worker_threads (cfg_server cfg) \<noteq> Some 0"
  shows "cli_main rd (\<lambda>s. Option.bind (parse s) (de_peek c)) ca = Some (RunCommand, sc_worker_threads (cfg_server cfg))"
proof -
  have "de_config c (TTable t) = Some cfg"
    using assms(2,3,4,6)
    by (auto simp: load_def expand_env_vars_with_def config_from_str_def Let_def split: option.splits sum.splits)
  from peek_agrees[OF this] assms(5)
  have "de_peek c (TTable t) = Some (sc_worker_threads (cfg_server cfg))" by blast
  with assms(1,2,4,7) show ?thesis by (auto simp: cli_main_def peek_worker_threads_def unwrap_or_def)
qed

text \<open>Two settings that validation accepts and that stop the process with a panic.\<close>

theorem valid_settings_that_panic:
  "valid_config (cfg\<lparr>cfg_server := (cfg_server cfg)\<lparr>sc_worker_threads := Some 0\<rparr>\<rparr>) = valid_config cfg"
  "valid_config cfg \<Longrightarrow> cfg_reporting cfg = Some rc \<Longrightarrow>
     valid_config (cfg\<lparr>cfg_reporting := Some (rc\<lparr>rp_buffer_size := 0\<rparr>)\<rparr>)"
  "rd path = Some raw \<Longrightarrow> peek raw = Some (Some 0) \<Longrightarrow> cli_main rd peek \<lparr>cli_config = path, cli_command = None\<rparr> = None"
  "cfg_reporting cfg = Some rc \<Longrightarrow> rp_buffer_size rc = 0 \<Longrightarrow> build_reporter True now_ms cfg = Inl ReporterPanic"
  by (auto simp: valid_config_def cli_main_def peek_worker_threads_def build_reporter_def)

theorem init_never_overwrites:
  "fs q \<noteq> None \<Longrightarrow> snd (init_command example ok path fs) q = fs q"
  by (auto simp: init_command_def)

text \<open>Whatever file the listen path names is removed, a stale socket or not.\<close>

theorem unix_listen_removes_any_file:
  "fs path = Some (RegularFile content) \<Longrightarrow> unix_listen True path fs = (True, fs(path \<mapsto> SocketFile))"
  by (simp add: unix_listen_def remove_file_def)

lemma unix_listen_frame: "q \<noteq> path \<Longrightarrow> snd (unix_listen ok path fs) q = fs q"
  by (auto simp: unix_listen_def remove_file_def Let_def)

theorem nofile_limit_raised:
  assumes "cur \<le> hard"
  shows "\<exists>cur' w. raise_nofile_limit (Some (cur, hard)) ok = (Some (cur', hard), w) \<and> cur \<le> cur' \<and> cur' \<le> hard \<and>
    (w \<or> 65535 \<le> cur' \<or> cur' = hard) \<and> (w \<longrightarrow> cur' = cur)"
proof (cases "cur < 65535 \<and> ok")
  case True
  then have "raise_nofile_limit (Some (cur, hard)) ok = (Some (min hard 65535, hard), False)"
    by (simp add: raise_nofile_limit_def Let_def)
  moreover have "cur \<le> min hard 65535" using True assms by (simp add: less_imp_le)
  moreover have "65535 \<le> min hard 65535 \<or> min hard 65535 = hard" by (cases "hard \<le> 65535") (simp_all add: min_def)
  ultimately show ?thesis by auto
next
  case False
  then have "raise_nofile_limit (Some (cur, hard)) ok = (Some (cur, hard), cur < 65535)"
    by (simp add: raise_nofile_limit_def Let_def)
  then show ?thesis using assms le_less_linear[of 65535 cur] by auto
qed

section \<open>Starting up\<close>

lemma remote_starts:
  "build_reporter ok now_ms cfg = Inr rep \<Longrightarrow> reporter_ok rep \<and> reporter_quiet rep"
  by (auto simp: build_reporter_def remote_new_def quiet_def agg_ok_def aggregator_new_def split: option.splits if_splits)

lemma valid_hist_room: "valid_config cfg \<Longrightarrow> hist_room (proxy_new now now_ms mt cfg rep)"
  by (cases "cfg_historical cfg")
    (auto simp: hist_room_def proxy_new_def Let_def valid_config_def valid_historical_def word_gt_0 unat_gt_0)

text \<open>C33. When run has started, its state is a start state of the process model for the loaded
configuration, ready for shutdown, its listeners are bound to the configured addresses, and the file
system has changed only at the path of a unix socket.\<close>

theorem run_starts_sound:
  assumes "run_start parse_addr na_metrics na_proxy unix_ok client_ok now now_ms b (load rd scan env toml path) fs = (Inr rn, fs')"
  shows "\<exists>cfg. load rd scan env toml path = Inr cfg \<and> ps_config (rn_state rn) = cfg \<and>
    runs parse base58 base64 hashers (rn_state rn, [], mtime) \<and> unflushed (rn_state rn) \<and> hist_room (rn_state rn) \<and>
    parse_addr (sc_metrics_listen (cfg_server cfg)) = Some (tl_addr (rn_metrics rn)) \<and>
    (case rn_listener rn of
       UnixSocket p \<Rightarrow> is_unix_path p \<and> p = sc_listen (cfg_server cfg) \<and> fs' = fs(p \<mapsto> SocketFile)
     | TcpListener l \<Rightarrow> parse_addr (sc_listen (cfg_server cfg)) = Some (tl_addr l) \<and> fs' = fs)"
proof -
  obtain cfg where cfg: "load rd scan env toml path = Inr cfg"
    using assms by (auto simp: run_start_def split: sum.splits)
  obtain rep where rep: "build_reporter client_ok now_ms cfg = Inr rep"
    using assms cfg by (auto simp: run_start_def Let_def split: sum.splits)
  have st: "rn_state rn = proxy_new now now_ms (metrics_new (bi_version b) (bi_commit b) (bi_branch b) (bi_rustc b)) cfg rep"
    using assms cfg rep by (auto simp: run_start_def Let_def split: sum.splits if_splits prod.splits)
  have ml: "parse_addr (sc_metrics_listen (cfg_server cfg)) = Some (tl_addr (rn_metrics rn))"
    using assms cfg rep
    by (auto simp: run_start_def tcp_listen_def Let_def split: sum.splits if_splits prod.splits option.splits)
  have l: "case rn_listener rn of
       UnixSocket p \<Rightarrow> is_unix_path p \<and> p = sc_listen (cfg_server cfg) \<and> fs' = fs(p \<mapsto> SocketFile)
     | TcpListener l \<Rightarrow> parse_addr (sc_listen (cfg_server cfg)) = Some (tl_addr l) \<and> fs' = fs"
    using assms cfg rep
    by (auto simp: run_start_def tcp_listen_def unix_listen_def remove_file_def Let_def
        split: sum.splits if_splits prod.splits option.splits)
  have "runs parse base58 base64 hashers (rn_state rn, [], mtime)"
    unfolding st using cfg remote_starts[OF rep] by (intro runs.start) auto
  moreover have "unflushed (rn_state rn)" unfolding st using remote_starts[OF rep] by (intro unflushed_new) simp
  moreover have "hist_room (rn_state rn)" unfolding st by (rule valid_hist_room[OF load_valid[OF cfg]])
  moreover have "ps_config (rn_state rn) = cfg" by (simp add: st proxy_new_def Let_def)
  ultimately show ?thesis using cfg ml l by blast
qed

section \<open>Serving a unix socket\<close>

lemma accepted_before_snoc:
  "accepted_before (evs @ [e]) = accepted_before evs @
     (if Signalled \<in> set evs then [] else case e of Accepted c \<Rightarrow> [c] | _ \<Rightarrow> [])"
  by (induction evs rule: accepted_before.induct) (auto split: serve_event.split)

lemma finished_in_snoc: "finished_in (evs @ [e]) = finished_in evs @ (case e of Finished c \<Rightarrow> [c] | _ \<Rightarrow> [])"
  by (auto simp: finished_in_def map_filter_def split: serve_event.split)

lemma serve_step_ok:
  assumes "serve_ok evs u"
  shows "serve_ok (evs @ [e]) (serve_step all_closed e u)"
proof (cases e)
  case (Accepted c)
  have "mset (accepted_before evs) + {#c#} \<subseteq># mset (finished_in evs) + (mset (us_open u) + {#c#})"
    using assms by (simp add: serve_ok_def)
  with assms Accepted show ?thesis by (auto simp: serve_ok_def accepted_before_snoc finished_in_snoc)
next
  case (Finished c)
  have "mset (us_open u) \<subseteq># add_mset c (mset (remove1 c (us_open u)))"
    by (cases "c \<in># mset (us_open u)") (simp_all add: insert_DiffM diff_single_trivial)
  then have "mset (accepted_before evs) \<subseteq># mset (finished_in evs) + add_mset c (mset (remove1 c (us_open u)))"
    using assms unfolding serve_ok_def by (meson mset_subset_eq_mono_add_left_cancel subset_mset.order_trans)
  moreover have "us_phase u = Returned \<Longrightarrow> remove1 c (us_open u) = []" using assms by (simp add: serve_ok_def)
  ultimately show ?thesis using assms Finished
    by (cases "us_phase u")
      (auto simp: serve_ok_def settle_def accepted_before_snoc finished_in_snoc simp del: mset_remove1)
qed (use assms in \<open>auto simp: serve_ok_def settle_def accepted_before_snoc finished_in_snoc\<close>)

lemma serve_run_ok: "serve_ok evs (serve_run all_closed evs serve_unix_new)"
proof (induction evs rule: rev_induct)
  case Nil
  then show ?case by (simp add: serve_ok_def serve_run_def serve_unix_new_def finished_in_def map_filter_simps)
next
  case (snoc e evs)
  then show ?case using serve_step_ok[OF snoc] by (simp add: serve_run_def)
qed

text \<open>C34. serve_unix returns only after a signal, and only when every connection accepted before it has
finished, if the graceful shutdown of hyper_util ends, as documented, exactly when the connections
it watches have closed.\<close>

theorem unix_server_drains:
  assumes "\<And>conns. drained conns \<longleftrightarrow> conns = []"
    and "us_phase (serve_run drained evs serve_unix_new) = Returned"
  shows "Signalled \<in> set evs \<and> mset (accepted_before evs) \<subseteq># mset (finished_in evs)"
proof -
  have "drained = all_closed" using assms(1) by blast
  then show ?thesis using assms(2) serve_run_ok[of evs] by (auto simp: serve_ok_def)
qed

lemma finishing_all:
  "us_phase u = Draining \<Longrightarrow> us_open u \<noteq> [] \<Longrightarrow> us_phase (serve_run all_closed (map Finished (us_open u)) u) = Returned"
proof (induction "us_open u" arbitrary: u)
  case (Cons c cs)
  let ?u = "serve_step all_closed (Finished c) u"
  have o: "us_open u = c # cs" using Cons(2) by simp
  then have run: "serve_run all_closed (map Finished (us_open u)) u = serve_run all_closed (map Finished cs) ?u" by (simp add: serve_run_def)
  show ?case
  proof (cases cs)
    case Nil
    then show ?thesis using o Cons(3) by (simp add: serve_run_def settle_def)
  next
    case (Cons d ds)
    then have "us_open ?u = cs" "us_phase ?u = Draining" using o Cons.prems(1) by (simp_all add: settle_def)
    with Cons.hyps(1)[of ?u] Cons show ?thesis unfolding run by simp
  qed
qed simp

theorem unix_server_returns:
  assumes "\<And>conns. drained conns \<longleftrightarrow> conns = []" "Signalled \<in> set evs"
  shows "us_phase (serve_run drained (evs @ map Finished (us_open (serve_run drained evs serve_unix_new))) serve_unix_new) = Returned"
proof -
  let ?u = "serve_run all_closed evs serve_unix_new"
  have d: "drained = all_closed" using assms(1) by blast
  have run: "serve_run all_closed (evs @ es) serve_unix_new = serve_run all_closed es ?u" for es by (simp add: serve_run_def)
  have "serve_ok evs ?u" by (rule serve_run_ok)
  with assms(2) finishing_all[of ?u] show ?thesis
    unfolding d run by (cases "us_phase ?u") (auto simp: serve_ok_def serve_run_def)
qed

section \<open>Instances\<close>

theorem run_starts_sound_witness:
  "\<exists>rn. run_start (\<lambda>_. Some (SockV4 0 9400)) demo_net demo_net True True 0 0 demo_build demo_load (\<lambda>_. None) = (Inr rn, \<lambda>_. None) \<and>
     runs demo_parse (\<lambda>_. None) (\<lambda>_. None) demo_hashers (rn_state rn, [], None) \<and> unflushed (rn_state rn)"
proof -
  have "demo_load = Inr demo_config" using demo_validates(1) by (simp add: load_def)
  then have "\<exists>rn. run_start (\<lambda>_. Some (SockV4 0 9400)) demo_net demo_net True True 0 0 demo_build demo_load (\<lambda>_. None) = (Inr rn, \<lambda>_. None)"
    by (simp add: run_start_def build_reporter_def tcp_listen_def demo_config_def default_server_def is_unix_path_def Let_def)
  then obtain rn where rn: "run_start (\<lambda>_. Some (SockV4 0 9400)) demo_net demo_net True True 0 0 demo_build demo_load (\<lambda>_. None) = (Inr rn, \<lambda>_. None)" ..
  from run_starts_sound[OF rn, of demo_parse "\<lambda>_. None" "\<lambda>_. None" demo_hashers None] rn show ?thesis by auto
qed

theorem unix_server_drains_witness:
  "mset (accepted_before [Accepted 1, AcceptFailed, Accepted 2, Finished 1, Signalled, Accepted 3, Finished 2])
     \<subseteq># mset (finished_in [Accepted 1, AcceptFailed, Accepted 2, Finished 1, Signalled, Accepted 3, Finished 2])"
  using unix_server_drains[of all_closed "[Accepted 1, AcceptFailed, Accepted 2, Finished 1, Signalled, Accepted 3, Finished 2]"]
  by (simp add: serve_run_def serve_unix_new_def settle_def)

theorem unix_server_returns_witness:
  "us_phase (serve_run all_closed ([Accepted 1, Accepted 2, Signalled] @
     map Finished (us_open (serve_run all_closed [Accepted 1, Accepted 2, Signalled] serve_unix_new))) serve_unix_new) = Returned"
  by (rule unix_server_returns) simp_all

theorem unexpanded_worker_threads_ignored_witness:
  "cli_main (\<lambda>_. Some ''worker_threads = ${N}'') (\<lambda>_. None) \<lparr>cli_config = ''p'', cli_command = None\<rparr> = Some (RunCommand, None)"
proof (rule unexpanded_worker_threads_ignored)
  let ?cfg = "demo_config\<lparr>cfg_server := default_server\<lparr>sc_worker_threads := Some 4\<rparr>\<rparr>"
  show "load (\<lambda>_. Some ''worker_threads = ${N}'') (\<lambda>_. []) (\<lambda>_. None) (\<lambda>_. Some ?cfg) ''p'' = Inr ?cfg"
    using demo_validates(1) by (simp add: load_def validate_def validate_routing_def validate_historical_def demo_config_def ensure_def)
qed simp_all

end
