(* ===== verification/Status.thy ===== *)
theory Status
  imports Reload "HOL-Library.Countable"
begin

text \<open>
  The JSON document of \<open>/health\<close> (\<open>proxy.rs\<close>) and the \<open>status\<close> command (\<open>main.rs\<close>) that fetches it and prints a
  table. How \<open>serde_json\<close> prints and reads a double is a pair of parameters. The theorem says that the rows of the
  table are those of the monitor's snapshots.
\<close>

section \<open>The JSON of /health\<close>

text \<open>\<open>json!\<close> on a double: a number printed by \<open>show\<close>, and null for a value that is not finite.\<close>

definition json_f64 :: "(rat \<Rightarrow> string) \<Rightarrow> f64 \<Rightarrow> json" where
  "json_f64 show x = (case x of Fin a \<Rightarrow> JFloat (show a) | _ \<Rightarrow> JNull)"

definition json_u64 :: "u64 \<Rightarrow> json" where
  "json_u64 n = JInt (uint n)"

definition json_option :: "('a \<Rightarrow> json) \<Rightarrow> 'a option \<Rightarrow> json" where
  "json_option f x = (case x of None \<Rightarrow> JNull | Some v \<Rightarrow> f v)"

definition json_text :: "string \<Rightarrow> json" where
  "json_text s = JStr False s"

definition commitment_json :: "commitment_health \<Rightarrow> json" where
  "commitment_json c =
     JObj [(''slot'', json_option json_u64 (ch_slot c)), (''drift'', json_u64 (ch_drift c)),
       (''is_drifting'', JBool (ch_is_drifting c))]"

definition report_json :: "(rat \<Rightarrow> string) \<Rightarrow> health_report \<Rightarrow> json" where
  "report_json show r =
     (let s = hr_snapshot r in
      JObj [(''name'', json_text (hs_name s)),
        (''score'', json_f64 show (hr_score r)),
        (''slot'', json_option json_u64 (hs_slot_height s)),
        (''slot_drift'', json_u64 (hs_slot_drift s)),
        (''is_drifting'', JBool (hs_is_drifting s)),
        (''latency_ms'', json_f64 show (hr_latency_ms r)),
        (''error_rate'', json_f64 show (hr_error_rate r)),
        (''circuit'', json_text (hr_circuit r)),
        (''available'', JBool (hr_available r)),
        (''rate_limited'', JBool (hs_rate_limited s)),
        (''commitments'', JObj
          [(''processed'', commitment_json (hs_processed s)),
           (''confirmed'', commitment_json (hs_confirmed s)),
           (''finalized'', commitment_json (hs_finalized s))])])"

definition reference_json :: "commitment_slots \<Rightarrow> json" where
  "reference_json s =
     JObj [(''processed'', json_option json_u64 (cs_get s Processed)),
       (''confirmed'', json_option json_u64 (cs_get s Confirmed)),
       (''finalized'', json_option json_u64 (cs_get s Finalized))]"

definition health_json :: "string \<Rightarrow> (rat \<Rightarrow> string) \<Rightarrow> health_report list \<times> commitment_slots option \<Rightarrow> json" where
  "health_json version show h =
     JObj [(''status'', json_text ''ok''), (''version'', json_text version),
       (''providers'', JArr (map (report_json show) (fst h))),
       (''reference'', json_option reference_json (snd h))]"

section \<open>The status command\<close>

text \<open>\<open>value["key"]\<close> and the conversions of \<open>serde_json::Value\<close>; \<open>read\<close> gives the double of a printed number.\<close>

definition json_index :: "json \<Rightarrow> string \<Rightarrow> json" where
  "json_index j k = unwrap_or (json_get k j) JNull"

fun json_as_f64 :: "(string \<Rightarrow> f64) \<Rightarrow> json \<Rightarrow> f64 option" where
  "json_as_f64 read (JInt n) = Some (rnd (of_int n))"
| "json_as_f64 read (JFloat t) = Some (read t)"
| "json_as_f64 read j = None"

text \<open>\<open>{:.k}\<close>: correctly rounded from the exact value, ties to even.\<close>

definition fixed_digits :: "nat \<Rightarrow> nat \<Rightarrow> string" where
  "fixed_digits k n =
     nat_text (n div 10 ^ k) @ ''.'' @
     (let d = nat_text (n mod 10 ^ k) in replicate (k - length d) CHR ''0'' @ d)"

fun fixed_text :: "nat \<Rightarrow> f64 \<Rightarrow> string" where
  "fixed_text k NaN = ''NaN''"
| "fixed_text k PInf = ''inf''"
| "fixed_text k NInf = ''-inf''"
| "fixed_text k (Fin a) = (if a < 0 then ''-'' else []) @ fixed_digits k (nat (round_half_even (\<bar>a\<bar> * 10 ^ k)))"

text \<open>Padding counts characters, that is, bytes that do not continue one.\<close>

definition char_count :: "string \<Rightarrow> nat" where
  "char_count s = length (filter (\<lambda>c. \<not> (128 \<le> (of_char c :: nat) \<and> (of_char c :: nat) < 192)) s)"

definition pad_right :: "nat \<Rightarrow> string \<Rightarrow> string" where
  "pad_right w s = s @ replicate (w - char_count s) CHR '' ''"

definition pad_left :: "nat \<Rightarrow> string \<Rightarrow> string" where
  "pad_left w s = replicate (w - char_count s) CHR '' '' @ s"

text \<open>The em dash in UTF-8.\<close>

definition em_dash :: string where
  "em_dash = [char_of (226 :: nat), char_of (128 :: nat), char_of (148 :: nat)]"

record status_row =
  sr_name :: string
  sr_score :: f64
  sr_slot :: string
  sr_drift :: u64
  sr_latency :: string
  sr_circuit :: string

definition slot_text :: "u64 \<Rightarrow> string" where
  "slot_text slot = (if slot = 0 then em_dash else nat_text (unat slot))"

definition latency_text :: "f64 \<Rightarrow> string" where
  "latency_text latency = (if f64_eq latency (Fin 0) then em_dash else fixed_text 1 latency @ ''ms'')"

definition row_of_json :: "(string \<Rightarrow> f64) \<Rightarrow> json \<Rightarrow> status_row" where
  "row_of_json read p =
     \<lparr>sr_name = unwrap_or (json_as_str (json_index p ''name'')) ''?'',
      sr_score = unwrap_or (json_as_f64 read (json_index p ''score'')) (Fin 0),
      sr_slot = slot_text (unwrap_or (json_as_u64 (json_index p ''slot'')) 0),
      sr_drift = unwrap_or (json_as_u64 (json_index p ''slot_drift'')) 0,
      sr_latency = latency_text (unwrap_or (json_as_f64 read (json_index p ''latency_ms'')) (Fin 0)),
      sr_circuit = unwrap_or (json_as_str (json_index p ''circuit'')) ''?''\<rparr>"

definition name_width :: "json list \<Rightarrow> nat" where
  "name_width providers =
     (let lens = map length (List.map_filter (\<lambda>p. json_as_str (json_index p ''name'')) providers)
      in max (if lens = [] then 4 else fold max lens 0) 4)"

definition row_line :: "nat \<Rightarrow> status_row \<Rightarrow> string" where
  "row_line w r =
     ''  '' @ pad_right w (sr_name r) @ ''  '' @ pad_left 6 (fixed_text 3 (sr_score r)) @ ''  '' @
     pad_left 12 (sr_slot r) @ ''  '' @ pad_left 6 (nat_text (unat (sr_drift r))) @ ''  '' @
     pad_left 10 (sr_latency r) @ ''  '' @ sr_circuit r"

definition heading_lines :: "nat \<Rightarrow> string list" where
  "heading_lines w =
     [''  '' @ pad_right w ''NAME'' @ ''  '' @ pad_left 6 ''SCORE'' @ ''  '' @ pad_left 12 ''SLOT'' @ ''  '' @
        pad_left 6 ''DRIFT'' @ ''  '' @ pad_left 10 ''LATENCY'' @ ''  CIRCUIT'',
      ''  '' @ pad_right w (replicate w CHR ''-'') @ ''  '' @ pad_left 6 ''------'' @ ''  '' @
        pad_left 12 ''------------'' @ ''  '' @ pad_left 6 ''------'' @ ''  '' @ pad_left 10 ''----------'' @ ''  -------'']"

definition status_providers :: "json \<Rightarrow> json list" where
  "status_providers body = unwrap_or (json_as_array (json_index body ''providers'')) []"

definition status_lines :: "(string \<Rightarrow> f64) \<Rightarrow> json \<Rightarrow> string list" where
  "status_lines read body =
     (let version = unwrap_or (json_as_str (json_index body ''version'')) ''unknown'';
          providers = status_providers body;
          w = name_width providers
      in (''RPC Plane v'' @ version @ '' '' @ em_dash @ '' '' @ nat_text (length providers) @ '' provider(s)'') # [] #
         (if providers = [] then [''No providers configured.'']
          else heading_lines w @ map (\<lambda>p. row_line w (row_of_json read p)) providers))"

datatype status_error = StatusConfig load_error | Unreachable string | NotJson

text \<open>\<open>get\<close> is the HTTP client: an error, or the reply's body if it is JSON.\<close>

definition status_command ::
  "(string \<Rightarrow> f64) \<Rightarrow> (string \<Rightarrow> string + json option) \<Rightarrow> load_error + config \<Rightarrow> status_error + string list" where
  "status_command read get loaded =
     (case loaded of
        Inl e \<Rightarrow> Inl (StatusConfig e)
      | Inr cfg \<Rightarrow>
          (let listen = sc_listen (cfg_server cfg) in
           if is_unix_path listen then
             Inr [''Proxy is listening on a unix socket. To check health:'',
                  ''  curl --unix-socket '' @ listen @ '' http://localhost/health | jq'']
           else case get (''http://'' @ listen @ ''/health'') of
               Inl e \<Rightarrow> Inl (Unreachable e)
             | Inr None \<Rightarrow> Inl NotJson
             | Inr (Some body) \<Rightarrow> Inr (status_lines read body)))"

text \<open>
  What a row says of a snapshot. The two doubles are what the reader makes of their printed text: \<open>serde_json\<close> is
  built without \<open>float_roundtrip\<close>, so nothing is claimed of the last digits.
\<close>

definition reread :: "(string \<Rightarrow> f64) \<Rightarrow> (rat \<Rightarrow> string) \<Rightarrow> f64 \<Rightarrow> f64" where
  "reread read show x = (case x of Fin a \<Rightarrow> read (show a) | _ \<Rightarrow> Fin 0)"

definition row_of_snapshot :: "(string \<Rightarrow> f64) \<Rightarrow> (rat \<Rightarrow> string) \<Rightarrow> health_snapshot \<Rightarrow> status_row" where
  "row_of_snapshot read show s =
     \<lparr>sr_name = hs_name s, sr_score = reread read show (round_to 1000 (hs_score s)),
      sr_slot = slot_text (unwrap_or (hs_slot_height s) 0), sr_drift = hs_slot_drift s,
      sr_latency = latency_text (reread read show (round_to 10 (hs_latency_ms s))), sr_circuit = circuit_text (hs_circuit s)\<rparr>"

section \<open>The status command shows what the monitor reports\<close>

lemma json_index_obj: "distinct (map fst ms) \<Longrightarrow> json_index (JObj ms) k = unwrap_or (map_of ms k) JNull"
proof -
  assume "distinct (map fst ms)"
  then have "map_of (rev ms) = map_of ms" by (subst map_of_inject_set) (simp_all flip: rev_map)
  then show ?thesis by (simp add: json_index_def json_get_def)
qed

lemma json_u64_back [simp]: "json_as_u64 (json_u64 n) = Some n"
  using uint_bounded[of n] by (simp add: json_as_u64_def de_u64_def json_u64_def)

lemma json_option_u64_back: "unwrap_or (json_as_u64 (json_option json_u64 x)) 0 = unwrap_or x 0"
proof (cases x)
  case None
  then show ?thesis by (simp add: json_option_def json_as_u64_def de_u64_def unwrap_or_def)
qed (simp add: json_option_def unwrap_or_def)

lemma json_f64_back: "unwrap_or (json_as_f64 read (json_f64 show x)) (Fin 0) = reread read show x"
  by (cases x) (simp_all add: json_f64_def unwrap_or_def reread_def)

lemma json_text_back [simp]: "json_as_str (json_text s) = Some s"
  by (simp add: json_text_def json_as_str_def)

lemma report_members:
  "json_index (report_json show r) ''name'' = json_text (hs_name (hr_snapshot r))"
  "json_index (report_json show r) ''score'' = json_f64 show (hr_score r)"
  "json_index (report_json show r) ''slot'' = json_option json_u64 (hs_slot_height (hr_snapshot r))"
  "json_index (report_json show r) ''slot_drift'' = json_u64 (hs_slot_drift (hr_snapshot r))"
  "json_index (report_json show r) ''latency_ms'' = json_f64 show (hr_latency_ms r)"
  "json_index (report_json show r) ''circuit'' = json_text (hr_circuit r)"
  by (simp_all add: report_json_def Let_def json_index_obj unwrap_or_def)

lemma health_members:
  "json_index (health_json version show h) ''version'' = json_text version"
  "status_providers (health_json version show h) = map (report_json show) (fst h)"
  by (simp_all add: health_json_def status_providers_def json_index_obj unwrap_or_def json_as_array_def)

lemma unwrap_Some [simp]: "unwrap_or (Some x) y = x"
  by (simp add: unwrap_or_def)

lemma row_of_report: "row_of_json read (report_json show (report_of s)) = row_of_snapshot read show s"
  by (simp add: row_of_json_def row_of_snapshot_def report_members json_f64_back json_option_u64_back report_of_def)

text \<open>C35. The rows of the table that status prints are those of the snapshots behind /health, in their
order: name, slot, drift and circuit are the snapshot's, and score and latency are what the reader
of JSON numbers makes of the printed rounded values (serde_json is built without exact float round
trip, so nothing is assumed of it).\<close>

theorem status_shows_health:
  assumes "handle_health now s = (h, s')"
  shows "map (row_of_json read) (status_providers (health_json version show h)) =
    map (row_of_snapshot read show) (fst (snapshots now (ps_monitor s)))"
proof -
  have "fst h = map report_of (fst (snapshots now (ps_monitor s)))"
    using assms by (auto simp: handle_health_def case_prod_beta)
  then show ?thesis by (simp add: health_members row_of_report)
qed

text \<open>A row is as wide as its columns: nothing that fits is cut or shifted.\<close>

lemma char_count_append [simp]: "char_count (xs @ ys) = char_count xs + char_count ys"
  by (simp add: char_count_def)

lemma char_count_spaces [simp]: "char_count (replicate n CHR '' '') = n"
  by (induction n) (simp_all add: char_count_def)

lemma pad_width: "char_count (pad_left w s) = max w (char_count s)" "char_count (pad_right w s) = max w (char_count s)"
  by (simp_all add: pad_left_def pad_right_def max_def)

section \<open>An instance\<close>

theorem status_shows_health_witness:
  "map (row_of_json (\<lambda>t. Fin (from_nat (length t))))
     (status_providers (health_json ''1.0'' (\<lambda>a. replicate (to_nat a) CHR ''x'') (fst (handle_health 0 demo_state)))) =
   map (row_of_snapshot (\<lambda>t. Fin (from_nat (length t))) (\<lambda>a. replicate (to_nat a) CHR ''x''))
     (fst (snapshots 0 (ps_monitor demo_state)))"
  by (rule status_shows_health[OF prod.collapse[symmetric]])

lemma status_text_examples:
  "fixed_text 3 (Fin (1 / 8)) = ''0.125''" "fixed_text 1 (Fin (5 / 4)) = ''1.2''"
  "pad_left 10 em_dash = ''         '' @ em_dash" "slot_text 0 = em_dash"
  by code_simp+

end
