(* ===== verification/Wire.thy ===== *)
theory Wire
  imports Status "HOL-Library.Monad_Syntax"
begin

text \<open>
  The JSON form of a telemetry event that serde derives from \<open>TelemetryEvent\<close> (\<open>telemetry.rs\<close>): the tagged writer, the
  reader, and the request that \<open>send_batch\<close> uploads. The lemmas read every variant back field by field; with the
  delivery lemma of the reporter they give what an endpoint receives over a whole run.
\<close>

section \<open>Events as JSON\<close>

definition json_u32 :: "u32 \<Rightarrow> json" where
  "json_u32 n = JInt (uint n)"

definition json_u64s :: "u64 list \<Rightarrow> json" where
  "json_u64s xs = JArr (map json_u64 xs)"

definition request_aggregate_fields :: "(rat \<Rightarrow> string) \<Rightarrow> request_aggregate \<Rightarrow> (string \<times> json) list" where
  "request_aggregate_fields show a =
     [(''window_start_ms'', json_u64 (ra_window_start_ms a)), (''window_end_ms'', json_u64 (ra_window_end_ms a)),
      (''method'', json_text (ra_method a)), (''provider'', json_text (ra_provider a)),
      (''status'', json_text (ra_status a)), (''count'', json_u64 (ra_count a)),
      (''latency_p50_ms'', json_f64 show (ra_latency_p50_ms a)),
      (''latency_p95_ms'', json_f64 show (ra_latency_p95_ms a)),
      (''latency_p99_ms'', json_f64 show (ra_latency_p99_ms a)),
      (''latency_avg_ms'', json_f64 show (ra_latency_avg_ms a))]"

definition transaction_submit_fields :: "transaction_submit \<Rightarrow> (string \<times> json) list" where
  "transaction_submit_fields a =
     [(''window_start_ms'', json_u64 (ts_window_start_ms a)), (''window_end_ms'', json_u64 (ts_window_end_ms a)),
      (''provider'', json_text (ts_provider a)), (''accepted_count'', json_u64 (ts_accepted_count a)),
      (''rejected_count'', json_u64 (ts_rejected_count a)), (''parsed_count'', json_u64 (ts_parsed_count a)),
      (''unparsed_count'', json_u64 (ts_unparsed_count a)),
      (''unsupported_count'', json_u64 (ts_unsupported_count a)),
      (''invalid_budget_count'', json_u64 (ts_invalid_budget_count a)),
      (''batch_unsupported_count'', json_u64 (ts_batch_unsupported_count a)),
      (''decode_queue_drop_count'', json_u64 (ts_decode_queue_drop_count a)),
      (''fee_sample_count'', json_u64 (ts_fee_sample_count a)), (''cu_limit_p50'', json_u64 (ts_cu_limit_p50 a)),
      (''cu_limit_p90'', json_u64 (ts_cu_limit_p90 a)), (''cu_limit_p95'', json_u64 (ts_cu_limit_p95 a)),
      (''cu_price_micro_lamports_p50'', json_u64 (ts_cu_price_micro_lamports_p50 a)),
      (''cu_price_micro_lamports_p90'', json_u64 (ts_cu_price_micro_lamports_p90 a)),
      (''cu_price_micro_lamports_p95'', json_u64 (ts_cu_price_micro_lamports_p95 a)),
      (''requested_priority_fee_lamports_p50'', json_u64 (ts_requested_priority_fee_lamports_p50 a)),
      (''requested_priority_fee_lamports_p90'', json_u64 (ts_requested_priority_fee_lamports_p90 a)),
      (''requested_priority_fee_lamports_p95'', json_u64 (ts_requested_priority_fee_lamports_p95 a))]"

definition historical_fields :: "historical_aggregate \<Rightarrow> (string \<times> json) list" where
  "historical_fields a =
     [(''schema_version'', json_u32 (hg_schema_version a)),
      (''window_start_ms'', json_u64 (hg_window_start_ms a)), (''window_end_ms'', json_u64 (hg_window_end_ms a)),
      (''commitment'', json_text (hg_commitment a)),
      (''logical_request_count'', json_u64 (hw_logical_request_count (hg_window a))),
      (''analyzed_request_count'', json_u64 (hw_analyzed_request_count (hg_window a))),
      (''found_count'', json_u64 (hw_found_count (hg_window a))),
      (''null_count'', json_u64 (hw_null_count (hg_window a))),
      (''rpc_error_count'', json_u64 (hw_rpc_error_count (hg_window a))),
      (''parse_error_count'', json_u64 (hw_parse_error_count (hg_window a))),
      (''first_observation_found_count'', json_u64 (hw_first_observation_found_count (hg_window a))),
      (''first_observation_null_count'', json_u64 (hw_first_observation_null_count (hg_window a))),
      (''null_repeat_count'', json_u64 (hw_null_repeat_count (hg_window a))),
      (''null_to_found_count'', json_u64 (hw_null_to_found_count (hg_window a))),
      (''found_repeat_count'', json_u64 (hw_found_repeat_count (hg_window a))),
      (''found_to_null_regression_count'', json_u64 (hw_found_to_null_regression_count (hg_window a))),
      (''slot_age_bucket_counts'', json_u64s (hw_slot_age_bucket_counts (hg_window a))),
      (''slot_age_unknown_count'', json_u64 (hw_slot_age_unknown_count (hg_window a))),
      (''slot_age_tip_behind_count'', json_u64 (hw_slot_age_tip_behind_count (hg_window a))),
      (''polls_before_found_bucket_counts'', json_u64s (hw_polls_before_found_bucket_counts (hg_window a))),
      (''time_to_found_bucket_counts'', json_u64s (hw_time_to_found_bucket_counts (hg_window a))),
      (''found_reuse_bucket_counts'', json_u64s (hw_found_reuse_bucket_counts (hg_window a))),
      (''unsupported_batch_count'', json_u64 (hw_unsupported_batch_count (hg_window a))),
      (''queue_full_drop_count'', json_u64 (hg_queue_full_drop_count a)),
      (''byte_budget_exhausted_drop_count'', json_u64 (hg_byte_budget_exhausted_drop_count a)),
      (''oversized_job_drop_count'', json_u64 (hg_oversized_job_drop_count a)),
      (''state_capacity_eviction_count'', json_u64 (hw_state_capacity_eviction_count (hg_window a))),
      (''state_ttl_expiration_count'', json_u64 (hw_state_ttl_expiration_count (hg_window a))),
      (''unresolved_null_capacity_eviction_count'', json_u64 (hw_unresolved_null_capacity_eviction_count (hg_window a))),
      (''unresolved_null_ttl_expiration_count'', json_u64 (hw_unresolved_null_ttl_expiration_count (hg_window a))),
      (''state_reset_count'', json_u64 (hg_state_reset_count a)),
      (''current_state_entries'', json_u64 (hg_current_state_entries a)),
      (''configured_state_capacity'', json_u64 (hg_configured_state_capacity a))]"

text \<open>An event carries its variant in the member \<open>type\<close>; an absent slot height is left out.\<close>

fun event_fields :: "(rat \<Rightarrow> string) \<Rightarrow> telemetry_event \<Rightarrow> string \<times> (string \<times> json) list" where
  "event_fields show (RequestAggregate a) = (''request_aggregate'', request_aggregate_fields show a)"
| "event_fields show (TransactionSubmit a) = (''transaction_submit'', transaction_submit_fields a)"
| "event_fields show (HistoricalGetTransactionAggregate a) =
     (''historical_get_transaction_aggregate'', historical_fields a)"
| "event_fields show (ProviderHealth provider sc height dr cs) =
     (''provider_health'',
      [(''provider'', json_text provider), (''score'', json_f64 show sc)] @
      (case height of None \<Rightarrow> [] | Some h \<Rightarrow> [(''slot_height'', json_u64 h)]) @
      [(''slot_drift'', json_u64 dr), (''circuit_state'', json_text cs)])"
| "event_fields show (Failover from_provider to_provider reason) =
     (''failover'',
      [(''from_provider'', json_text from_provider), (''to_provider'', json_text to_provider), (''reason'', json_text reason)])"
| "event_fields show (Divergence meth providers resolution) =
     (''divergence'',
      [(''method'', json_text meth),
       (''providers'', JArr (map (\<lambda>(p, slot). JArr [json_text p, json_u64 slot]) providers)),
       (''resolution'', json_text resolution)])"

definition event_json :: "(rat \<Rightarrow> string) \<Rightarrow> telemetry_event \<Rightarrow> json" where
  "event_json show e = (case event_fields show e of (variant, ms) \<Rightarrow> JObj ((''type'', json_text variant) # ms))"

section \<open>Reading an event\<close>

text \<open>
  The derived reader of an object: a field is found by its name and occurs once, unknown members are ignored. (The
  derived reader of an array is left out: nothing writes an event as one.)
\<close>

definition de_req :: "string \<Rightarrow> (json \<Rightarrow> 'a option) \<Rightarrow> (string \<times> json) list \<Rightarrow> 'a option" where
  "de_req k f ms = (case filter (\<lambda>m. fst m = k) ms of [m] \<Rightarrow> f (snd m) | _ \<Rightarrow> None)"

definition de_opt :: "string \<Rightarrow> (json \<Rightarrow> 'a option) \<Rightarrow> (string \<times> json) list \<Rightarrow> 'a option option" where
  "de_opt k f ms = (case filter (\<lambda>m. fst m = k) ms of [] \<Rightarrow> Some None | [m] \<Rightarrow> de_option f (snd m) | _ \<Rightarrow> None)"

definition de_u32 :: "json \<Rightarrow> u32 option" where
  "de_u32 j = (case j of JInt n \<Rightarrow> if 0 \<le> n \<and> n < 2 ^ 32 then Some (word_of_int n) else None | _ \<Rightarrow> None)"

text \<open>An array type has a fixed length.\<close>

definition de_u64s :: "nat \<Rightarrow> json \<Rightarrow> u64 list option" where
  "de_u64s n j = (case de_vec de_u64 j of None \<Rightarrow> None | Some xs \<Rightarrow> if length xs = n then Some xs else None)"

definition de_pair :: "json \<Rightarrow> (string \<times> u64) option" where
  "de_pair j = (case j of JArr [p, s] \<Rightarrow> do { p \<leftarrow> json_as_str p; s \<leftarrow> de_u64 s; Some (p, s) } | _ \<Rightarrow> None)"

definition de_request_aggregate :: "(string \<Rightarrow> f64) \<Rightarrow> (string \<times> json) list \<Rightarrow> request_aggregate option" where
  "de_request_aggregate read ms = do {
     x0 \<leftarrow> de_req ''window_start_ms'' de_u64 ms;
     x1 \<leftarrow> de_req ''window_end_ms'' de_u64 ms;
     x2 \<leftarrow> de_req ''method'' json_as_str ms;
     x3 \<leftarrow> de_req ''provider'' json_as_str ms;
     x4 \<leftarrow> de_req ''status'' json_as_str ms;
     x5 \<leftarrow> de_req ''count'' de_u64 ms;
     x6 \<leftarrow> de_req ''latency_p50_ms'' (json_as_f64 read) ms;
     x7 \<leftarrow> de_req ''latency_p95_ms'' (json_as_f64 read) ms;
     x8 \<leftarrow> de_req ''latency_p99_ms'' (json_as_f64 read) ms;
     x9 \<leftarrow> de_req ''latency_avg_ms'' (json_as_f64 read) ms;
     Some \<lparr>ra_window_start_ms = x0, ra_window_end_ms = x1, ra_method = x2, ra_provider = x3, ra_status = x4,
       ra_count = x5, ra_latency_p50_ms = x6, ra_latency_p95_ms = x7, ra_latency_p99_ms = x8,
       ra_latency_avg_ms = x9\<rparr> }"

definition de_transaction_submit :: "(string \<times> json) list \<Rightarrow> transaction_submit option" where
  "de_transaction_submit ms = do {
     x0 \<leftarrow> de_req ''window_start_ms'' de_u64 ms;
     x1 \<leftarrow> de_req ''window_end_ms'' de_u64 ms;
     x2 \<leftarrow> de_req ''provider'' json_as_str ms;
     x3 \<leftarrow> de_req ''accepted_count'' de_u64 ms;
     x4 \<leftarrow> de_req ''rejected_count'' de_u64 ms;
     x5 \<leftarrow> de_req ''parsed_count'' de_u64 ms;
     x6 \<leftarrow> de_req ''unparsed_count'' de_u64 ms;
     x7 \<leftarrow> de_req ''unsupported_count'' de_u64 ms;
     x8 \<leftarrow> de_req ''invalid_budget_count'' de_u64 ms;
     x9 \<leftarrow> de_req ''batch_unsupported_count'' de_u64 ms;
     x10 \<leftarrow> de_req ''decode_queue_drop_count'' de_u64 ms;
     x11 \<leftarrow> de_req ''fee_sample_count'' de_u64 ms;
     x12 \<leftarrow> de_req ''cu_limit_p50'' de_u64 ms;
     x13 \<leftarrow> de_req ''cu_limit_p90'' de_u64 ms;
     x14 \<leftarrow> de_req ''cu_limit_p95'' de_u64 ms;
     x15 \<leftarrow> de_req ''cu_price_micro_lamports_p50'' de_u64 ms;
     x16 \<leftarrow> de_req ''cu_price_micro_lamports_p90'' de_u64 ms;
     x17 \<leftarrow> de_req ''cu_price_micro_lamports_p95'' de_u64 ms;
     x18 \<leftarrow> de_req ''requested_priority_fee_lamports_p50'' de_u64 ms;
     x19 \<leftarrow> de_req ''requested_priority_fee_lamports_p90'' de_u64 ms;
     x20 \<leftarrow> de_req ''requested_priority_fee_lamports_p95'' de_u64 ms;
     Some \<lparr>ts_window_start_ms = x0, ts_window_end_ms = x1, ts_provider = x2, ts_accepted_count = x3,
       ts_rejected_count = x4, ts_parsed_count = x5, ts_unparsed_count = x6, ts_unsupported_count = x7,
       ts_invalid_budget_count = x8, ts_batch_unsupported_count = x9, ts_decode_queue_drop_count = x10,
       ts_fee_sample_count = x11, ts_cu_limit_p50 = x12, ts_cu_limit_p90 = x13, ts_cu_limit_p95 = x14,
       ts_cu_price_micro_lamports_p50 = x15, ts_cu_price_micro_lamports_p90 = x16,
       ts_cu_price_micro_lamports_p95 = x17, ts_requested_priority_fee_lamports_p50 = x18,
       ts_requested_priority_fee_lamports_p90 = x19, ts_requested_priority_fee_lamports_p95 = x20\<rparr> }"

definition de_historical_aggregate :: "(string \<times> json) list \<Rightarrow> historical_aggregate option" where
  "de_historical_aggregate ms = do {
     x0 \<leftarrow> de_req ''schema_version'' de_u32 ms;
     x1 \<leftarrow> de_req ''window_start_ms'' de_u64 ms;
     x2 \<leftarrow> de_req ''window_end_ms'' de_u64 ms;
     x3 \<leftarrow> de_req ''commitment'' json_as_str ms;
     x4 \<leftarrow> de_req ''logical_request_count'' de_u64 ms;
     x5 \<leftarrow> de_req ''analyzed_request_count'' de_u64 ms;
     x6 \<leftarrow> de_req ''found_count'' de_u64 ms;
     x7 \<leftarrow> de_req ''null_count'' de_u64 ms;
     x8 \<leftarrow> de_req ''rpc_error_count'' de_u64 ms;
     x9 \<leftarrow> de_req ''parse_error_count'' de_u64 ms;
     x10 \<leftarrow> de_req ''first_observation_found_count'' de_u64 ms;
     x11 \<leftarrow> de_req ''first_observation_null_count'' de_u64 ms;
     x12 \<leftarrow> de_req ''null_repeat_count'' de_u64 ms;
     x13 \<leftarrow> de_req ''null_to_found_count'' de_u64 ms;
     x14 \<leftarrow> de_req ''found_repeat_count'' de_u64 ms;
     x15 \<leftarrow> de_req ''found_to_null_regression_count'' de_u64 ms;
     x16 \<leftarrow> de_req ''slot_age_bucket_counts'' (de_u64s HISTORICAL_SLOT_AGE_BUCKET_COUNT) ms;
     x17 \<leftarrow> de_req ''slot_age_unknown_count'' de_u64 ms;
     x18 \<leftarrow> de_req ''slot_age_tip_behind_count'' de_u64 ms;
     x19 \<leftarrow> de_req ''polls_before_found_bucket_counts'' (de_u64s HISTORICAL_POLLS_BEFORE_FOUND_BUCKET_COUNT) ms;
     x20 \<leftarrow> de_req ''time_to_found_bucket_counts'' (de_u64s HISTORICAL_TIME_TO_FOUND_BUCKET_COUNT) ms;
     x21 \<leftarrow> de_req ''found_reuse_bucket_counts'' (de_u64s HISTORICAL_FOUND_REUSE_BUCKET_COUNT) ms;
     x22 \<leftarrow> de_req ''unsupported_batch_count'' de_u64 ms;
     x23 \<leftarrow> de_req ''queue_full_drop_count'' de_u64 ms;
     x24 \<leftarrow> de_req ''byte_budget_exhausted_drop_count'' de_u64 ms;
     x25 \<leftarrow> de_req ''oversized_job_drop_count'' de_u64 ms;
     x26 \<leftarrow> de_req ''state_capacity_eviction_count'' de_u64 ms;
     x27 \<leftarrow> de_req ''state_ttl_expiration_count'' de_u64 ms;
     x28 \<leftarrow> de_req ''unresolved_null_capacity_eviction_count'' de_u64 ms;
     x29 \<leftarrow> de_req ''unresolved_null_ttl_expiration_count'' de_u64 ms;
     x30 \<leftarrow> de_req ''state_reset_count'' de_u64 ms;
     x31 \<leftarrow> de_req ''current_state_entries'' de_u64 ms;
     x32 \<leftarrow> de_req ''configured_state_capacity'' de_u64 ms;
     Some \<lparr>hg_schema_version = x0, hg_window_start_ms = x1, hg_window_end_ms = x2, hg_commitment = x3,
       hg_window =
         \<lparr>hw_logical_request_count = x4, hw_analyzed_request_count = x5, hw_found_count = x6, hw_null_count = x7,
          hw_rpc_error_count = x8, hw_parse_error_count = x9, hw_first_observation_found_count = x10,
          hw_first_observation_null_count = x11, hw_null_repeat_count = x12, hw_null_to_found_count = x13,
          hw_found_repeat_count = x14, hw_found_to_null_regression_count = x15, hw_slot_age_bucket_counts = x16,
          hw_slot_age_unknown_count = x17, hw_slot_age_tip_behind_count = x18,
          hw_polls_before_found_bucket_counts = x19, hw_time_to_found_bucket_counts = x20,
          hw_found_reuse_bucket_counts = x21, hw_unsupported_batch_count = x22,
          hw_state_capacity_eviction_count = x26, hw_state_ttl_expiration_count = x27,
          hw_unresolved_null_capacity_eviction_count = x28, hw_unresolved_null_ttl_expiration_count = x29\<rparr>,
       hg_queue_full_drop_count = x23, hg_byte_budget_exhausted_drop_count = x24,
       hg_oversized_job_drop_count = x25, hg_state_reset_count = x30, hg_current_state_entries = x31,
       hg_configured_state_capacity = x32\<rparr> }"

definition de_provider_health :: "(string \<Rightarrow> f64) \<Rightarrow> (string \<times> json) list \<Rightarrow> telemetry_event option" where
  "de_provider_health read ms = do {
     provider \<leftarrow> de_req ''provider'' json_as_str ms;
     sc \<leftarrow> de_req ''score'' (json_as_f64 read) ms;
     height \<leftarrow> de_opt ''slot_height'' de_u64 ms;
     dr \<leftarrow> de_req ''slot_drift'' de_u64 ms;
     circuit \<leftarrow> de_req ''circuit_state'' json_as_str ms;
     Some (ProviderHealth provider sc height dr circuit) }"

definition de_failover :: "(string \<times> json) list \<Rightarrow> telemetry_event option" where
  "de_failover ms = do {
     from_provider \<leftarrow> de_req ''from_provider'' json_as_str ms;
     to_provider \<leftarrow> de_req ''to_provider'' json_as_str ms;
     reason \<leftarrow> de_req ''reason'' json_as_str ms;
     Some (Failover from_provider to_provider reason) }"

definition de_divergence :: "(string \<times> json) list \<Rightarrow> telemetry_event option" where
  "de_divergence ms = do {
     meth \<leftarrow> de_req ''method'' json_as_str ms;
     providers \<leftarrow> de_req ''providers'' (de_vec de_pair) ms;
     resolution \<leftarrow> de_req ''resolution'' json_as_str ms;
     Some (Divergence meth providers resolution) }"

definition de_event :: "(string \<Rightarrow> f64) \<Rightarrow> (string \<times> json) list \<Rightarrow> telemetry_event option" where
  "de_event read ms =
     (case de_req ''type'' json_as_str ms of
        None \<Rightarrow> None
      | Some variant \<Rightarrow>
          if variant = ''request_aggregate'' then map_option RequestAggregate (de_request_aggregate read ms)
          else if variant = ''transaction_submit'' then map_option TransactionSubmit (de_transaction_submit ms)
          else if variant = ''historical_get_transaction_aggregate'' then
            map_option HistoricalGetTransactionAggregate (de_historical_aggregate ms)
          else if variant = ''provider_health'' then de_provider_health read ms
          else if variant = ''failover'' then de_failover ms
          else if variant = ''divergence'' then de_divergence ms
          else None)"

section \<open>The upload\<close>

record upload =
  up_endpoint :: string
  up_headers :: "(string \<times> string) list"
  up_body :: json

definition upload_of :: "(rat \<Rightarrow> string) \<Rightarrow> reporting_config \<Rightarrow> telemetry_event list \<Rightarrow> upload" where
  "upload_of show cfg events =
     \<lparr>up_endpoint = rp_endpoint cfg,
      up_headers = (case rp_api_key cfg of None \<Rightarrow> [] | Some key \<Rightarrow> [(''x-api-key'', key)]),
      up_body = JObj [(''events'', JArr (map (event_json show) events))]\<rparr>"

text \<open>What an endpoint reads from a body.\<close>

definition events_of_body :: "(string \<Rightarrow> f64) \<Rightarrow> json \<Rightarrow> telemetry_event list option" where
  "events_of_body read j =
     Option.bind (json_get ''events'' j) (de_vec (\<lambda>e. case e of JObj ms \<Rightarrow> de_event read ms | _ \<Rightarrow> None))"

section \<open>What is written is read back\<close>

text \<open>A double is written as null if it is not finite, so only finite ones come back.\<close>

definition finite_f64 :: "f64 \<Rightarrow> bool" where
  "finite_f64 x \<longleftrightarrow> (case x of Fin a \<Rightarrow> is_f64 (Fin a) | _ \<Rightarrow> False)"

text \<open>Printing a double and parsing the text gives the double back.\<close>

definition reads_back :: "(string \<Rightarrow> f64) \<Rightarrow> (rat \<Rightarrow> string) \<Rightarrow> bool" where
  "reads_back read show \<longleftrightarrow> (\<forall>a. is_f64 (Fin a) \<longrightarrow> read (show a) = Fin a)"

fun wire_ok :: "telemetry_event \<Rightarrow> bool" where
  "wire_ok (RequestAggregate a) \<longleftrightarrow>
     finite_f64 (ra_latency_p50_ms a) \<and> finite_f64 (ra_latency_p95_ms a) \<and> finite_f64 (ra_latency_p99_ms a) \<and>
     finite_f64 (ra_latency_avg_ms a)"
| "wire_ok (HistoricalGetTransactionAggregate a) \<longleftrightarrow>
     length (hw_slot_age_bucket_counts (hg_window a)) = HISTORICAL_SLOT_AGE_BUCKET_COUNT \<and>
     length (hw_polls_before_found_bucket_counts (hg_window a)) = HISTORICAL_POLLS_BEFORE_FOUND_BUCKET_COUNT \<and>
     length (hw_time_to_found_bucket_counts (hg_window a)) = HISTORICAL_TIME_TO_FOUND_BUCKET_COUNT \<and>
     length (hw_found_reuse_bucket_counts (hg_window a)) = HISTORICAL_FOUND_REUSE_BUCKET_COUNT"
| "wire_ok (ProviderHealth p sc h d cs) \<longleftrightarrow> finite_f64 sc"
| "wire_ok e \<longleftrightarrow> True"

lemma word_back [simp]: "de_u64 (json_u64 n) = Some n" "de_u32 (json_u32 m) = Some m"
proof -
  have "uint m < 2 ^ 32" using unsigned_less[of m, where 'a = int] by simp
  then show "de_u32 (json_u32 m) = Some m" by (simp add: de_u32_def json_u32_def)
  show "de_u64 (json_u64 n) = Some n" using json_u64_back[of n] by (simp add: json_as_u64_def)
qed

lemma de_vec_back: "(\<And>x. x \<in> set xs \<Longrightarrow> f (g x) = Some x) \<Longrightarrow> de_vec f (JArr (map g xs)) = Some xs"
  by (induction xs) (simp_all add: de_vec_def)

lemma words_back [simp]: "length xs = n \<Longrightarrow> de_u64s n (json_u64s xs) = Some xs"
  by (simp add: de_u64s_def json_u64s_def de_vec_back)

lemma double_back [simp]:
  "reads_back read show \<Longrightarrow> finite_f64 x \<Longrightarrow> json_as_f64 read (json_f64 show x) = Some x"
  by (cases x) (simp_all add: json_f64_def finite_f64_def reads_back_def)

lemma pair_back: "de_pair ((\<lambda>(p, slot). JArr [json_text p, json_u64 slot]) x) = Some x"
  by (cases x) (simp add: de_pair_def)

lemma de_req_Cons:
  "de_req k f ((k', v) # ms) = (if k' = k then (if list_all (\<lambda>m. fst m \<noteq> k) ms then f v else None) else de_req k f ms)"
proof -
  have "filter (\<lambda>m. fst m = k) ms = [] \<longleftrightarrow> list_all (\<lambda>m. fst m \<noteq> k) ms"
    by (simp add: filter_empty_conv list_all_iff)
  then show ?thesis by (cases "filter (\<lambda>m. fst m = k) ms") (auto simp: de_req_def)
qed

text \<open>In an object without duplicates every member is the one its name finds.\<close>

lemma de_req_member:
  "distinct (map fst ms) \<Longrightarrow> m \<in> set ms \<Longrightarrow> de_req (fst m) f ms = f (snd m)"
  by (induction ms) (auto simp: de_req_Cons list_all_iff image_iff)

lemma members_read: "distinct (map fst ms) \<Longrightarrow> list_all (\<lambda>m. de_req (fst m) f ms = f (snd m)) ms"
  by (simp add: de_req_member list_all_iff)

lemma request_aggregate_back:
  assumes "reads_back read show" "wire_ok (RequestAggregate a)"
  shows "de_request_aggregate read ((''type'', v) # request_aggregate_fields show a) = Some a"
  using assms(2) unfolding de_request_aggregate_def request_aggregate_fields_def
  by (simp add: de_req_Cons assms(1))

lemma transaction_submit_back:
  "de_transaction_submit ((''type'', v) # transaction_submit_fields a) = Some a"
proof -
  define ms where "ms = (''type'', v) # transaction_submit_fields a"
  have "distinct (map fst ms)" by (simp add: ms_def transaction_submit_fields_def)
  note members = members_read[OF this]
  have "list_all (\<lambda>m. de_req (fst m) f ms = f (snd m)) (transaction_submit_fields a)" for f :: "json \<Rightarrow> 'b option"
    using members[of f] unfolding ms_def by simp
  note found = this[of de_u64] this[of json_as_str]
  show ?thesis
    unfolding ms_def[symmetric] de_transaction_submit_def
    using found by (simp add: transaction_submit_fields_def)
qed

lemma historical_distinct: "distinct (''type'' # map fst (historical_fields a))"
  by (simp add: historical_fields_def)

lemma historical_back:
  assumes "wire_ok (HistoricalGetTransactionAggregate a)"
  shows "de_historical_aggregate ((''type'', v) # historical_fields a) = Some a"
proof -
  define ms where "ms = (''type'', v) # historical_fields a"
  have "distinct (map fst ms)" using historical_distinct[of a] by (simp add: ms_def)
  note members = members_read[OF this]
  have found: "list_all (\<lambda>m. de_req (fst m) f ms = f (snd m)) (historical_fields a)" for f :: "json \<Rightarrow> 'b option"
    using members[of f] unfolding ms_def by simp
  have texts: "de_req ''schema_version'' de_u32 ms = Some (hg_schema_version a)"
    "de_req ''commitment'' json_as_str ms = Some (hg_commitment a)"
    using found[of de_u32] found[of json_as_str] by (simp_all add: historical_fields_def)
  have arrays: "de_req ''slot_age_bucket_counts'' (de_u64s n) ms = de_u64s n (json_u64s (hw_slot_age_bucket_counts (hg_window a)))"
    "de_req ''polls_before_found_bucket_counts'' (de_u64s n) ms = de_u64s n (json_u64s (hw_polls_before_found_bucket_counts (hg_window a)))"
    "de_req ''time_to_found_bucket_counts'' (de_u64s n) ms = de_u64s n (json_u64s (hw_time_to_found_bucket_counts (hg_window a)))"
    "de_req ''found_reuse_bucket_counts'' (de_u64s n) ms = de_u64s n (json_u64s (hw_found_reuse_bucket_counts (hg_window a)))" for n
    using found[of "de_u64s n"] by (simp_all add: historical_fields_def)
  show ?thesis
    unfolding ms_def[symmetric] de_historical_aggregate_def
    using found[of de_u64] assms by (simp add: historical_fields_def texts arrays)
qed

lemma provider_health_back:
  assumes "reads_back read show" "finite_f64 sc"
  shows "de_event read ((''type'', json_text ''provider_health'') # snd (event_fields show (ProviderHealth p sc h d cs))) =
    Some (ProviderHealth p sc h d cs)"
proof -
  have "de_option de_u64 (json_u64 n) = Some (Some n)" for n
    using word_back(1)[of n] by (simp add: de_option_def json_u64_def)
  then show ?thesis
    by (cases h) (simp_all add: de_event_def de_req_Cons de_provider_health_def de_opt_def assms)
qed

lemma event_back:
  assumes "reads_back read show" "wire_ok e"
  shows "\<exists>ms. event_json show e = JObj ms \<and> de_event read ms = Some e"
proof (cases e)
  case (RequestAggregate a)
  with assms request_aggregate_back[OF assms(1), of a] show ?thesis
    by (simp add: event_json_def de_event_def de_req_Cons request_aggregate_fields_def)
next
  case (TransactionSubmit a)
  then show ?thesis
    using transaction_submit_back[of "json_text ''transaction_submit''" a]
    by (simp add: event_json_def de_event_def de_req_Cons transaction_submit_fields_def)
next
  case (HistoricalGetTransactionAggregate a)
  with assms(2) historical_back[of a "json_text ''historical_get_transaction_aggregate''"] show ?thesis
    by (simp add: event_json_def de_event_def de_req_Cons historical_fields_def)
next
  case (ProviderHealth p sc h d cs)
  with assms provider_health_back[OF assms(1), of sc p h d cs] show ?thesis by (simp add: event_json_def)
next
  case (Failover f t r)
  then show ?thesis by (simp add: event_json_def de_event_def de_req_Cons de_failover_def)
next
  case (Divergence m ps r)
  then show ?thesis
    using de_vec_back[of ps de_pair "\<lambda>(p, slot). JArr [json_text p, json_u64 slot]"]
    by (simp add: event_json_def de_event_def de_req_Cons de_divergence_def pair_back)
qed

lemma body_back:
  assumes "reads_back read show" "list_all wire_ok es"
  shows "events_of_body read (up_body (upload_of show cfg es)) = Some es"
proof -
  let ?de = "\<lambda>j. case j of JObj ms \<Rightarrow> de_event read ms | _ \<Rightarrow> None"
  have "?de (event_json show e) = Some e" if "e \<in> set es" for e
    using event_back[OF assms(1), of e] assms(2) that by (auto simp: list_all_iff)
  from de_vec_back[of es ?de "event_json show", OF this] show ?thesis
    by (simp add: events_of_body_def upload_of_def json_get_def)
qed

lemma bodies_back:
  assumes "reads_back read show" "list_all wire_ok (concat batches)"
  shows "those (map (\<lambda>b. events_of_body read (up_body (upload_of show cfg b))) batches) = Some batches"
  using assms(2) by (induction batches) (simp_all add: body_back[OF assms(1)])

text \<open>C38. What an endpoint reads from the uploaded bodies is exactly the list of batches that the
reporter sent, every field of every event at its place, if the endpoint reads printed doubles back
and the numbers of the sent events are finite. The raw events among what was sent, is batched and is
queued (all but the request and transaction aggregates, which the flush task makes itself) are, in
order and without loss or duplicate, the raw events that the reporter accepted, in every
interleaving of callers and flush task.\<close>

theorem uploads_carry_accepted_events:
  assumes "reads_back read show" "r = reporter_run cfg evs (remote_new t0)"
    "list_all wire_ok (concat (rm_sent r))"
  shows "those (map (\<lambda>b. events_of_body read (up_body (upload_of show cfg b))) (rm_sent r)) = Some (rm_sent r) \<and>
    filter is_raw (concat (rm_sent r) @ rm_batch r @ rm_queue r) = filter is_raw (accepted cfg evs (remote_new t0))"
  using bodies_back[OF assms(1,3)] run_delivery[of cfg evs "remote_new t0"]
  by (simp add: assms(2) delivery_def remote_new_def)

text \<open>The aggregate of a counted transaction, beside an emitted event, comes back with every field at its place.\<close>

theorem uploads_carry_accepted_events_witness:
  "(let r = reporter_run (default_reporting ''e'')
        [RecordDecode ''a'' ''batch_unsupported'' None, Emit (Failover ''a'' ''b'' ''timeout''), FlushAndWait 1, Notified 7]
        (remote_new 0)
    in rm_sent r \<noteq> [] \<and> length (concat (rm_sent r)) = 2 \<and>
      those (map (\<lambda>b. events_of_body (\<lambda>t. Fin (from_nat (length t)))
        (up_body (upload_of (\<lambda>a. replicate (to_nat a) CHR ''x'') (default_reporting ''e'') b))) (rm_sent r)) = Some (rm_sent r))"
proof -
  define evs where "evs = [RecordDecode ''a'' ''batch_unsupported'' None, Emit (Failover ''a'' ''b'' ''timeout''),
    FlushAndWait 1, Notified 7]"
  define r where "r = reporter_run (default_reporting ''e'') evs (remote_new 0)"
  have sent: "\<exists>a. rm_sent r = [[TransactionSubmit a, Failover ''a'' ''b'' ''timeout'']]"
    by (simp add: r_def evs_def reporter_run_def remote_new_def remote_emit_def remote_flush_and_wait_def remote_record_def
        task_notified_def task_collect_def agg_drain_def aggregator_new_def send_batch_def default_reporting_def Let_def
        agg_record_transaction_decode_def entry_update_def transaction_submit_of_def)
  have "reads_back (\<lambda>t. Fin (from_nat (length t))) (\<lambda>a. replicate (to_nat a) CHR ''x'')" by (simp add: reads_back_def)
  from uploads_carry_accepted_events[OF this r_def] sent show ?thesis unfolding evs_def[symmetric] r_def[symmetric] by auto
qed

end
