(* ===== verification/Tools.thy ===== *)
theory Tools
  imports Sequential
begin

text \<open>
  The two command-line tools of the workspace: the dummy RPC server that stands in for a provider
  (tools/dummy-rpc), and the load test that measures the proxy or a provider (tools/load-test). The load test is its
  target selection, one request, a batch as a step relation over spawned tasks and the permits of the semaphore, the
  warm-up check and the report. The HTTP exchange and the URI parser are parameters.
\<close>

section \<open>The dummy server\<close>

record dummy_state =
  ds_slot :: u64
  ds_delay :: duration
  ds_request_count :: u64
  ds_started_at :: instant

definition dummy_new :: "u64 \<Rightarrow> u64 \<Rightarrow> instant \<Rightarrow> dummy_state" where
  "dummy_new slot delay_ms now =
     \<lparr>ds_slot = slot, ds_delay = duration_from_millis delay_ms, ds_request_count = 0, ds_started_at = now\<rparr>"

text \<open>\<open>handle\<close>: the reply's JSON, and how long the handler sleeps before it.\<close>

definition dummy_handle :: "json_parser \<Rightarrow> bytes \<Rightarrow> dummy_state \<Rightarrow> json \<times> duration \<times> dummy_state" where
  "dummy_handle parse body d =
     (let request_id = unwrap_or (Option.bind (parse body) (json_get ''id'')) (JInt 1) in
      (JObj [(''jsonrpc'', JStr False ''2.0''), (''result'', JInt (uint (ds_slot d))), (''id'', request_id)],
       ds_delay d, d\<lparr>ds_request_count := ds_request_count d + 1\<rparr>))"

text \<open>The request rate that the statistics task logs.\<close>

definition dummy_rps :: "instant \<Rightarrow> dummy_state \<Rightarrow> f64" where
  "dummy_rps now d =
     f64_div (f64_of_nat (unat (ds_request_count d)))
       (f64_max (as_secs_f64 (saturating_duration_since now (ds_started_at d))) (Fin 1))"

section \<open>The load test: options and target\<close>


record client_mode =
  cm_http3 :: bool
  cm_warm :: bool

datatype target = Uds string | Tcp string u16 | Remote string client_mode






section \<open>The load test: one request\<close>

datatype failure = TransportFailure | StatusFailure u16

text \<open>What one exchange gave: no connection or reply, or the status and whether the body arrived.\<close>

type_synonym exchange = "(u16 \<times> bool) option"

definition client_send :: "client_mode \<Rightarrow> bool \<Rightarrow> exchange \<Rightarrow> failure option" where
  "client_send mode build_ok x =
     (if \<not> cm_warm mode \<and> \<not> build_ok then Some TransportFailure
      else case x of
          None \<Rightarrow> Some TransportFailure
        | Some (status, body_ok) \<Rightarrow>
            if \<not> is_success status then Some (StatusFailure status)
            else if body_ok then None else Some TransportFailure)"

text \<open>\<open>send_tcp\<close> and \<open>send_uds\<close> end in \<open>send_request\<close>, which collects the body and does not look at the status.\<close>

definition local_send :: "exchange \<Rightarrow> failure option" where
  "local_send x =
     (case x of
        None \<Rightarrow> Some TransportFailure
      | Some (status, body_ok) \<Rightarrow> if body_ok then None else Some TransportFailure)"

definition target_send :: "target \<Rightarrow> bool \<Rightarrow> exchange \<Rightarrow> failure option" where
  "target_send t build_ok x =
     (case t of Uds path \<Rightarrow> local_send x | Tcp host port \<Rightarrow> local_send x | Remote url mode \<Rightarrow> client_send mode build_ok x)"

section \<open>The load test: a batch\<close>

record counts =
  ct_ok :: u64
  ct_transport :: u64
  ct_status :: u64
  ct_rate_limited :: u64

definition counts_zero :: counts where
  "counts_zero = \<lparr>ct_ok = 0, ct_transport = 0, ct_status = 0, ct_rate_limited = 0\<rparr>"

text \<open>
  \<open>run_batch\<close>: requests not yet spawned, spawned tasks that wait for a permit of the semaphore, tasks that hold one,
  the free permits, the counters and the latencies of the successes in the order in which they finish.
\<close>

record batch =
  ba_unspawned :: nat
  ba_waiting :: nat
  ba_running :: nat
  ba_permits :: nat
  ba_counts :: counts
  ba_latencies :: "f64 list"

datatype batch_event = SpawnTask | AcquirePermit | TaskDone bool exchange f64

definition load_state :: "usize \<Rightarrow> batch" where
  "load_state connections =
     \<lparr>ba_unspawned = 0, ba_waiting = 0, ba_running = 0, ba_permits = unat connections,
      ba_counts = counts_zero, ba_latencies = []\<rparr>"

definition run_batch :: "usize \<Rightarrow> batch \<Rightarrow> batch" where
  "run_batch n b = b\<lparr>ba_unspawned := unat n\<rparr>"

text \<open>With \<open>--rps\<close> the loop sleeps this many seconds before each task that it spawns.\<close>

definition spawn_gap :: "u32 option \<Rightarrow> f64 option" where
  "spawn_gap rps = map_option (\<lambda>r. f64_div (Fin 1) (f64_of_nat (max (unat r) 1))) rps"

definition count_result :: "failure option \<Rightarrow> f64 \<Rightarrow> batch \<Rightarrow> batch" where
  "count_result res lat_ms b =
     (let k = ba_counts b in
      case res of
        None \<Rightarrow> b\<lparr>ba_counts := k\<lparr>ct_ok := ct_ok k + 1\<rparr>, ba_latencies := ba_latencies b @ [lat_ms]\<rparr>
      | Some TransportFailure \<Rightarrow> b\<lparr>ba_counts := k\<lparr>ct_transport := ct_transport k + 1\<rparr>\<rparr>
      | Some (StatusFailure code) \<Rightarrow>
          b\<lparr>ba_counts := k\<lparr>ct_status := ct_status k + 1,
              ct_rate_limited := ct_rate_limited k + (if code = 429 then 1 else 0)\<rparr>\<rparr>)"

fun batch_enabled :: "batch_event \<Rightarrow> batch \<Rightarrow> bool" where
  "batch_enabled SpawnTask b = (0 < ba_unspawned b)"
| "batch_enabled AcquirePermit b = (0 < ba_waiting b \<and> 0 < ba_permits b)"
| "batch_enabled (TaskDone build_ok x lat) b = (0 < ba_running b)"

text \<open>A task ends with the result its target makes of the exchange.\<close>

fun batch_step :: "target \<Rightarrow> batch_event \<Rightarrow> batch \<Rightarrow> batch" where
  "batch_step t SpawnTask b = b\<lparr>ba_unspawned := ba_unspawned b - 1, ba_waiting := ba_waiting b + 1\<rparr>"
| "batch_step t AcquirePermit b =
     b\<lparr>ba_waiting := ba_waiting b - 1, ba_running := ba_running b + 1, ba_permits := ba_permits b - 1\<rparr>"
| "batch_step t (TaskDone build_ok x lat) b =
     (count_result (target_send t build_ok x) lat b)\<lparr>ba_running := ba_running b - 1, ba_permits := ba_permits b + 1\<rparr>"

text \<open>A batch on target \<open>t\<close> that starts in \<open>b0\<close> makes the steps \<open>es\<close> and is then in a state.\<close>

inductive batch_runs :: "target \<Rightarrow> batch \<Rightarrow> batch_event list \<Rightarrow> batch \<Rightarrow> bool" for t b0 where
  batch_starts: "batch_runs t b0 [] b0"
| batch_goes_on: "batch_runs t b0 es b \<Longrightarrow> batch_enabled e b \<Longrightarrow> batch_runs t b0 (es @ [e]) (batch_step t e b)"

definition batch_finished :: "batch \<Rightarrow> bool" where
  "batch_finished b \<longleftrightarrow> ba_unspawned b = 0 \<and> ba_waiting b = 0 \<and> ba_running b = 0"

section \<open>The load test: report\<close>





text \<open>\<open>sort_by(|a, b| a.partial_cmp(b).unwrap())\<close> on latencies, which are never NaN.\<close>

definition latency_cmp :: "f64 \<Rightarrow> f64 \<Rightarrow> ordering" where
  "latency_cmp a b = unwrap_or (f64_partial_cmp a b) Equal"

definition sort_latencies :: "f64 list \<Rightarrow> f64 list" where
  "sort_latencies lats = sort_by latency_cmp lats"

text \<open>A cast from a double to \<open>usize\<close> truncates and saturates.\<close>

fun f64_as_usize :: "f64 \<Rightarrow> nat" where
  "f64_as_usize (Fin a) = min (nat \<lfloor>a\<rfloor>) (2 ^ 64 - 1)"
| "f64_as_usize PInf = 2 ^ 64 - 1"
| "f64_as_usize x = 0"

definition pct_index :: "nat \<Rightarrow> f64 \<Rightarrow> nat" where
  "pct_index n p = f64_as_usize (f64_min (f64_div (f64_mul (f64_of_nat n) p) (Fin 100)) (f64_of_nat (n - 1)))"

definition pct :: "f64 list \<Rightarrow> f64 \<Rightarrow> f64" where
  "pct lats p = (if lats = [] then Fin 0 else lats ! pct_index (length lats) p)"



section \<open>The load test: \<open>main\<close>\<close>




definition batch_counted :: "batch \<Rightarrow> nat" where
  "batch_counted b = unat (ct_ok (ba_counts b)) + unat (ct_transport (ba_counts b)) + unat (ct_status (ba_counts b))"

definition batch_outstanding :: "batch \<Rightarrow> nat" where
  "batch_outstanding b = ba_unspawned b + ba_waiting b + ba_running b"

definition batch_ok :: "usize \<Rightarrow> usize \<Rightarrow> batch \<Rightarrow> bool" where
  "batch_ok connections requests b \<longleftrightarrow>
     ba_running b + ba_permits b = unat connections \<and> batch_outstanding b + batch_counted b = unat requests"







definition batch_measure :: "batch \<Rightarrow> nat" where
  "batch_measure b = 3 * ba_unspawned b + 2 * ba_waiting b + ba_running b"

abbreviation batch_reached :: "target \<Rightarrow> usize \<Rightarrow> usize \<Rightarrow> batch_event list \<Rightarrow> batch \<Rightarrow> bool" where
  "batch_reached t connections requests \<equiv> batch_runs t (run_batch requests (load_state connections))"


abbreviation one_target :: target where
  "one_target \<equiv> Uds ''/tmp/p.sock''"

definition one_batch :: batch where
  "one_batch = batch_step one_target (TaskDone True (Some (429, True)) (Fin 2))
     (batch_step one_target AcquirePermit (batch_step one_target SpawnTask (run_batch 1 (load_state 1))))"


section \<open>The dummy server behind the proxy\<close>

lemma json_get_result: "json_get ''result'' (fst (dummy_handle parse body d)) = Some (JInt (uint (ds_slot d)))"
  by (simp add: dummy_handle_def Let_def json_get_def)

theorem dummy_reply_succeeds:
  assumes "parse reply = Some (fst (dummy_handle request_parse body d))"
  shows "from_leg parse 200 reply lookup p = OkOutcome"
proof -
  have "\<not> has_rpc_error parse reply" "extract_rpc_error_code parse reply = None" "has_result parse reply"
    using assms by (simp_all add: has_rpc_error_def extract_rpc_error_code_def has_result_def dummy_handle_def Let_def
        de_struct1_def de_option_def de_any_def)
  moreover from this have "\<not> is_history_miss parse p (extract_rpc_error_code parse reply) reply"
    by (cases "pv_history p") (simp_all add: is_history_miss_def)
  ultimately show ?thesis by (simp add: from_leg_ok is_success_def)
qed

lemma dummy_echoes_id:
  "parse body = Some (JObj ms) \<Longrightarrow> map_of (rev ms) ''id'' = Some v \<Longrightarrow>
   json_get ''id'' (fst (dummy_handle parse body d)) = Some v"
  by (simp add: dummy_handle_def Let_def json_get_def unwrap_or_def)

section \<open>Targets\<close>


text \<open>A local target counts every complete HTTP reply as a success, whatever its status.\<close>

lemma local_status_ignored:
  "target_send (Tcp host port) ok (Some (status, True)) = None"
  "target_send (Uds path) ok (Some (status, True)) = None"
  "\<not> is_success status \<Longrightarrow> target_send (Remote url \<lparr>cm_http3 = h, cm_warm = True\<rparr>) ok (Some (status, True)) = Some (StatusFailure status)"
  by (simp_all add: target_send_def local_send_def client_send_def)

section \<open>A batch\<close>

lemma unat_Suc: "unat (x :: u64) < k \<Longrightarrow> k < 2 ^ 64 \<Longrightarrow> unat (x + 1) = unat x + 1"
  by (simp add: unat_word_ariths)

lemma count_result_counted:
  assumes "batch_counted b < k" "k < 2 ^ 64"
  shows "batch_counted (count_result res lat b) = Suc (batch_counted b)"
proof -
  have "unat (ct_ok (ba_counts b) + 1) = unat (ct_ok (ba_counts b)) + 1"
    "unat (ct_transport (ba_counts b) + 1) = unat (ct_transport (ba_counts b)) + 1"
    "unat (ct_status (ba_counts b) + 1) = unat (ct_status (ba_counts b)) + 1"
    using assms by (intro unat_Suc[of _ k]; simp add: batch_counted_def)+
  then show ?thesis
    by (auto simp: count_result_def batch_counted_def Let_def split: option.split failure.split)
qed





lemma count_result_frame [simp]:
  "ba_unspawned (count_result res lat b) = ba_unspawned b" "ba_waiting (count_result res lat b) = ba_waiting b"
  "ba_running (count_result res lat b) = ba_running b" "ba_permits (count_result res lat b) = ba_permits b"
  by (simp_all add: count_result_def Let_def split: option.split failure.split)

lemma batch_ok_step:
  assumes "batch_ok connections requests b" "batch_enabled e b"
  shows "batch_ok connections requests (batch_step t e b)"
proof (cases e)
  case (TaskDone build_ok x lat)
  have "batch_counted b < unat requests" "unat requests < 2 ^ 64"
    using assms TaskDone unsigned_less[of requests, where 'a = nat] by (simp_all add: batch_ok_def batch_outstanding_def)
  from count_result_counted[OF this] have "batch_counted (count_result (target_send t build_ok x) lat b) = Suc (batch_counted b)" .
  with assms TaskDone show ?thesis
    by (auto simp: batch_ok_def batch_outstanding_def) (simp add: batch_counted_def)
qed (use assms in \<open>auto simp: batch_ok_def batch_outstanding_def batch_counted_def\<close>)

lemma batch_runs_ok: "batch_runs t b0 es b \<Longrightarrow> batch_ok connections requests b0 \<Longrightarrow> batch_ok connections requests b"
  by (induction rule: batch_runs.induct) (auto intro: batch_ok_step)

lemma batch_start_ok: "batch_ok connections requests (run_batch requests (load_state connections))"
  by (simp add: batch_ok_def run_batch_def load_state_def batch_outstanding_def batch_counted_def counts_zero_def)

lemmas batch_reached_ok = batch_runs_ok[OF _ batch_start_ok]




lemma batch_step_shrinks: "batch_enabled e b \<Longrightarrow> batch_measure (batch_step t e b) < batch_measure b"
  by (cases e) (auto simp: batch_measure_def)

lemma batch_not_stuck:
  assumes "batch_ok connections requests b" "0 < connections"
  shows "(\<exists>e. batch_enabled e b) \<longleftrightarrow> \<not> batch_finished b"
proof
  assume "\<exists>e. batch_enabled e b"
  then obtain e where "batch_enabled e b" ..
  then show "\<not> batch_finished b" by (cases e) (auto simp: batch_finished_def)
next
  have c: "0 < unat connections" using assms(2) by (simp add: word_gt_0 unat_gt_0)
  assume "\<not> batch_finished b"
  then consider "0 < ba_unspawned b" | "0 < ba_running b" | "0 < ba_waiting b" "ba_running b = 0"
    by (auto simp: batch_finished_def)
  then show "\<exists>e. batch_enabled e b"
  proof cases
    case 1
    then show ?thesis by (intro exI[of _ SpawnTask]) simp
  next
    case 2
    then show ?thesis by (intro exI[of _ "TaskDone True None NaN"]) simp
  next
    case 3
    then show ?thesis using assms(1) c by (intro exI[of _ AcquirePermit]) (simp add: batch_ok_def)
  qed
qed

theorem load_batch_ends:
  assumes "batch_reached t connections requests es b" "0 < connections"
  shows "(\<forall>e. batch_enabled e b \<longrightarrow> batch_measure (batch_step t e b) < batch_measure b) \<and>
    ((\<exists>e. batch_enabled e b) \<longleftrightarrow> \<not> batch_finished b)"
  using batch_step_shrinks batch_not_stuck[OF batch_reached_ok[OF assms(1)] assms(2)] by blast

text \<open>Without connections no task ever gets a permit, and the test waits forever.\<close>

lemma no_connections_hang:
  assumes "batch_reached t 0 requests es b" "0 < requests"
  shows "\<not> batch_finished b"
proof -
  have "batch_reached t 0 requests es b \<Longrightarrow> ba_running b = 0 \<and> ba_permits b = 0 \<and> ba_unspawned b + ba_waiting b = unat requests"
  proof (induction rule: batch_runs.induct)
    case (batch_goes_on es b e)
    then show ?case by (cases e) auto
  qed (simp add: run_batch_def load_state_def)
  with assms(1) have "ba_unspawned b + ba_waiting b = unat requests" by simp
  moreover have "0 < unat requests" using assms(2) by (simp add: word_gt_0 unat_gt_0)
  ultimately show ?thesis by (auto simp: batch_finished_def)
qed

section \<open>The whole test\<close>






section \<open>Percentiles\<close>

lemma rnd_floor:
  assumes "0 \<le> x" "x \<le> 2 ^ 46" "x \<le> of_int \<lfloor>x\<rfloor> + 99 / 100" "rnd x = Fin a"
  shows "\<lfloor>a\<rfloor> = \<lfloor>x\<rfloor>"
proof -
  have "2 powi 46 = (2::rat) ^ 46" by (simp add: power_int_def)
  with assms have "a \<le> x + 2 powi (46 - 53)" by (intro rnd_error) simp_all
  moreover have "(2::rat) powi (46 - 53) < 1 / 100" by (simp add: power_int_def field_simps)
  ultimately have "a < of_int \<lfloor>x\<rfloor> + 1" using assms(3) by linarith
  moreover have "of_int \<lfloor>x\<rfloor> \<le> a"
  proof -
    have "0 \<le> \<lfloor>x\<rfloor>" using assms(1) by simp
    moreover have "of_int \<lfloor>x\<rfloor> \<le> (2::rat) ^ 46" using assms(2) by linarith
    then have "\<lfloor>x\<rfloor> \<le> 2 ^ 46" by (metis of_int_le_iff of_int_numeral of_int_power)
    then have "\<lfloor>x\<rfloor> \<le> 2 ^ 53" by simp
    ultimately have "rnd (of_int \<lfloor>x\<rfloor>) = Fin (of_int \<lfloor>x\<rfloor>)" by (rule rnd_int)
    with rnd_mono[of "of_int \<lfloor>x\<rfloor>" x] assms(4) show ?thesis by simp
  qed
  ultimately show ?thesis by linarith
qed

text \<open>For a whole percentage the index is the whole part of \<open>n * p / 100\<close>, and at most the last one.\<close>

theorem pct_index_exact:
  assumes "0 < n" "n \<le> 2 ^ 46" "p \<le> 100"
  shows "pct_index n (Fin (of_nat p)) = min (n * p div 100) (n - 1)"
proof -
  define x where "x = (of_nat (n * p) / 100 :: rat)"
  have np: "n * p \<le> 2 ^ 46 * 100" using assms(2,3) by (intro mult_le_mono) simp_all
  have "int (n * p) \<le> int (2 ^ 46 * 100)" using np by (rule of_nat_mono)
  then have "int (n * p) \<le> 2 ^ 53" by (rule order_trans) simp
  then have "rnd (of_int (int (n * p))) = Fin (of_int (int (n * p)))" by (intro rnd_int) simp_all
  moreover have "f64_of_nat n = Fin (of_nat n)" using assms(2) by (intro f64_of_nat_exact) simp
  ultimately have "f64_mul (f64_of_nat n) (Fin (of_nat p)) = Fin (of_nat (n * p))" by simp
  then have q: "f64_div (f64_mul (f64_of_nat n) (Fin (of_nat p))) (Fin 100) = rnd x"
    by (simp add: x_def)
  have x: "0 \<le> x" "x \<le> 2 ^ 46" unfolding x_def using np of_nat_mono[OF np, where 'a = rat] by simp_all
  have fl: "\<lfloor>x\<rfloor> = int (n * p div 100)" unfolding x_def by (metis floor_divide_of_nat_eq of_nat_numeral)
  have frac: "x \<le> of_int \<lfloor>x\<rfloor> + 99 / 100"
  proof -
    have "n * p \<le> 100 * (n * p div 100) + 99" by presburger
    then have "(of_nat (n * p) :: rat) \<le> of_nat (100 * (n * p div 100) + 99)" by (rule of_nat_mono)
    then have "x \<le> of_nat (n * p div 100) + 99 / 100" by (simp add: x_def field_simps)
    then show ?thesis by (simp add: fl)
  qed
  obtain a where a: "rnd x = Fin a"
    by (rule binary64.r_below_nat[of x "2 ^ 46"]) (use x in simp_all)
  have fa: "\<lfloor>a\<rfloor> = int (n * p div 100)" using rnd_floor[OF x frac a] fl by simp
  have n1: "f64_of_nat (n - 1) = Fin (of_nat (n - 1))" using assms(2) by (intro f64_of_nat_exact) simp
  have nb: "n - 1 < 2 ^ 64" using assms(2) by simp
  show ?thesis
  proof (cases "of_nat (n - 1) < a")
    case True
    then have "n - 1 \<le> n * p div 100" using fa by linarith
    with True nb show ?thesis unfolding pct_index_def q a n1 by (simp add: f64_min_def)
  next
    case False
    then have "n * p div 100 \<le> n - 1" using fa by linarith
    moreover have "n * p div 100 \<le> 2 ^ 64 - 1" using calculation nb by linarith
    ultimately show ?thesis using False fa unfolding pct_index_def q a n1 by (simp add: f64_min_def)
  qed
qed

text \<open>The percentiles of a report are in order, and lie between the fastest and the slowest success.\<close>

lemma latency_cmp_Greater: "latency_cmp a b = Greater \<longleftrightarrow> f64_lt b a"
  using partial_cmp_Greater[of a b] by (auto simp: latency_cmp_def unwrap_or_def split: option.split)

interpretation by_latency: comparison latency_cmp "\<lambda>x. x \<noteq> NaN"
  by unfold_locales (auto simp: latency_cmp_Greater dest: f64_lt_asym f64_not_lt_trans)

lemma f64_le_refl: "x \<noteq> NaN \<Longrightarrow> f64_le x x"
  by (cases x) (auto simp: f64_le_def)

lemma not_greater_le: "a \<noteq> NaN \<Longrightarrow> b \<noteq> NaN \<Longrightarrow> latency_cmp a b \<noteq> Greater \<longleftrightarrow> f64_le a b"
  by (cases a; cases b) (auto simp: latency_cmp_Greater f64_le_def)

lemma f64_le_trans: "f64_le x y \<Longrightarrow> f64_le y z \<Longrightarrow> f64_le x z"
  by (cases x; cases y; cases z) (auto simp: f64_le_def)

lemma f64_as_usize_mono:
  assumes "f64_le x y"
  shows "f64_as_usize x \<le> f64_as_usize y"
proof (cases "\<exists>a b. x = Fin a \<and> y = Fin b")
  case True
  then obtain a b where ab: "x = Fin a" "y = Fin b" by blast
  then have "nat \<lfloor>a\<rfloor> \<le> nat \<lfloor>b\<rfloor>" using assms by (intro nat_mono floor_mono) simp
  then show ?thesis unfolding ab f64_as_usize.simps by (rule min.mono) simp
qed (use assms in \<open>cases x; cases y; auto simp: f64_le_def\<close>)

lemma f64_div_100_mono: "f64_le x y \<Longrightarrow> f64_le (f64_div x (Fin 100)) (f64_div y (Fin 100))"
proof (cases "\<exists>a b. x = Fin a \<and> y = Fin b")
  case True
  assume "f64_le x y"
  with True obtain a b where ab: "x = Fin a" "y = Fin b" "a / 100 \<le> b / 100" by auto
  then show ?thesis using rnd_mono[OF ab(3)] by simp
next
  case False
  assume "f64_le x y"
  moreover have "f64_le NInf (rnd a)" "f64_le (rnd a) PInf" for a
    by (cases "rnd a"; use rnd_not_NaN[of a] in \<open>simp add: f64_le_def\<close>)+
  ultimately show ?thesis using False by (cases x; cases y) (auto simp: f64_le_def)
qed

lemma f64_div_100_not_NaN: "x \<noteq> NaN \<Longrightarrow> f64_div x (Fin 100) \<noteq> NaN"
  by (cases x) simp_all

lemma f64_min_mono: "f64_le x y \<Longrightarrow> f64_le (f64_min x (Fin c)) (f64_min y (Fin c))"
  by (cases x; cases y) (auto simp: f64_min_def f64_le_def)

lemma pct_index_mono:
  assumes "p \<le> q" "n \<le> 2 ^ 53"
  shows "pct_index n (Fin p) \<le> pct_index n (Fin q)"
proof -
  have n: "f64_of_nat n = Fin (of_nat n)" "f64_of_nat (n - 1) = Fin (of_nat (n - 1))"
    using assms(2) by (simp_all add: f64_of_nat_exact)
  have "f64_le (f64_mul (f64_of_nat n) (Fin p)) (f64_mul (f64_of_nat n) (Fin q))"
    unfolding n f64_mul.simps using assms(1) by (intro rnd_mono mult_left_mono) simp_all
  then show ?thesis unfolding pct_index_def n(2)
    by (intro f64_as_usize_mono f64_min_mono f64_div_100_mono)
qed

lemma pct_index_less:
  assumes "0 < n" "n \<le> 2 ^ 53" "x \<noteq> NaN"
  shows "f64_as_usize (f64_min x (f64_of_nat (n - 1))) < n"
proof -
  have n1: "f64_of_nat (n - 1) = Fin (of_nat (n - 1))" using assms(2) by (intro f64_of_nat_exact) simp
  have "f64_le (f64_min x (f64_of_nat (n - 1))) (Fin (of_nat (n - 1)))"
    unfolding n1 using assms(3) by (cases x) (auto simp: f64_min_def f64_le_def)
  from f64_as_usize_mono[OF this] have "f64_as_usize (f64_min x (f64_of_nat (n - 1))) \<le> n - 1" by simp
  then show ?thesis using assms(1) by linarith
qed

theorem percentiles_ordered:
  assumes "lats \<noteq> []" "length lats \<le> 2 ^ 53" "\<forall>x \<in> set lats. x \<noteq> NaN" "p \<le> q"
  shows "f64_le (pct (sort_latencies lats) (Fin p)) (pct (sort_latencies lats) (Fin q)) \<and>
    pct (sort_latencies lats) (Fin q) \<in> set lats"
proof -
  let ?s = "sort_latencies lats" and ?n = "length lats"
  have s: "length ?s = ?n" "set ?s = set lats" by (simp_all add: sort_latencies_def)
  then have ne: "?s \<noteq> []" using assms(1) by (metis length_0_conv)
  have n: "f64_of_nat ?n = Fin (of_nat ?n)" using assms(2) by (rule f64_of_nat_exact)
  have "pct_index ?n (Fin p) \<le> pct_index ?n (Fin q)" using assms(4,2) by (rule pct_index_mono)
  moreover have nn: "f64_div (f64_mul (f64_of_nat ?n) (Fin q)) (Fin 100) \<noteq> NaN"
    unfolding n f64_mul.simps by (rule f64_div_100_not_NaN[OF rnd_not_NaN])
  have lt: "pct_index ?n (Fin q) < ?n"
    unfolding pct_index_def by (rule pct_index_less[OF _ assms(2) nn]) (use assms(1) in simp)
  moreover have "sorted_wrt (\<lambda>a b. latency_cmp a b \<noteq> Greater) ?s"
    unfolding sort_latencies_def by (rule by_latency.sort_by_ordered) (use assms(3) in simp)
  ultimately have le: "pct_index ?n (Fin p) = pct_index ?n (Fin q) \<or>
      latency_cmp (?s ! pct_index ?n (Fin p)) (?s ! pct_index ?n (Fin q)) \<noteq> Greater"
    using s(1) lt by (auto simp: sorted_wrt_iff_nth_less le_less)
  have el: "?s ! pct_index ?n (Fin q) \<in> set lats" "?s ! pct_index ?n (Fin p) \<in> set lats"
    using lt s \<open>pct_index ?n (Fin p) \<le> pct_index ?n (Fin q)\<close> by (metis nth_mem order_le_less_trans)+
  have "f64_le (?s ! pct_index ?n (Fin p)) (?s ! pct_index ?n (Fin q))"
    using le el assms(3) by (metis f64_le_refl not_greater_le)
  then show ?thesis using s el(1) ne by (simp add: pct_def)
qed

section \<open>Concrete runs\<close>

text \<open>One request to a local socket: the reply's status 429 is not looked at, and the request is a success.\<close>

lemma one_batch_finished: "batch_reached one_target 1 1 [SpawnTask, AcquirePermit, TaskDone True (Some (429, True)) (Fin 2)] one_batch"
  "batch_finished one_batch"
proof -
  have 0: "batch_reached one_target 1 1 [] (run_batch 1 (load_state 1))" by (rule batch_starts)
  have 1: "batch_reached one_target 1 1 ([] @ [SpawnTask]) (batch_step one_target SpawnTask (run_batch 1 (load_state 1)))"
    by (rule batch_goes_on[OF 0]) (simp add: run_batch_def)
  have 2: "batch_reached one_target 1 1 (([] @ [SpawnTask]) @ [AcquirePermit])
      (batch_step one_target AcquirePermit (batch_step one_target SpawnTask (run_batch 1 (load_state 1))))"
    by (rule batch_goes_on[OF 1]) (simp add: run_batch_def load_state_def)
  from batch_goes_on[OF 2, of "TaskDone True (Some (429, True)) (Fin 2)"]
  show "batch_reached one_target 1 1 [SpawnTask, AcquirePermit, TaskDone True (Some (429, True)) (Fin 2)] one_batch"
    by (simp add: one_batch_def)
  show "batch_finished one_batch"
    by (simp add: one_batch_def batch_finished_def run_batch_def load_state_def)
qed



theorem load_batch_ends_witness: "batch_finished one_batch \<and> \<not> (\<exists>e. batch_enabled e one_batch)"
  using load_batch_ends[OF one_batch_finished(1)] one_batch_finished(2) by simp

theorem pct_index_exact_witness: "pct_index 200 (Fin 99) = 198"
  using pct_index_exact[of 200 99] by simp

theorem percentiles_ordered_witness:
  "f64_le (pct (sort_latencies [Fin 2, Fin 1]) (Fin 50)) (pct (sort_latencies [Fin 2, Fin 1]) (Fin 99))"
  using percentiles_ordered[of "[Fin 2, Fin 1]" 50 99] by simp

end
