(* ===== verification/RouterTests.thy ===== *)
theory RouterTests
  imports Proxy
begin

text \<open>
  The unit tests of the router (module \<open>tests\<close> of \<open>router.rs\<close>) read as statements about the model: one definition per
  test, true when every assertion of the test is, over fixtures named as in the source. The lemmas at the end show
  that the model passes them.
\<close>

section \<open>Fixtures of the router's tests\<close>

definition test_snap :: "string \<Rightarrow> f64 \<Rightarrow> health_snapshot" where
  "test_snap name sc =
     \<lparr>hs_name = name, hs_score = sc, hs_slot_height = Some 100, hs_slot_drift = 0, hs_is_drifting = False,
      hs_latency_ms = Fin 50, hs_error_rate = Fin 0, hs_circuit = Closed, hs_processed = ch_default,
      hs_confirmed = ch_default, hs_finalized = ch_default, hs_rate_limited = False\<rparr>"

definition snap_open :: "string \<Rightarrow> health_snapshot" where
  "snap_open name =
     \<lparr>hs_name = name, hs_score = Fin 0, hs_slot_height = None, hs_slot_drift = 0, hs_is_drifting = False,
      hs_latency_ms = Fin 0, hs_error_rate = Fin 1, hs_circuit = Open, hs_processed = ch_default,
      hs_confirmed = ch_default, hs_finalized = ch_default, hs_rate_limited = False\<rparr>"

definition snap_rate_limited :: "string \<Rightarrow> f64 \<Rightarrow> health_snapshot" where
  "snap_rate_limited name sc = (test_snap name sc)\<lparr>hs_rate_limited := True\<rparr>"

definition test_providers :: "string list \<Rightarrow> provider_config list" where
  "test_providers names =
     map (\<lambda>n. \<lparr>pv_name = n, pv_url = ''http://x'', pv_weight = 1, pv_http3 = False, pv_methods = None,
                pv_max_rps = None, pv_history = Full\<rparr>) names"

definition providers_scoped :: "string list \<Rightarrow> string \<Rightarrow> string \<Rightarrow> provider_config list" where
  "providers_scoped names scoped meth =
     map (\<lambda>p. if pv_name p = scoped then p\<lparr>pv_methods := Some [meth]\<rparr> else p) (test_providers names)"

definition writes :: "string list" where
  "writes = [''sendTransaction'', ''simulateTransaction'']"

text \<open>Indexing a vector, and the order of texts that \<open>sort_unstable\<close> uses.\<close>

definition elem_at :: "nat \<Rightarrow> 'a list \<Rightarrow> 'a option" where
  "elem_at i xs = (if i < length xs then Some (xs ! i) else None)"

fun text_cmp :: "string \<Rightarrow> string \<Rightarrow> ordering" where
  "text_cmp [] [] = Equal"
| "text_cmp [] (d # ds) = Less"
| "text_cmp (c # cs) [] = Greater"
| "text_cmp (c # cs) (d # ds) =
     (if (of_char c :: nat) < of_char d then Less else if (of_char d :: nat) < of_char c then Greater
      else text_cmp cs ds)"

section \<open>Tests of the router\<close>

definition best_score_picks_highest :: bool where
  "best_score_picks_highest \<longleftrightarrow>
     (let snaps = [test_snap ''b'' (rnd (3 / 5)), test_snap ''a'' (rnd (9 / 10)), test_snap ''c'' (rnd (3 / 10))];
          d = route (Fin 0) ''getSlot'' snaps BestScore (test_providers [''a'', ''b'', ''c'']) False writes False in
      elem_at 0 (rd_providers d) = Some ''a'' \<and>
      elem_at 1 (rd_providers d) = Some ''b'' \<and>
      \<not> rd_broadcast d)"

definition write_routes_sequentially_by_default :: bool where
  "write_routes_sequentially_by_default \<longleftrightarrow>
     (let snaps = [test_snap ''a'' (rnd (9 / 10)), test_snap ''b'' (rnd (7 / 10))];
          d = route (Fin 0) ''sendTransaction'' snaps BestScore (test_providers [''a'', ''b'']) False writes False in
      \<not> rd_broadcast d \<and>
      elem_at 0 (rd_providers d) = Some ''a'')"

definition write_broadcasts_when_enabled :: bool where
  "write_broadcasts_when_enabled \<longleftrightarrow>
     (let snaps = [test_snap ''a'' (rnd (9 / 10)), test_snap ''b'' (rnd (7 / 10))];
          d = route (Fin 0) ''sendTransaction'' snaps BestScore (test_providers [''a'', ''b'']) True writes False in
      rd_broadcast d \<and>
      length (rd_providers d) = 2)"

definition open_circuit_excluded_from_reads :: bool where
  "open_circuit_excluded_from_reads \<longleftrightarrow>
     (let snaps = [test_snap ''a'' (rnd (9 / 10)), snap_open ''b'', test_snap ''c'' (rnd (1 / 2))];
          d = route (Fin 0) ''getSlot'' snaps BestScore (test_providers [''a'', ''b'', ''c'']) False writes False in
      \<not> list_ex (\<lambda>p. p = ''b'') (rd_providers d))"

definition open_circuit_excluded_from_writes :: bool where
  "open_circuit_excluded_from_writes \<longleftrightarrow>
     (let snaps = [test_snap ''a'' (rnd (9 / 10)), snap_open ''b'', test_snap ''c'' (rnd (1 / 2))];
          d = route (Fin 0) ''sendTransaction'' snaps BestScore (test_providers [''a'', ''b'', ''c'']) True writes False in
      \<not> list_ex (\<lambda>p. p = ''b'') (rd_providers d) \<and>
      length (rd_providers d) = 2)"

definition all_open_returns_all_providers_as_fallback :: bool where
  "all_open_returns_all_providers_as_fallback \<longleftrightarrow>
     (let snaps = [snap_open ''a'', snap_open ''b''];
          d = route (Fin 0) ''getSlot'' snaps BestScore (test_providers [''a'', ''b'']) False writes False in
      length (rd_providers d) = 2)"

definition full_history_request_excludes_recent_providers :: bool where
  "full_history_request_excludes_recent_providers \<longleftrightarrow>
     (let cfg = test_providers [''shallow'', ''archive''];
          cfg = cfg[0 := (cfg ! 0)\<lparr>pv_history := Recent\<rparr>];
          healthy = [test_snap ''shallow'' (rnd (9 / 10)), test_snap ''archive'' (rnd (1 / 2))];
          d = route (Fin 0) ''getSignaturesForAddress'' healthy BestScore cfg False writes True in
      rd_providers d = [''archive''] \<and>
      (let archive_down = [test_snap ''shallow'' (rnd (9 / 10)), snap_open ''archive''];
          d = route (Fin 0) ''getSignaturesForAddress'' archive_down BestScore cfg False writes True in
      rd_degraded d \<and>
      rd_providers d = [''archive''] \<and>
      (let d = route (Fin 0) ''getSlot'' healthy BestScore cfg False writes False in
      rd_providers d = [''shallow'', ''archive''])))"

definition failover_ordered_respects_config_order :: bool where
  "failover_ordered_respects_config_order \<longleftrightarrow>
     (let snaps = [test_snap ''a'' (rnd (3 / 10)), test_snap ''b'' (rnd (9 / 10)), test_snap ''c'' (rnd (3 / 5))];
          cfg = test_providers [''c'', ''a'', ''b''];
          d = route (Fin 0) ''getSlot'' snaps FailoverOrdered cfg False writes False in
      rd_providers d = [''c'', ''a'', ''b''])"

definition classify_write_methods :: bool where
  "classify_write_methods \<longleftrightarrow>
     classify ''sendTransaction'' writes = Write \<and>
     classify ''simulateTransaction'' writes = Write"

definition classify_read_methods :: bool where
  "classify_read_methods \<longleftrightarrow>
     classify ''getSlot'' writes = Read \<and>
     classify ''getAccountInfo'' writes = Read \<and>
     classify ''getBalance'' writes = Read"

definition classify_honors_custom_write_list :: bool where
  "classify_honors_custom_write_list \<longleftrightarrow>
     classify ''simulateTransaction'' [''sendTransaction''] = Read \<and>
     classify ''sendTransaction'' [''sendTransaction''] = Write"

definition retryable_http_status_codes :: bool where
  "retryable_http_status_codes \<longleftrightarrow>
     list_all (\<lambda>code. is_retryable_http code)
       [429, 500, 501, 502, 503, 504]"

definition non_retryable_http_status_codes :: bool where
  "non_retryable_http_status_codes \<longleftrightarrow>
     list_all (\<lambda>code. \<not> is_retryable_http code)
       [200, 400, 401, 403, 404, 422]"

definition client_attributable_4xx_recognised :: bool where
  "client_attributable_4xx_recognised \<longleftrightarrow>
     list_all (\<lambda>code. is_client_error code)
       [400, 404, 405, 413, 415, 422]"

definition provider_and_auth_statuses_are_not_client_errors :: bool where
  "provider_and_auth_statuses_are_not_client_errors \<longleftrightarrow>
     list_all (\<lambda>code. \<not> is_client_error code)
       [200, 401, 403, 429, 500, 501, 502, 503, 504]"

definition retryable_rpc_error_codes :: bool where
  "retryable_rpc_error_codes \<longleftrightarrow>
     list_all (\<lambda>code. is_retryable_rpc_code code)
       [- 32005, - 32603, - 32014, - 32016]"

definition non_retryable_rpc_error_codes :: bool where
  "non_retryable_rpc_error_codes \<longleftrightarrow>
     list_all (\<lambda>code. \<not> is_retryable_rpc_code code)
       [- 32700, - 32600, - 32601, - 32602, - 32002, - 32003, - 32015, 0, 1]"

definition behind_codes_are_retryable_and_disjoint_from_client_codes :: bool where
  "behind_codes_are_retryable_and_disjoint_from_client_codes \<longleftrightarrow>
     list_all (\<lambda>code. is_behind_rpc_code code \<and> is_retryable_rpc_code code \<and> \<not> is_client_rpc_code code)
       [- 32014, - 32016] \<and>
     \<not> is_behind_rpc_code (- 32005)"

definition client_rpc_codes_are_never_retried_or_gaps :: bool where
  "client_rpc_codes_are_never_retried_or_gaps \<longleftrightarrow>
     list_all (\<lambda>code. is_client_rpc_code code \<and> \<not> is_retryable_rpc_code code \<and> \<not> is_history_gap_code code)
       [- 32700, - 32600, - 32601, - 32602, - 32002, - 32003, - 32006, - 32013, - 32015] \<and>
     list_all (\<lambda>code. \<not> is_client_rpc_code code)
       [- 32005, - 32603, - 32016, - 32001, - 32020, 0]"

definition history_gap_codes_include_signature_filter_miss :: bool where
  "history_gap_codes_include_signature_filter_miss \<longleftrightarrow>
     list_all (\<lambda>code. is_history_gap_code code)
       [- 32001, - 32004, - 32011, - 32019, - 32020] \<and>
     \<not> is_history_gap_code (- 32016)"

definition parallel_race_sets_broadcast_true :: bool where
  "parallel_race_sets_broadcast_true \<longleftrightarrow>
     (let snaps = [test_snap ''a'' (rnd (9 / 10)), test_snap ''b'' (rnd (7 / 10))];
          d = route (Fin 0) ''getSlot'' snaps ParallelRace (test_providers [''a'', ''b'']) False writes False in
      rd_broadcast d \<and>
      rd_providers d = [''a'', ''b''])"

definition single_available_provider_used_when_other_open :: bool where
  "single_available_provider_used_when_other_open \<longleftrightarrow>
     (let snaps = [snap_open ''a'', test_snap ''b'' (rnd (4 / 5))];
          d = route (Fin 0) ''getSlot'' snaps BestScore (test_providers [''a'', ''b'']) False writes False in
      rd_providers d = [''b''] \<and>
      \<not> rd_broadcast d)"

definition submit_only_provider_excluded_from_reads :: bool where
  "submit_only_provider_excluded_from_reads \<longleftrightarrow>
     (let snaps = [test_snap ''read'' (rnd (9 / 10)), test_snap ''send'' (rnd (19 / 20))];
          cfg = providers_scoped [''read'', ''send''] ''send'' ''sendTransaction'';
          d = route (Fin 0) ''getSlot'' snaps BestScore cfg True writes False in
      rd_providers d = [''read''] \<and>
      \<not> rd_broadcast d)"

definition submit_only_provider_included_in_write_broadcast :: bool where
  "submit_only_provider_included_in_write_broadcast \<longleftrightarrow>
     (let snaps = [test_snap ''read'' (rnd (9 / 10)), test_snap ''send'' (rnd (19 / 20))];
          cfg = providers_scoped [''read'', ''send''] ''send'' ''sendTransaction'';
          d = route (Fin 0) ''sendTransaction'' snaps BestScore cfg True writes False in
      rd_broadcast d \<and>
      sort_by text_cmp (rd_providers d) = [''read'', ''send''])"

definition unsupported_method_yields_no_providers :: bool where
  "unsupported_method_yields_no_providers \<longleftrightarrow>
     (let snaps = [test_snap ''send'' (rnd (19 / 20))];
          cfg = providers_scoped [''send''] ''send'' ''sendTransaction'';
          d = route (Fin 0) ''getAccountInfo'' snaps BestScore cfg True writes False in
      rd_providers d = [])"

definition submit_only_provider_used_when_others_open :: bool where
  "submit_only_provider_used_when_others_open \<longleftrightarrow>
     (let snaps = [snap_open ''read'', snap_open ''send''];
          cfg = providers_scoped [''read'', ''send''] ''send'' ''sendTransaction'';
          d = route (Fin 0) ''getSlot'' snaps BestScore cfg True writes False in
      rd_providers d = [''read''])"

definition rate_limited_provider_excluded_from_reads :: bool where
  "rate_limited_provider_excluded_from_reads \<longleftrightarrow>
     (let snaps = [test_snap ''a'' (rnd (3 / 5)), snap_rate_limited ''b'' (rnd (9 / 10)), test_snap ''c'' (rnd (1 / 2))];
          d = route (Fin 0) ''getSlot'' snaps BestScore (test_providers [''a'', ''b'', ''c'']) False writes False in
      \<not> list_ex (\<lambda>p. p = ''b'') (rd_providers d) \<and>
      elem_at 0 (rd_providers d) = Some ''a'' \<and>
      \<not> rd_degraded d)"

definition all_rate_limited_returns_degraded_fallback :: bool where
  "all_rate_limited_returns_degraded_fallback \<longleftrightarrow>
     (let snaps = [snap_rate_limited ''a'' (rnd (9 / 10)), snap_rate_limited ''b'' (rnd (7 / 10))];
          d = route (Fin 0) ''getSlot'' snaps BestScore (test_providers [''a'', ''b'']) False writes False in
      length (rd_providers d) = 2 \<and>
      rd_degraded d)"

definition normal_decision_is_not_degraded :: bool where
  "normal_decision_is_not_degraded \<longleftrightarrow>
     (let snaps = [test_snap ''a'' (rnd (9 / 10)), test_snap ''b'' (rnd (7 / 10))];
          d = route (Fin 0) ''getSlot'' snaps BestScore (test_providers [''a'', ''b'']) False writes False in
      \<not> rd_degraded d)"

definition extract_rpc_error_code_works :: bool where
  "extract_rpc_error_code_works \<longleftrightarrow>
     extract_rpc_error_code (\<lambda>_. Some (JObj [(''jsonrpc'', JStr False ''2.0''),
       (''error'', JObj [(''code'', JInt (- 32603)), (''message'', JStr False ''Internal error'')]), (''id'', JInt 1)])) [] =
       Some (- 32603)"

definition extract_rpc_error_code_missing :: bool where
  "extract_rpc_error_code_missing \<longleftrightarrow>
     extract_rpc_error_code (\<lambda>_. Some (JObj [(''jsonrpc'', JStr False ''2.0''), (''result'', JInt 100),
       (''id'', JInt 1)])) [] = None"

section \<open>They hold of the model\<close>

text \<open>Comparing the decimal scores of the tests.\<close>

lemma score_order:
  "f64_lt (rnd (3 / 10)) (rnd (1 / 2))"
  "f64_lt (rnd (3 / 10)) (rnd (3 / 5))"
  "f64_lt (rnd (3 / 10)) (rnd (7 / 10))"
  "f64_lt (rnd (3 / 10)) (rnd (4 / 5))"
  "f64_lt (rnd (3 / 10)) (rnd (9 / 10))"
  "f64_lt (rnd (3 / 10)) (rnd (19 / 20))"
  "f64_lt (rnd (1 / 2)) (rnd (3 / 5))"
  "f64_lt (rnd (1 / 2)) (rnd (7 / 10))"
  "f64_lt (rnd (1 / 2)) (rnd (4 / 5))"
  "f64_lt (rnd (1 / 2)) (rnd (9 / 10))"
  "f64_lt (rnd (1 / 2)) (rnd (19 / 20))"
  "f64_lt (rnd (3 / 5)) (rnd (7 / 10))"
  "f64_lt (rnd (3 / 5)) (rnd (4 / 5))"
  "f64_lt (rnd (3 / 5)) (rnd (9 / 10))"
  "f64_lt (rnd (3 / 5)) (rnd (19 / 20))"
  "f64_lt (rnd (7 / 10)) (rnd (4 / 5))"
  "f64_lt (rnd (7 / 10)) (rnd (9 / 10))"
  "f64_lt (rnd (7 / 10)) (rnd (19 / 20))"
  "f64_lt (rnd (4 / 5)) (rnd (9 / 10))"
  "f64_lt (rnd (4 / 5)) (rnd (19 / 20))"
  "f64_lt (rnd (9 / 10)) (rnd (19 / 20))"
proof -
  show "f64_lt (rnd (3 / 10)) (rnd (1 / 2))" by (rule rnd_separated[of _ 308]) simp_all
  show "f64_lt (rnd (3 / 10)) (rnd (3 / 5))" by (rule rnd_separated[of _ 308]) simp_all
  show "f64_lt (rnd (3 / 10)) (rnd (7 / 10))" by (rule rnd_separated[of _ 308]) simp_all
  show "f64_lt (rnd (3 / 10)) (rnd (4 / 5))" by (rule rnd_separated[of _ 308]) simp_all
  show "f64_lt (rnd (3 / 10)) (rnd (9 / 10))" by (rule rnd_separated[of _ 308]) simp_all
  show "f64_lt (rnd (3 / 10)) (rnd (19 / 20))" by (rule rnd_separated[of _ 308]) simp_all
  show "f64_lt (rnd (1 / 2)) (rnd (3 / 5))" by (rule rnd_separated[of _ 512]) simp_all
  show "f64_lt (rnd (1 / 2)) (rnd (7 / 10))" by (rule rnd_separated[of _ 512]) simp_all
  show "f64_lt (rnd (1 / 2)) (rnd (4 / 5))" by (rule rnd_separated[of _ 512]) simp_all
  show "f64_lt (rnd (1 / 2)) (rnd (9 / 10))" by (rule rnd_separated[of _ 512]) simp_all
  show "f64_lt (rnd (1 / 2)) (rnd (19 / 20))" by (rule rnd_separated[of _ 512]) simp_all
  show "f64_lt (rnd (3 / 5)) (rnd (7 / 10))" by (rule rnd_separated[of _ 615]) simp_all
  show "f64_lt (rnd (3 / 5)) (rnd (4 / 5))" by (rule rnd_separated[of _ 615]) simp_all
  show "f64_lt (rnd (3 / 5)) (rnd (9 / 10))" by (rule rnd_separated[of _ 615]) simp_all
  show "f64_lt (rnd (3 / 5)) (rnd (19 / 20))" by (rule rnd_separated[of _ 615]) simp_all
  show "f64_lt (rnd (7 / 10)) (rnd (4 / 5))" by (rule rnd_separated[of _ 717]) simp_all
  show "f64_lt (rnd (7 / 10)) (rnd (9 / 10))" by (rule rnd_separated[of _ 717]) simp_all
  show "f64_lt (rnd (7 / 10)) (rnd (19 / 20))" by (rule rnd_separated[of _ 717]) simp_all
  show "f64_lt (rnd (4 / 5)) (rnd (9 / 10))" by (rule rnd_separated[of _ 820]) simp_all
  show "f64_lt (rnd (4 / 5)) (rnd (19 / 20))" by (rule rnd_separated[of _ 820]) simp_all
  show "f64_lt (rnd (9 / 10)) (rnd (19 / 20))" by (rule rnd_separated[of _ 922]) simp_all
qed

lemmas score_not_order = score_order[THEN f64_lt_asym]

lemmas fixtures = test_snap_def snap_open_def snap_rate_limited_def test_providers_def providers_scoped_def writes_def

lemmas routing = route_def eligible_def is_available_def route_supports_def supports_def classify_def sort_by_def
  score_cmp_Greater score_order score_not_order failover_ordered_def List.map_filter_def elem_at_def

lemma rpc_code_tests_hold:
  "classify_write_methods" "classify_read_methods" "classify_honors_custom_write_list" "retryable_http_status_codes" "non_retryable_http_status_codes" "client_attributable_4xx_recognised" "provider_and_auth_statuses_are_not_client_errors" "retryable_rpc_error_codes" "non_retryable_rpc_error_codes" "behind_codes_are_retryable_and_disjoint_from_client_codes" "client_rpc_codes_are_never_retried_or_gaps" "history_gap_codes_include_signature_filter_miss" "extract_rpc_error_code_works" "extract_rpc_error_code_missing"
  by (simp_all add: classify_write_methods_def classify_read_methods_def classify_honors_custom_write_list_def retryable_http_status_codes_def non_retryable_http_status_codes_def client_attributable_4xx_recognised_def provider_and_auth_statuses_are_not_client_errors_def retryable_rpc_error_codes_def non_retryable_rpc_error_codes_def behind_codes_are_retryable_and_disjoint_from_client_codes_def client_rpc_codes_are_never_retried_or_gaps_def history_gap_codes_include_signature_filter_miss_def extract_rpc_error_code_works_def extract_rpc_error_code_missing_def
    is_retryable_http_def is_client_error_def is_behind_rpc_code_def is_retryable_rpc_code_def is_client_rpc_code_def
    is_history_gap_code_def classify_def writes_def extract_rpc_error_code_def de_struct1_def de_option_def de_i64_def)

lemma routing_tests_hold:
  "best_score_picks_highest" "write_routes_sequentially_by_default" "write_broadcasts_when_enabled" "open_circuit_excluded_from_reads" "open_circuit_excluded_from_writes" "all_open_returns_all_providers_as_fallback" "full_history_request_excludes_recent_providers" "failover_ordered_respects_config_order" "parallel_race_sets_broadcast_true" "single_available_provider_used_when_other_open" "submit_only_provider_excluded_from_reads" "submit_only_provider_included_in_write_broadcast" "unsupported_method_yields_no_providers" "submit_only_provider_used_when_others_open" "rate_limited_provider_excluded_from_reads" "all_rate_limited_returns_degraded_fallback" "normal_decision_is_not_degraded"
  by (simp_all add: best_score_picks_highest_def write_routes_sequentially_by_default_def write_broadcasts_when_enabled_def open_circuit_excluded_from_reads_def open_circuit_excluded_from_writes_def all_open_returns_all_providers_as_fallback_def full_history_request_excludes_recent_providers_def failover_ordered_respects_config_order_def parallel_race_sets_broadcast_true_def single_available_provider_used_when_other_open_def submit_only_provider_excluded_from_reads_def submit_only_provider_included_in_write_broadcast_def unsupported_method_yields_no_providers_def submit_only_provider_used_when_others_open_def rate_limited_provider_excluded_from_reads_def all_rate_limited_returns_degraded_fallback_def normal_decision_is_not_degraded_def
    Let_def fixtures routing)

end
