(* ===== verification/HealthTests.thy ===== *)
theory HealthTests
  imports Monitor RouterTests
begin

text \<open>
  The unit tests of \<open>health.rs\<close> read as statements about the model: slots, window, circuit, round tips, token bucket
  and monitor. Clock readings within one test are equal unless the test moves them. The tests that compare
  inexact values are those of \<open>ScoreTests\<close>.
\<close>

section \<open>Fixtures of the tests of \<open>health.rs\<close>\<close>

definition tips :: "u64 \<Rightarrow> tip_source" where
  "tips slot = tip_of_latest \<lparr>st_processed = slot, st_confirmed = slot, st_finalized = slot\<rparr>"

definition update_slot :: "u64 \<Rightarrow> inner \<Rightarrow> inner" where
  "update_slot slot g = g\<lparr>in_slots := (in_slots g)\<lparr>cs_processed := Some slot\<rparr>\<rparr>"

definition update_slots :: "commitment_slots \<Rightarrow> inner \<Rightarrow> inner" where
  "update_slots s g = update_slots_in_round s None g"

text \<open>The tests do not wait: every clock reading of a test is the same.\<close>

definition rec_now :: "bool \<Rightarrow> f64 \<Rightarrow> bool \<Rightarrow> health_config \<Rightarrow> inner \<Rightarrow> inner" where
  "rec_now ok ms is_probe cfg g = ph_record (0, 0, 0) ok ms is_probe cfg g"

definition throttle_now :: "f64 \<Rightarrow> health_config \<Rightarrow> inner \<Rightarrow> inner" where
  "throttle_now ms cfg g = ph_record_throttled (0, 0, 0) ms cfg g"

definition push_now :: "bool \<Rightarrow> f64 \<Rightarrow> bool \<Rightarrow> u64 \<Rightarrow> inner \<Rightarrow> inner" where
  "push_now ok ms upd w g = push_result 0 0 ok ms upd w g"

definition all_slots :: "u64 \<Rightarrow> u64 \<Rightarrow> u64 \<Rightarrow> commitment_slots" where
  "all_slots p c f = \<lparr>cs_processed = Some p, cs_confirmed = Some c, cs_finalized = Some f\<rparr>"

definition test_slots :: "u64 \<Rightarrow> commitment_slots" where
  "test_slots processed = all_slots processed (processed - 1) (processed - 1)"

section \<open>Tests of one provider's health\<close>

definition score_open_circuit_is_zero :: bool where
  "score_open_circuit_is_zero \<longleftrightarrow>
     f64_eq (score (inner_new\<lparr>in_circuit := Open\<rparr>) (tips 100) default_health) (Fin 0)"

definition error_rate_empty_window_is_zero :: bool where
  "error_rate_empty_window_is_zero \<longleftrightarrow> f64_eq (error_rate inner_new) (Fin 0)"

definition circuit_opens_after_consecutive_failures :: bool where
  "circuit_opens_after_consecutive_failures \<longleftrightarrow>
     (let cfg = default_health\<lparr>hc_circuit_open_failures := 3\<rparr>;
          snap = snapshot ''test'' ((rec_now False (Fin 0) True cfg ^^ 3) inner_new) (tips 0) cfg in
      hs_circuit snap = Open \<and> \<not> is_available snap)"

definition slot_drift_and_is_drifting_populated :: bool where
  "slot_drift_and_is_drifting_populated \<longleftrightarrow>
     (let ph = update_slot 980 inner_new;
          s = snapshot ''test'' ph (tips 1000) default_health;
          s' = snapshot ''test'' ph (tips 985) default_health in
      hs_slot_drift s = 20 \<and> hs_is_drifting s \<and> hs_slot_drift s' = 5 \<and> \<not> hs_is_drifting s')"

definition latency_ema_first_sample_sets_to_value :: bool where
  "latency_ema_first_sample_sets_to_value \<longleftrightarrow>
     f64_eq (in_latency_ema_ms (push_now True (Fin 120) True 60 inner_new)) (Fin 120)"

definition latency_ema_unchanged_on_failure :: bool where
  "latency_ema_unchanged_on_failure \<longleftrightarrow>
     f64_eq (in_latency_ema_ms (push_now False (Fin 9999) True 60 (push_now True (Fin 100) True 60 inner_new)))
       (Fin 100)"

definition latency_ema_ignores_live_outcomes :: bool where
  "latency_ema_ignores_live_outcomes \<longleftrightarrow>
     (let g = push_now True (Fin 900) False 60 (push_now True (Fin 100) True 60 inner_new) in
      f64_eq (in_latency_ema_ms g) (Fin 100) \<and> f64_eq (error_rate g) (Fin 0) \<and> length (in_window g) = 2)"

definition not_drifting_when_no_slot_data :: bool where
  "not_drifting_when_no_slot_data \<longleftrightarrow>
     (let snap = snapshot ''test'' inner_new (tips 1000) default_health in
      hs_slot_height snap = None \<and> hs_slot_drift snap = 0 \<and> \<not> hs_is_drifting snap)"

definition circuit_stays_closed_below_threshold :: bool where
  "circuit_stays_closed_below_threshold \<longleftrightarrow>
     (let cfg = default_health\<lparr>hc_circuit_open_failures := 5, hc_circuit_error_threshold := rnd (11 / 10)\<rparr> in
      hs_circuit (snapshot ''test'' ((rec_now False (Fin 0) True cfg ^^ 4) inner_new) (tips 0) cfg) = Closed)"

definition one_failure_no_cooldown :: health_config where
  "one_failure_no_cooldown =
     default_health\<lparr>hc_circuit_open_failures := 1, hc_circuit_cooldown_secs := 0,
       hc_circuit_error_threshold := rnd (11 / 10)\<rparr>"

definition circuit_full_lifecycle_closed_open_halfopen_closed :: bool where
  "circuit_full_lifecycle_closed_open_halfopen_closed \<longleftrightarrow>
     (let cfg = one_failure_no_cooldown; snap = (\<lambda>g. snapshot ''t'' g (tips 0) cfg);
          g1 = rec_now False (Fin 0) True cfg inner_new;
          g2 = rec_now True (Fin 10) True cfg g1;
          g3 = rec_now True (Fin 10) True cfg g2 in
      hs_circuit (snap g1) = Open \<and> hs_circuit (snap g2) = HalfOpen \<and> hs_circuit (snap g3) = Closed \<and>
      is_available (snap g3))"

definition circuit_halfopen_failure_reopens :: bool where
  "circuit_halfopen_failure_reopens \<longleftrightarrow>
     (let cfg = one_failure_no_cooldown; snap = (\<lambda>g. snapshot ''t'' g (tips 0) cfg);
          g1 = rec_now False (Fin 0) True cfg inner_new;
          g2 = rec_now False (Fin 0) True cfg g1;
          g3 = rec_now False (Fin 0) True cfg g2 in
      hs_circuit (snap g2) = HalfOpen \<and> hs_circuit (snap g3) = Open \<and> \<not> is_available (snap g3))"

definition throttle_is_neutral_to_the_hard_failure_streak :: bool where
  "throttle_is_neutral_to_the_hard_failure_streak \<longleftrightarrow>
     (let cfg = default_health\<lparr>hc_circuit_open_failures := 3, hc_circuit_error_threshold := rnd (11 / 10)\<rparr>;
          g3 = rec_now False (Fin 0) True cfg (throttle_now (Fin 0) cfg (rec_now False (Fin 0) True cfg inner_new));
          g4 = rec_now False (Fin 0) True cfg g3 in
      hs_circuit (snapshot ''t'' g3 (tips 0) cfg) = Closed \<and> hs_circuit (snapshot ''t'' g4 (tips 0) cfg) = Open)"

definition throttle_storm_never_trips_error_rate_circuit :: bool where
  "throttle_storm_never_trips_error_rate_circuit \<longleftrightarrow>
     (let cfg = default_health\<lparr>hc_circuit_open_failures := 100, hc_circuit_error_threshold := rnd (1 / 2)\<rparr>;
          snap = snapshot ''t'' ((throttle_now (Fin 0) cfg ^^ 20) inner_new) (tips 0) cfg in
      hs_circuit snap = Closed \<and> f64_eq (hs_error_rate snap) (Fin 1))"

definition live_outcomes_feed_circuit_but_not_the_scoring_ema :: bool where
  "live_outcomes_feed_circuit_but_not_the_scoring_ema \<longleftrightarrow>
     (let cfg = default_health\<lparr>hc_circuit_open_failures := 3\<rparr>;
          g = rec_now True (Fin 5000) False cfg (rec_now True (Fin 40) True cfg inner_new);
          g' = (rec_now False (Fin 0) False cfg ^^ 3) g in
      f64_eq (hs_latency_ms (snapshot ''t'' g (tips 0) cfg)) (Fin 40) \<and>
      hs_circuit (snapshot ''t'' g' (tips 0) cfg) = Open)"

definition window_prunes_entries_older_than_window_secs :: bool where
  "window_prunes_entries_older_than_window_secs \<longleftrightarrow>
     (let old = 0 - int (duration_from_secs 120); g = inner_new\<lparr>in_window := [(old, Success), (old, Failure)]\<rparr> in
      length (in_window g) = 2 \<and> length (in_window (prune_window 0 60 g)) = 0)"

definition window_keeps_entries_within_window_secs :: bool where
  "window_keeps_entries_within_window_secs \<longleftrightarrow>
     (let g = inner_new\<lparr>in_window := [(0 - int (duration_from_secs 10), Success)]\<rparr> in
      length (in_window (prune_window 0 60 g)) = 1)"

definition window_evicts_old_but_keeps_new_entries :: bool where
  "window_evicts_old_but_keeps_new_entries \<longleftrightarrow>
     (let old = 0 - int (duration_from_secs 90); recent = 0 - int (duration_from_secs 5);
          g = prune_window 0 60 (inner_new\<lparr>in_window := [(old, Failure), (old, Success), (recent, Success)]\<rparr>) in
      length (in_window g) = 1 \<and> map_option snd (elem_at 0 (in_window g)) = Some Success)"

definition round_tips_keep_rounds_apart_and_ignore_stragglers :: bool where
  "round_tips_keep_rounds_apart_and_ignore_stragglers \<longleftrightarrow>
     (let r = rt_observe (rt_observe (rt_observe rt_default 5 (test_slots 1000)) 5 (test_slots 1002)) 6 (test_slots 1140);
          r' = rt_observe r 9 (test_slots 1600);
          r'' = rt_observe r' 5 (test_slots 1003) in
      map_option st_processed (rt_get r 5) = Some 1002 \<and> map_option st_processed (rt_get r 6) = Some 1140 \<and>
      rt_get r 7 = None \<and> rt_get r' 5 = None \<and> map_option st_processed (rt_get r'' 9) = Some 1600 \<and>
      rt_get r'' 5 = None)"

definition drift_compares_against_the_samples_own_round :: bool where
  "drift_compares_against_the_samples_own_round \<longleftrightarrow>
     (let cfg = default_health;
          ring = rt_observe (rt_observe (rt_observe rt_default 5 (test_slots 1000)) 5 (test_slots 1000)) 6 (test_slots 1140);
          a = update_slots_in_round (test_slots 1000) (Some 5) inner_new;
          b = update_slots_in_round (test_slots 1140) (Some 6) (update_slots_in_round (test_slots 1000) (Some 5) inner_new);
          latest = \<lparr>st_processed = 1140, st_confirmed = 1139, st_finalized = 1139\<rparr>;
          book = \<lparr>tb_latest = latest, tb_rounds = ring\<rparr>;
          snap = snapshot ''a'' a (tip_of_book book) cfg; snapb = snapshot ''b'' b (tip_of_book book) cfg;
          stale = update_slots_in_round (test_slots 900) (Some 1) inner_new;
          late = update_slots_in_round (test_slots 1130) None inner_new in
      hs_slot_drift snap = 0 \<and> \<not> hs_is_drifting snap \<and> hs_slot_drift snapb = 0 \<and>
      f64_eq (hs_score snap) (hs_score snapb) \<and>
      hs_slot_drift (snapshot ''a'' a (tip_of_latest latest) cfg) = 140 \<and>
      hs_slot_drift (snapshot ''stale'' stale (tip_of_book book) cfg) = 240 \<and>
      hs_slot_drift (snapshot ''late'' late (tip_of_book book) cfg) = 10)"

definition a_failed_leg_keeps_its_earlier_round :: bool where
  "a_failed_leg_keeps_its_earlier_round \<longleftrightarrow>
     (let g = update_slots_in_round \<lparr>cs_processed = Some 1005, cs_confirmed = None, cs_finalized = None\<rparr> (Some 6)
            (update_slots_in_round (test_slots 1000) (Some 5) inner_new) in
      cr_processed (in_rounds g) = Some 6 \<and> cr_confirmed (in_rounds g) = Some 5 \<and>
      cs_confirmed (in_slots g) = Some 999)"

definition finalized_drift_measured_against_finalized_tip :: bool where
  "finalized_drift_measured_against_finalized_tip \<longleftrightarrow>
     (let ph = update_slots (all_slots 1000 998 968) inner_new;
          snap = snapshot ''p'' ph (tip_of_latest \<lparr>st_processed = 1000, st_confirmed = 1000, st_finalized = 968\<rparr>) default_health in
      ch_drift (hs_finalized snap) = 0 \<and> \<not> ch_is_drifting (hs_finalized snap) \<and> hs_slot_drift snap = 2 \<and>
      \<not> hs_is_drifting snap)"

definition update_slots_merges_partial_probe :: bool where
  "update_slots_merges_partial_probe \<longleftrightarrow>
     (let ph = update_slots (cs_default\<lparr>cs_processed := Some 1005\<rparr>) (update_slots (all_slots 1000 990 950) inner_new);
          snap = snapshot ''p'' ph (tip_of_latest \<lparr>st_processed = 1005, st_confirmed = 990, st_finalized = 950\<rparr>) default_health in
      ch_slot (hs_processed snap) = Some 1005 \<and> ch_slot (hs_confirmed snap) = Some 990 \<and>
      ch_slot (hs_finalized snap) = Some 950)"

text \<open>States whose samples were all taken at the same time.\<close>

definition probed :: "circuit_state \<Rightarrow> instant option \<Rightarrow> u32 \<Rightarrow> f64 \<Rightarrow> sample list \<Rightarrow> inner" where
  "probed c opened failures ema samples =
     \<lparr>in_slots = cs_default, in_rounds = cr_default, in_latency_ema_ms = ema, in_consecutive_failures = failures,
      in_circuit = c, in_circuit_opened_at = opened, in_window = map (Pair 0) samples\<rparr>"

text \<open>
  The tests put an entry into the map without starting its loop. \<open>insert_test\<close> does so with a given health and
  rate limiter.
\<close>

definition insert_test :: "string \<Rightarrow> inner \<Rightarrow> token_bucket option \<Rightarrow> monitor \<Rightarrow> monitor" where
  "insert_test name g limiter m =
     m\<lparr>mo_entries := AList.update name
           \<lparr>pe_health = length (mo_healths m), pe_limiter = limiter, pe_stop = length (mo_stops m)\<rparr> (mo_entries m),
       mo_healths := mo_healths m @ [(name, g)], mo_stops := mo_stops m @ [False]\<rparr>"

definition test_monitor :: "health_config \<Rightarrow> monitor" where
  "test_monitor cfg = monitor_new 0 [] cfg []"

definition insert_slots :: "string \<Rightarrow> commitment_slots \<Rightarrow> monitor \<Rightarrow> monitor" where
  "insert_slots name s m = insert_test name (update_slots s inner_new) None m"

definition insert_capped :: "string \<Rightarrow> u32 option \<Rightarrow> monitor \<Rightarrow> monitor" where
  "insert_capped name max_rps m = insert_test name inner_new (build_limiter 0 max_rps) m"

definition monitor_with_reference :: "string option \<Rightarrow> monitor" where
  "monitor_with_reference url = test_monitor (default_health\<lparr>hc_reference_url := url\<rparr>)"

definition slot_tip :: "monitor \<Rightarrow> u64" where
  "slot_tip m = st_processed (latest_tips m)"

definition monitor_update_slot :: "string \<Rightarrow> u64 \<Rightarrow> monitor \<Rightarrow> monitor" where
  "monitor_update_slot name slot m = update_health name (update_slot slot) m"

definition monitor_update_slot_propagates :: bool where
  "monitor_update_slot_propagates \<longleftrightarrow>
     (let p = \<lparr>pv_name = ''p'', pv_url = ''http://127.0.0.1:1'', pv_weight = 1, pv_http3 = False, pv_methods = None,
               pv_max_rps = None, pv_history = Full\<rparr>;
          m = insert_test ''p'' inner_new None (monitor_new 0 [p] default_health []) in
      slot_tip (monitor_update_slot ''p'' 42000 m) = 42000)"

definition add_and_remove_provider :: bool where
  "add_and_remove_provider \<longleftrightarrow>
     (let m = test_monitor default_health; m' = insert_test ''test'' inner_new None m in
      length (fst (snapshots 0 m)) = 0 \<and> length (fst (snapshots 0 m')) = 1 \<and>
      length (fst (snapshots 0 (remove_provider ''test'' m'))) = 0)"

definition slot_tips_are_computed_per_commitment :: bool where
  "slot_tips_are_computed_per_commitment \<longleftrightarrow>
     (let m = insert_slots ''b'' (all_slots 998 995 970) (insert_slots ''a'' (all_slots 1000 990 950) (test_monitor default_health)) in
      latest_tips m = \<lparr>st_processed = 1000, st_confirmed = 995, st_finalized = 970\<rparr> \<and> slot_tip m = 1000)"

definition reference_tip_none_when_unconfigured :: bool where
  "reference_tip_none_when_unconfigured \<longleftrightarrow> reference_tip (monitor_with_reference None) = None"

definition reference_tip_some_when_configured :: bool where
  "reference_tip_some_when_configured \<longleftrightarrow>
     (case reference_tip (monitor_with_reference (Some ''https://api.mainnet-beta.solana.com'')) of
        None \<Rightarrow> False | Some tip \<Rightarrow> cs_processed tip = None)"

definition reference_ahead_pins_tip_and_reveals_all_stale_drift :: bool where
  "reference_ahead_pins_tip_and_reveals_all_stale_drift \<longleftrightarrow>
     (let m = insert_slots ''b'' (all_slots 1000 1000 968)
            (insert_slots ''a'' (all_slots 1000 1000 968) (monitor_with_reference (Some ''https://ref.example'')));
          m = m\<lparr>mo_reference_slots := all_slots 1100 1100 1068\<rparr> in
      slot_tip m = 1100 \<and> list_all (\<lambda>s. hs_slot_drift s = 100 \<and> hs_is_drifting s) (fst (snapshots 0 m)))"

definition single_provider_gets_a_checkpoint_from_the_reference :: bool where
  "single_provider_gets_a_checkpoint_from_the_reference \<longleftrightarrow>
     (let m = insert_slots ''own-node'' (all_slots 500 500 468) (monitor_with_reference (Some ''https://ref.example''));
          m = m\<lparr>mo_reference_slots := all_slots 550 550 518\<rparr> in
      case elem_at 0 (fst (snapshots 0 m)) of None \<Rightarrow> False | Some s \<Rightarrow> hs_slot_drift s = 50 \<and> hs_is_drifting s)"

definition stale_reference_never_raises_drift_falsely :: bool where
  "stale_reference_never_raises_drift_falsely \<longleftrightarrow>
     (let m = insert_slots ''fresh'' (all_slots 2000 2000 1968) (monitor_with_reference (Some ''https://ref.example''));
          m = m\<lparr>mo_reference_slots := all_slots 1000 1000 968\<rparr> in
      slot_tip m = 2000 \<and>
      (case elem_at 0 (fst (snapshots 0 m)) of None \<Rightarrow> False | Some s \<Rightarrow> hs_slot_drift s = 0 \<and> \<not> hs_is_drifting s))"

definition unconfigured_reference_is_a_noop_for_the_tip :: bool where
  "unconfigured_reference_is_a_noop_for_the_tip \<longleftrightarrow>
     (let m = insert_slots ''a'' (all_slots 1000 1000 968) (monitor_with_reference None) in
      slot_tip m = 1000 \<and>
      (case elem_at 0 (fst (snapshots 0 m)) of None \<Rightarrow> False | Some s \<Rightarrow> hs_slot_drift s = 0))"

text \<open>The results of a sequence of acquisitions without time between them.\<close>

fun acquire_times :: "nat \<Rightarrow> token_bucket \<Rightarrow> bool list \<times> token_bucket" where
  "acquire_times 0 b = ([], b)"
| "acquire_times (Suc n) b =
     (case bucket_try_acquire 0 b of (g, b) \<Rightarrow> case acquire_times n b of (gs, b) \<Rightarrow> (g # gs, b))"

definition token_bucket_drains_then_blocks :: bool where
  "token_bucket_drains_then_blocks \<longleftrightarrow>
     (case acquire_times 3 (bucket_new 0 2) of (gs, b) \<Rightarrow>
        gs = [True, True, False] \<and> \<not> fst (bucket_has_capacity 0 b))"

definition token_bucket_refill_capped_at_capacity :: bool where
  "token_bucket_refill_capped_at_capacity \<longleftrightarrow>
     (let b = (bucket_new 0 5)\<lparr>tk_tokens := Fin 0, tk_last := 0 - int (duration_from_secs 100)\<rparr> in
      f64_eq (tk_tokens (refill 0 b)) (Fin 5))"

definition has_capacity_does_not_spend_a_token :: bool where
  "has_capacity_does_not_spend_a_token \<longleftrightarrow>
     (case bucket_has_capacity 0 (bucket_new 0 1) of (c1, b) \<Rightarrow>
      case bucket_has_capacity 0 b of (c2, b) \<Rightarrow>
      case acquire_times 2 b of (gs, b) \<Rightarrow> c1 \<and> c2 \<and> gs = [True, False])"

definition reconfigure_clamps_tokens_to_new_capacity :: bool where
  "reconfigure_clamps_tokens_to_new_capacity \<longleftrightarrow>
     (let b = bucket_reconfigure 0 10 (bucket_new 0 100) in
      f64_eq (tk_capacity b) (Fin 10) \<and> f64_eq (tk_rate b) (Fin 10) \<and> f64_le (tk_tokens b) (Fin 10))"

fun monitor_acquire_times :: "nat \<Rightarrow> string \<Rightarrow> monitor \<Rightarrow> bool list \<times> monitor" where
  "monitor_acquire_times 0 name m = ([], m)"
| "monitor_acquire_times (Suc n) name m =
     (case try_acquire 0 name m of (g, m) \<Rightarrow> case monitor_acquire_times n name m of (gs, m) \<Rightarrow> (g # gs, m))"

definition snapshot_marks_exhausted_bucket_rate_limited :: bool where
  "snapshot_marks_exhausted_bucket_rate_limited \<longleftrightarrow>
     (let m = insert_capped ''capped'' (Some 1) (test_monitor default_health) in
      case snapshots 0 m of (snaps, m) \<Rightarrow>
      case try_acquire 0 ''capped'' m of (granted, m) \<Rightarrow>
      case (elem_at 0 snaps, elem_at 0 (fst (snapshots 0 m))) of
        (Some s, Some s') \<Rightarrow>
          \<not> hs_rate_limited s \<and> is_available s \<and> granted \<and> hs_rate_limited s' \<and> \<not> is_available s'
      | _ \<Rightarrow> False)"

definition try_acquire_unlimited_provider_always_true :: bool where
  "try_acquire_unlimited_provider_always_true \<longleftrightarrow>
     (case monitor_acquire_times 1000 ''unlimited'' (insert_capped ''unlimited'' None (test_monitor default_health)) of (gs, m) \<Rightarrow>
        list_all id gs \<and> map_option hs_rate_limited (elem_at 0 (fst (snapshots 0 m))) = Some False)"

definition try_acquire_unknown_provider_is_true :: bool where
  "try_acquire_unknown_provider_is_true \<longleftrightarrow> fst (try_acquire 0 ''ghost'' (test_monitor default_health))"

definition apply_rate_limit_installs_updates_and_removes :: bool where
  "apply_rate_limit_installs_updates_and_removes \<longleftrightarrow>
     (case monitor_acquire_times 10 ''p'' (insert_capped ''p'' None (test_monitor default_health)) of (g1, m) \<Rightarrow>
      case monitor_acquire_times 2 ''p'' (apply_rate_limit 0 ''p'' (Some 1) m) of (g2, m) \<Rightarrow>
      case monitor_acquire_times 10 ''p'' (apply_rate_limit 0 ''p'' None m) of (g3, m) \<Rightarrow>
        list_all id g1 \<and> g2 = [True, False] \<and> list_all id g3)"

definition apply_rate_limit_reconfigures_bucket_in_place :: bool where
  "apply_rate_limit_reconfigures_bucket_in_place \<longleftrightarrow>
     (case monitor_acquire_times 1 ''p'' (insert_capped ''p'' (Some 100) (test_monitor default_health)) of (g1, m) \<Rightarrow>
      case monitor_acquire_times 3 ''p'' (apply_rate_limit 0 ''p'' (Some 2) m) of (g2, m) \<Rightarrow>
        g1 = [True] \<and> g2 = [True, True, False])"

definition level :: "rat \<Rightarrow> rat \<Rightarrow> token_bucket" where
  "level n t = \<lparr>tk_tokens = Fin t, tk_capacity = Fin n, tk_rate = Fin n, tk_last = 0\<rparr>"

text \<open>A monitor with one entry, whose limiter is the only thing the calls change.\<close>

definition capped :: "token_bucket option \<Rightarrow> monitor" where
  "capped l = (insert_capped ''p'' None (test_monitor default_health))
     \<lparr>mo_entries := [(''p'', \<lparr>pe_health = 0, pe_limiter = l, pe_stop = 0\<rparr>)]\<rparr>"

section \<open>They hold of the model\<close>

lemma half_less_1: "f64_lt (rnd (1 / 2)) (Fin 1)"
  unfolding binary64.r_1[symmetric] by (rule rnd_separated[of _ 512]) simp_all

lemma rnd_not_less_1: "1 \<le> x \<Longrightarrow> \<not> f64_lt (rnd x) (Fin 1)"
  using not_lt_rnd[of 1 x] by (simp add: binary64.r_1)

lemma rnd_not_less_0: "0 \<le> x \<Longrightarrow> \<not> f64_lt (rnd x) (Fin 0)"
  using not_lt_rnd[of 0 x] by (simp add: binary64.r_0)

lemmas test_clock = rec_now_def throttle_now_def push_now_def ph_record_def ph_record_throttled_def push_result_def
  push_sample_def prune_window_def apply_circuit_transitions_def Let_def

lemmas test_rates = hard_error_rate_def error_rate_def f64_of_nat_exact binary64.r_0 binary64.r_1 half_less_1
  rnd_not_less_1 rnd_not_less_0 not_lt_rnd word_le_nat_alt

lemmas test_slot_defs = snapshot_def commitment_of_def drift_def tips_def tip_of_latest_def update_slot_def update_slots_def
  update_slots_in_round_def inner_new_def is_available_def all_slots_def test_slots_def u64_saturating_sub_def

lemma window_tests_hold:
  "window_prunes_entries_older_than_window_secs" "window_keeps_entries_within_window_secs"
  "window_evicts_old_but_keeps_new_entries"
  by (simp_all add: window_prunes_entries_older_than_window_secs_def window_keeps_entries_within_window_secs_def
      window_evicts_old_but_keeps_new_entries_def prune_window_def duration_from_secs_def elem_at_def)

lemma slot_tests_hold:
  "slot_drift_and_is_drifting_populated" "not_drifting_when_no_slot_data" "a_failed_leg_keeps_its_earlier_round"
  "finalized_drift_measured_against_finalized_tip" "update_slots_merges_partial_probe"
  by (simp_all add: slot_drift_and_is_drifting_populated_def not_drifting_when_no_slot_data_def
      a_failed_leg_keeps_its_earlier_round_def finalized_drift_measured_against_finalized_tip_def
      update_slots_merges_partial_probe_def test_slot_defs default_health_def Let_def cs_default_def cr_default_def
      ch_default_def cs_merge_def cr_stamp_def)

lemma latency_tests_hold:
  "latency_ema_first_sample_sets_to_value" "latency_ema_unchanged_on_failure" "latency_ema_ignores_live_outcomes"
  "score_open_circuit_is_zero" "error_rate_empty_window_is_zero"
  by (simp_all add: latency_ema_first_sample_sets_to_value_def latency_ema_unchanged_on_failure_def
      latency_ema_ignores_live_outcomes_def score_open_circuit_is_zero_def error_rate_empty_window_is_zero_def
      push_now_def push_result_def push_sample_def prune_window_def ema_update_def inner_new_def error_rate_def score_def
      f64_of_nat_exact Let_def duration_from_secs_def binary64.r_0)

lemma round_tests_hold: "round_tips_keep_rounds_apart_and_ignore_stragglers"
proof -
  let ?s = "\<lambda>n. \<lparr>st_processed = n, st_confirmed = n - 1, st_finalized = n - 1\<rparr>"
  have i: "rt_index 5 = 1" "rt_index 6 = Suc (Suc 0)" "rt_index 7 = Suc (Suc (Suc 0))" "rt_index 9 = 1"
    by (simp_all add: rt_index_def TIP_ROUNDS_def)
  have d: "rt_default = [None, None, None, None]" by (simp add: rt_default_def TIP_ROUNDS_def numeral_eq_Suc)
  have o: "st_observe st_default (test_slots n) = ?s n" for n
    by (simp add: st_observe_def st_default_def test_slots_def all_slots_def unwrap_or_def max_def)
  have 1: "rt_observe rt_default 5 (test_slots 1000) = [None, Some (5, ?s 1000), None, None]"
    unfolding rt_observe_def i d by (simp add: o)
  have 2: "rt_observe [None, Some (5, ?s 1000), None, None] 5 (test_slots 1002) = [None, Some (5, ?s 1002), None, None]"
    unfolding rt_observe_def i by (simp add: st_observe_def test_slots_def all_slots_def unwrap_or_def)
  have 3: "rt_observe [None, Some (5, ?s 1002), None, None] 6 (test_slots 1140) = [None, Some (5, ?s 1002), Some (6, ?s 1140), None]"
    unfolding rt_observe_def i by (simp add: o)
  have 4: "rt_observe [None, Some (5, ?s 1002), Some (6, ?s 1140), None] 9 (test_slots 1600) =
      [None, Some (9, ?s 1600), Some (6, ?s 1140), None]"
    unfolding rt_observe_def i by (simp add: o)
  have 5: "rt_observe [None, Some (9, ?s 1600), Some (6, ?s 1140), None] 5 (test_slots 1003) =
      [None, Some (9, ?s 1600), Some (6, ?s 1140), None]"
    unfolding rt_observe_def i by simp
  show ?thesis unfolding round_tips_keep_rounds_apart_and_ignore_stragglers_def Let_def 1 2 3 4 5 rt_get_def i
    by simp
qed

lemma funpow_2: "(f ^^ 2) x = f (f x)" by (simp add: numeral_2_eq_2)

lemma funpow_3: "(f ^^ 3) x = f (f (f x))" by (simp add: numeral_3_eq_3)

lemma funpow_4: "(f ^^ 4) x = f (f (f (f x)))" by (simp add: eval_nat_numeral)

lemma probed_simps [simp]:
  "in_circuit (probed c opened n e ss) = c" "in_circuit_opened_at (probed c opened n e ss) = opened"
  "in_consecutive_failures (probed c opened n e ss) = n" "in_latency_ema_ms (probed c opened n e ss) = e"
  "in_window (probed c opened n e ss) = map (Pair 0) ss"
  "(probed c opened n e ss)\<lparr>in_circuit := c', in_circuit_opened_at := opened'\<rparr> = probed c' opened' n e ss"
  by (simp_all add: probed_def)

lemma inner_new_probed: "inner_new = probed Closed None 0 (Fin 0) []"
  by (simp add: inner_new_def probed_def)

lemma nothing_pruned: "dropWhile (\<lambda>(t, s). t < 0 - int d) (map (Pair 0) samples) = map (Pair 0) samples"
  by (cases samples) simp_all

lemma push_probed:
  "push_result 0 0 ok ms upd w (probed c opened failures ema samples) =
     probed c opened (if ok then 0 else failures + 1) (if ok \<and> upd then ema_update ema ms else ema)
       (samples @ [if ok then Success else Failure])"
  "push_sample 0 0 Throttle ms upd w (probed c opened failures ema samples) =
     probed c opened failures ema (samples @ [Throttle])"
  by (simp_all add: push_result_def push_sample_def prune_window_def nothing_pruned[simplified] Let_def probed_def)

lemma rate_probed:
  "hard_error_rate (probed c opened failures ema samples) =
     (if samples = [] then Fin 0
      else f64_div (f64_of_nat (length (filter (\<lambda>s. s = Failure) samples))) (f64_of_nat (length samples)))"
  "error_rate (probed c opened failures ema samples) =
     (if samples = [] then Fin 0
      else f64_div (f64_of_nat (length (filter (\<lambda>s. s \<noteq> Success) samples))) (f64_of_nat (length samples)))"
  by (simp_all add: hard_error_rate_def error_rate_def filter_map o_def)

lemmas probed_step = rec_now_def throttle_now_def ph_record_def ph_record_throttled_def push_probed
  apply_circuit_transitions_def rate_probed

lemma circuit_opens_holds: "circuit_opens_after_consecutive_failures"
proof -
  let ?cfg = "default_health\<lparr>hc_circuit_open_failures := 3\<rparr>"
  have 1: "rec_now False (Fin 0) True ?cfg (probed Closed None 0 (Fin 0) []) = probed Open (Some 0) 1 (Fin 0) [Failure]"
    by (simp add: probed_step test_rates default_health_def)
  have 2: "rec_now False (Fin 0) True ?cfg (probed Open (Some 0) n (Fin 0) ss) = probed Open (Some 0) (n + 1) (Fin 0) (ss @ [Failure])" for n ss
    by (simp add: probed_step test_rates default_health_def saturating_duration_since_def duration_from_secs_def)
  show ?thesis unfolding circuit_opens_after_consecutive_failures_def Let_def funpow_3 inner_new_probed 1 2
    by (simp add: snapshot_def is_available_def Let_def)
qed

lemma circuit_stays_closed_holds: "circuit_stays_closed_below_threshold"
proof -
  let ?cfg = "default_health\<lparr>hc_circuit_open_failures := 5, hc_circuit_error_threshold := rnd (11 / 10)\<rparr>"
  have 1: "rec_now False (Fin 0) True ?cfg (probed Closed None 0 (Fin 0) []) = probed Closed None 1 (Fin 0) [Failure]"
    "rec_now False (Fin 0) True ?cfg (probed Closed None 1 (Fin 0) [Failure]) = probed Closed None 2 (Fin 0) [Failure, Failure]"
    "rec_now False (Fin 0) True ?cfg (probed Closed None 2 (Fin 0) [Failure, Failure]) =
      probed Closed None 3 (Fin 0) [Failure, Failure, Failure]"
    "rec_now False (Fin 0) True ?cfg (probed Closed None 3 (Fin 0) [Failure, Failure, Failure]) =
      probed Closed None 4 (Fin 0) [Failure, Failure, Failure, Failure]"
    by (simp_all add: probed_step test_rates default_health_def)
  show ?thesis unfolding circuit_stays_closed_below_threshold_def Let_def funpow_4 inner_new_probed 1
    by (simp add: snapshot_def Let_def)
qed

lemma lifecycle_holds: "circuit_full_lifecycle_closed_open_halfopen_closed" "circuit_halfopen_failure_reopens"
proof -
  let ?cfg = one_failure_no_cooldown
  have 1: "rec_now False (Fin 0) True ?cfg (probed Closed None 0 (Fin 0) []) = probed Open (Some 0) 1 (Fin 0) [Failure]"
    by (simp add: probed_step one_failure_no_cooldown_def default_health_def)
  have 2: "rec_now ok ms True ?cfg (probed Open (Some 0) n e ss) =
      probed HalfOpen None (if ok then 0 else n + 1) (if ok then ema_update e ms else e) (ss @ [if ok then Success else Failure])" for ok ms n e ss
    by (simp add: probed_step one_failure_no_cooldown_def default_health_def duration_from_secs_def saturating_duration_since_def)
  have 3: "rec_now ok ms True ?cfg (probed HalfOpen None n e ss) =
      probed (if ok then Closed else Open) (if ok then None else Some 0) (if ok then 0 else n + 1)
        (if ok then ema_update e ms else e) (ss @ [if ok then Success else Failure])" for ok ms n e ss
    by (simp add: probed_step one_failure_no_cooldown_def default_health_def)
  show "circuit_full_lifecycle_closed_open_halfopen_closed" "circuit_halfopen_failure_reopens"
    unfolding circuit_full_lifecycle_closed_open_halfopen_closed_def circuit_halfopen_failure_reopens_def inner_new_probed Let_def 1 2 3
    by (simp_all add: snapshot_def is_available_def Let_def)
qed

lemma neutral_throttle_holds: "throttle_is_neutral_to_the_hard_failure_streak"
proof -
  let ?cfg = "default_health\<lparr>hc_circuit_open_failures := 3, hc_circuit_error_threshold := rnd (11 / 10)\<rparr>"
  have 1: "rec_now False (Fin 0) True ?cfg (probed Closed None 0 (Fin 0) []) = probed Closed None 1 (Fin 0) [Failure]"
    by (simp add: probed_step test_rates default_health_def)
  have 2: "throttle_now (Fin 0) ?cfg (probed Closed None 1 (Fin 0) [Failure]) = probed Closed None 1 (Fin 0) [Failure, Throttle]"
    by (simp add: probed_step test_rates default_health_def)
  have 3: "rec_now False (Fin 0) True ?cfg (probed Closed None 1 (Fin 0) [Failure, Throttle]) =
      probed Closed None 2 (Fin 0) [Failure, Throttle, Failure]"
    by (simp add: probed_step test_rates default_health_def)
  have 4: "rec_now False (Fin 0) True ?cfg (probed Closed None 2 (Fin 0) [Failure, Throttle, Failure]) =
      probed Open (Some 0) 3 (Fin 0) [Failure, Throttle, Failure, Failure]"
    by (simp add: probed_step test_rates default_health_def)
  show ?thesis unfolding throttle_is_neutral_to_the_hard_failure_streak_def inner_new_probed Let_def 1 2 3 4
    by (simp add: snapshot_def Let_def)
qed

lemma throttle_storm_holds: "throttle_storm_never_trips_error_rate_circuit"
proof -
  let ?cfg = "default_health\<lparr>hc_circuit_open_failures := 100, hc_circuit_error_threshold := rnd (1 / 2)\<rparr>"
  have 1: "throttle_now (Fin 0) ?cfg (probed Closed None 0 (Fin 0) (replicate k Throttle)) =
      probed Closed None 0 (Fin 0) (replicate (Suc k) Throttle)" if "k < 100" for k
    using that by (simp add: probed_step test_rates default_health_def replicate_append_same)
  have "(throttle_now (Fin 0) ?cfg ^^ k) inner_new = probed Closed None 0 (Fin 0) (replicate k Throttle)" if "k \<le> 100" for k
    using that
  proof (induction k)
    case (Suc k)
    then show ?case by (simp add: 1 del: replicate_Suc)
  qed (simp add: inner_new_probed)
  then show ?thesis unfolding throttle_storm_never_trips_error_rate_circuit_def
    by (simp add: snapshot_def Let_def rate_probed f64_of_nat_exact binary64.r_1)
qed

lemma live_outcomes_hold: "live_outcomes_feed_circuit_but_not_the_scoring_ema"
proof -
  let ?cfg = "default_health\<lparr>hc_circuit_open_failures := 3\<rparr>"
  have 1: "rec_now True (Fin 40) True ?cfg (probed Closed None 0 (Fin 0) []) = probed Closed None 0 (Fin 40) [Success]"
    by (simp add: probed_step test_rates default_health_def ema_update_def)
  have 2: "rec_now True (Fin 5000) False ?cfg (probed Closed None 0 (Fin 40) [Success]) = probed Closed None 0 (Fin 40) [Success, Success]"
    by (simp add: probed_step test_rates default_health_def)
  have 3: "rec_now False (Fin 0) False ?cfg (probed Closed None 0 (Fin 40) [Success, Success]) =
      probed Closed None 1 (Fin 40) [Success, Success, Failure]"
    by (simp add: probed_step test_rates default_health_def)
  have 4: "rec_now False (Fin 0) False ?cfg (probed Closed None 1 (Fin 40) [Success, Success, Failure]) =
      probed Closed None 2 (Fin 40) [Success, Success, Failure, Failure]"
    by (simp add: probed_step test_rates default_health_def)
  have 5: "rec_now False (Fin 0) False ?cfg (probed Closed None 2 (Fin 40) [Success, Success, Failure, Failure]) =
      probed Open (Some 0) 3 (Fin 40) [Success, Success, Failure, Failure, Failure]"
    by (simp add: probed_step test_rates default_health_def)
  show ?thesis unfolding live_outcomes_feed_circuit_but_not_the_scoring_ema_def inner_new_probed Let_def funpow_3 1 2 3 4 5
    by (simp add: snapshot_def Let_def)
qed

section \<open>Fixtures of the monitor's tests\<close>

section \<open>Tests of the monitor\<close>

section \<open>Tests of the token bucket\<close>

section \<open>They hold of the model\<close>

lemma bucket_level: "f64_of_nat (unat (2 :: u32)) = Fin 2" "f64_of_nat (unat (1 :: u32)) = Fin 1"
  "f64_of_nat (unat (5 :: u32)) = Fin 5" "f64_of_nat (unat (10 :: u32)) = Fin 10" "f64_of_nat (unat (100 :: u32)) = Fin 100"
  by (simp_all add: f64_of_nat_exact)

text \<open>Without time between the calls a refill changes nothing.\<close>

lemma no_time: "as_secs_f64 0 = Fin 0"
  by (simp add: as_secs_f64_def f64_of_nat_exact binary64.r_0)

lemma refill_now: "refill (tk_last b) b = b" "tk_last b = 0 \<Longrightarrow> refill 0 b = b"
  by (simp_all add: refill_def saturating_duration_since_def no_time)

lemma level_new: "bucket_new 0 1 = level 1 1" "bucket_new 0 2 = level 2 2" "bucket_new 0 100 = level 100 100"
  using bucket_level by (simp_all add: bucket_new_def level_def Let_def)

lemma refill_level_now: "refill 0 (level n t) = level n t"
  by (simp add: refill_now(2) level_def)

lemma take_one: "rnd (t - 1) = Fin (t - 1) \<Longrightarrow> 1 \<le> t \<Longrightarrow> bucket_try_acquire 0 (level n t) = (True, level n (t - 1))"
  unfolding bucket_try_acquire_def refill_level_now by (simp add: level_def f64_sub_def)

lemma take_level:
  "bucket_try_acquire 0 (level n 0) = (False, level n 0)" "bucket_try_acquire 0 (level n 1) = (True, level n 0)"
  "bucket_try_acquire 0 (level n 2) = (True, level n 1)" "bucket_try_acquire 0 (level n 100) = (True, level n 99)"
proof -
  show "bucket_try_acquire 0 (level n 0) = (False, level n 0)"
    unfolding bucket_try_acquire_def refill_level_now by (simp add: level_def)
  show "bucket_try_acquire 0 (level n 1) = (True, level n 0)" using take_one[of 1 n] binary64.r_0 by simp
  show "bucket_try_acquire 0 (level n 2) = (True, level n 1)" using take_one[of 2 n] binary64.r_1 by simp
  show "bucket_try_acquire 0 (level n 100) = (True, level n 99)" using take_one[of 100 n] rnd_int[of 99] by simp
qed

lemma peek_level: "bucket_has_capacity 0 (level n t) = (1 \<le> t, level n t)"
  unfolding bucket_has_capacity_def refill_level_now by (simp add: level_def)

lemma acquire_numeral:
  "acquire_times (numeral k) b = (case bucket_try_acquire 0 b of (g, b) \<Rightarrow>
     case acquire_times (pred_numeral k) b of (gs, b) \<Rightarrow> (g # gs, b))"
  "monitor_acquire_times (numeral k) name m = (case try_acquire 0 name m of (g, m) \<Rightarrow>
     case monitor_acquire_times (pred_numeral k) name m of (gs, m) \<Rightarrow> (g # gs, m))"
  by (simp_all add: numeral_eq_Suc)

lemma reconfigure_level:
  "bucket_reconfigure 0 10 (level 100 100) = level 10 10" "bucket_reconfigure 0 2 (level 100 99) = level 2 2"
  unfolding bucket_reconfigure_def refill_level_now bucket_level by (simp_all add: level_def f64_min_def Let_def)

lemma bucket_tests_hold:
  "token_bucket_drains_then_blocks" "has_capacity_does_not_spend_a_token"
  "reconfigure_clamps_tokens_to_new_capacity"
  by (simp_all add: token_bucket_drains_then_blocks_def has_capacity_does_not_spend_a_token_def
      reconfigure_clamps_tokens_to_new_capacity_def level_new reconfigure_level acquire_numeral take_level peek_level Let_def)
    (simp_all add: level_def)

lemma refill_cap_holds: "token_bucket_refill_capped_at_capacity"
proof -
  have "rnd 0 = Fin 0" by (rule binary64.r_0)
  moreover have "rnd 100 = Fin 100" "rnd 500 = Fin 500" using rnd_int[of 100] rnd_int[of 500] by simp_all
  ultimately have "as_secs_f64 (duration_from_secs 100) = Fin 100"
    by (simp add: as_secs_f64_def duration_from_secs_def f64_of_nat_exact)
  with \<open>rnd 500 = Fin 500\<close> show ?thesis
    by (simp add: token_bucket_refill_capped_at_capacity_def refill_def saturating_duration_since_def bucket_new_def
        f64_of_nat_exact f64_min_def Let_def)
qed

lemmas monitor_defs = test_monitor_def monitor_new_def insert_test_def insert_slots_def insert_capped_def
  monitor_with_reference_def

lemma empty_monitor: "mo_entries (test_monitor cfg) = []" "mo_healths (test_monitor cfg) = []"
  "mo_stops (test_monitor cfg) = []" "mo_reference_slots (test_monitor cfg) = cs_default"
  "mo_cfg (test_monitor cfg) = cfg" "mo_round_tips (test_monitor cfg) = rt_default"
  by (simp_all add: test_monitor_def monitor_new_def)

lemma unknown_provider_holds: "try_acquire_unknown_provider_is_true"
  by (simp add: try_acquire_unknown_provider_is_true_def try_acquire_def empty_monitor)

lemma reference_tests_hold: "reference_tip_none_when_unconfigured" "reference_tip_some_when_configured"
  by (simp_all add: reference_tip_none_when_unconfigured_def reference_tip_some_when_configured_def reference_tip_def
      monitor_with_reference_def empty_monitor cs_default_def)

lemma add_and_remove_holds: "add_and_remove_provider"
  by (simp add: add_and_remove_provider_def snapshots_def snapshots_with_tips_def insert_test_def empty_monitor
      remove_provider_def Let_def)

lemma tip_tests_hold: "slot_tips_are_computed_per_commitment" "monitor_update_slot_propagates"
  by (simp_all add: slot_tips_are_computed_per_commitment_def monitor_update_slot_propagates_def slot_tip_def latest_tips_def
      insert_slots_def insert_test_def empty_monitor st_observe_def st_default_def cs_default_def unwrap_or_def all_slots_def
      update_slots_def update_slots_in_round_def inner_new_def cs_merge_def entry_inner_def monitor_update_slot_def
      update_health_def update_slot_def monitor_new_def insert_provider_def alloc_entry_def Let_def)

lemma unlimited_acquire:
  assumes "map_of (mo_entries m) name = Some e" "pe_limiter e = None"
  shows "monitor_acquire_times n name m = (replicate n True, m)"
  using assms by (induction n) (simp_all add: try_acquire_def)

lemma capped_entry:
  "map_of (mo_entries (insert_capped name r (test_monitor cfg))) name =
     Some \<lparr>pe_health = 0, pe_limiter = build_limiter 0 r, pe_stop = 0\<rparr>"
  "mo_entries (insert_capped name r (test_monitor cfg)) = [(name, \<lparr>pe_health = 0, pe_limiter = build_limiter 0 r, pe_stop = 0\<rparr>)]"
  by (simp_all add: insert_capped_def insert_test_def empty_monitor)

lemma unlimited_holds: "try_acquire_unlimited_provider_always_true"
proof -
  let ?m = "insert_capped ''unlimited'' None (test_monitor default_health)"
  have "monitor_acquire_times 1000 ''unlimited'' ?m = (replicate 1000 True, ?m)"
    by (rule unlimited_acquire[OF capped_entry(1)]) (simp add: build_limiter_def)
  then show ?thesis
    by (simp add: try_acquire_unlimited_provider_always_true_def snapshots_def snapshots_with_tips_def capped_entry(2)
        snapshot_entry_def build_limiter_def elem_at_def Let_def list_all_iff)
qed

lemma capped_try: "try_acquire 0 ''p'' (capped (Some b)) =
    (fst (bucket_try_acquire 0 b), capped (Some (snd (bucket_try_acquire 0 b))))"
  by (simp add: try_acquire_def capped_def set_limiter_def case_prod_beta)

lemma capped_new: "insert_capped ''p'' r (test_monitor default_health) = capped (build_limiter 0 r)"
  by (simp add: capped_def insert_capped_def insert_test_def empty_monitor)

lemma capped_rate: "apply_rate_limit 0 ''p'' (Some r) (capped None) = capped (Some (bucket_new 0 r))"
  "apply_rate_limit 0 ''p'' (Some r) (capped (Some b)) = capped (Some (bucket_reconfigure 0 r b))"
  "apply_rate_limit 0 ''p'' None (capped (Some b)) = capped None"
  by (simp_all add: apply_rate_limit_def capped_def set_limiter_def)

lemma capped_unlimited: "monitor_acquire_times n ''p'' (capped None) = (replicate n True, capped None)"
  by (rule unlimited_acquire[of _ _ "\<lparr>pe_health = 0, pe_limiter = None, pe_stop = 0\<rparr>"]) (simp_all add: capped_def)

lemma rate_limit_tests_hold: "apply_rate_limit_installs_updates_and_removes" "apply_rate_limit_reconfigures_bucket_in_place"
proof -
  have 2: "monitor_acquire_times 2 ''p'' (capped (Some (level 1 1))) = ([True, False], capped (Some (level 1 0)))"
    by (simp add: acquire_numeral capped_try take_level)
  have 3: "monitor_acquire_times 3 ''p'' (capped (Some (level 2 2))) = ([True, True, False], capped (Some (level 2 0)))"
    by (simp add: acquire_numeral capped_try take_level)
  have 1: "try_acquire 0 ''p'' (capped (Some (level 100 100))) = (True, capped (Some (level 100 99)))"
    by (simp add: capped_try take_level)
  show "apply_rate_limit_installs_updates_and_removes" unfolding apply_rate_limit_installs_updates_and_removes_def capped_new
    by (simp add: build_limiter_def capped_unlimited capped_rate level_new 2 list_all_iff)
  show "apply_rate_limit_reconfigures_bucket_in_place" unfolding apply_rate_limit_reconfigures_bucket_in_place_def capped_new
    by (simp add: build_limiter_def capped_rate level_new 1 3 reconfigure_level)
qed

lemma exhausted_holds: "snapshot_marks_exhausted_bucket_rate_limited"
proof -
  let ?m = "insert_capped ''capped'' (Some 1) (test_monitor default_health)"
  have m: "mo_entries ?m = [(''capped'', \<lparr>pe_health = 0, pe_limiter = Some (level 1 1), pe_stop = 0\<rparr>)]"
    by (simp add: capped_entry build_limiter_def level_new)
  have h: "mo_healths ?m = [(''capped'', inner_new)]" by (simp add: insert_capped_def insert_test_def empty_monitor)
  show ?thesis
    unfolding snapshot_marks_exhausted_bucket_rate_limited_def
    by (simp add: snapshots_def snapshots_with_tips_def m h snapshot_entry_def peek_limiters_def peek_level try_acquire_def
        take_level set_limiter_def elem_at_def is_available_def snapshot_def inner_new_def Let_def)
qed

text \<open>The snapshots of monitors with a reference.\<close>

lemmas reference_defs = slot_tip_def latest_tips_def insert_slots_def insert_test_def monitor_with_reference_def empty_monitor
  st_observe_def st_default_def cs_default_def cr_default_def unwrap_or_def all_slots_def update_slots_def
  update_slots_in_round_def inner_new_def cs_merge_def cr_stamp_def entry_inner_def snapshots_def snapshots_with_tips_def
  snapshot_entry_def snapshot_def commitment_of_def drift_def tip_of_book_def u64_saturating_sub_def default_health_def
  elem_at_def Let_def

lemma reference_drift_tests_hold:
  "single_provider_gets_a_checkpoint_from_the_reference" "stale_reference_never_raises_drift_falsely"
  "unconfigured_reference_is_a_noop_for_the_tip" "reference_ahead_pins_tip_and_reveals_all_stale_drift"
  by (simp_all add: single_provider_gets_a_checkpoint_from_the_reference_def stale_reference_never_raises_drift_falsely_def
      unconfigured_reference_is_a_noop_for_the_tip_def reference_ahead_pins_tip_and_reveals_all_stale_drift_def
      reference_defs)

lemma f64_eq_refl: "f64_unit x \<Longrightarrow> f64_eq x x"
  by (cases x) simp_all

lemma own_round_holds: "drift_compares_against_the_samples_own_round"
proof -
  let ?s = "\<lambda>n. \<lparr>st_processed = n, st_confirmed = n - 1, st_finalized = n - 1\<rparr>"
  have i: "rt_index 5 = 1" "rt_index 6 = Suc (Suc 0)" "rt_index 1 = 1" by (simp_all add: rt_index_def TIP_ROUNDS_def)
  have d: "rt_default = [None, None, None, None]" by (simp add: rt_default_def TIP_ROUNDS_def numeral_eq_Suc)
  have o: "st_observe st_default (test_slots n) = ?s n" for n
    by (simp add: st_observe_def st_default_def test_slots_def all_slots_def unwrap_or_def max_def)
  define ring where "ring = rt_observe (rt_observe (rt_observe rt_default 5 (test_slots 1000)) 5 (test_slots 1000)) 6 (test_slots 1140)"
  have 1: "rt_observe rt_default 5 (test_slots 1000) = [None, Some (5, ?s 1000), None, None]"
    unfolding rt_observe_def i d by (simp add: o)
  have 2: "rt_observe [None, Some (5, ?s 1000), None, None] 5 (test_slots 1000) = [None, Some (5, ?s 1000), None, None]"
    unfolding rt_observe_def i by (simp add: st_observe_def test_slots_def all_slots_def unwrap_or_def)
  have 3: "rt_observe [None, Some (5, ?s 1000), None, None] 6 (test_slots 1140) = [None, Some (5, ?s 1000), Some (6, ?s 1140), None]"
    unfolding rt_observe_def i by (simp add: o)
  have r: "ring = [None, Some (5, ?s 1000), Some (6, ?s 1140), None]" by (simp only: ring_def 1 2 3)
  have g: "rt_get ring 5 = Some (?s 1000)" "rt_get ring 6 = Some (?s 1140)" "rt_get ring 1 = None"
    unfolding rt_get_def r i by simp_all
  have full: "cs_get (test_slots n) c \<noteq> None" for n c
    by (cases c) (simp_all add: test_slots_def all_slots_def)
  define a where "a = update_slots_in_round (test_slots 1000) (Some 5) inner_new"
  define b where "b = update_slots_in_round (test_slots 1140) (Some 6) a"
  let ?tb = "tip_of_book \<lparr>tb_latest = \<lparr>st_processed = 1140, st_confirmed = 1139, st_finalized = 1139\<rparr>, tb_rounds = ring\<rparr>"
  have slots: "cs_get (in_slots a) c = cs_get (test_slots 1000) c" "cr_get (in_rounds a) c = Some 5"
    "cs_get (in_slots b) c = cs_get (test_slots 1140) c" "cr_get (in_rounds b) c = Some 6" for c
    by (simp_all add: a_def b_def update_slots_in_round_def inner_new_def full split: option.split)
  have dr: "drift a c ?tb = Some 0" "drift b c ?tb = Some 0" for c
    unfolding drift_def slots tip_of_book_def by (cases c; simp add: g test_slots_def all_slots_def u64_saturating_sub_def)+
  have "slot_score a ?tb default_health = slot_score b ?tb default_health" unfolding slot_score_def worst_drift_def dr by simp
  moreover have "latency_score a = latency_score b" "error_rate a = error_rate b" "in_circuit a = in_circuit b"
    by (simp_all add: latency_score_def error_rate_def b_def update_slots_in_round_def)
  ultimately have "score a ?tb default_health = score b ?tb default_health" by (simp add: score_def Let_def)
  moreover have "f64_unit (score a ?tb default_health)"
    using inner_new_ok by (intro score_in_unit default_weights_ok)
      (simp_all add: default_health_def a_def update_slots_in_round_def inner_ok_def window_small_def inner_new_def)
  ultimately have eq: "f64_eq (score a ?tb default_health) (score b ?tb default_health)"
    using f64_eq_refl by metis
  have "\<lparr>ch_slot = x, ch_drift = 0, ch_is_drifting = (0 :: u64) > 10\<rparr> = \<lparr>ch_slot = x, ch_drift = 0, ch_is_drifting = False\<rparr>" for x
    by simp
  then have com: "ch_drift (commitment_of a ?tb default_health c) = 0" "\<not> ch_is_drifting (commitment_of a ?tb default_health c)"
    "ch_drift (commitment_of b ?tb default_health c) = 0" for c
    unfolding commitment_of_def dr slots by (cases c; simp add: test_slots_def all_slots_def default_health_def)+
  have old: "hs_slot_drift (snapshot ''a'' a (tip_of_latest \<lparr>st_processed = 1140, st_confirmed = 1139, st_finalized = 1139\<rparr>) default_health) = 140"
    unfolding snapshot_def commitment_of_def drift_def slots
    by (simp add: tip_of_latest_def test_slots_def all_slots_def u64_saturating_sub_def default_health_def Let_def)
  have "hs_slot_drift (snapshot ''stale'' (update_slots_in_round (test_slots 900) (Some 1) inner_new) ?tb default_health) = 240"
    "hs_slot_drift (snapshot ''late'' (update_slots_in_round (test_slots 1130) None inner_new) ?tb default_health) = 10"
    by (simp_all add: snapshot_def commitment_of_def drift_def tip_of_book_def g test_slots_def all_slots_def
        u64_saturating_sub_def default_health_def update_slots_in_round_def inner_new_def cs_default_def cr_default_def
        cs_merge_def cr_stamp_def Let_def)
  with eq com old show ?thesis
    unfolding drift_compares_against_the_samples_own_round_def Let_def ring_def[symmetric] a_def[symmetric] b_def[symmetric]
    by (simp add: snapshot_def Let_def)
qed

end
