(* ===== verification/TxTests.thy ===== *)
theory TxTests
  imports Tx
begin

text \<open>
  The unit tests of the decoder (module \<open>tests\<close> of \<open>tx.rs\<close>) read as statements about the model, the serialized
  legacy and v0 fixtures included. The text of a request is any text of admissible length that the base58 or base64
  decoder turns into the bytes of the test. The tests on base58 addresses and those on the base64 fixtures of version 1
  are left out.
\<close>

section \<open>Fixtures of the decoder's tests\<close>

definition transaction :: "bool \<Rightarrow> (bytes \<times> bytes) list \<Rightarrow> bytes" where
  "transaction versioned instructions =
     [1] @ replicate 64 0 @ (if versioned then [0x80] else []) @ [1, 0, 0] @ [of_nat (length instructions)] @
     concat (map fst instructions) @ replicate 32 0 @ [of_nat (length instructions)] @
     concat (map (\<lambda>(i, key, data). [of_nat i, 0, of_nat (length data)] @ data) (enumerate 0 instructions)) @
     (if versioned then [0] else [])"

definition limit_data :: "u32 \<Rightarrow> bytes" where
  "limit_data v = 2 # le_bytes 4 (unat v)"

definition price_data :: "u64 \<Rightarrow> bytes" where
  "price_data v = 3 # le_bytes 8 (unat v)"

definition OTHER :: bytes where
  "OTHER = replicate 32 7"

text \<open>
  The body of a test is read as a request with the given parameters, whose first text the decoder of its encoding
  turns back into the bytes it was made from.
\<close>

definition decode_params :: "bytes \<Rightarrow> json list \<Rightarrow> decode_error + transaction_info" where
  "decode_params bs params =
     decode_request (\<lambda>_. Some (JObj [(''params'', JArr params)])) (\<lambda>_. Some bs) (\<lambda>_. Some bs) []"

definition base64_option :: json where
  "base64_option = JObj [(''encoding'', JStr False ''base64'')]"

definition LEGACY_LIMIT_PRICE_TRANSFER :: bytes where
  "LEGACY_LIMIT_PRICE_TRANSFER = [1, 175, 169, 202, 67, 186, 44, 21, 132, 167, 193, 119, 97, 144, 20, 62, 86, 157,
     47, 197, 232, 125, 170, 20, 212, 52, 241, 131, 163, 98, 143, 50, 217, 164, 8, 84, 119, 57, 165, 218, 172, 24,
     90, 198, 135, 11, 62, 240, 160, 2, 241, 192, 64, 87, 254, 242, 77, 216, 158, 131, 187, 51, 229, 186, 5, 1, 0,
     2, 4, 198, 250, 24, 80, 183, 238, 201, 66, 125, 88, 235, 179, 191, 228, 25, 43, 14, 248, 27, 172, 179, 177,
     107, 250, 168, 120, 121, 250, 221, 86, 0, 2, 0, 0, 0, 1, 144, 112, 123, 195, 239, 37, 189, 201, 142, 215, 92,
     183, 13, 97, 200, 177, 6, 220, 36, 141, 142, 246, 30, 29, 29, 177, 202, 64, 0, 0, 0, 0, 0, 0, 0, 0, 0, 0, 0,
     0, 0, 0, 0, 0, 0, 0, 0, 0, 0, 0, 0, 0, 0, 0, 0, 0, 0, 0, 0, 0, 3, 6, 70, 111, 229, 33, 23, 50, 255, 236, 173,
     186, 114, 195, 155, 231, 188, 140, 229, 187, 197, 247, 18, 107, 44, 67, 155, 58, 64, 0, 0, 0, 7, 7, 7, 7, 7,
     7, 7, 7, 7, 7, 7, 7, 7, 7, 7, 7, 7, 7, 7, 7, 7, 7, 7, 7, 7, 7, 7, 7, 7, 7, 7, 7, 3, 3, 0, 5, 2, 224, 147, 4,
     0, 3, 0, 9, 3, 136, 19, 0, 0, 0, 0, 0, 0, 2, 2, 0, 1, 12, 2, 0, 0, 0, 64, 66, 15, 0, 0, 0, 0, 0]"

definition LEGACY_LIMIT_ONLY :: bytes where
  "LEGACY_LIMIT_ONLY = [1, 209, 232, 241, 245, 150, 34, 135, 158, 103, 250, 5, 162, 254, 219, 147, 106, 119, 7,
     211, 19, 185, 113, 13, 25, 85, 97, 242, 23, 130, 28, 112, 222, 35, 50, 151, 52, 176, 231, 58, 110, 53, 219,
     100, 109, 74, 253, 81, 10, 166, 50, 157, 122, 81, 226, 8, 234, 221, 95, 123, 22, 215, 65, 75, 2, 1, 0, 2, 4,
     198, 250, 24, 80, 183, 238, 201, 66, 125, 88, 235, 179, 191, 228, 25, 43, 14, 248, 27, 172, 179, 177, 107,
     250, 168, 120, 121, 250, 221, 86, 0, 2, 0, 0, 0, 1, 144, 112, 123, 195, 239, 37, 189, 201, 142, 215, 92, 183,
     13, 97, 200, 177, 6, 220, 36, 141, 142, 246, 30, 29, 29, 177, 202, 64, 0, 0, 0, 0, 0, 0, 0, 0, 0, 0, 0, 0, 0,
     0, 0, 0, 0, 0, 0, 0, 0, 0, 0, 0, 0, 0, 0, 0, 0, 0, 0, 0, 3, 6, 70, 111, 229, 33, 23, 50, 255, 236, 173, 186,
     114, 195, 155, 231, 188, 140, 229, 187, 197, 247, 18, 107, 44, 67, 155, 58, 64, 0, 0, 0, 7, 7, 7, 7, 7, 7, 7,
     7, 7, 7, 7, 7, 7, 7, 7, 7, 7, 7, 7, 7, 7, 7, 7, 7, 7, 7, 7, 7, 7, 7, 7, 7, 2, 3, 0, 5, 2, 224, 147, 4, 0, 2,
     2, 0, 1, 12, 2, 0, 0, 0, 64, 66, 15, 0, 0, 0, 0, 0]"

definition V0_NO_ALT :: bytes where
  "V0_NO_ALT = [1, 0, 0, 0, 0, 0, 0, 0, 0, 0, 0, 0, 0, 0, 0, 0, 0, 0, 0, 0, 0, 0, 0, 0, 0, 0, 0, 0, 0, 0, 0, 0, 0,
     0, 0, 0, 0, 0, 0, 0, 0, 0, 0, 0, 0, 0, 0, 0, 0, 0, 0, 0, 0, 0, 0, 0, 0, 0, 0, 0, 0, 0, 0, 0, 0, 128, 1, 0, 2,
     4, 198, 250, 24, 80, 183, 238, 201, 66, 125, 88, 235, 179, 191, 228, 25, 43, 14, 248, 27, 172, 179, 177, 107,
     250, 168, 120, 121, 250, 221, 86, 0, 2, 0, 0, 0, 1, 144, 112, 123, 195, 239, 37, 189, 201, 142, 215, 92, 183,
     13, 97, 200, 177, 6, 220, 36, 141, 142, 246, 30, 29, 29, 177, 202, 64, 0, 0, 0, 0, 0, 0, 0, 0, 0, 0, 0, 0, 0,
     0, 0, 0, 0, 0, 0, 0, 0, 0, 0, 0, 0, 0, 0, 0, 0, 0, 0, 0, 3, 6, 70, 111, 229, 33, 23, 50, 255, 236, 173, 186,
     114, 195, 155, 231, 188, 140, 229, 187, 197, 247, 18, 107, 44, 67, 155, 58, 64, 0, 0, 0, 7, 7, 7, 7, 7, 7, 7,
     7, 7, 7, 7, 7, 7, 7, 7, 7, 7, 7, 7, 7, 7, 7, 7, 7, 7, 7, 7, 7, 7, 7, 7, 7, 3, 3, 0, 5, 2, 224, 147, 4, 0, 3,
     0, 9, 3, 136, 19, 0, 0, 0, 0, 0, 0, 2, 2, 0, 1, 12, 2, 0, 0, 0, 64, 66, 15, 0, 0, 0, 0, 0, 0]"

definition V0_WITH_ALT :: bytes where
  "V0_WITH_ALT = [1, 0, 0, 0, 0, 0, 0, 0, 0, 0, 0, 0, 0, 0, 0, 0, 0, 0, 0, 0, 0, 0, 0, 0, 0, 0, 0, 0, 0, 0, 0, 0,
     0, 0, 0, 0, 0, 0, 0, 0, 0, 0, 0, 0, 0, 0, 0, 0, 0, 0, 0, 0, 0, 0, 0, 0, 0, 0, 0, 0, 0, 0, 0, 0, 0, 128, 1, 0,
     2, 3, 198, 250, 24, 80, 183, 238, 201, 66, 125, 88, 235, 179, 191, 228, 25, 43, 14, 248, 27, 172, 179, 177,
     107, 250, 168, 120, 121, 250, 221, 86, 0, 2, 0, 0, 0, 2, 145, 250, 236, 105, 216, 94, 42, 23, 79, 107, 56,
     162, 20, 17, 30, 62, 29, 38, 95, 0, 169, 158, 226, 113, 46, 23, 128, 229, 3, 6, 70, 111, 229, 33, 23, 50,
     255, 236, 173, 186, 114, 195, 155, 231, 188, 140, 229, 187, 197, 247, 18, 107, 44, 67, 155, 58, 64, 0, 0, 0,
     7, 7, 7, 7, 7, 7, 7, 7, 7, 7, 7, 7, 7, 7, 7, 7, 7, 7, 7, 7, 7, 7, 7, 7, 7, 7, 7, 7, 7, 7, 7, 7, 3, 2, 0, 5,
     2, 224, 147, 4, 0, 2, 0, 9, 3, 136, 19, 0, 0, 0, 0, 0, 0, 1, 1, 3, 1, 9, 1, 0, 0, 0, 3, 30, 202, 179, 86,
     185, 44, 165, 66, 156, 67, 58, 14, 75, 81, 197, 96, 95, 10, 40, 248, 178, 148, 124, 155, 162, 75, 215, 16, 1,
     0, 0]"

section \<open>Tests of the decoder\<close>

text \<open>\<open>text\<close> is what the encoder makes of the bytes.\<close>

definition legacy_defaults_limit_and_base58_encoding :: "string \<Rightarrow> bool" where
  "legacy_defaults_limit_and_base58_encoding text \<longleftrightarrow>
     (case decode_params (transaction False [(OTHER, [1]), (OTHER, [2])]) [JStr False text] of
        Inl e \<Rightarrow> False
      | Inr info \<Rightarrow> ti_cu_limit info = 400000 \<and> ti_cu_limit_defaulted info \<and>
          ti_cu_price_micro_lamports info = None \<and> \<not> ti_is_versioned info)"

definition legacy_explicit_base64_and_limit_only_decode :: "string \<Rightarrow> bool" where
  "legacy_explicit_base64_and_limit_only_decode text \<longleftrightarrow>
     (case decode_params (transaction False [(COMPUTE_BUDGET_ID, limit_data 350000)]) [JStr False text, base64_option] of
        Inl e \<Rightarrow> False
      | Inr info \<Rightarrow> ti_cu_limit info = 350000 \<and> \<not> ti_cu_limit_defaulted info \<and>
          ti_cu_price_micro_lamports info = None)"

definition v0_base64_decodes_limit_price_and_ceiling :: "string \<Rightarrow> bool" where
  "v0_base64_decodes_limit_price_and_ceiling text \<longleftrightarrow>
     (case decode_params (transaction True
          [(COMPUTE_BUDGET_ID, limit_data 1), (COMPUTE_BUDGET_ID, price_data 1), (OTHER, [9])])
          [JStr False text, base64_option] of
        Inl e \<Rightarrow> False
      | Inr info \<Rightarrow> ti_cu_limit info = 1 \<and> ti_requested_priority_fee_lamports info = Some 1 \<and>
          ti_is_versioned info) \<and>
     (case decode_transaction (butlast (transaction True [(OTHER, [9])]) @ [1] @ replicate 32 8 @ [1, 0, 1, 0]) of
        Inl e \<Rightarrow> False | Inr info \<Rightarrow> ti_is_versioned info)"

definition price_only_uses_default_and_limit_is_clamped :: bool where
  "price_only_uses_default_and_limit_is_clamped \<longleftrightarrow>
     (case decode_transaction (transaction False [(COMPUTE_BUDGET_ID, price_data 5), (OTHER, [1])]) of
        Inl e \<Rightarrow> False
      | Inr info \<Rightarrow> ti_cu_limit info = 203000 \<and> ti_requested_priority_fee_lamports info = Some 2) \<and>
     (case decode_transaction (transaction False
          [(COMPUTE_BUDGET_ID, limit_data 2000000), (COMPUTE_BUDGET_ID, price_data (- 1))]) of
        Inl e \<Rightarrow> False
      | Inr info \<Rightarrow> ti_cu_limit info = 2000000 \<and> ti_requested_priority_fee_lamports info = Some (- 1))"

definition zero_price_is_present_and_budget_key_not_invoked_is_ignored :: bool where
  "zero_price_is_present_and_budget_key_not_invoked_is_ignored \<longleftrightarrow>
     (case decode_transaction (transaction False [(COMPUTE_BUDGET_ID, [1]), (OTHER, price_data 0)]) of
        Inl e \<Rightarrow> False
      | Inr info \<Rightarrow> ti_cu_price_micro_lamports info = None \<and> ti_cu_limit info = 203000) \<and>
     (case decode_transaction (transaction False [(COMPUTE_BUDGET_ID, price_data 0)]) of
        Inl e \<Rightarrow> False
      | Inr info \<Rightarrow> ti_cu_price_micro_lamports info = Some 0 \<and>
          ti_requested_priority_fee_lamports info = Some 0 \<and> ti_cu_limit info = 3000)"

text \<open>The address of the vote program, decoded.\<close>

definition VOTE :: bytes where
  "VOTE = [7, 97, 72, 29, 53, 116, 116, 187, 124, 77, 118, 36, 235, 211, 189, 179, 216, 53, 94, 115, 209, 16, 67, 252,
     13, 163, 83, 128, 0, 0, 0, 0]"

definition default_limit_counts_builtins_at_3000 :: bool where
  "default_limit_counts_builtins_at_3000 \<longleftrightarrow>
     (let SYSTEM = replicate 32 0 in
      (case decode_transaction (transaction False [(SYSTEM, [2]), (SYSTEM, [2])]) of
         Inl e \<Rightarrow> False | Inr info \<Rightarrow> ti_cu_limit info = 6000 \<and> ti_cu_limit_defaulted info) \<and>
      (case decode_transaction (transaction True [(VOTE, [1]), (SYSTEM, [2])]) of
         Inl e \<Rightarrow> False | Inr info \<Rightarrow> ti_cu_limit info = 203000) \<and>
      (case decode_transaction (transaction False (replicate 8 (OTHER, [1]))) of
         Inl e \<Rightarrow> False | Inr info \<Rightarrow> ti_cu_limit info = 1400000))"

definition budget_values_with_trailing_bytes_decode :: bool where
  "budget_values_with_trailing_bytes_decode \<longleftrightarrow>
     (case decode_transaction (transaction False
          [(COMPUTE_BUDGET_ID, limit_data 100001 @ replicate 4 0), (COMPUTE_BUDGET_ID, price_data 7 @ [0])]) of
        Inl e \<Rightarrow> False
      | Inr info \<Rightarrow> ti_cu_limit info = 100001 \<and> ti_cu_price_micro_lamports info = Some 7)"

definition duplicate_or_malformed_budget_is_invalid :: bool where
  "duplicate_or_malformed_budget_is_invalid \<longleftrightarrow>
     list_all (\<lambda>instructions. decode_transaction (transaction False instructions) = Inl InvalidBudget)
       [[(COMPUTE_BUDGET_ID, limit_data 1), (COMPUTE_BUDGET_ID, limit_data 2)],
        [(COMPUTE_BUDGET_ID, price_data 1), (COMPUTE_BUDGET_ID, price_data 2)],
        [(COMPUTE_BUDGET_ID, [2, 1])],
        [(COMPUTE_BUDGET_ID, [])]]"

definition limit_and_price_decoded :: "transaction_info \<Rightarrow> bool" where
  "limit_and_price_decoded info \<longleftrightarrow>
     ti_cu_limit info = 300000 \<and> ti_cu_price_micro_lamports info = Some 5000 \<and>
     ti_requested_priority_fee_lamports info = Some 1500 \<and> ti_num_instructions info = 3"

definition legacy_fixture_base58_default_encoding_decodes_limit_and_price :: "string \<Rightarrow> bool" where
  "legacy_fixture_base58_default_encoding_decodes_limit_and_price text \<longleftrightarrow>
     (case decode_params LEGACY_LIMIT_PRICE_TRANSFER [JStr False text] of
        Inl e \<Rightarrow> False
      | Inr info \<Rightarrow> limit_and_price_decoded info \<and> \<not> ti_cu_limit_defaulted info \<and> ti_num_signatures info = 1 \<and>
          \<not> ti_is_versioned info)"

definition legacy_fixture_base64_explicit_encoding_limit_only :: "string \<Rightarrow> bool" where
  "legacy_fixture_base64_explicit_encoding_limit_only text \<longleftrightarrow>
     (case decode_params LEGACY_LIMIT_ONLY [JStr False text, base64_option] of
        Inl e \<Rightarrow> False
      | Inr info \<Rightarrow> ti_cu_limit info = 300000 \<and> \<not> ti_cu_limit_defaulted info \<and>
          ti_cu_price_micro_lamports info = None \<and> ti_requested_priority_fee_lamports info = None \<and>
          ti_num_instructions info = 2 \<and> \<not> ti_is_versioned info)"

definition v0_fixture_without_alt_lookups_decodes_limit_and_price :: bool where
  "v0_fixture_without_alt_lookups_decodes_limit_and_price \<longleftrightarrow>
     (case decode_transaction V0_NO_ALT of
        Inl e \<Rightarrow> False | Inr info \<Rightarrow> ti_is_versioned info \<and> limit_and_price_decoded info)"

definition v0_fixture_with_alt_lookups_decodes_limit_and_price :: bool where
  "v0_fixture_with_alt_lookups_decodes_limit_and_price \<longleftrightarrow>
     (case decode_transaction V0_WITH_ALT of
        Inl e \<Rightarrow> False | Inr info \<Rightarrow> ti_is_versioned info \<and> limit_and_price_decoded info)"

section \<open>They hold of the model\<close>

definition test_wire :: "bool \<Rightarrow> (bytes \<times> bytes) list \<Rightarrow> bytes \<Rightarrow> wire_transaction" where
  "test_wire versioned instructions lookups =
     \<lparr>wt_signatures = [replicate 64 0], wt_versioned = versioned, wt_header = [1, 0, 0], wt_keys = map fst instructions,
      wt_blockhash = replicate 32 0,
      wt_instructions = map (\<lambda>(i, key, data). \<lparr>ci_program = of_nat i, ci_accounts = [], ci_data = data\<rparr>)
        (enumerate 0 instructions), wt_lookups = lookups\<rparr>"

definition small_call :: "bytes \<times> bytes \<Rightarrow> bool" where
  "small_call c \<longleftrightarrow> length (fst c) = 32 \<and> length (snd c) < 128"

text \<open>Two texts that are not in the alphabet of their encoding do not decode; \<open>text\<close> and \<open>v1_text\<close> encode the oversized bytes.\<close>

definition malformed_and_unsupported_inputs_are_classified :: "string \<Rightarrow> string \<Rightarrow> bool" where
  "malformed_and_unsupported_inputs_are_classified text v1_text \<longleftrightarrow>
     decode_transaction [] = Inl Unparsed \<and>
     decode_transaction ((transaction True [])[65 := 0x81]) = Inl Unsupported \<and>
     decode_transaction [0x80] = Inl Unparsed \<and>
     decode_request (\<lambda>_. Some (JObj [(''params'', JArr [JStr False ''%%%'', base64_option])])) (\<lambda>_. None) (\<lambda>_. None) [] =
       Inl Unparsed \<and>
     decode_request (\<lambda>_. Some (JObj [(''params'', JArr [JStr False ''0OIl''])])) (\<lambda>_. None) (\<lambda>_. None) [] =
       Inl Unparsed \<and>
     decode_params [] [JStr False ''abc'', JObj [(''encoding'', JStr False ''base32'')]] = Inl Unsupported \<and>
     decode_params [] [JStr False (replicate (MAX_BASE58_LEN + 1) CHR ''1'')] = Inl Unparsed \<and>
     decode_params (replicate 1233 0) [JStr False text, base64_option] = Inl Unparsed \<and>
     length v1_text \<le> MAX_BASE64_LEN + 4 \<and>
     decode_params (V1_PREFIX # replicate 4096 0) [JStr False v1_text, base64_option] = Inl Unparsed"

definition out_of_range_program_index_and_bad_shortvec_are_unparsed :: bool where
  "out_of_range_program_index_and_bad_shortvec_are_unparsed \<longleftrightarrow>
     decode_transaction ((transaction False [(OTHER, [1])])[1 + 64 + 3 + 1 + 32 + 32 + 1 := 1]) = Inl Unparsed \<and>
     decode_transaction [0x80, 0x80, 0x80] = Inl Unparsed \<and>
     decode_transaction ([0x81, 0x00] @ drop 1 (transaction False [(OTHER, [1])])) = Inl Unparsed \<and>
     (let complete = transaction False [(OTHER, [1, 2, 3])] in
      list_all (\<lambda>end'. decode_transaction (take end' complete) = Inl Unparsed) [1, 64, 66, 70, length complete - 1])"

definition legacy_wire :: "bytes \<Rightarrow> compiled_instruction list \<Rightarrow> wire_transaction" where
  "legacy_wire F is =
     \<lparr>wt_signatures = [take 64 (drop 1 F)], wt_versioned = False, wt_header = [1, 0, 2],
      wt_keys = [take 32 (drop 69 F), take 32 (drop 101 F), replicate 32 0, COMPUTE_BUDGET_ID],
      wt_blockhash = replicate 32 7, wt_instructions = is, wt_lookups = []\<rparr>"

definition limit_call :: compiled_instruction where
  "limit_call = \<lparr>ci_program = 3, ci_accounts = [], ci_data = [2, 224, 147, 4, 0]\<rparr>"

definition transfer_call :: compiled_instruction where
  "transfer_call = \<lparr>ci_program = 2, ci_accounts = [0, 1], ci_data = [2, 0, 0, 0, 64, 66, 15, 0, 0, 0, 0, 0]\<rparr>"

definition price_call :: compiled_instruction where
  "price_call = \<lparr>ci_program = 3, ci_accounts = [], ci_data = [3, 136, 19, 0, 0, 0, 0, 0, 0]\<rparr>"

definition v0_alt_wire :: wire_transaction where
  "v0_alt_wire =
     \<lparr>wt_signatures = [take 64 (drop 1 V0_WITH_ALT)], wt_versioned = True, wt_header = [1, 0, 2],
      wt_keys = [take 32 (drop 70 V0_WITH_ALT), take 32 (drop 102 V0_WITH_ALT), COMPUTE_BUDGET_ID],
      wt_blockhash = replicate 32 7,
      wt_instructions = [limit_call\<lparr>ci_program := 2\<rparr>, price_call\<lparr>ci_program := 2\<rparr>,
        \<lparr>ci_program = 1, ci_accounts = [3], ci_data = [9]\<rparr>],
      wt_lookups = drop 224 V0_WITH_ALT\<rparr>"

definition complete_bytes :: bytes where
  "complete_bytes = 1 # replicate 64 0 @ [1, 0, 0, 1] @ replicate 32 7 @ replicate 32 0 @ [1, 0, 0, 3, 1, 2, 3]"

lemma concat_encoded:
  "list_all small_call cs \<Longrightarrow>
   concat (map (encode_instruction \<circ> (\<lambda>(i, key, data). \<lparr>ci_program = of_nat i, ci_accounts = [], ci_data = data\<rparr>)) (enumerate n cs)) =
   concat (map (\<lambda>(i, key, data). [of_nat i, 0, of_nat (length data)] @ data) (enumerate n cs))"
  by (induction cs arbitrary: n) (auto simp: encode_instruction_def encode_shortvec_def small_call_def)

lemma transaction_wire:
  assumes "list_all small_call cs" "length cs < 128"
  shows "transaction versioned cs = encode_wire (test_wire versioned cs (if versioned then [0] else []))"
  using concat_encoded[OF assms(1), of 0] assms(2)
  by (simp add: transaction_def encode_wire_def test_wire_def encode_shortvec_def)

lemma test_instruction:
  "i < length cs \<Longrightarrow> wt_instructions (test_wire v cs lk) ! i =
     \<lparr>ci_program = of_nat i, ci_accounts = [], ci_data = snd (cs ! i)\<rparr>"
  by (cases "cs ! i") (simp add: test_wire_def nth_enumerate_eq)

lemma test_wire_simps [simp]:
  "wt_signatures (test_wire v cs lk) = [replicate 64 0]" "wt_versioned (test_wire v cs lk) = v"
  "wt_header (test_wire v cs lk) = [1, 0, 0]" "wt_keys (test_wire v cs lk) = map fst cs"
  "wt_blockhash (test_wire v cs lk) = replicate 32 0" "length (wt_instructions (test_wire v cs lk)) = length cs"
  by (simp_all add: test_wire_def)

lemma test_wire_calls:
  "length cs < 128 \<Longrightarrow> wire_calls (map fst cs) (wt_instructions (test_wire v cs lk)) = cs"
  by (rule nth_equalityI) (simp_all add: wire_calls_def test_instruction unat_byte)

lemma encoded_calls_length:
  "list_all small_call cs \<Longrightarrow>
   length (concat (map (\<lambda>(i, key, data). [of_nat i :: byte, 0, of_nat (length data)] @ data) (enumerate n cs)))
     \<le> 131 * length cs"
proof (induction cs arbitrary: n)
  case (Cons c cs)
  have "length (snd c) \<le> 127" using Cons.prems by (simp add: small_call_def)
  with Cons.IH[of "Suc n"] Cons.prems show ?case by (cases c) simp
qed simp

lemma keys_length: "list_all small_call cs \<Longrightarrow> length (concat (map fst cs)) = 32 * length cs"
  by (induction cs) (simp_all add: small_call_def)

lemma encode_wire_length:
  assumes "list_all small_call cs" "length cs < 128"
  shows "length (encode_wire (test_wire v cs lk)) \<le> 200 + 164 * length cs + length lk"
proof -
  have "length (concat (map encode_instruction (wt_instructions (test_wire v cs lk)))) \<le> 131 * length cs"
    using concat_encoded[OF assms(1), of 0] encoded_calls_length[OF assms(1), of 0]
    by (simp add: test_wire_def)
  moreover have "length (wt_lookups (test_wire v cs lk)) = length lk" by (simp add: test_wire_def)
  ultimately show ?thesis
    using assms(2) keys_length[OF assms(1)]
    unfolding encode_wire_def by (cases v) (simp_all add: encode_shortvec_def)
qed

lemma test_wire_wf:
  assumes "list_all small_call cs" "length cs < 128" "length lk < 2 ^ 32"
  shows "wf_wire (test_wire v cs lk)"
  using assms encode_wire_length[OF assms(1,2), of v lk]
  by (simp add: wf_wire_def wf_instruction_def list_all_length test_instruction small_call_def unat_byte)
    (auto intro: less_trans)

lemma decode_test_wire:
  assumes "list_all small_call cs" "length cs < 128" "length lk < 2 ^ 32"
  shows "decode_transaction (encode_wire (test_wire v cs lk)) =
    map_sum id (\<lambda>st. budget_info st (length cs) 1 v) (budget_run cs budget_new)"
  using decode_transaction_wire[OF test_wire_wf[OF assms]] test_wire_calls[OF assms(2)] by simp

lemma decode_test:
  assumes "list_all small_call cs" "length cs < 128"
  shows "decode_transaction (transaction v cs) =
    map_sum id (\<lambda>st. budget_info st (length cs) 1 v) (budget_run cs budget_new)"
  using decode_test_wire[OF assms, of "if v then [0] else []" v] transaction_wire[OF assms] by simp

text \<open>What the instructions of the tests do to the budget.\<close>

lemma OTHER_builtin [simp]: "OTHER \<notin> set BUILTIN_PROGRAM_IDS" "OTHER \<noteq> COMPUTE_BUDGET_ID"
proof -
  have "hd OTHER = 7" by (simp add: OTHER_def)
  moreover have "list_all (\<lambda>key. hd key \<noteq> 7) BUILTIN_PROGRAM_IDS" "hd COMPUTE_BUDGET_ID \<noteq> 7"
    by (simp_all add: BUILTIN_PROGRAM_IDS_def COMPUTE_BUDGET_ID_def)
  ultimately show "OTHER \<notin> set BUILTIN_PROGRAM_IDS" "OTHER \<noteq> COMPUTE_BUDGET_ID"
    by (auto simp: list_all_iff)
qed

lemma budget_builtin [simp]: "COMPUTE_BUDGET_ID \<in> set BUILTIN_PROGRAM_IDS"
  by (simp add: BUILTIN_PROGRAM_IDS_def)

lemma le_bytes_values:
  "u32_from_le (le_bytes 4 (unat (v :: u32))) = v" "u64_from_le (le_bytes 8 (unat (w :: u64))) = w"
  using unsigned_less[of v, where 'a = nat] unsigned_less[of w, where 'a = nat]
  by (simp_all add: u32_from_le_def u64_from_le_def le_nat_le_bytes)

lemma budget_other:
  "budget_instruction OTHER data st =
     Inr (st\<lparr>bu_default_limit := u64_saturating_add (bu_default_limit st) 200000\<rparr>)"
  by (simp add: budget_instruction_def DEFAULT_INSTRUCTION_COMPUTE_UNITS_def Let_def)

lemma budget_limit:
  "budget_instruction COMPUTE_BUDGET_ID (limit_data v @ rest) st =
     (if bu_explicit_limit st \<noteq> None then Inl InvalidBudget
      else Inr (st\<lparr>bu_default_limit := u64_saturating_add (bu_default_limit st) 3000,
        bu_explicit_limit := Some (ucast v)\<rparr>))"
  by (simp add: budget_instruction_def DEFAULT_BUILTIN_COMPUTE_UNITS_def limit_data_def le_bytes_values Let_def)

lemma budget_price:
  "budget_instruction COMPUTE_BUDGET_ID (price_data v @ rest) st =
     (if bu_price st \<noteq> None then Inl InvalidBudget
      else Inr (st\<lparr>bu_default_limit := u64_saturating_add (bu_default_limit st) 3000, bu_price := Some v\<rparr>))"
  by (simp add: budget_instruction_def DEFAULT_BUILTIN_COMPUTE_UNITS_def price_data_def le_bytes_values Let_def)

lemmas budget_steps = budget_other budget_limit budget_price budget_limit[where rest = "[]", simplified]
  budget_price[where rest = "[]", simplified]

lemma small_calls [simp]:
  "small_call (COMPUTE_BUDGET_ID, limit_data l)" "small_call (COMPUTE_BUDGET_ID, price_data p)"
  "length data < 128 \<Longrightarrow> small_call (OTHER, data)"
  by (simp_all add: small_call_def limit_data_def price_data_def COMPUTE_BUDGET_ID_def OTHER_def)

lemma decode_params_base58:
  assumes "length text \<le> MAX_BASE58_LEN" "length bs \<le> MAX_LEGACY_LEN"
  shows "decode_params bs [JStr u text] = decode_transaction bs"
  using assms
  by (simp add: decode_params_def decode_request_def json_get_def json_as_array_def json_as_str_def decode_text_def
      encoding_param_def MAX_BASE58_LEN_def MAX_BASE64_LEN_def MAX_LEGACY_LEN_def MAX_V1_LEN_def Let_def)

lemma decode_params_base64:
  assumes "length text \<le> MAX_BASE64_LEN" "length bs \<le> MAX_LEGACY_LEN"
  shows "decode_params bs [JStr u text, base64_option] = decode_transaction bs"
  using assms
  by (simp add: decode_params_def base64_option_def decode_request_def json_get_def json_as_array_def
      json_as_str_def decode_text_def encoding_param_def MAX_LEGACY_LEN_def MAX_V1_LEN_def Let_def)

lemma transaction_length:
  assumes "list_all small_call cs" "length cs < 6"
  shows "length (transaction v cs) \<le> MAX_LEGACY_LEN"
proof -
  have "length (transaction v cs) \<le> 200 + 164 * length cs + 1"
    using encode_wire_length[OF assms(1), of v "if v then [0] else []"] transaction_wire[OF assms(1), of v] assms(2)
    by (cases v) auto
  then show ?thesis using assms(2) by (simp add: MAX_LEGACY_LEN_def)
qed

lemmas budget_eval = budget_new_def budget_info_def u64_saturating_add_def MAX_COMPUTE_UNITS_def
  word_le_nat_alt priority_fee_def min_def Let_def

lemma legacy_defaults_holds:
  "length text \<le> MAX_BASE58_LEN \<Longrightarrow> legacy_defaults_limit_and_base58_encoding text"
  unfolding legacy_defaults_limit_and_base58_encoding_def
  by (simp add: decode_params_base58 transaction_length decode_test budget_steps budget_eval)

lemma legacy_explicit_holds:
  "length text \<le> MAX_BASE64_LEN \<Longrightarrow> legacy_explicit_base64_and_limit_only_decode text"
  unfolding legacy_explicit_base64_and_limit_only_decode_def
  by (simp add: decode_params_base64 transaction_length decode_test budget_steps budget_eval)

lemma unat_max: "unat (- 1 :: u64) = 18446744073709551615"
  by (simp add: unsigned_minus_1_eq_mask mask_eq_exp_minus_1)

lemma price_only_holds: "price_only_uses_default_and_limit_is_clamped"
  unfolding price_only_uses_default_and_limit_is_clamped_def
  by (simp add: decode_test budget_steps budget_eval unat_max)

lemma small_calls_more [simp]:
  "length rest < 64 \<Longrightarrow> small_call (COMPUTE_BUDGET_ID, limit_data l @ rest)"
  "length rest < 64 \<Longrightarrow> small_call (COMPUTE_BUDGET_ID, price_data p @ rest)"
  "length data < 128 \<Longrightarrow> small_call (COMPUTE_BUDGET_ID, data)"
  "length data < 128 \<Longrightarrow> small_call (replicate 32 k, data)"
  "length data < 128 \<Longrightarrow> small_call (VOTE, data)"
  by (simp_all add: small_call_def limit_data_def price_data_def COMPUTE_BUDGET_ID_def VOTE_def)

lemma zero_price_holds: "zero_price_is_present_and_budget_key_not_invoked_is_ignored"
proof -
  have "budget_instruction COMPUTE_BUDGET_ID [1] st =
      Inr (st\<lparr>bu_default_limit := u64_saturating_add (bu_default_limit st) 3000\<rparr>)" for st
    by (simp add: budget_instruction_def DEFAULT_BUILTIN_COMPUTE_UNITS_def Let_def)
  then show ?thesis
    unfolding zero_price_is_present_and_budget_key_not_invoked_is_ignored_def
    by (simp add: decode_test budget_steps budget_eval price_data_def[THEN arg_cong[where f = length], simplified])
qed

lemma budget_values_holds: "budget_values_with_trailing_bytes_decode"
  unfolding budget_values_with_trailing_bytes_decode_def
  by (simp add: decode_test budget_steps budget_eval del: replicate.simps)

lemma duplicate_budget_holds: "duplicate_or_malformed_budget_is_invalid"
proof -
  have "budget_instruction COMPUTE_BUDGET_ID [2, 1] st = Inl InvalidBudget"
    "budget_instruction COMPUTE_BUDGET_ID [] st = Inl InvalidBudget" for st
    by (simp_all add: budget_instruction_def Let_def)
  then show ?thesis
    unfolding duplicate_or_malformed_budget_is_invalid_def
    by (simp add: decode_test budget_steps budget_new_def)
qed

lemma budget_system:
  "budget_instruction (replicate 32 0) data st =
     Inr (st\<lparr>bu_default_limit := u64_saturating_add (bu_default_limit st) 3000\<rparr>)"
proof -
  have "hd COMPUTE_BUDGET_ID \<noteq> 0" by (simp add: COMPUTE_BUDGET_ID_def)
  then have "replicate 32 0 \<noteq> COMPUTE_BUDGET_ID" by (metis hd_replicate zero_neq_numeral)
  moreover have "replicate 32 0 \<in> set BUILTIN_PROGRAM_IDS"
    unfolding BUILTIN_PROGRAM_IDS_def by (rule list.set_intros)
  ultimately show ?thesis by (simp add: budget_instruction_def DEFAULT_BUILTIN_COMPUTE_UNITS_def Let_def)
qed

lemma budget_vote:
  "budget_instruction VOTE data st =
     Inr (st\<lparr>bu_default_limit := u64_saturating_add (bu_default_limit st) 200000\<rparr>)"
proof -
  have "list_all (\<lambda>key. hd key \<noteq> 7) BUILTIN_PROGRAM_IDS" "hd COMPUTE_BUDGET_ID \<noteq> 7" "hd VOTE = 7"
    by (simp_all add: BUILTIN_PROGRAM_IDS_def COMPUTE_BUDGET_ID_def VOTE_def)
  then have "VOTE \<notin> set BUILTIN_PROGRAM_IDS" "VOTE \<noteq> COMPUTE_BUDGET_ID" by (auto simp: list_all_iff)
  then show ?thesis by (simp add: budget_instruction_def DEFAULT_INSTRUCTION_COMPUTE_UNITS_def Let_def)
qed

lemma default_limit_holds: "default_limit_counts_builtins_at_3000"
proof -
  have "replicate 8 (OTHER, [1]) = [(OTHER, [1]), (OTHER, [1]), (OTHER, [1]), (OTHER, [1]), (OTHER, [1]),
      (OTHER, [1]), (OTHER, [1]), (OTHER, [1 :: byte])]"
    by (simp add: numeral_eq_Suc)
  then show ?thesis
    unfolding default_limit_counts_builtins_at_3000_def Let_def
    by (simp add: decode_test budget_steps budget_system budget_vote budget_eval)
qed

lemma v0_base64_holds:
  assumes "length text \<le> MAX_BASE64_LEN"
  shows "v0_base64_decodes_limit_price_and_ceiling text"
proof -
  have "butlast (transaction True [(OTHER, [9])]) @ [1] @ replicate 32 8 @ [1, 0, 1, 0] =
      encode_wire (test_wire True [(OTHER, [9])] ([1] @ replicate 32 8 @ [1, 0, 1, 0]))"
    unfolding transaction_wire[of "[(OTHER, [9])]" True, simplified]
    by (simp add: encode_wire_def butlast_append test_wire_def)
  then show ?thesis
    using assms unfolding v0_base64_decodes_limit_price_and_ceiling_def
    by (simp add: decode_params_base64 transaction_length decode_test decode_test_wire budget_steps budget_eval)
qed

section \<open>The serialized fixtures\<close>

lemma fixture_decode:
  assumes "F = encode_wire t" "wf_wire t" "wire_calls (wt_keys t) (wt_instructions t) = calls"
    and "length calls = n" "length (wt_signatures t) = 1" "wt_versioned t = v"
  shows "decode_transaction F = map_sum id (\<lambda>st. budget_info st n 1 v) (budget_run calls budget_new)"
  using decode_transaction_wire[OF assms(2)] assms(1,3-) by (auto simp: wire_calls_def)

lemma le_bytes_4: "le_bytes 4 n = [of_nat (n mod 256), of_nat (n div 256 mod 256), of_nat (n div 256 div 256 mod 256),
    of_nat (n div 256 div 256 div 256 mod 256)]"
proof -
  have "(4 :: nat) = Suc (Suc (Suc (Suc 0)))" by simp
  then show ?thesis by (simp only: le_bytes.simps)
qed

lemma le_bytes_8: "le_bytes 8 n = le_bytes 4 n @ le_bytes 4 (n div 256 div 256 div 256 div 256)"
proof -
  have "(8 :: nat) = Suc (Suc (Suc (Suc 4)))" by simp
  then show ?thesis by (simp only: le_bytes.simps) (simp add: le_bytes_4)
qed

lemma fixture_limit: "[2, 224, 147, 4, 0] = limit_data 300000"
  by (simp add: limit_data_def le_bytes_4)

lemma fixture_price: "[3, 136, 19, 0, 0, 0, 0, 0, 0] = price_data 5000"
  by (simp add: price_data_def le_bytes_4 le_bytes_8)

lemma replicate_32: "replicate 32 x = [x, x, x, x, x, x, x, x, x, x, x, x, x, x, x, x, x, x, x, x, x, x, x, x, x, x, x, x,
    x, x, x, x]"
  by (simp add: numeral_eq_Suc)

lemma budget_elsewhere:
  "hd key \<noteq> 3 \<Longrightarrow> \<exists>d. budget_instruction key data st = Inr (st\<lparr>bu_default_limit := d\<rparr>)"
  by (auto simp: budget_instruction_def COMPUTE_BUDGET_ID_def Let_def)

lemma legacy_only: "LEGACY_LIMIT_ONLY = encode_wire (legacy_wire LEGACY_LIMIT_ONLY [limit_call, transfer_call])"
  unfolding legacy_wire_def encode_wire_def
  by (simp add: LEGACY_LIMIT_ONLY_def limit_call_def transfer_call_def
      encode_instruction_def encode_shortvec_def COMPUTE_BUDGET_ID_def replicate_32)

lemma legacy_price: "LEGACY_LIMIT_PRICE_TRANSFER =
    encode_wire (legacy_wire LEGACY_LIMIT_PRICE_TRANSFER [limit_call, price_call, transfer_call])"
  unfolding legacy_wire_def encode_wire_def
  by (simp add: LEGACY_LIMIT_PRICE_TRANSFER_def limit_call_def price_call_def transfer_call_def
      encode_instruction_def encode_shortvec_def COMPUTE_BUDGET_ID_def replicate_32)

lemma v0_no_alt: "V0_NO_ALT = encode_wire (legacy_wire V0_NO_ALT [limit_call, price_call, transfer_call]
    \<lparr>wt_versioned := True, wt_keys := [take 32 (drop 70 V0_NO_ALT), take 32 (drop 102 V0_NO_ALT), replicate 32 0,
      COMPUTE_BUDGET_ID], wt_lookups := [0]\<rparr>)"
  unfolding legacy_wire_def encode_wire_def
  by (simp add: V0_NO_ALT_def limit_call_def price_call_def transfer_call_def
      encode_instruction_def encode_shortvec_def COMPUTE_BUDGET_ID_def replicate_32)

lemma v0_alt: "V0_WITH_ALT = encode_wire v0_alt_wire"
  unfolding v0_alt_wire_def encode_wire_def
  by (simp add: V0_WITH_ALT_def limit_call_def price_call_def 
      encode_instruction_def encode_shortvec_def COMPUTE_BUDGET_ID_def replicate_32)

lemma fixture_lengths:
  "length LEGACY_LIMIT_ONLY = 255" "length LEGACY_LIMIT_PRICE_TRANSFER = 267" "length V0_NO_ALT = 269"
  "length V0_WITH_ALT = 260" "length COMPUTE_BUDGET_ID = 32"
  by (simp_all add: LEGACY_LIMIT_ONLY_def LEGACY_LIMIT_PRICE_TRANSFER_def V0_NO_ALT_def V0_WITH_ALT_def
      COMPUTE_BUDGET_ID_def)

lemma fixtures_wf:
  "wf_wire (legacy_wire LEGACY_LIMIT_ONLY [limit_call, transfer_call])"
  "wf_wire (legacy_wire LEGACY_LIMIT_PRICE_TRANSFER [limit_call, price_call, transfer_call])"
  unfolding wf_wire_def legacy_only[symmetric] legacy_price[symmetric] fixture_lengths
  by (simp_all add: legacy_wire_def wf_instruction_def limit_call_def price_call_def transfer_call_def fixture_lengths)

lemma v0_fixtures_wf:
  "wf_wire (legacy_wire V0_NO_ALT [limit_call, price_call, transfer_call]
    \<lparr>wt_versioned := True, wt_keys := [take 32 (drop 70 V0_NO_ALT), take 32 (drop 102 V0_NO_ALT), replicate 32 0,
      COMPUTE_BUDGET_ID], wt_lookups := [0]\<rparr>)"
  "wf_wire v0_alt_wire"
  unfolding wf_wire_def v0_no_alt[symmetric] v0_alt[symmetric] fixture_lengths
  by (simp_all add: legacy_wire_def v0_alt_wire_def wf_instruction_def limit_call_def price_call_def transfer_call_def
      fixture_lengths)

lemma legacy_base64_fixture_holds:
  assumes "length text \<le> MAX_BASE64_LEN"
  shows "legacy_fixture_base64_explicit_encoding_limit_only text"
proof -
  have "decode_transaction LEGACY_LIMIT_ONLY = map_sum id (\<lambda>st. budget_info st 2 1 False)
      (budget_run [(COMPUTE_BUDGET_ID, limit_data 300000), (replicate 32 0, ci_data transfer_call)] budget_new)"
    by (rule fixture_decode[OF legacy_only fixtures_wf(1)])
      (simp_all add: legacy_wire_def wire_calls_def limit_call_def transfer_call_def fixture_limit)
  then show ?thesis
    using assms unfolding legacy_fixture_base64_explicit_encoding_limit_only_def
    by (simp add: decode_params_base64 fixture_lengths MAX_LEGACY_LEN_def budget_steps budget_system budget_eval)
qed

lemma legacy_base58_fixture_holds:
  assumes "length text \<le> MAX_BASE58_LEN"
  shows "legacy_fixture_base58_default_encoding_decodes_limit_and_price text"
proof -
  have "decode_transaction LEGACY_LIMIT_PRICE_TRANSFER = map_sum id (\<lambda>st. budget_info st 3 1 False)
      (budget_run [(COMPUTE_BUDGET_ID, limit_data 300000), (COMPUTE_BUDGET_ID, price_data 5000),
        (replicate 32 0, ci_data transfer_call)] budget_new)"
    by (rule fixture_decode[OF legacy_price fixtures_wf(2)])
      (simp_all add: legacy_wire_def wire_calls_def limit_call_def price_call_def transfer_call_def fixture_limit
        fixture_price)
  then show ?thesis
    using assms unfolding legacy_fixture_base58_default_encoding_decodes_limit_and_price_def
    by (simp add: decode_params_base58 fixture_lengths MAX_LEGACY_LEN_def budget_steps budget_system budget_eval
        limit_and_price_decoded_def)
qed

lemma v0_fixtures_hold:
  "v0_fixture_without_alt_lookups_decodes_limit_and_price" "v0_fixture_with_alt_lookups_decodes_limit_and_price"
proof -
  have "decode_transaction V0_NO_ALT = map_sum id (\<lambda>st. budget_info st 3 1 True)
      (budget_run [(COMPUTE_BUDGET_ID, limit_data 300000), (COMPUTE_BUDGET_ID, price_data 5000),
        (replicate 32 0, ci_data transfer_call)] budget_new)"
    by (rule fixture_decode[OF v0_no_alt v0_fixtures_wf(1)])
      (simp_all add: legacy_wire_def wire_calls_def limit_call_def price_call_def transfer_call_def fixture_limit
        fixture_price)
  then show "v0_fixture_without_alt_lookups_decodes_limit_and_price"
    unfolding v0_fixture_without_alt_lookups_decodes_limit_and_price_def
    by (simp add: budget_steps budget_system budget_eval limit_and_price_decoded_def)
  have "hd (take 32 (drop 102 V0_WITH_ALT)) \<noteq> 3" by (simp add: V0_WITH_ALT_def)
  from budget_elsewhere[OF this] obtain d where d: "\<And>st. \<exists>d. budget_instruction (take 32 (drop 102 V0_WITH_ALT)) [9] st =
      Inr (st\<lparr>bu_default_limit := d\<rparr>)" by blast
  have "decode_transaction V0_WITH_ALT = map_sum id (\<lambda>st. budget_info st 3 1 True)
      (budget_run [(COMPUTE_BUDGET_ID, limit_data 300000), (COMPUTE_BUDGET_ID, price_data 5000),
        (take 32 (drop 102 V0_WITH_ALT), [9])] budget_new)"
    by (rule fixture_decode[OF v0_alt v0_fixtures_wf(2)])
      (simp_all add: v0_alt_wire_def wire_calls_def limit_call_def price_call_def fixture_limit fixture_price)
  moreover obtain d' where "budget_run [(COMPUTE_BUDGET_ID, limit_data 300000), (COMPUTE_BUDGET_ID, price_data 5000),
        (take 32 (drop 102 V0_WITH_ALT), [9])] budget_new =
      Inr \<lparr>bu_explicit_limit = Some 300000, bu_price = Some 5000, bu_default_limit = d'\<rparr>"
    using d[of "\<lparr>bu_explicit_limit = Some 300000, bu_price = Some 5000, bu_default_limit = 6000\<rparr>"]
    by (auto simp: budget_steps budget_new_def u64_saturating_add_def)
  ultimately show "v0_fixture_with_alt_lookups_decodes_limit_and_price"
    unfolding v0_fixture_with_alt_lookups_decodes_limit_and_price_def
    by (simp add: budget_eval limit_and_price_decoded_def)
qed

section \<open>Malformed bytes\<close>

lemmas cursor_eval = decode_transaction_def decode_legacy_def cursor_new_def rd_bind_def rd_return_def rd_fail_def
  cursor_take_def cursor_byte_def cursor_skip_def checked_mul_def shortvec_def V1_PREFIX_def Let_def

lemma short_inputs:
  "decode_transaction [] = Inl Unparsed" "decode_transaction [0x80] = Inl Unparsed"
  "decode_transaction [0x80, 0x80, 0x80] = Inl Unparsed"
  by (simp_all add: cursor_eval word_less_nat_alt)

lemma replicate_64: "replicate 64 x = replicate 32 x @ replicate 32 x"
  by (simp add: replicate_add[symmetric])

lemma future_unsupported: "decode_transaction ((transaction True [])[65 := 0x81]) = Inl Unsupported"
proof -
  have "(transaction True [])[65 := 0x81] = 1 # replicate 64 0 @ [0x81, 1, 0, 0, 0] @ replicate 32 0 @ [0, 0]"
    by (simp add: transaction_def replicate_64 replicate_32)
  then show ?thesis by (simp add: cursor_eval word_less_nat_alt)
qed

lemma bad_index: "decode_transaction ((transaction False [(OTHER, [1])])[1 + 64 + 3 + 1 + 32 + 32 + 1 := 1]) = Inl Unparsed"
proof -
  have "(transaction False [(OTHER, [1])])[1 + 64 + 3 + 1 + 32 + 32 + 1 := 1] =
      1 # replicate 64 0 @ [1, 0, 0, 1] @ OTHER @ replicate 32 0 @ [1, 1, 0, 1, 1]"
    by (simp add: transaction_def replicate_64 replicate_32 OTHER_def)
  then show ?thesis by (simp add: cursor_eval word_less_nat_alt OTHER_def)
qed

text \<open>Its first byte is the version 1 prefix, so it is the version 1 decoder that refuses it.\<close>

lemma bad_shortvec: "decode_transaction ([0x81, 0x00] @ drop 1 (transaction False [(OTHER, [1])])) = Inl Unparsed"
proof -
  have "[0x81, 0x00] @ drop 1 (transaction False [(OTHER, [1])]) =
      0x81 # 0 # replicate 64 0 @ [1, 0, 0, 1] @ OTHER @ replicate 32 0 @ [1, 0, 0, 1, 1]"
    by (simp add: transaction_def)
  then show ?thesis
    by (simp add: cursor_eval decode_v1_def replicate_64 replicate_32 OTHER_def u32_from_le_def rd_lift_def v1_fee_def
        cursor_remaining_def)
qed

lemma truncated_early:
  "decode_transaction (take 1 complete_bytes) = Inl Unparsed"
  "decode_transaction (take 64 complete_bytes) = Inl Unparsed"
  by (simp_all add: complete_bytes_def cursor_eval word_less_nat_alt)

lemma truncated_header:
  "decode_transaction (take 66 complete_bytes) = Inl Unparsed"
  "decode_transaction (take 70 complete_bytes) = Inl Unparsed"
  by (simp_all add: complete_bytes_def cursor_eval word_less_nat_alt)

lemma truncated_data: "decode_transaction (take 139 complete_bytes) = Inl Unparsed"
proof -
  have "take 139 complete_bytes =
      1 # replicate 64 0 @ [1, 0, 0, 1] @ replicate 32 7 @ replicate 32 0 @ [1, 0, 0, 3, 1, 2]"
    by (simp add: complete_bytes_def)
  then show ?thesis by (simp add: cursor_eval word_less_nat_alt)
qed

lemma complete:
  "transaction False [(OTHER, [1, 2, 3])] = complete_bytes" "length complete_bytes = 140"
  by (simp_all add: transaction_def OTHER_def complete_bytes_def)

lemma out_of_range_holds: "out_of_range_program_index_and_bad_shortvec_are_unparsed"
  unfolding out_of_range_program_index_and_bad_shortvec_are_unparsed_def Let_def list_all_iff
  using bad_index bad_shortvec short_inputs(3) truncated_early truncated_header truncated_data
  by (simp add: complete)

lemma malformed_holds:
  assumes "length text \<le> MAX_BASE64_LEN" "length v1_text \<le> MAX_BASE64_LEN"
  shows "malformed_and_unsupported_inputs_are_classified text v1_text"
  unfolding malformed_and_unsupported_inputs_are_classified_def
proof (intro conjI)
  show "length v1_text \<le> MAX_BASE64_LEN + 4" using assms(2) by simp
  show "decode_params (V1_PREFIX # replicate 4096 0) [JStr False v1_text, base64_option] = Inl Unparsed"
    using assms by (simp add: decode_params_def base64_option_def decode_request_def json_get_def
        json_as_array_def json_as_str_def decode_text_def encoding_param_def MAX_V1_LEN_def Let_def)
  show "decode_params (replicate 1233 0) [JStr False text, base64_option] = Inl Unparsed"
    using assms by (simp add: decode_params_def base64_option_def decode_request_def json_get_def
        json_as_array_def json_as_str_def decode_text_def encoding_param_def MAX_LEGACY_LEN_def V1_PREFIX_def Let_def)
qed (simp_all add: short_inputs future_unsupported[simplified] decode_params_def base64_option_def decode_request_def json_get_def
    json_as_array_def json_as_str_def decode_text_def encoding_param_def MAX_BASE58_LEN_def MAX_BASE64_LEN_def)

end
