(* ===== verification/RequestTests.thy ===== *)
theory RequestTests
  imports Reload
begin

text \<open>
  The unit tests on request bodies (module \<open>tests\<close> of \<open>proxy.rs\<close>) and on the rebuilding of clients (module
  \<open>tests\<close> of \<open>main.rs\<close>) read as statements about the model.
\<close>

section \<open>Tests of the classification of requests\<close>

text \<open>
  A body is given by the value it parses to; of its bytes the classification reads only the first, a brace or a
  bracket.
\<close>

definition body_start :: "json \<Rightarrow> bytes" where
  "body_start v = (case v of JObj _ \<Rightarrow> [123] | _ \<Rightarrow> [91])"

definition extract_value :: "json \<Rightarrow> (string \<times> u64) option" where
  "extract_value v = extract_method (\<lambda>_. Some v) (body_start v)"

definition classify_value :: "json \<Rightarrow> string list \<Rightarrow> request_class option" where
  "classify_value v full = classify_request (\<lambda>_. Some v) (body_start v) full"

definition rpc_call :: "int \<Rightarrow> string \<Rightarrow> json" where
  "rpc_call i m = JObj [(''jsonrpc'', JStr False ''2.0''), (''id'', JInt i), (''method'', JStr False m)]"

definition bare_call :: "string \<Rightarrow> json" where
  "bare_call m = JObj [(''method'', JStr False m)]"

definition no_method :: "int \<Rightarrow> json" where
  "no_method i = JObj [(''jsonrpc'', JStr False ''2.0''), (''id'', JInt i)]"

definition extract_method_works :: bool where
  "extract_method_works \<longleftrightarrow> extract_value (rpc_call 1 ''getSlot'') = Some (''getSlot'', 1)"

definition extract_method_missing :: bool where
  "extract_method_missing \<longleftrightarrow> extract_value (no_method 1) = None"

text \<open>The body starts with the letter \<open>n\<close> and does not parse.\<close>

definition extract_method_invalid_json :: bool where
  "extract_method_invalid_json \<longleftrightarrow> extract_method (\<lambda>_. None) [110, 111, 116, 32, 106, 115, 111, 110] = None"

definition extract_method_batch_distinct_methods_kept :: bool where
  "extract_method_batch_distinct_methods_kept \<longleftrightarrow>
     extract_value (JArr [rpc_call 1 ''getSlot'', rpc_call 2 ''getBalance'']) = Some (''getSlot,getBalance'', 2)"

definition extract_method_homogeneous_batch_collapses_to_single_label :: bool where
  "extract_method_homogeneous_batch_collapses_to_single_label \<longleftrightarrow>
     (case extract_value (JArr (replicate 1000 (rpc_call 1 ''getTransaction''))) of
        None \<Rightarrow> False
      | Some (lbl, calls) \<Rightarrow> lbl = ''getTransaction'' \<and> calls = 1000 \<and> length lbl \<le> MAX_METHOD_LABEL_LEN)"

definition extract_method_many_distinct_methods_capped_with_suffix :: bool where
  "extract_method_many_distinct_methods_capped_with_suffix \<longleftrightarrow>
     extract_value (JArr (map (\<lambda>(i, m). rpc_call (int i) m) (enumerate 0
       [''getSlot'', ''getBalance'', ''getAccountInfo'', ''getBlock'', ''getTransaction'', ''getSignatureStatuses'',
        ''getEpochInfo'', ''getVersion'']))) =
     Some (''getSlot,getBalance,getAccountInfo,getBlock,getTransaction+3'', 8)"

definition extract_method_batch_array_no_methods_returns_none :: bool where
  "extract_method_batch_array_no_methods_returns_none \<longleftrightarrow> extract_value (JArr [no_method 1, no_method 2]) = None"

definition class_is :: "(request_class \<Rightarrow> bool) \<Rightarrow> request_class option \<Rightarrow> bool" where
  "class_is P c = (case c of None \<Rightarrow> False | Some c \<Rightarrow> P c)"

definition request_classification_excludes_simulation_and_marks_batches :: bool where
  "request_classification_excludes_simulation_and_marks_batches \<longleftrightarrow>
     class_is (\<lambda>c. rq_transaction c = TxSingle)
       (classify_value (JObj [(''method'', JStr False ''sendTransaction''), (''params'', JArr [])]) []) \<and>
     class_is (\<lambda>c. rq_transaction c = TxNone)
       (classify_value (JObj [(''method'', JStr False ''simulateTransaction''), (''params'', JArr [])]) []) \<and>
     class_is (\<lambda>c. rq_transaction c = TxBatch)
       (classify_value (JArr [bare_call ''getSlot'', bare_call ''sendTransaction'']) [])"

definition request_classification_finds_full_history_calls_inside_batches :: bool where
  "request_classification_finds_full_history_calls_inside_batches \<longleftrightarrow>
     (let full = [''getSignaturesForAddress''] in
      class_is (\<lambda>c. rq_full_history c \<and> \<not> rq_batch c) (classify_value (bare_call ''getSignaturesForAddress'') full) \<and>
      class_is (\<lambda>c. rq_method c = ''a,b,c,d,e+2'' \<and> rq_full_history c \<and> rq_batch c)
        (classify_value (JArr (map bare_call [''a'', ''b'', ''c'', ''d'', ''e'', ''f'', ''getSignaturesForAddress''])) full) \<and>
      class_is (\<lambda>c. rq_batch c \<and> \<not> rq_full_history c) (classify_value (JArr [bare_call ''getTransaction'']) full))"

section \<open>Tests of the reload\<close>

definition test_provider :: "string \<Rightarrow> bool \<Rightarrow> provider_config" where
  "test_provider url http3 =
     \<lparr>pv_name = ''p'', pv_url = url, pv_weight = 1, pv_http3 = http3, pv_methods = None, pv_max_rps = None,
      pv_history = Full\<rparr>"

definition rebuild_when_provider_added :: bool where
  "rebuild_when_provider_added \<longleftrightarrow>
     client_rebuild_reason None (test_provider ''http://a'' False) False = Some ''added''"

definition no_rebuild_when_inputs_unchanged :: bool where
  "no_rebuild_when_inputs_unchanged \<longleftrightarrow>
     client_rebuild_reason (Some (test_provider ''http://a'' False)) (test_provider ''http://a'' False) False = None"

definition rebuild_when_http3_toggled :: bool where
  "rebuild_when_http3_toggled \<longleftrightarrow>
     client_rebuild_reason (Some (test_provider ''http://a'' False)) (test_provider ''http://a'' True) False =
       Some ''http3 toggled''"

definition rebuild_when_url_changed :: bool where
  "rebuild_when_url_changed \<longleftrightarrow>
     client_rebuild_reason (Some (test_provider ''http://a'' False)) (test_provider ''http://b'' False) False =
       Some ''URL updated''"

definition rebuild_all_when_pool_size_changed :: bool where
  "rebuild_all_when_pool_size_changed \<longleftrightarrow>
     client_rebuild_reason (Some (test_provider ''http://a'' False)) (test_provider ''http://a'' False) True =
       Some ''pool size changed''"

definition weight_change_alone_does_not_rebuild :: bool where
  "weight_change_alone_does_not_rebuild \<longleftrightarrow>
     client_rebuild_reason (Some (test_provider ''http://a'' False)) ((test_provider ''http://a'' False)\<lparr>pv_weight := 99\<rparr>)
       False = None"

section \<open>They hold of the model\<close>

lemma rebuild_tests_hold:
  "rebuild_when_provider_added" "no_rebuild_when_inputs_unchanged" "rebuild_when_http3_toggled"
  "rebuild_when_url_changed" "rebuild_all_when_pool_size_changed" "weight_change_alone_does_not_rebuild"
  by (simp_all add: rebuild_when_provider_added_def no_rebuild_when_inputs_unchanged_def rebuild_when_http3_toggled_def
      rebuild_when_url_changed_def rebuild_all_when_pool_size_changed_def weight_change_alone_does_not_rebuild_def
      client_rebuild_reason_def test_provider_def)

lemma call_fields [simp]:
  "method_field (rpc_call i m) = Some (Some m)" "method_field (bare_call m) = Some (Some m)"
  "method_field (no_method i) = Some None"
  by (simp_all add: method_field_def rpc_call_def bare_call_def no_method_def de_struct1_def de_str_def
      de_option_def)

lemma de_all_calls:
  "list_all (\<lambda>j. method_field j \<noteq> None) js \<Longrightarrow> de_all method_field js = Some (map (the \<circ> method_field) js)"
  by (induction js) auto

lemma classify_single_value:
  "method_field (JObj ms) = Some (Some m) \<Longrightarrow> classify_value (JObj ms) full = Some (classify_single m full)"
  by (simp add: classify_value_def classify_request_def body_start_def is_ascii_whitespace_def)

lemma map_filter_fields: "List.map_filter id (map f js) = List.map_filter f js"
  by (simp add: List.map_filter_def filter_map comp_def)

lemma classify_batch_value:
  "list_all (\<lambda>j. method_field j \<noteq> None) js \<Longrightarrow>
   classify_value (JArr js) full = classify_batch (List.map_filter (the \<circ> method_field) js) full"
  unfolding classify_value_def classify_request_def body_start_def
  by (simp add: is_ascii_whitespace_def de_vec_def de_all_calls map_filter_fields)

lemma extract_value_eq: "extract_value v = map_option (\<lambda>c. (rq_method c, rq_calls c)) (classify_value v [])"
  by (simp add: extract_value_def extract_method_def classify_value_def)

lemma digit_texts: "char_of (50 :: nat) = CHR ''2''" "char_of (51 :: nat) = CHR ''3''"
  by (simp_all add: char_of_eq_iff)

lemmas batch_eval = digit_texts classify_batch_def push_unique_def batch_label_def truncate_label_def MAX_BATCH_LABEL_METHODS_def
  MAX_METHOD_LABEL_LEN_def List.map_filter_def nat_text.simps Let_def

lemma invalid_json_holds: "extract_method_invalid_json"
  by (simp add: extract_method_invalid_json_def extract_method_def classify_request_def is_ascii_whitespace_def)

lemma single_tests_hold: "extract_method_works" "extract_method_missing"
  unfolding extract_method_works_def extract_method_missing_def extract_value_eq
  by (simp_all add: classify_value_def classify_request_def body_start_def is_ascii_whitespace_def classify_single_def)
    (simp_all add: rpc_call_def no_method_def is_ascii_whitespace_def method_field_def de_struct1_def de_str_def
      de_option_def classify_single_def)

lemma distinct_holds: "extract_method_batch_distinct_methods_kept"
  unfolding extract_method_batch_distinct_methods_kept_def extract_value_eq
  by (simp add: classify_batch_value batch_eval)

lemma no_methods_holds: "extract_method_batch_array_no_methods_returns_none"
  unfolding extract_method_batch_array_no_methods_returns_none_def extract_value_eq
  by (simp add: classify_batch_value batch_eval)

lemma many_distinct_holds: "extract_method_many_distinct_methods_capped_with_suffix"
  unfolding extract_method_many_distinct_methods_capped_with_suffix_def extract_value_eq
  by (simp add: classify_batch_value batch_eval)

lemma push_replicate: "fold push_unique (replicate (Suc n) m) [] = [m]"
  by (induction n) (simp_all add: push_unique_def replicate_append_same[symmetric] del: replicate.simps(2))

lemma homogeneous_holds: "extract_method_homogeneous_batch_collapses_to_single_label"
proof -
  have fields: "List.map_filter (the \<circ> method_field) (replicate 1000 (rpc_call 1 ''getTransaction'')) =
      replicate 1000 ''getTransaction''"
    by (simp add: List.map_filter_def)
  have "classify_value (JArr (replicate 1000 (rpc_call 1 ''getTransaction''))) [] =
      classify_batch (replicate 1000 ''getTransaction'') []"
    unfolding fields[symmetric] by (rule classify_batch_value) (simp add: list_all_iff)
  moreover have "fold push_unique (replicate 1000 ''getTransaction'') [] = [''getTransaction'']"
    using push_replicate[of 999] by simp
  ultimately show ?thesis
    unfolding extract_method_homogeneous_batch_collapses_to_single_label_def extract_value_eq
    by (simp add: classify_batch_def batch_label_def truncate_label_def MAX_BATCH_LABEL_METHODS_def
        MAX_METHOD_LABEL_LEN_def Let_def)
qed

lemma transaction_classes_hold: "request_classification_excludes_simulation_and_marks_batches"
proof -
  have "method_field (JObj [(''method'', JStr False m), (''params'', JArr [])]) = Some (Some m)" for m
    by (simp add: method_field_def de_struct1_def de_str_def de_option_def)
  from classify_single_value[OF this] show ?thesis
    unfolding request_classification_excludes_simulation_and_marks_batches_def
    by (simp add: classify_batch_value batch_eval class_is_def classify_single_def)
qed

lemma full_history_holds: "request_classification_finds_full_history_calls_inside_batches"
proof -
  have "classify_value (bare_call m) full = Some (classify_single m full)" for m full
    using classify_single_value[of "[(''method'', JStr False m)]" m] call_fields(2)[of m] by (simp add: bare_call_def)
  then show ?thesis
    unfolding request_classification_finds_full_history_calls_inside_batches_def Let_def
    by (simp add: classify_batch_value batch_eval class_is_def classify_single_def)
qed

end
