(* ===== verification/ConfigTests.thy ===== *)
theory ConfigTests
  imports Decode
begin

text \<open>
  The unit tests of \<open>config.rs\<close> as definitions that keep the tests' names and assertions, and the lemmas that they
  hold of the model. A test's TOML text is given as the tree it parses to.
\<close>

section \<open>Fixtures of the configuration's tests\<close>

text \<open>
  A test writes a text to a file and loads it. \<open>load_doc\<close> loads the document that the text parses to; the crate is
  any that reads unit variants by name.
\<close>

definition load_doc :: "toml_crate \<Rightarrow> toml \<Rightarrow> load_error + config" where
  "load_doc c doc = load (\<lambda>_. Some []) (\<lambda>raw. [Lit raw]) (\<lambda>_. None) (config_from_str c (\<lambda>_. Some doc)) []"

definition loads :: "(config \<Rightarrow> bool) \<Rightarrow> load_error + config \<Rightarrow> bool" where
  "loads P r = (case r of Inl e \<Rightarrow> False | Inr cfg \<Rightarrow> P cfg)"

definition rejected :: "load_error + config \<Rightarrow> bool" where
  "rejected r = (case r of Inl e \<Rightarrow> True | Inr cfg \<Rightarrow> False)"

definition nth_opt :: "nat \<Rightarrow> 'a list \<Rightarrow> 'a option" where
  "nth_opt i xs = (if i < length xs then Some (xs ! i) else None)"

section \<open>Tests of loading\<close>

definition parses_minimal_config :: "toml_crate \<Rightarrow> bool" where
  "parses_minimal_config c \<longleftrightarrow>
     loads (\<lambda>cfg. length (cfg_providers cfg) = 1 \<and> map_option pv_name (nth_opt 0 (cfg_providers cfg)) = Some ''test'' \<and>
       sc_listen (cfg_server cfg) = ''127.0.0.1:9400'' \<and> hc_interval_ms (cfg_health cfg) = 1000 \<and> rc_max_retries (cfg_routing cfg) = 2) (load_doc c (TTable [(''providers'', TArr [TTable [(''name'', TStr ''test''), (''url'', TStr ''http://localhost:8899'')]])]))"

definition parses_full_config :: "toml_crate \<Rightarrow> bool" where
  "parses_full_config c \<longleftrightarrow>
     loads (\<lambda>cfg. hc_interval_ms (cfg_health cfg) = 1000 \<and> hc_circuit_open_failures (cfg_health cfg) = 3 \<and>
       rc_strategy (cfg_routing cfg) = WeightedRandom \<and> rc_max_retries (cfg_routing cfg) = 1 \<and>
       map_option pv_weight (nth_opt 0 (cfg_providers cfg)) = Some 2) (load_doc c (TTable [(''health'', TTable [(''interval_ms'', TInt 1000), (''circuit_open_failures'', TInt 3)]), (''routing'', TTable [(''strategy'', TStr ''weighted_random''), (''max_retries'', TInt 1)]), (''providers'', TArr [TTable [(''name'', TStr ''a''), (''url'', TStr ''http://localhost:8899''), (''weight'', TInt 2)]])]))"

definition rejects_empty_providers :: "toml_crate \<Rightarrow> bool" where
  "rejects_empty_providers c \<longleftrightarrow>
     rejected (load_doc c (TTable [(''server'', TTable [(''listen'', TStr ''127.0.0.1:9400'')])]))"

definition rejects_empty_url :: "toml_crate \<Rightarrow> bool" where
  "rejects_empty_url c \<longleftrightarrow>
     rejected (load_doc c (TTable [(''providers'', TArr [TTable [(''name'', TStr ''bad''), (''url'', TStr '''')]])]))"

text \<open>A message the test looks for is the error that carries it.\<close>

definition rejects_duplicate_provider_names :: "toml_crate \<Rightarrow> bool" where
  "rejects_duplicate_provider_names c \<longleftrightarrow>
     load_doc c (TTable [(''providers'', TArr [TTable [(''name'', TStr ''helius''), (''url'', TStr ''http://localhost:8899'')], TTable [(''name'', TStr ''helius''), (''url'', TStr ''http://localhost:8900'')]])]) = Inl (Invalid (DuplicateName ''helius''))"

definition default_write_methods_is_send_only :: "toml_crate \<Rightarrow> bool" where
  "default_write_methods_is_send_only c \<longleftrightarrow>
     loads (\<lambda>cfg. rc_write_methods (cfg_routing cfg) = [''sendTransaction'']) (load_doc c (TTable [(''providers'', TArr [TTable [(''name'', TStr ''p''), (''url'', TStr ''http://localhost:8899'')]])]))"

definition parses_provider_methods_allowlist :: "toml_crate \<Rightarrow> bool" where
  "parses_provider_methods_allowlist c \<longleftrightarrow>
     loads (\<lambda>cfg. case (nth_opt 0 (cfg_providers cfg), nth_opt 1 (cfg_providers cfg)) of
         (Some general, Some submit) \<Rightarrow>
           pv_methods general = None \<and> supports general ''getSlot'' \<and> supports submit ''sendTransaction'' \<and>
           \<not> supports submit ''getSlot''
       | _ \<Rightarrow> False) (load_doc c (TTable [(''providers'', TArr [TTable [(''name'', TStr ''general''), (''url'', TStr ''http://localhost:8899'')], TTable [(''name'', TStr ''submit''), (''url'', TStr ''http://localhost:9000''), (''methods'', TArr [TStr ''sendTransaction''])]])]))"

definition parses_provider_max_rps :: "toml_crate \<Rightarrow> bool" where
  "parses_provider_max_rps c \<longleftrightarrow>
     loads (\<lambda>cfg. map pv_max_rps (cfg_providers cfg) = [Some 50, None]) (load_doc c (TTable [(''providers'', TArr [TTable [(''name'', TStr ''capped''), (''url'', TStr ''http://localhost:8899''), (''max_rps'', TInt 50)], TTable [(''name'', TStr ''uncapped''), (''url'', TStr ''http://localhost:9000'')]])]))"

definition rejects_zero_max_rps :: "toml_crate \<Rightarrow> bool" where
  "rejects_zero_max_rps c \<longleftrightarrow>
     load_doc c (TTable [(''providers'', TArr [TTable [(''name'', TStr ''capped''), (''url'', TStr ''http://localhost:8899''), (''max_rps'', TInt 0)]])]) = Inl (Invalid (ZeroMaxRps ''capped''))"

definition rejects_empty_methods_list :: "toml_crate \<Rightarrow> bool" where
  "rejects_empty_methods_list c \<longleftrightarrow>
     load_doc c (TTable [(''providers'', TArr [TTable [(''name'', TStr ''submit''), (''url'', TStr ''http://localhost:9000''), (''methods'', TArr [])]])]) = Inl (Invalid (EmptyMethods ''submit''))"

definition parses_provider_history_with_full_default :: "toml_crate \<Rightarrow> bool" where
  "parses_provider_history_with_full_default c \<longleftrightarrow>
     loads (\<lambda>cfg. map pv_history (cfg_providers cfg) = [Full, Recent] \<and>
       rc_history_methods (cfg_routing cfg) = [''getTransaction'', ''getBlock''] \<and>
       rc_full_history_methods (cfg_routing cfg) = [''getSignaturesForAddress'']) (load_doc c (TTable [(''providers'', TArr [TTable [(''name'', TStr ''archive''), (''url'', TStr ''http://localhost:8899'')], TTable [(''name'', TStr ''public''), (''url'', TStr ''http://localhost:9000''), (''history'', TStr ''recent'')]])]))"

definition rejects_unknown_history_value :: "toml_crate \<Rightarrow> bool" where
  "rejects_unknown_history_value c \<longleftrightarrow>
     rejected (load_doc c (TTable [(''providers'', TArr [TTable [(''name'', TStr ''p''), (''url'', TStr ''http://localhost:8899''), (''history'', TStr ''archive'')]])]))"

definition rejects_all_recent_providers_with_full_history_methods :: "toml_crate \<Rightarrow> bool" where
  "rejects_all_recent_providers_with_full_history_methods c \<longleftrightarrow>
     load_doc c (TTable [(''providers'', TArr [TTable [(''name'', TStr ''a''), (''url'', TStr ''http://localhost:8899''), (''history'', TStr ''recent'')], TTable [(''name'', TStr ''b''), (''url'', TStr ''http://localhost:9000''), (''history'', TStr ''recent'')]])]) = Inl (Invalid NoFullHistoryProvider)"

definition accepts_all_recent_providers_without_full_history_methods :: "toml_crate \<Rightarrow> bool" where
  "accepts_all_recent_providers_without_full_history_methods c \<longleftrightarrow>
     loads (\<lambda>cfg. True) (load_doc c (TTable [(''routing'', TTable [(''full_history_methods'', TArr [])]), (''providers'', TArr [TTable [(''name'', TStr ''a''), (''url'', TStr ''http://localhost:8899''), (''history'', TStr ''recent'')]])]))"

definition reference_url_defaults_to_none :: "toml_crate \<Rightarrow> bool" where
  "reference_url_defaults_to_none c \<longleftrightarrow>
     loads (\<lambda>cfg. hc_reference_url (cfg_health cfg) = None) (load_doc c (TTable [(''providers'', TArr [TTable [(''name'', TStr ''p''), (''url'', TStr ''http://localhost:8899'')]])]))"

definition parses_reference_url :: "toml_crate \<Rightarrow> bool" where
  "parses_reference_url c \<longleftrightarrow>
     loads (\<lambda>cfg. hc_reference_url (cfg_health cfg) = Some ''https://api.mainnet-beta.solana.com'') (load_doc c (TTable [(''health'', TTable [(''reference_url'', TStr ''https://api.mainnet-beta.solana.com'')]), (''providers'', TArr [TTable [(''name'', TStr ''p''), (''url'', TStr ''http://localhost:8899'')]])]))"

definition rejects_empty_reference_url :: "toml_crate \<Rightarrow> bool" where
  "rejects_empty_reference_url c \<longleftrightarrow>
     load_doc c (TTable [(''health'', TTable [(''reference_url'', TStr ''  '')]), (''providers'', TArr [TTable [(''name'', TStr ''p''), (''url'', TStr ''http://localhost:8899'')]])]) = Inl (Invalid BlankReferenceUrl)"

definition load_probe_commitments :: "toml_crate \<Rightarrow> string list \<Rightarrow> load_error + config" where
  "load_probe_commitments c names =
     load_doc c (TTable [(''health'', TTable [(''probe_commitments'', TArr (map TStr names))]), (''providers'', TArr [TTable [(''name'', TStr ''p''), (''url'', TStr ''http://localhost:8899'')]])])"

definition probe_commitments_default_to_processed_and_finalized :: "toml_crate \<Rightarrow> bool" where
  "probe_commitments_default_to_processed_and_finalized c \<longleftrightarrow>
     loads (\<lambda>cfg. hc_probe_commitments (cfg_health cfg) = [Processed, Finalized] \<and>
       hc_probe_commitments default_health = hc_probe_commitments (cfg_health cfg)) (load_doc c (TTable [(''providers'', TArr [TTable [(''name'', TStr ''p''), (''url'', TStr ''http://localhost:8899'')]])]))"

definition parses_probe_commitments :: "toml_crate \<Rightarrow> bool" where
  "parses_probe_commitments c \<longleftrightarrow>
     loads (\<lambda>cfg. hc_probe_commitments (cfg_health cfg) = [Processed]) (load_probe_commitments c [''processed'']) \<and>
     loads (\<lambda>cfg. length (hc_probe_commitments (cfg_health cfg)) = 3)
       (load_probe_commitments c [''finalized'', ''processed'', ''confirmed''])"

definition rejects_bad_probe_commitments :: "toml_crate \<Rightarrow> bool" where
  "rejects_bad_probe_commitments c \<longleftrightarrow>
     load_probe_commitments c [''finalized''] = Inl (Invalid ProbeWithoutProcessed) \<and>
     load_probe_commitments c [] = Inl (Invalid ProbeWithoutProcessed) \<and>
     load_probe_commitments c [''processed'', ''processed''] = Inl (Invalid ProbeListedTwice) \<and>
     load_probe_commitments c [''processed'', ''notarized''] = Inl ParseFailed"

definition parses_all_routing_strategies :: "toml_crate \<Rightarrow> bool" where
  "parses_all_routing_strategies c \<longleftrightarrow>
     list_all (\<lambda>(s, expected). loads (\<lambda>cfg. rc_strategy (cfg_routing cfg) = expected)
         (load_doc c (TTable [(''routing'', TTable [(''strategy'', TStr s)]), (''providers'', TArr [TTable [(''name'', TStr ''p''), (''url'', TStr ''http://x'')]])])))
       [(''best_score'', BestScore), (''weighted_random'', WeightedRandom), (''failover_ordered'', FailoverOrdered),
        (''parallel_race'', ParallelRace)]"

definition parses_reporting_block :: "toml_crate \<Rightarrow> bool" where
  "parses_reporting_block c \<longleftrightarrow>
     loads (\<lambda>cfg. case cfg_reporting cfg of
         None \<Rightarrow> False
       | Some r \<Rightarrow> rp_endpoint r = ''http://localhost:3000/api/ingest'' \<and> rp_api_key r = Some ''rp_live_test'' \<and>
           rp_flush_interval_ms r = 60000 \<and> rp_buffer_size r = 1000 \<and> rp_batch_size r = 100) (load_doc c (TTable [(''providers'', TArr [TTable [(''name'', TStr ''p''), (''url'', TStr ''http://localhost:8899'')]]), (''reporting'', TTable [(''endpoint'', TStr ''http://localhost:3000/api/ingest''), (''api_key'', TStr ''rp_live_test'')])]))"

definition reporting_absent_is_none :: "toml_crate \<Rightarrow> bool" where
  "reporting_absent_is_none c \<longleftrightarrow>
     loads (\<lambda>cfg. cfg_reporting cfg = None) (load_doc c (TTable [(''providers'', TArr [TTable [(''name'', TStr ''p''), (''url'', TStr ''http://x'')]])]))"

definition historical_analytics_absent_is_none :: "toml_crate \<Rightarrow> bool" where
  "historical_analytics_absent_is_none c \<longleftrightarrow>
     loads (\<lambda>cfg. cfg_historical cfg = None) (load_doc c (TTable [(''providers'', TArr [TTable [(''name'', TStr ''p''), (''url'', TStr ''http://x'')]])]))"

definition historical_analytics_empty_block_uses_defaults :: "toml_crate \<Rightarrow> bool" where
  "historical_analytics_empty_block_uses_defaults c \<longleftrightarrow>
     loads (\<lambda>cfg. cfg_historical cfg = Some default_historical) (load_doc c (TTable [(''historical_analytics'', TTable []), (''reporting'', TTable [(''endpoint'', TStr ''http://localhost:3000/api/ingest''), (''api_key'', TStr ''rp_live_test'')]), (''providers'', TArr [TTable [(''name'', TStr ''p''), (''url'', TStr ''http://x'')]])]))"

definition parses_custom_historical_analytics_config :: "toml_crate \<Rightarrow> bool" where
  "parses_custom_historical_analytics_config c \<longleftrightarrow>
     loads (\<lambda>cfg. cfg_historical cfg = Some
         \<lparr>ha_queue_capacity = 12, ha_max_queued_bytes = 4096, ha_max_job_bytes = 1024, ha_state_capacity = 34,
          ha_state_ttl_secs = 56, ha_flush_interval_ms = 78\<rparr>) (load_doc c (TTable [(''historical_analytics'', TTable [(''queue_capacity'', TInt 12), (''max_queued_bytes'', TInt 4096), (''max_job_bytes'', TInt 1024), (''state_capacity'', TInt 34), (''state_ttl_secs'', TInt 56), (''flush_interval_ms'', TInt 78)]), (''reporting'', TTable [(''endpoint'', TStr ''http://localhost:3000/api/ingest''), (''api_key'', TStr ''rp_live_test'')]), (''providers'', TArr [TTable [(''name'', TStr ''p''), (''url'', TStr ''http://x'')]])]))"

definition rejects_historical_analytics_without_reporting :: "toml_crate \<Rightarrow> bool" where
  "rejects_historical_analytics_without_reporting c \<longleftrightarrow>
     load_doc c (TTable [(''historical_analytics'', TTable []), (''providers'', TArr [TTable [(''name'', TStr ''p''), (''url'', TStr ''http://x'')]])]) = Inl (Invalid HistoricalWithoutReporting)"

definition rejects_invalid_historical_analytics_config :: "toml_crate \<Rightarrow> bool" where
  "rejects_invalid_historical_analytics_config c \<longleftrightarrow>
     list_all (\<lambda>(field, e). load_doc c (TTable [(''historical_analytics'', TTable [(field, TInt 0)]),
         (''reporting'', TTable [(''endpoint'', TStr ''http://x/i''), (''api_key'', TStr ''k'')]), (''providers'', TArr [TTable [(''name'', TStr ''p''), (''url'', TStr ''http://x'')]])]) = Inl (Invalid e))
       [(''queue_capacity'', QueueCapacityZero), (''max_queued_bytes'', MaxQueuedBytesTooSmall), (''max_job_bytes'', MaxJobBytesZero), (''state_capacity'', StateCapacityZero), (''state_ttl_secs'', StateTtlZero), (''flush_interval_ms'', HistoricalFlushZero)] \<and>
     load_doc c (TTable [(''historical_analytics'', TTable [(''max_queued_bytes'', TInt 4096), (''max_job_bytes'', TInt 4097)]), (''reporting'', TTable [(''endpoint'', TStr ''http://localhost:3000/api/ingest''), (''api_key'', TStr ''rp_live_test'')]), (''providers'', TArr [TTable [(''name'', TStr ''p''), (''url'', TStr ''http://x'')]])]) = Inl (Invalid (MaxJobBytesTooLarge 4097 4096))"

definition rejects_empty_reporting_endpoint :: "toml_crate \<Rightarrow> bool" where
  "rejects_empty_reporting_endpoint c \<longleftrightarrow>
     rejected (load_doc c (TTable [(''providers'', TArr [TTable [(''name'', TStr ''p''), (''url'', TStr ''http://localhost:8899'')]]), (''reporting'', TTable [(''endpoint'', TStr '''')])]))"

definition rejects_flush_interval_below_floor :: "toml_crate \<Rightarrow> bool" where
  "rejects_flush_interval_below_floor c \<longleftrightarrow>
     load_doc c (TTable [(''providers'', TArr [TTable [(''name'', TStr ''p''), (''url'', TStr ''http://localhost:8899'')]]), (''reporting'', TTable [(''endpoint'', TStr ''http://localhost:3000/api/ingest''), (''flush_interval_ms'', TInt 1000)])]) = Inl (Invalid (ReportingFlushTooShort 1000))"

section \<open>Tests of the expansion of variables\<close>

text \<open>The pieces are those the crate scans the text of the test into.\<close>

definition in_quotes :: "string \<Rightarrow> string" where
  "in_quotes s = [CHR 0x22] @ s @ [CHR 0x22]"

definition lookup :: "(string \<times> string) list \<Rightarrow> string \<Rightarrow> string option" where
  "lookup pairs = map_of pairs"

definition url_pieces :: "string \<Rightarrow> string \<Rightarrow> piece list" where
  "url_pieces url var = [Lit (''url = '' @ [CHR 0x22] @ url), Var var, Lit [CHR 0x22]]"

definition expand_env_vars_reports_unset_references :: "(string \<Rightarrow> string option) \<Rightarrow> bool" where
  "expand_env_vars_reports_unset_references env \<longleftrightarrow>
     expand_env_vars_with (\<lambda>_. url_pieces ''https://rpc.example/?api-key='' ''RPC_PLANE_DEFINITELY_UNSET'') [] env =
       (''url = '' @ in_quotes ''https://rpc.example/?api-key='', [''RPC_PLANE_DEFINITELY_UNSET''])"

definition expand_env_vars_reports_nothing_when_hardcoded :: "(string \<Rightarrow> string option) \<Rightarrow> bool" where
  "expand_env_vars_reports_nothing_when_hardcoded env \<longleftrightarrow>
     (let input = ''url = '' @ in_quotes ''https://rpc.example/?api-key=hardcoded-token'' in
      expand_env_vars_with (\<lambda>raw. [Lit raw]) input env = (input, []))"

definition expands_env_vars_braced :: bool where
  "expands_env_vars_braced \<longleftrightarrow>
     expand_env_vars_with (\<lambda>_. url_pieces ''https://rpc.example.com/?key='' ''TEST_RPC_KEY'') []
       (lookup [(''TEST_RPC_KEY'', ''abc123'')]) =
     (''url = '' @ in_quotes ''https://rpc.example.com/?key=abc123'', [])"

definition expands_env_vars_unbraced :: bool where
  "expands_env_vars_unbraced \<longleftrightarrow>
     expand_env_vars_with (\<lambda>_. url_pieces ''https://rpc.example.com/?key='' ''TEST_UNBRACED_KEY'') []
       (lookup [(''TEST_UNBRACED_KEY'', ''xyz789'')]) =
     (''url = '' @ in_quotes ''https://rpc.example.com/?key=xyz789'', [])"

definition unset_env_var_expands_empty_and_is_reported :: bool where
  "unset_env_var_expands_empty_and_is_reported \<longleftrightarrow>
     expand_env_vars_with (\<lambda>_. url_pieces ''http://x/'' ''MISSING_VAR'') [] (lookup []) =
       (''url = '' @ in_quotes ''http://x/'', [''MISSING_VAR''])"

text \<open>The file names an unset variable at the end of a url; \<open>parse\<close> is given the expanded text.\<close>

definition load_applies_env_expansion :: "toml_crate \<Rightarrow> bool" where
  "load_applies_env_expansion c \<longleftrightarrow>
     (let nl = [CHR 0x0A];
          before = nl @ ''[[providers]]'' @ nl @ ''name = '' @ in_quotes ''test'' @ nl @ ''url = '' @ [CHR 0x22] @
            ''https://rpc.example.com/path'';
          after = [CHR 0x22] @ nl;
          parse = (\<lambda>text. if text = before @ after
            then Some (TTable [(''providers'', TArr [TTable [(''name'', TStr ''test''), (''url'', TStr ''https://rpc.example.com/path'')]])])
            else None) in
      loads (\<lambda>cfg. map_option pv_url (nth_opt 0 (cfg_providers cfg)) = Some ''https://rpc.example.com/path'')
        (load (\<lambda>_. Some []) (\<lambda>_. [Lit before, Var ''RPC_PLANE_UNSET_TEST_VAR'', Lit after]) (\<lambda>_. None)
          (config_from_str c parse) []))"

section \<open>They hold of the model\<close>

lemmas doc_defs = load_doc_def loads_def rejected_def nth_opt_def load_def config_from_str_def expand_env_vars_with_def
  load_probe_commitments_def supports_def

lemmas reader_defs = de_struct_def field_req_def field_or_def field_opt_def de_text_def de_flag_def de_word_def de_f64_def
  de_seq_def de_present_def de_config_def de_server_def de_health_def de_routing_def de_provider_def de_reporting_def
  de_historical_def de_variant_name

lemmas default_defs = default_server_def default_health_def default_routing_def default_historical_def

lemmas name_defs = commitment_names_def strategy_names_def history_names_def

lemmas check_defs = validate_def validate_provider_def validate_routing_def validate_health_def validate_reporting_def
  validate_historical_def ensure_def blank_def List.member_iff upt_rec

lemma parsing_tests_hold:
  assumes "variant_by_name c"
  shows "parses_minimal_config c" "parses_full_config c" "default_write_methods_is_send_only c"
    "parses_provider_methods_allowlist c" "parses_provider_max_rps c" "parses_provider_history_with_full_default
    c" "accepts_all_recent_providers_without_full_history_methods c" "reference_url_defaults_to_none c"
    "parses_reference_url c"
  unfolding parses_minimal_config_def parses_full_config_def default_write_methods_is_send_only_def
    parses_provider_methods_allowlist_def parses_provider_max_rps_def
    parses_provider_history_with_full_default_def accepts_all_recent_providers_without_full_history_methods_def
    reference_url_defaults_to_none_def parses_reference_url_def
  using assms by (simp_all add: doc_defs reader_defs default_defs name_defs check_defs)

lemma section_tests_hold:
  assumes "variant_by_name c"
  shows "probe_commitments_default_to_processed_and_finalized c" "parses_probe_commitments c"
    "parses_all_routing_strategies c" "parses_reporting_block c" "reporting_absent_is_none c"
    "historical_analytics_absent_is_none c" "historical_analytics_empty_block_uses_defaults c"
    "parses_custom_historical_analytics_config c"
  unfolding probe_commitments_default_to_processed_and_finalized_def parses_probe_commitments_def
    parses_all_routing_strategies_def parses_reporting_block_def reporting_absent_is_none_def
    historical_analytics_absent_is_none_def historical_analytics_empty_block_uses_defaults_def
    parses_custom_historical_analytics_config_def
  using assms by (simp_all add: doc_defs reader_defs default_defs name_defs check_defs)

lemma rejection_tests_hold:
  assumes "variant_by_name c"
  shows "rejects_empty_providers c" "rejects_empty_url c" "rejects_duplicate_provider_names c" "rejects_zero_max_rps
    c" "rejects_empty_methods_list c" "rejects_unknown_history_value c"
    "rejects_all_recent_providers_with_full_history_methods c" "rejects_empty_reference_url c"
    "rejects_bad_probe_commitments c" "rejects_historical_analytics_without_reporting c"
    "rejects_invalid_historical_analytics_config c" "rejects_empty_reporting_endpoint c"
    "rejects_flush_interval_below_floor c"
  unfolding rejects_empty_providers_def rejects_empty_url_def rejects_duplicate_provider_names_def
    rejects_zero_max_rps_def rejects_empty_methods_list_def rejects_unknown_history_value_def
    rejects_all_recent_providers_with_full_history_methods_def rejects_empty_reference_url_def
    rejects_bad_probe_commitments_def rejects_historical_analytics_without_reporting_def
    rejects_invalid_historical_analytics_config_def rejects_empty_reporting_endpoint_def
    rejects_flush_interval_below_floor_def
  using assms by (simp_all add: doc_defs reader_defs default_defs name_defs check_defs)

lemma expansion_tests_hold:
  "expand_env_vars_reports_nothing_when_hardcoded env" "expands_env_vars_braced" "expands_env_vars_unbraced"
  "unset_env_var_expands_empty_and_is_reported"
  "env ''RPC_PLANE_DEFINITELY_UNSET'' = None \<Longrightarrow> expand_env_vars_reports_unset_references env"
  by (simp_all add: expand_env_vars_reports_nothing_when_hardcoded_def expands_env_vars_braced_def
      expands_env_vars_unbraced_def unset_env_var_expands_empty_and_is_reported_def
      expand_env_vars_reports_unset_references_def expand_env_vars_with_def url_pieces_def in_quotes_def lookup_def
      unwrap_or_def Let_def)

lemma load_expansion_holds:
  assumes "variant_by_name c"
  shows "load_applies_env_expansion c"
  unfolding load_applies_env_expansion_def
  using assms by (simp add: doc_defs reader_defs default_defs name_defs check_defs in_quotes_def unwrap_or_def Let_def)

end
