(* ===== verification/TelemetryTests.thy ===== *)
theory TelemetryTests
  imports Wire
begin

text \<open>
  The unit tests of \<open>telemetry.rs\<close> as definitions that keep the tests' names and assertions, and the lemmas that they
  hold of the model. The times an aggregator takes from the clock are arguments.
\<close>

section \<open>Tests of the event format\<close>

text \<open>\<open>show\<close> is how doubles are printed, which the tests do not look at.\<close>

definition telemetry_event_serializes_tagged :: "(rat \<Rightarrow> string) \<Rightarrow> bool" where
  "telemetry_event_serializes_tagged show \<longleftrightarrow>
     (let json = event_json show (Failover ''a'' ''b'' ''provider_error'') in
      json_index json ''type'' = json_text ''failover'' \<and> json_index json ''from_provider'' = json_text ''a'')"

definition request_aggregate_serializes_correctly :: "(rat \<Rightarrow> string) \<Rightarrow> bool" where
  "request_aggregate_serializes_correctly show \<longleftrightarrow>
     (let json = event_json show (RequestAggregate
            \<lparr>ra_window_start_ms = 1000, ra_window_end_ms = 61000, ra_method = ''getSlot'', ra_provider = ''helius'',
             ra_status = ''ok'', ra_count = 5000, ra_latency_p50_ms = Fin 10, ra_latency_p95_ms = Fin 45,
             ra_latency_p99_ms = Fin 90, ra_latency_avg_ms = Fin 15\<rparr>) in
      json_index json ''type'' = json_text ''request_aggregate'' \<and> json_index json ''count'' = JInt 5000)"

definition test_historical :: historical_aggregate where
  "test_historical =
     \<lparr>hg_schema_version = HISTORICAL_GET_TRANSACTION_AGGREGATE_VERSION, hg_window_start_ms = 1000, hg_window_end_ms = 61000,
      hg_commitment = ''confirmed'',
      hg_window =
        \<lparr>hw_logical_request_count = 100, hw_analyzed_request_count = 95, hw_found_count = 40, hw_null_count = 50,
         hw_rpc_error_count = 3, hw_parse_error_count = 2, hw_first_observation_found_count = 20,
         hw_first_observation_null_count = 25, hw_null_repeat_count = 25, hw_null_to_found_count = 10,
         hw_found_repeat_count = 10, hw_found_to_null_regression_count = 1,
         hw_slot_age_bucket_counts = [1, 2, 3, 4, 5, 6, 7, 8, 9], hw_slot_age_unknown_count = 2,
         hw_slot_age_tip_behind_count = 1, hw_polls_before_found_bucket_counts = [10, 9, 8, 7, 6, 5],
         hw_time_to_found_bucket_counts = [1, 3, 5, 7, 9, 11], hw_found_reuse_bucket_counts = [2, 4, 6, 8, 10],
         hw_unsupported_batch_count = 2, hw_state_capacity_eviction_count = 4, hw_state_ttl_expiration_count = 5,
         hw_unresolved_null_capacity_eviction_count = 2, hw_unresolved_null_ttl_expiration_count = 3\<rparr>,
      hg_queue_full_drop_count = 1, hg_byte_budget_exhausted_drop_count = 2, hg_oversized_job_drop_count = 3,
      hg_state_reset_count = 1, hg_current_state_entries = 12345, hg_configured_state_capacity = 250000\<rparr>"

definition historical_get_transaction_aggregate_serializes_schema ::
  "(string \<Rightarrow> f64) \<Rightarrow> (rat \<Rightarrow> string) \<Rightarrow> bool" where
  "historical_get_transaction_aggregate_serializes_schema read show \<longleftrightarrow>
     (let json = event_json show (HistoricalGetTransactionAggregate test_historical) in
      json_index json ''type'' = json_text ''historical_get_transaction_aggregate'' \<and>
      json_index json ''schema_version'' = JInt 1 \<and> json_index json ''commitment'' = json_text ''confirmed'' \<and>
      json_index json ''logical_request_count'' = JInt 100 \<and>
      json_index json ''slot_age_bucket_counts'' = JArr (map JInt [1, 2, 3, 4, 5, 6, 7, 8, 9]) \<and>
      json_index json ''polls_before_found_bucket_counts'' = JArr (map JInt [10, 9, 8, 7, 6, 5]) \<and>
      json_index json ''time_to_found_bucket_counts'' = JArr (map JInt [1, 3, 5, 7, 9, 11]) \<and>
      json_index json ''found_reuse_bucket_counts'' = JArr (map JInt [2, 4, 6, 8, 10]) \<and>
      json_index json ''slot_age_unknown_count'' = JInt 2 \<and> json_index json ''slot_age_tip_behind_count'' = JInt 1 \<and>
      json_index json ''configured_state_capacity'' = JInt 250000 \<and>
      (case json of
         JObj ms \<Rightarrow>
           (case de_event read ms of
              Some (HistoricalGetTransactionAggregate a) \<Rightarrow>
                hg_schema_version a = HISTORICAL_GET_TRANSACTION_AGGREGATE_VERSION \<and>
                hg_configured_state_capacity a = 250000
            | _ \<Rightarrow> False)
       | _ \<Rightarrow> False))"

section \<open>Tests of the aggregator\<close>

text \<open>A fresh aggregator after some records, drained: its only event, and the number of events.\<close>

definition close_to :: "f64 \<Rightarrow> f64 \<Rightarrow> f64 \<Rightarrow> bool" where
  "close_to eps x y = (case f64_sub x y of Fin d \<Rightarrow> f64_lt (Fin \<bar>d\<bar>) eps | _ \<Rightarrow> False)"

definition aggregator_drain_produces_correct_percentiles :: "u64 \<Rightarrow> u64 \<Rightarrow> bool" where
  "aggregator_drain_produces_correct_percentiles t0 now \<longleftrightarrow>
     (case fst (agg_drain now (fold (\<lambda>i. agg_record ''getSlot'' ''helius'' ''ok'' (f64_of_nat i) 1) [1..<101]
         (aggregator_new t0))) of
        [RequestAggregate a] \<Rightarrow>
          ra_count a = 100 \<and> f64_eq (ra_latency_p50_ms a) (Fin 50) \<and> f64_eq (ra_latency_p95_ms a) (Fin 95) \<and>
          f64_eq (ra_latency_p99_ms a) (Fin 99) \<and> close_to (rnd (1 / 1000)) (ra_latency_avg_ms a) (Fin (101 / 2))
      | _ \<Rightarrow> False)"

definition batch_weighted_count_keeps_single_latency_sample :: "u64 \<Rightarrow> u64 \<Rightarrow> bool" where
  "batch_weighted_count_keeps_single_latency_sample t0 now \<longleftrightarrow>
     (case fst (agg_drain now (agg_record ''getTransaction'' ''helius'' ''ok'' (Fin 200) 1000 (aggregator_new t0))) of
        [RequestAggregate a] \<Rightarrow>
          ra_count a = 1000 \<and> f64_eq (ra_latency_avg_ms a) (Fin 200) \<and> f64_eq (ra_latency_p50_ms a) (Fin 200)
      | _ \<Rightarrow> False)"

definition aggregator_drain_resets_window :: "u64 \<Rightarrow> u64 \<Rightarrow> u64 \<Rightarrow> bool" where
  "aggregator_drain_resets_window t0 now later \<longleftrightarrow>
     (case agg_drain now (agg_record ''getSlot'' ''helius'' ''ok'' (Fin 10) 1 (aggregator_new t0)) of
        (first, agg) \<Rightarrow> length first = 1 \<and> fst (agg_drain later agg) = [])"

definition aggregator_buckets_by_key :: "u64 \<Rightarrow> u64 \<Rightarrow> bool" where
  "aggregator_buckets_by_key t0 now \<longleftrightarrow>
     (let agg = agg_record ''getSlot'' ''helius'' ''error'' (Fin 100) 1
            (agg_record ''getBalance'' ''helius'' ''ok'' (Fin 5) 1
            (agg_record ''getSlot'' ''quicknode'' ''ok'' (Fin 20) 1
            (agg_record ''getSlot'' ''helius'' ''ok'' (Fin 10) 1 (aggregator_new t0)))) in
      length (fst (agg_drain now agg)) = 4)"

definition test_sample :: "u64 \<Rightarrow> transaction_info" where
  "test_sample limit =
     \<lparr>ti_cu_limit = limit, ti_cu_limit_defaulted = False, ti_cu_price_micro_lamports = Some (limit * 10),
      ti_requested_priority_fee_lamports = Some (limit * 100), ti_num_instructions = 1, ti_num_signatures = 1,
      ti_is_versioned = False\<rparr>"

fun is_submit :: "telemetry_event \<Rightarrow> bool" where
  "is_submit (TransactionSubmit t) = True"
| "is_submit e = False"

definition transaction_aggregates_counts_and_accepted_percentiles :: "(rat \<Rightarrow> string) \<Rightarrow> u64 \<Rightarrow> u64 \<Rightarrow> bool" where
  "transaction_aggregates_counts_and_accepted_percentiles show t0 now \<longleftrightarrow>
     (let agg = agg_record_transaction_submission ''helius'' False
            (agg_record_transaction_submission ''helius'' True (aggregator_new t0));
          agg = fold (\<lambda>limit. agg_record_transaction_decode ''helius'' ''parsed'' (Some (test_sample limit)))
            [100, 200, 300, 400] agg;
          agg = agg_record_transaction_decode ''helius'' ''invalid_budget'' None agg in
      case find is_submit (fst (agg_drain now agg)) of
        Some (TransactionSubmit t) \<Rightarrow>
          (ts_accepted_count t, ts_rejected_count t) = (1, 1) \<and>
          (ts_parsed_count t, ts_invalid_budget_count t) = (4, 1) \<and>
          (ts_cu_limit_p50 t, ts_cu_limit_p90 t, ts_cu_limit_p95 t) = (200, 400, 400) \<and>
          json_index (event_json show (TransactionSubmit t)) ''type'' = json_text ''transaction_submit''
      | _ \<Rightarrow> False)"

section \<open>The recording reporter\<close>

record recording_reporter =
  rec_events :: "telemetry_event list"
  rec_requests :: "(string \<times> string \<times> string \<times> f64 \<times> u64) list"
  rec_flush_count :: nat

definition recording_reporter_new :: recording_reporter where
  "recording_reporter_new = \<lparr>rec_events = [], rec_requests = [], rec_flush_count = 0\<rparr>"

definition recording_emit :: "telemetry_event \<Rightarrow> recording_reporter \<Rightarrow> recording_reporter" where
  "recording_emit event r = r\<lparr>rec_events := rec_events r @ [event]\<rparr>"

definition recording_record_request ::
  "string \<Rightarrow> string \<Rightarrow> string \<Rightarrow> f64 \<Rightarrow> u64 \<Rightarrow> recording_reporter \<Rightarrow> recording_reporter" where
  "recording_record_request meth provider status latency_ms calls r =
     r\<lparr>rec_requests := rec_requests r @ [(meth, provider, status, latency_ms, calls)]\<rparr>"

definition recording_flush :: "recording_reporter \<Rightarrow> recording_reporter" where
  "recording_flush r = r\<lparr>rec_flush_count := rec_flush_count r + 1\<rparr>"

definition recording_reporter_captures_events :: bool where
  "recording_reporter_captures_events \<longleftrightarrow>
     (let r = recording_flush (recording_record_request ''getSlot'' ''helius'' ''ok'' (Fin (25 / 2)) 1
            (recording_emit (Failover ''a'' ''b'' ''test'') recording_reporter_new)) in
      length (rec_events r) = 1 \<and> length (rec_requests r) = 1 \<and> rec_flush_count r = 1)"

text \<open>The samples \<open>1 .. n\<close> of the test.\<close>

definition samples :: "nat \<Rightarrow> f64 list" where
  "samples n = map (\<lambda>i. Fin (of_nat i)) [1..<Suc n]"

section \<open>They hold of the model\<close>

lemma serialization_tests_hold: "telemetry_event_serializes_tagged show" "request_aggregate_serializes_correctly show"
  by (simp_all add: telemetry_event_serializes_tagged_def request_aggregate_serializes_correctly_def event_json_def
      request_aggregate_fields_def json_index_obj json_u64_def unwrap_or_def Let_def)

lemma json_index_member:
  assumes "distinct (map fst ms)" "(k, v) \<in> set ms"
  shows "json_index (JObj ms) k = v"
proof -
  have "distinct (map fst (rev ms))" using assms(1) by (simp flip: rev_map)
  moreover have "(k, v) \<in> set (rev ms)" using assms(2) by simp
  ultimately have "map_of (rev ms) k = Some v" by (simp only: map_of_is_SomeI)
  then show ?thesis by (simp add: json_index_def json_get_def unwrap_or_def)
qed

lemma schema_test_holds:
  "historical_get_transaction_aggregate_serializes_schema read show"
proof -
  define ms where "ms = (''type'', json_text ''historical_get_transaction_aggregate'') # historical_fields test_historical"
  have json: "event_json show (HistoricalGetTransactionAggregate test_historical) = JObj ms"
    by (simp add: event_json_def ms_def)
  have once: "distinct (map fst ms)"
    using historical_distinct[of test_historical] by (simp add: ms_def)
  then have "list_all (\<lambda>m. json_index (JObj ms) (fst m) = snd m) ms"
    by (simp add: list_all_iff json_index_member)
  then have members: "list_all (\<lambda>m. json_index (JObj ms) (fst m) = snd m) (historical_fields test_historical)"
    "json_index (JObj ms) ''type'' = json_text ''historical_get_transaction_aggregate''"
    unfolding ms_def by simp_all
  have "wire_ok (HistoricalGetTransactionAggregate test_historical)"
    by (simp add: test_historical_def HISTORICAL_SLOT_AGE_BUCKET_COUNT_def HISTORICAL_POLLS_BEFORE_FOUND_BUCKET_COUNT_def
        HISTORICAL_TIME_TO_FOUND_BUCKET_COUNT_def HISTORICAL_FOUND_REUSE_BUCKET_COUNT_def)
  from historical_back[OF this] have read_back: "de_historical_aggregate ms = Some test_historical"
    by (simp add: ms_def)
  have "de_req ''type'' json_as_str ms = Some ''historical_get_transaction_aggregate''"
    using de_req_member[OF once, of "hd ms" json_as_str] by (simp add: ms_def)
  then have "de_event read ms = Some (HistoricalGetTransactionAggregate test_historical)"
    by (simp add: de_event_def read_back)
  with members show ?thesis
    unfolding historical_get_transaction_aggregate_serializes_schema_def Let_def json
    by (simp add: historical_fields_def, simp add: test_historical_def
        HISTORICAL_GET_TRANSACTION_AGGREGATE_VERSION_def json_u64_def json_u64s_def json_u32_def)
qed

lemmas aggregator_defs = agg_drain_def agg_record_def aggregator_new_def entry_update_def bucket_default_def
  request_aggregate_of_def Let_def unwrap_or_def

lemma recording_test_holds: recording_reporter_captures_events
  by (simp add: recording_reporter_captures_events_def recording_flush_def recording_record_request_def
      recording_emit_def recording_reporter_new_def)

lemma drain_tests_hold:
  "aggregator_drain_resets_window t0 now later" "aggregator_buckets_by_key t0 now"
  by (simp_all add: aggregator_drain_resets_window_def aggregator_buckets_by_key_def aggregator_defs)

lemma transaction_test_holds: "transaction_aggregates_counts_and_accepted_percentiles show t0 now"
  by (simp add: transaction_aggregates_counts_and_accepted_percentiles_def agg_record_transaction_submission_def
      agg_record_transaction_decode_def record_transaction_decode_in_bucket_def count_submission_def push_fee_sample_def
      test_sample_def transaction_bucket_default_def transaction_submit_of_def event_json_def transaction_submit_fields_def
      json_index_obj percentile_u64_def aggregator_defs word_le_nat_alt)

lemma batch_test_holds: "batch_weighted_count_keeps_single_latency_sample t0 now"
proof -
  have one: "f64_of_nat 1 = Fin 1" "f64_of_nat (Suc 0) = Fin 1" using f64_of_nat_exact[of 1] by simp_all
  have whole: "rnd 200 = Fin 200" using rnd_int[of 200] by simp
  show ?thesis
    by (simp add: batch_weighted_count_keeps_single_latency_sample_def aggregator_defs sort_by_def percentile_def one whole)
qed

lemma rank_exact:
  "f64_ceil_as_usize (f64_mul (f64_div (Fin 50) (Fin 100)) (Fin 100)) = 50"
  "f64_ceil_as_usize (f64_mul (f64_div (Fin 95) (Fin 100)) (Fin 100)) = 95"
  "f64_ceil_as_usize (f64_mul (f64_div (Fin 99) (Fin 100)) (Fin 100)) = 99"
proof -
  have "rnd (1 / 2) = Fin (1 / 2)" using rnd_dyadic[of 1 1] by simp
  moreover have "rnd 50 = Fin 50" using rnd_int[of 50] by simp
  ultimately show "f64_ceil_as_usize (f64_mul (f64_div (Fin 50) (Fin 100)) (Fin 100)) = 50" by simp
  have "rnd (19 / 20) = Fin (of_int 8556839292003942 * 2 powi (- 53))"
    using rnd_nearest[of "- 1" "19 / 20" 8556839292003942] by (simp add: power_int_def power_one_over)
  moreover have "rnd (of_int 8556839292003942 * 2 powi (- 53) * 100) = Fin (of_int (95 * 2 ^ 46) * 2 powi (- 46))"
    using rnd_nearest[of 6 "of_int 8556839292003942 * 2 powi (- 53) * 100" "95 * 2 ^ 46"] by (simp add: power_int_def power_one_over)
  ultimately show "f64_ceil_as_usize (f64_mul (f64_div (Fin 95) (Fin 100)) (Fin 100)) = 95" by (simp add: power_int_def power_one_over)
  have "rnd (99 / 100) = Fin (of_int 8917127262193582 * 2 powi (- 53))"
    using rnd_nearest[of "- 1" "99 / 100" 8917127262193582] by (simp add: power_int_def power_one_over)
  moreover have "rnd (of_int 8917127262193582 * 2 powi (- 53) * 100) = Fin (of_int (99 * 2 ^ 46) * 2 powi (- 46))"
    using rnd_nearest[of 6 "of_int 8917127262193582 * 2 powi (- 53) * 100" "99 * 2 ^ 46"] by (simp add: power_int_def power_one_over)
  ultimately show "f64_ceil_as_usize (f64_mul (f64_div (Fin 99) (Fin 100)) (Fin 100)) = 99" by (simp add: power_int_def power_one_over)
qed

lemma samples_Suc: "samples 0 = []" "samples (Suc n) = samples n @ [Fin (of_nat (Suc n))]"
  by (simp_all add: samples_def)

lemma samples_nth: "i < n \<Longrightarrow> samples n ! i = Fin (of_nat (Suc i))" "length (samples n) = n"
  by (simp_all add: samples_def del: upt_Suc)

lemma samples_sorted: "sort_by total_cmp (samples n) = samples n"
proof (rule sort_by_sorted)
  have "sorted_wrt (<) [1..<Suc n]" by (rule sorted_wrt_upt)
  then show "sorted_wrt (\<lambda>x y. total_cmp x y \<noteq> Greater) (samples n)"
    unfolding sorted_wrt_map samples_def by (rule sorted_wrt_mono_rel[rotated]) (simp add: total_cmp_def)
qed

lemma samples_total: "n \<le> 100 \<Longrightarrow> fold (\<lambda>x acc. f64_add acc x) (samples n) (Fin 0) = Fin (of_nat (n * (n + 1) div 2))"
proof (induction n)
  case (Suc n)
  let ?m = "n * (n + 1) div 2 + Suc n"
  have step: "Suc n * (Suc n + 1) div 2 = ?m"
  proof -
    have "Suc n * (Suc n + 1) = n * (n + 1) + 2 * Suc n" by simp
    then show ?thesis by presburger
  qed
  have "n * (n + 1) \<le> 99 * 100" using Suc.prems by (intro mult_le_mono) auto
  then have "?m \<le> 9900 + 100" using Suc.prems div_le_dividend[of "n * (n + 1)" 2] by linarith
  then have "?m \<le> 2 ^ 53" by simp
  then have "rnd (of_nat ?m) = Fin (of_nat ?m)" using f64_of_nat_exact by (simp only: f64_of_nat_def)
  moreover have "fold (\<lambda>x acc. f64_add acc x) (samples (Suc n)) (Fin 0) = rnd (of_nat ?m)"
    using Suc by (simp add: samples_Suc ac_simps)
  ultimately show ?case unfolding step by simp
qed (simp add: samples_Suc)

text \<open>Recording them puts them, in order, into the one bucket of their key.\<close>

lemma recorded_append:
  "ag_buckets s = [(k, b)] \<Longrightarrow> k = (me, p, st) \<Longrightarrow>
   agg_record me p st x c s = s\<lparr>ag_buckets := [(k, b\<lparr>bk_count := bk_count b + c, bk_latencies := bk_latencies b @ [x]\<rparr>)]\<rparr>"
  by (simp add: agg_record_def entry_update_def unwrap_or_def)

lemma samples_recorded:
  "fold (\<lambda>x. agg_record me p st x 1) (samples (Suc n)) (aggregator_new t0) =
     (aggregator_new t0)\<lparr>ag_buckets := [((me, p, st), \<lparr>bk_count = of_nat (Suc n), bk_latencies = samples (Suc n)\<rparr>)]\<rparr>"
proof (induction n)
  case 0
  show ?case
    by (simp add: samples_Suc aggregator_new_def agg_record_def entry_update_def bucket_default_def unwrap_or_def)
next
  case (Suc n)
  then show ?case
    by (simp add: samples_Suc(2)[of "Suc n"] recorded_append ac_simps)
qed

lemma percentile_test_holds: "aggregator_drain_produces_correct_percentiles t0 now"
proof -
  have exact: "fold (\<lambda>i. agg_record me p st (f64_of_nat i) 1) [1..<101] s = fold (\<lambda>x. agg_record me p st x 1) (samples (Suc 99)) s"
    for me p st s
  proof -
    have "samples (Suc 99) = map f64_of_nat [1..<101]"
      by (simp add: samples_def f64_of_nat_exact del: upt_Suc)
    then show ?thesis by (simp only: fold_map comp_def)
  qed
  have hundred: "f64_of_nat 100 = Fin 100" using f64_of_nat_exact[of 100] by simp
  have half: "rnd (101 / 2) = Fin (101 / 2)" using rnd_dyadic[of 101 1] by simp
  have some: "samples 100 \<noteq> []" using samples_nth(2)[of 100] by force
  moreover have "percentile (samples 100) 50 = Fin 50" "percentile (samples 100) 95 = Fin 95"
    "percentile (samples 100) 99 = Fin 99"
    using rank_exact some
    by (simp_all add: percentile_def hundred samples_nth del: f64_ceil_as_usize.simps f64_mul.simps f64_div.simps)
  moreover have "f64_div (fold (\<lambda>x acc. f64_add acc x) (samples 100) (Fin 0)) (f64_of_nat 100) = Fin (101 / 2)"
    by (simp add: samples_total hundred half)
  moreover have "f64_lt (Fin 0) (rnd (1 / 1000))"
  proof -
    obtain x where "rnd (1 / 1000) = Fin x" "0 < x"
      using rnd_positive[of "- 10" "1 / 1000"] by (auto simp: power_int_def power_one_over)
    then show ?thesis by simp
  qed
  moreover have "rnd 0 = Fin 0" using rnd_int[of 0] by simp
  ultimately show ?thesis
    unfolding aggregator_drain_produces_correct_percentiles_def exact samples_recorded
    by (simp add: aggregator_new_def agg_drain_def request_aggregate_of_def Let_def samples_sorted samples_nth
        close_to_def f64_sub_def)
qed

end
