(* ===== verification/MetricsTests.thy ===== *)
theory MetricsTests
  imports Metrics
begin

text \<open>
  The unit tests of \<open>metrics.rs\<close> as definitions that keep the tests' names, and the lemmas that they hold of the model.
  The tests look at lines of the rendered text; here they look at the exported series of that name and those labels.
\<close>

section \<open>What is exported\<close>

text \<open>
  The registry exports one series per family and label values that was ever touched: a counter its sum, a gauge its last
  value, a histogram under the suffix \<open>_count\<close> the number of its observations (and \<open>_sum\<close> and \<open>_bucket\<close> lines beside
  it). An assertion on a line of the rendered text is one on the series of that name with those labels.
\<close>

fun call_values :: "metric_call \<Rightarrow> string list" where
  "call_values (IncBy f ls x) = ls"
| "call_values (Observe f ls x) = ls"
| "call_values (SetGauge f ls x) = ls"

fun call_amount :: "metric_call \<Rightarrow> f64" where
  "call_amount (IncBy f ls x) = x"
| "call_amount (Observe f ls x) = x"
| "call_amount (SetGauge f ls x) = x"

definition call_pairs :: "metric_call \<Rightarrow> (string \<times> string) list" where
  "call_pairs c = zip (family_labels (call_family c)) (call_values c)"

definition exported_name :: "family \<Rightarrow> string" where
  "exported_name f =
     (case family_kind_of f of HistogramFamily bs \<Rightarrow> family_name f @ ''_count'' | _ \<Rightarrow> family_name f)"

definition exported :: "metrics \<Rightarrow> string \<Rightarrow> (string \<times> string) list \<Rightarrow> f64 option" where
  "exported m name labels =
     (let calls = filter (\<lambda>c. exported_name (call_family c) = name \<and> length (call_pairs c) = length labels \<and>
            list_all (List.member labels) (call_pairs c)) m in
      if calls = [] then None
      else case family_kind_of (call_family (last calls)) of
          CounterFamily \<Rightarrow> Some (fold (\<lambda>c acc. f64_add acc (call_amount c)) calls (Fin 0))
        | GaugeFamily \<Rightarrow> Some (call_amount (last calls))
        | HistogramFamily bs \<Rightarrow> Some (f64_of_nat (length calls)))"

text \<open>\<open>env!\<close> and \<open>option_env!\<close> give the texts of the build.\<close>

abbreviation test_metrics :: metrics where
  "test_metrics \<equiv> metrics_new ''0.1.0'' None None None"

section \<open>Tests\<close>

definition counter_increments_correctly :: bool where
  "counter_increments_correctly \<longleftrightarrow>
     (let m = record_request ''getSlot'' ''triton'' ''error'' (Fin 0) 1
           (record_request ''getSlot'' ''helius'' ''ok'' (Fin 58) 1
           (record_request ''getSlot'' ''helius'' ''ok'' (Fin 42) 1 test_metrics)) in
      exported m ''rpc_plane_requests_total''
        [(''method'', ''getSlot''), (''provider'', ''helius''), (''status'', ''ok'')] = Some (Fin 2) \<and>
      exported m ''rpc_plane_requests_total''
        [(''method'', ''getSlot''), (''provider'', ''triton''), (''status'', ''error'')] = Some (Fin 1))"

definition transaction_metrics_record_outcomes_and_accepted_samples :: bool where
  "transaction_metrics_record_outcomes_and_accepted_samples \<longleftrightarrow>
     (let info = \<lparr>ti_cu_limit = 300000, ti_cu_limit_defaulted = False, ti_cu_price_micro_lamports = Some 10000,
            ti_requested_priority_fee_lamports = Some 3000, ti_num_instructions = 3, ti_num_signatures = 1,
            ti_is_versioned = True\<rparr>;
          m = record_transaction_decode ''none'' ''unparsed'' None
           (record_transaction_decode ''helius'' ''parsed'' (Some info)
           (record_transaction_submission ''none'' False
           (record_transaction_submission ''helius'' True test_metrics))) in
      exported m ''rpc_plane_tx_submissions_total'' [(''outcome'', ''accepted''), (''provider'', ''helius'')] = Some (Fin 1) \<and>
      exported m ''rpc_plane_tx_submissions_total'' [(''outcome'', ''rejected''), (''provider'', ''none'')] = Some (Fin 1) \<and>
      exported m ''rpc_plane_tx_decode_total'' [(''provider'', ''helius''), (''result'', ''parsed'')] = Some (Fin 1) \<and>
      exported m ''rpc_plane_tx_compute_unit_limit_count'' [(''provider'', ''helius'')] = Some (Fin 1) \<and>
      exported m ''rpc_plane_tx_compute_unit_price_micro_lamports_count'' [(''provider'', ''helius'')] = Some (Fin 1) \<and>
      exported m ''rpc_plane_tx_requested_priority_fee_lamports_count'' [(''provider'', ''helius'')] = Some (Fin 1))"

definition batch_count_weights_the_counter :: bool where
  "batch_count_weights_the_counter \<longleftrightarrow>
     (let m = record_request ''getTransaction'' ''helius'' ''ok'' (Fin 42) 1000 test_metrics in
      exported m ''rpc_plane_requests_total''
        [(''method'', ''getTransaction''), (''provider'', ''helius''), (''status'', ''ok'')] = Some (Fin 1000) \<and>
      exported m ''rpc_plane_request_duration_seconds_count''
        [(''method'', ''getTransaction''), (''provider'', ''helius'')] = Some (Fin 1))"

definition histogram_emits_buckets_and_sum :: bool where
  "histogram_emits_buckets_and_sum \<longleftrightarrow>
     (let m = record_request ''getSlot'' ''helius'' ''ok'' (Fin 42) 1 test_metrics in
      list_ex (\<lambda>c. exported_name (call_family c) = ''rpc_plane_request_duration_seconds_count'') m)"

definition duration_not_observed_for_errors :: bool where
  "duration_not_observed_for_errors \<longleftrightarrow>
     (let m = record_request ''getSlot'' ''helius'' ''error'' (Fin 100) 1 test_metrics in
      \<not> list_ex (\<lambda>c. exported_name (call_family c) = ''rpc_plane_request_duration_seconds_count'') m)"

definition failover_counter :: bool where
  "failover_counter \<longleftrightarrow>
     (let m = record_failover ''helius'' ''triton'' (record_failover ''helius'' ''triton'' test_metrics) in
      exported m ''rpc_plane_failover_total'' [(''from_provider'', ''helius''), (''to_provider'', ''triton'')] = Some (Fin 2))"

definition rate_limited_counter :: bool where
  "rate_limited_counter \<longleftrightarrow>
     (let m = record_rate_limited ''triton'' (record_rate_limited ''helius'' (record_rate_limited ''helius'' test_metrics)) in
      exported m ''rpc_plane_rate_limited_total'' [(''provider'', ''helius'')] = Some (Fin 2) \<and>
      exported m ''rpc_plane_rate_limited_total'' [(''provider'', ''triton'')] = Some (Fin 1))"

definition health_gauges_update :: bool where
  "health_gauges_update \<longleftrightarrow>
     (let m = update_provider_health ''helius'' (rnd (95 / 100)) (Some 300000000) 2 False test_metrics in
      exported m ''rpc_plane_provider_health_score'' [(''provider'', ''helius'')] = Some (rnd (95 / 100)) \<and>
      exported m ''rpc_plane_circuit_breaker_state'' [(''provider'', ''helius'')] = Some (Fin 0))"

definition per_commitment_gauges_update :: bool where
  "per_commitment_gauges_update \<longleftrightarrow>
     (let m = update_provider_commitment ''helius'' ''finalized'' None 0
           (update_provider_commitment ''helius'' ''confirmed'' (Some 300000000) 4 test_metrics) in
      exported m ''rpc_plane_provider_slot_height_commitment''
        [(''commitment'', ''confirmed''), (''provider'', ''helius'')] = Some (Fin 300000000) \<and>
      exported m ''rpc_plane_slot_drift_commitment''
        [(''commitment'', ''confirmed''), (''provider'', ''helius'')] = Some (Fin 4) \<and>
      \<not> list_ex (\<lambda>c. List.member (call_pairs c) (''commitment'', ''finalized'')) m)"

definition build_info_emitted :: "string \<Rightarrow> string option \<Rightarrow> string option \<Rightarrow> string option \<Rightarrow> bool" where
  "build_info_emitted version commit branch rustc \<longleftrightarrow>
     (let m = metrics_new version commit branch rustc in
      list_ex (\<lambda>c. exported_name (call_family c) = ''rpc_plane_build_info'' \<and>
        List.member (call_pairs c) (''version'', version) \<and> call_amount c = Fin 1) m)"

section \<open>They hold of the model\<close>

lemma small_counts:
  "rnd 1 = Fin 1" "rnd 2 = Fin 2" "rnd 1000 = Fin 1000" "f64_of_nat (Suc 0) = Fin 1" "f64_of_nat 4 = Fin 4"
  "f64_of_nat 1 = Fin 1" "f64_of_nat 1000 = Fin 1000" "f64_of_nat 300000000 = Fin 300000000"
  using rnd_int[of 1] rnd_int[of 2] rnd_int[of 1000] f64_of_nat_exact[of 1] f64_of_nat_exact[of 4]
    f64_of_nat_exact[of 1000] f64_of_nat_exact[of 300000000] by simp_all

lemmas exported_defs = exported_def exported_name_def call_pairs_def metrics_new_def Let_def List.member_iff small_counts

lemma request_tests_hold: counter_increments_correctly batch_count_weights_the_counter
  by (simp_all add: counter_increments_correctly_def batch_count_weights_the_counter_def record_request_def exported_defs)

lemma duration_tests_hold: histogram_emits_buckets_and_sum duration_not_observed_for_errors
  by (simp_all add: histogram_emits_buckets_and_sum_def duration_not_observed_for_errors_def record_request_def exported_defs)

lemma transaction_metrics_test_holds: transaction_metrics_record_outcomes_and_accepted_samples
  by (simp add: transaction_metrics_record_outcomes_and_accepted_samples_def record_transaction_decode_def
      record_transaction_submission_def exported_defs)

lemma counter_tests_hold: failover_counter rate_limited_counter
  by (simp_all add: failover_counter_def rate_limited_counter_def record_failover_def record_rate_limited_def exported_defs)

lemma gauge_tests_hold: health_gauges_update per_commitment_gauges_update
  by (simp_all add: health_gauges_update_def per_commitment_gauges_update_def update_provider_health_def
      update_provider_commitment_def exported_defs)

lemma build_info_test_holds: "build_info_emitted version commit branch rustc"
  by (simp add: build_info_emitted_def exported_defs)

end
