(* ===== verification/HistoricalTests.thy ===== *)
theory HistoricalTests
  imports Historical Wire "HOL-Library.Sublist"
begin

text \<open>
  The unit tests of \<open>historical.rs\<close> as definitions that keep the tests' names and assertions, and the lemmas that they
  hold of the model. The response texts are given with the values they parse to; the keyed hashes are assumed not to
  collide on the two byte strings that the fingerprint test compares.
\<close>

section \<open>Tests of reading\<close>

text \<open>The JSON values that the tests' texts denote; a text that is no JSON has none.\<close>

definition response_outcomes_are_classified :: "json_parser \<Rightarrow> bytes list \<Rightarrow> bool" where
  "response_outcomes_are_classified parse texts \<longleftrightarrow>
     map (\<lambda>t. parse_response parse 200 t) texts = [ParsedNull, ParsedFound (Some 42), ParsedRpcError, ParsedParseError]"

definition test_request :: "json list \<Rightarrow> (string \<times> json) list \<Rightarrow> json" where
  "test_request ids options =
     JObj (map (\<lambda>i. (''id'', i)) ids @
       [(''method'', json_text ''getTransaction''), (''params'', JArr [json_text ''signature'', JObj options])])"

definition fingerprint_excludes_id_and_canonicalizes_object_order :: "hashers \<Rightarrow> bool" where
  "fingerprint_excludes_id_and_canonicalizes_object_order h \<longleftrightarrow>
     (let a = test_request [JInt 1] [(''encoding'', json_text ''json''), (''commitment'', json_text ''confirmed'')];
          b = test_request [json_text ''different''] [(''commitment'', json_text ''confirmed''), (''encoding'', json_text ''json'')];
          c = test_request [] [(''commitment'', json_text ''finalized''), (''encoding'', json_text ''json'')] in
      fingerprint h a = fingerprint h b \<and> fingerprint h a \<noteq> fingerprint h c)"

definition bucket_boundaries_match_schema :: bool where
  "bucket_boundaries_match_schema \<longleftrightarrow>
     slot_age_bucket 149 = 0 \<and> slot_age_bucket 150 = 1 \<and> slot_age_bucket 4320000 = 8 \<and>
     polls_bucket 0 = 0 \<and> polls_bucket 3 = 3 \<and> polls_bucket 11 = 5 \<and>
     duration_bucket (duration_from_millis 999) [1, 2] = 0 \<and> duration_bucket (duration_from_secs 1) [1, 2] = 1"

section \<open>Tests of the analyzer\<close>

definition seconds_after :: "instant \<Rightarrow> u64 \<Rightarrow> instant" where
  "seconds_after t s = t + int (duration_from_secs s)"

definition lifecycle_transitions_and_regression_preserve_last_found_time :: "u64 \<Rightarrow> instant \<Rightarrow> bool" where
  "lifecycle_transitions_and_regression_preserve_last_found_time created t0 \<longleftrightarrow>
     (let seen = (\<lambda>found s. transition (1, 2) HConfirmed found (seconds_after t0 s));
          core = seen True 502 (seen False 402 (seen True 2 (seen False 1 (seen False 0 (core_new 10 10000 created)))));
          window = co_windows core ! commitment_index HConfirmed in
      hw_first_observation_null_count window = 1 \<and> hw_null_repeat_count window = 1 \<and>
      hw_null_to_found_count window = 1 \<and> hw_found_to_null_regression_count window = 1 \<and>
      hw_found_repeat_count window = 1 \<and> hw_polls_before_found_bucket_counts window ! 2 = 1 \<and>
      hw_found_reuse_bucket_counts window ! 1 = 1)"

definition capacity_and_ttl_evictions_count_unresolved_nulls :: "u64 \<Rightarrow> instant \<Rightarrow> bool" where
  "capacity_and_ttl_evictions_count_unresolved_nulls created t0 \<longleftrightarrow>
     (let core = transition (2, 2) HProcessed True (seconds_after t0 1)
            (transition (1, 1) HProcessed False t0 (core_new 1 10 created));
          window = co_windows core ! commitment_index HProcessed;
          ttl_core = expire (seconds_after t0 10) (transition (3, 3) HFinalized False t0 (core_new 2 10 created));
          ttl_window = co_windows ttl_core ! commitment_index HFinalized in
      hw_state_capacity_eviction_count window = 1 \<and> hw_unresolved_null_capacity_eviction_count window = 1 \<and>
      hw_state_ttl_expiration_count ttl_window = 1 \<and> hw_unresolved_null_ttl_expiration_count ttl_window = 1 \<and>
      co_state ttl_core = [])"

text \<open>Every name and string of a JSON value; a word without quotes is in its text if it is in one of them.\<close>

fun json_texts :: "json \<Rightarrow> string list" where
  "json_texts (JStr e s) = [s]"
| "json_texts (JArr js) = concat (map json_texts js)"
| "json_texts (JObj ms) = concat (map (\<lambda>(k, v). k # json_texts v) ms)"
| "json_texts (JFloat t) = [t]"
| "json_texts j = []"

definition mentions :: "json list \<Rightarrow> string \<Rightarrow> bool" where
  "mentions js word \<longleftrightarrow> list_ex (\<lambda>j. list_ex (\<lambda>s. list_ex (prefix word) (suffixes s)) (json_texts j)) js"

definition aggregate_flush_emits_only_counts :: "(rat \<Rightarrow> string) \<Rightarrow> u64 \<Rightarrow> instant \<Rightarrow> u64 \<Rightarrow> bool" where
  "aggregate_flush_emits_only_counts show created t0 now \<longleftrightarrow>
     (let quality = quality_zero\<lparr>qc_resets := 1\<rparr>;
          core = upd_window HProcessed (\<lambda>w. w\<lparr>hw_logical_request_count := 1\<rparr>)
            (transition (9, 9) HProcessed True t0 (core_new 10 60 created));
          events = fst (core_flush now 10 quality core);
          json = map (event_json show) events in
      length events = 2 \<and> \<not> mentions json ''Fingerprint'' \<and> \<not> mentions json ''signature'' \<and>
      mentions json ''historical_get_transaction_aggregate'')"

text \<open>The bytes that are hashed; two keyed hashes of different bytes may collide.\<close>

definition test_params :: "string \<Rightarrow> json" where
  "test_params lvl =
     JArr [json_text ''signature'', JObj [(''encoding'', json_text ''json''), (''commitment'', json_text lvl)]]"

definition test_fed :: "string \<Rightarrow> bytes" where
  "test_fed lvl = hash_json (JStr False ''getTransaction'') @ hash_json (test_params lvl)"

section \<open>They hold of the model\<close>

lemma response_test_holds:
  assumes "parse t1 = Some (JObj [(''result'', JNull)])" "parse t2 = Some (JObj [(''result'', JObj [(''slot'', JInt 42)])])"
    "parse t3 = Some (JObj [(''error'', JObj [(''code'', JInt (- 1))])])" "parse t4 = None"
  shows "response_outcomes_are_classified parse [t1, t2, t3, t4]"
  using assms
  by (simp add: response_outcomes_are_classified_def parse_response_def json_is_object_def json_get_def
      json_as_u64_def de_u64_def json_is_null_def word_le_nat_alt word_less_nat_alt)

lemma bucket_test_holds: bucket_boundaries_match_schema
  by (simp add: bucket_boundaries_match_schema_def slot_age_bucket_def polls_bucket_def duration_bucket_def
      duration_from_secs_def duration_from_millis_def unwrap_or_def word_le_nat_alt HISTORICAL_SLOT_AGE_BUCKET_COUNT_def)

lemmas analyzer_defs = core_new_def transition_def forget_def remember_def next_lifecycle_def record_transition_def
  upd_window_def window_default_def shrink_def evict_oldest_def count_eviction_def bump_def seconds_after_def
  duration_from_secs_def saturating_duration_since_def duration_bucket_def polls_bucket_def
  HISTORICAL_SLOT_AGE_BUCKET_COUNT_def HISTORICAL_POLLS_BEFORE_FOUND_BUCKET_COUNT_def
  HISTORICAL_TIME_TO_FOUND_BUCKET_COUNT_def HISTORICAL_FOUND_REUSE_BUCKET_COUNT_def Let_def unwrap_or_def

lemma lifecycle_test_holds: "lifecycle_transitions_and_regression_preserve_last_found_time created t0"
  by (simp add: lifecycle_transitions_and_regression_preserve_last_found_time_def analyzer_defs
      u64_saturating_add_def word_le_nat_alt insort_insert_key_def)

lemma eviction_test_holds: "capacity_and_ttl_evictions_count_unresolved_nulls created t0"
  by (simp add: capacity_and_ttl_evictions_count_unresolved_nulls_def analyzer_defs expire_def
      expire_loop.simps[of 0] expire_loop.simps[of "Suc n" for n] insort_insert_key_def)

lemma params_swapped:
  "hash_json (JArr [json_text ''signature'', JObj [(''commitment'', json_text lvl), (''encoding'', json_text ''json'')]]) =
   hash_json (test_params lvl)"
  unfolding test_params_def hash_json.simps(6) list.map list.size
  by (subst object_member_order_irrelevant[of "[(''commitment'', json_text lvl), (''encoding'', json_text ''json'')]"
      "[(''encoding'', json_text ''json''), (''commitment'', json_text lvl)]"]) simp_all

lemma request_fingerprint:
  "fingerprint h (test_request ids [(''encoding'', json_text ''json''), (''commitment'', json_text lvl)]) =
     Some (fst h (test_fed lvl), snd h (test_fed lvl))"
  by (simp add: fingerprint_def test_request_def json_get_def json_as_array_def test_params_def test_fed_def Let_def)

lemma request_fingerprint_swapped:
  "fingerprint h (test_request ids [(''commitment'', json_text lvl), (''encoding'', json_text ''json'')]) =
     Some (fst h (test_fed lvl), snd h (test_fed lvl))"
  by (simp add: fingerprint_def test_request_def json_get_def json_as_array_def test_fed_def params_swapped Let_def
      del: hash_json.simps)

lemma option_keys: "sort [''encoding'', ''commitment''] = [''commitment'', ''encoding'']"
  by (simp add: less_eq_char_def less_char_def)

lemma params_differ: "hash_json (test_params ''confirmed'') \<noteq> hash_json (test_params ''finalized'')"
  by (simp add: test_params_def option_keys Let_def json_text_def text_bytes_def del: sort_key_simps)

lemma fingerprint_test_holds:
  assumes "inj_on (fst h) {test_fed ''confirmed'', test_fed ''finalized''}"
  shows "fingerprint_excludes_id_and_canonicalizes_object_order h"
proof -
  have "test_fed ''confirmed'' \<noteq> test_fed ''finalized''" using params_differ by (simp add: test_fed_def)
  with assms have "fst h (test_fed ''confirmed'') \<noteq> fst h (test_fed ''finalized'')" by (simp add: inj_on_def)
  then show ?thesis
    unfolding fingerprint_excludes_id_and_canonicalizes_object_order_def request_fingerprint request_fingerprint_swapped Let_def
    by simp
qed

text \<open>The aggregate of a window mentions the names of its members, its kind and its commitment.\<close>

lemma texts_of_numbers: "json_texts (json_u64 n) = []" "json_texts (json_u32 m) = []" "json_texts (json_u64s ns) = []"
  by (simp_all add: json_u64_def json_u32_def json_u64s_def)

lemma historical_mentions:
  "hg_commitment a \<in> {''processed'', ''unknown''} \<Longrightarrow>
     \<not> mentions [event_json show (HistoricalGetTransactionAggregate a)] ''Fingerprint'' \<and>
     \<not> mentions [event_json show (HistoricalGetTransactionAggregate a)] ''signature'' \<and>
     mentions [event_json show (HistoricalGetTransactionAggregate a)] ''historical_get_transaction_aggregate''"
  by (auto simp: mentions_def event_json_def historical_fields_def texts_of_numbers json_text_def)

lemma mentions_Cons: "mentions (j # js) w \<longleftrightarrow> mentions [j] w \<or> mentions js w" "\<not> mentions [] w"
  by (simp_all add: mentions_def)

lemma processed_and_unknown_flushed:
  assumes "co_windows core = [w, window_default, window_default, window_default]" "hw_logical_request_count w = 1"
  shows "\<exists>a b. fst (core_flush now n (quality_zero\<lparr>qc_resets := 1\<rparr>) core) =
      [HistoricalGetTransactionAggregate a, HistoricalGetTransactionAggregate b] \<and>
      hg_commitment a = ''processed'' \<and> hg_commitment b = ''unknown''"
proof -
  have "[0..<length (co_windows core)] = [0, 1, 2, 3]" by (simp add: assms(1) upt_rec)
  moreover have "window_is_empty window_default" "\<not> window_is_empty w"
    using assms(2) by (simp_all add: window_is_empty_def window_default_def)
  ultimately show ?thesis
    by (simp add: core_flush_def flush_window_def assms(1) quality_zero_def commitment_for_index_def List.map_filter_def Let_def)
qed

lemma aggregate_test_holds: "aggregate_flush_emits_only_counts show created t0 now"
proof -
  define core where "core = upd_window HProcessed (\<lambda>w. w\<lparr>hw_logical_request_count := 1\<rparr>)
            (transition (9, 9) HProcessed True t0 (core_new 10 60 created))"
  have "\<exists>w. co_windows core = [w, window_default, window_default, window_default] \<and> hw_logical_request_count w = 1"
    by (simp add: core_def core_new_def transition_def forget_def remember_def next_lifecycle_def record_transition_def
        upd_window_def shrink_def insort_insert_key_def numeral_eq_Suc)
  then obtain w where "co_windows core = [w, window_default, window_default, window_default]"
    "hw_logical_request_count w = 1" by blast
  from processed_and_unknown_flushed[OF this, of now 10] obtain a b
    where "fst (core_flush now 10 (quality_zero\<lparr>qc_resets := 1\<rparr>) core) =
        [HistoricalGetTransactionAggregate a, HistoricalGetTransactionAggregate b]"
      "hg_commitment a = ''processed''" "hg_commitment b = ''unknown''" by blast
  with historical_mentions[of a "show"] historical_mentions[of b "show"] show ?thesis
    unfolding aggregate_flush_emits_only_counts_def Let_def core_def[symmetric]
    by (simp add: mentions_Cons(1)[of "event_json show (HistoricalGetTransactionAggregate a)" "[_]"])
qed

end
