(* ===== verification/Accuracy.thy ===== *)
theory Accuracy
  imports Health
begin

text \<open>
  How exact the scores of \<open>Health\<close> are: every component of a score, and the score itself, is compared with the same
  formula over the rational numbers. The rounding errors of the double operations are counted in units of \<open>ulp\<close>;
  the computed score is within 2^-44 of the exact weighted mean, so an exact advantage of 2^-40 is one of the scores.
\<close>

text \<open>The unit in which the errors below are counted: the last place of the numbers between 2 and 4, which bounds the error of
  rounding a number up to 4.\<close>

definition ulp :: rat where
  "ulp = 1 / 2 ^ 51"

text \<open>A double that is finite, not negative and within \<open>k\<close> units of an exact value.\<close>

definition close :: "nat \<Rightarrow> f64 \<Rightarrow> rat \<Rightarrow> bool" where
  "close k x a \<longleftrightarrow> (\<exists>b. x = Fin b \<and> 0 \<le> b \<and> \<bar>b - a\<bar> \<le> of_nat k * ulp)"

fun f64_val :: "f64 \<Rightarrow> rat" where
  "f64_val (Fin a) = a"
| "f64_val x = 0"

definition exact_latency_score :: "inner \<Rightarrow> rat" where
  "exact_latency_score g =
     (let ema = f64_val (in_latency_ema_ms g) in if ema = 0 then 1 / 2 else 200 / (200 + ema))"

definition exact_error_rate :: "inner \<Rightarrow> rat" where
  "exact_error_rate g =
     (if in_window g = [] then 0
      else of_nat (length (filter (\<lambda>(t, s). s \<noteq> Success) (in_window g))) / of_nat (length (in_window g)))"

definition exact_slot_score :: "inner \<Rightarrow> tip_source \<Rightarrow> health_config \<Rightarrow> rat" where
  "exact_slot_score g tips cfg =
     (let thr = of_nat (unat (hc_slot_drift_threshold cfg)) in
      case worst_drift g tips of None \<Rightarrow> 1 / 2 | Some d \<Rightarrow> thr / (thr + of_nat (unat d)))"

definition exact_weight :: "health_config \<Rightarrow> rat" where
  "exact_weight cfg =
     f64_val (hc_w_latency cfg) + f64_val (hc_w_error cfg) + f64_val (hc_w_slot cfg) + f64_val (hc_w_success cfg)"

text \<open>The weighted mean of the components, in exact arithmetic.\<close>

definition exact_mean :: "inner \<Rightarrow> tip_source \<Rightarrow> health_config \<Rightarrow> rat" where
  "exact_mean g tips cfg =
     (f64_val (hc_w_latency cfg) * exact_latency_score g + f64_val (hc_w_error cfg) * (1 - exact_error_rate g) +
      f64_val (hc_w_slot cfg) * exact_slot_score g tips cfg + f64_val (hc_w_success cfg) * (1 - exact_error_rate g)) /
     exact_weight cfg"

definition exact_score :: "inner \<Rightarrow> tip_source \<Rightarrow> health_config \<Rightarrow> rat" where
  "exact_score g tips cfg = (if in_circuit g = Open then 0 else exact_mean g tips cfg)"

definition weight_ok :: "f64 \<Rightarrow> bool" where
  "weight_ok w \<longleftrightarrow> (case w of Fin a \<Rightarrow> 0 \<le> a \<and> a \<le> 1 | _ \<Rightarrow> False)"

text \<open>
  Weights between 0 and 1 with a sum between a half and 3, and quantities that a double holds exactly. The case that
  \<open>zero_threshold_score_nan\<close> of \<open>Health\<close> is about, a threshold of 0 and a provider at the tip, is excluded.
\<close>

definition scorable :: "inner \<Rightarrow> tip_source \<Rightarrow> health_config \<Rightarrow> bool" where
  "scorable g tips cfg \<longleftrightarrow>
     window_small g \<and>
     (case in_latency_ema_ms g of Fin m \<Rightarrow> 0 \<le> m \<and> m \<le> 2 ^ 52 | _ \<Rightarrow> False) \<and>
     (hc_slot_drift_threshold cfg = 0 \<longrightarrow> worst_drift g tips \<noteq> Some 0) \<and> unat (hc_slot_drift_threshold cfg) \<le> 2 ^ 52 \<and>
     pred_option (\<lambda>d. unat d \<le> 2 ^ 52) (worst_drift g tips) \<and>
     list_all weight_ok [hc_w_latency cfg, hc_w_error cfg, hc_w_slot cfg, hc_w_success cfg] \<and>
     1 / 2 \<le> exact_weight cfg \<and> exact_weight cfg \<le> 3"

definition default_weights :: "health_config \<Rightarrow> bool" where
  "default_weights cfg \<longleftrightarrow> hc_w_latency cfg = rnd (4 / 10) \<and> hc_w_error cfg = rnd (3 / 10) \<and>
     hc_w_slot cfg = rnd (2 / 10) \<and> hc_w_success cfg = rnd (1 / 10)"

section \<open>The rounding error\<close>

lemma round_half_even_near: "\<bar>of_int (round_half_even x) - x\<bar> \<le> 1 / 2"
proof -
  have "of_int \<lfloor>x\<rfloor> \<le> x" "x < of_int \<lfloor>x\<rfloor> + 1" using floor_correct[of x] by simp_all
  then show ?thesis by (simp add: round_half_even_def Let_def abs_le_iff split: if_split)
qed

lemma round_mag_near:
  assumes "0 < x"
  shows "\<bar>round_mag x - x\<bar> \<le> 2 powi ulp_exp x / 2"
proof -
  let ?p = "2 powi ulp_exp x :: rat"
  have "round_mag x - x = (of_int (round_half_even (x / ?p)) - x / ?p) * ?p"
    using assms by (simp add: round_mag_def left_diff_distrib)
  then have "\<bar>round_mag x - x\<bar> = \<bar>of_int (round_half_even (x / ?p)) - x / ?p\<bar> * ?p" by (simp add: abs_mult)
  also have "\<dots> \<le> 1 / 2 * ?p" by (rule mult_right_mono[OF round_half_even_near]) simp
  finally show ?thesis by simp
qed

lemma rnd_near_4:
  assumes "0 \<le> x" "x \<le> 4"
  obtains a where "rnd x = Fin a" "\<bar>a - x\<bar> \<le> ulp" "0 \<le> a"
proof (cases "x = 0")
  case True
  then show ?thesis using that[of 0] by (simp add: binary64.r_0 ulp_def)
next
  case False
  with assms have x: "0 < x" by simp
  have "x \<le> 2 powi 2" using assms(2) by (simp add: power_int_def)
  then have "floor_log2 x \<le> 2"
    using floor_log2_bounds(1)[OF x] powi_2_mono[of 3 "floor_log2 x"] by (cases "3 \<le> floor_log2 x") (auto simp: power_int_def)
  then have "ulp_exp x \<le> - 50" by (simp add: ulp_exp_def)
  then have "2 powi ulp_exp x \<le> (2::rat) powi (- 50)" by (rule powi_2_mono)
  then have "\<bar>round_mag x - x\<bar> \<le> ulp"
    using round_mag_near[OF x] by (simp add: ulp_def power_int_def power_one_over)
  moreover have "rnd x = Fin (round_mag x)"
  proof -
    have "\<bar>round_mag x - x\<bar> \<le> 1" using \<open>\<bar>round_mag x - x\<bar> \<le> ulp\<close> by (simp add: ulp_def)
    then have "round_mag x \<le> f64_MAX" using assms(2) f64_MAX_pos by simp
    with x show ?thesis by (simp add: rnd_def)
  qed
  ultimately show ?thesis using that by simp
qed

text \<open>The relative error of a large number.\<close>

lemma rnd_near_relative:
  assumes "1 \<le> x" "x \<le> 2 ^ 53"
  obtains a where "rnd x = Fin a" "\<bar>a - x\<bar> \<le> x / 2 ^ 53"
proof -
  have x: "0 < x" using assms(1) by simp
  have "0 \<le> floor_log2 x"
  proof (rule ccontr)
    assume "\<not> 0 \<le> floor_log2 x"
    then have "x < 2 powi 0" using floor_log2_bounds(2)[OF x] powi_2_mono[of "floor_log2 x + 1" 0] by simp
    with assms(1) show False by simp
  qed
  then have "ulp_exp x = floor_log2 x - 52" by (simp add: ulp_exp_def)
  then have "2 powi ulp_exp x = (2 powi floor_log2 x / 2 ^ 52 :: rat)" by (simp add: power_int_diff)
  with floor_log2_bounds(1)[OF x] have "2 powi ulp_exp x / 2 \<le> x / 2 ^ 53" by simp
  with round_mag_near[OF x] have "\<bar>round_mag x - x\<bar> \<le> x / 2 ^ 53" by linarith
  moreover obtain a where "rnd x = Fin a"
    using binary64.r_below_nat[of x "2 ^ 53"] x assms(2) by auto
  ultimately show ?thesis using that x by (auto simp: rnd_def split: if_splits)
qed

section \<open>Approximations\<close>

lemma close_exact: "0 \<le> a \<Longrightarrow> close 0 (Fin a) a"
  by (simp add: close_def)

lemma ulp_pos: "0 < ulp" "of_nat k * ulp \<le> 1 / 2" if "k \<le> 2 ^ 50"
proof -
  show "0 < ulp" by (simp add: ulp_def)
  have "(of_nat k :: rat) \<le> of_nat (2 ^ 50)" using that by (simp only: of_nat_le_iff)
  then show "of_nat k * ulp \<le> 1 / 2" by (simp add: ulp_def)
qed

lemma close_rnd:
  assumes "0 \<le> b" "b \<le> 4" "\<bar>b - a\<bar> \<le> of_nat k * ulp"
  shows "close (k + 1) (rnd b) a"
proof -
  obtain c where "rnd b = Fin c" "\<bar>c - b\<bar> \<le> ulp" "0 \<le> c" using rnd_near_4[OF assms(1,2)] .
  moreover have "of_nat (k + 1) * ulp = of_nat k * ulp + ulp" by (simp add: distrib_right)
  ultimately show ?thesis using assms(3) by (auto simp: close_def)
qed

lemma close_add:
  assumes "close k x a" "close l y b" "a + b \<le> 3" "k + l \<le> 2 ^ 50"
  shows "close (k + l + 1) (f64_add x y) (a + b)"
proof -
  obtain p q where x: "x = Fin p" "0 \<le> p" "\<bar>p - a\<bar> \<le> of_nat k * ulp" and y: "y = Fin q" "0 \<le> q" "\<bar>q - b\<bar> \<le> of_nat l * ulp"
    using assms(1,2) by (auto simp: close_def)
  have e: "\<bar>(p + q) - (a + b)\<bar> \<le> of_nat (k + l) * ulp"
    using x(3) y(3) by (simp add: distrib_right)
  then have "p + q \<le> 4" using ulp_pos(2)[OF assms(4)] assms(3) by linarith
  from close_rnd[OF _ this e] x y show ?thesis by simp
qed

lemma close_mul:
  assumes "0 \<le> w" "w \<le> 1" "close k x a" "a \<le> 1" "k \<le> 2 ^ 50"
  shows "close (k + 1) (f64_mul (Fin w) x) (w * a)"
proof -
  obtain p where x: "x = Fin p" "0 \<le> p" "\<bar>p - a\<bar> \<le> of_nat k * ulp" using assms(3) by (auto simp: close_def)
  have "\<bar>w * p - w * a\<bar> = w * \<bar>p - a\<bar>" using assms(1) by (simp add: abs_mult flip: right_diff_distrib)
  also have "\<dots> \<le> 1 * \<bar>p - a\<bar>" using assms(2) by (intro mult_right_mono) auto
  finally have e: "\<bar>w * p - w * a\<bar> \<le> of_nat k * ulp" using x(3) by simp
  have "p \<le> 2" using x(3) assms(4) ulp_pos(2)[OF assms(5)] by linarith
  then have "w * p \<le> 1 * 2" using assms(1,2) x(2) by (intro mult_mono) auto
  with close_rnd[OF _ _ e] assms(1) x show ?thesis by simp
qed

lemma close_mono: "close k x a \<Longrightarrow> k \<le> l \<Longrightarrow> close l x a"
  using ulp_pos(1)[of 0] by (force simp: close_def intro: order_trans mult_right_mono)

lemma close_div:
  assumes "close k x a" "close l y b" "0 \<le> a" "a \<le> b" "1 / 2 \<le> b" "4 * (k + l) \<le> 2 ^ 48"
  shows "close (4 * (k + l) + 1) (f64_div x y) (a / b)"
proof -
  obtain p q where x: "x = Fin p" "0 \<le> p" "\<bar>p - a\<bar> \<le> of_nat k * ulp" and y: "y = Fin q" "0 \<le> q" "\<bar>q - b\<bar> \<le> of_nat l * ulp"
    using assms(1,2) by (auto simp: close_def)
  have "of_nat (4 * (k + l)) * ulp \<le> 1 / 2" using assms(6) by (intro ulp_pos(2)) simp
  then have small: "of_nat k * ulp + of_nat l * ulp \<le> 1 / 8" by (simp add: algebra_simps)
  have "0 \<le> of_nat k * ulp" "0 \<le> of_nat l * ulp" using ulp_pos(1)[of 0] by (simp_all add: less_imp_le)
  with small y(3) assms(5) have q: "1 / 4 \<le> q" by linarith
  have ratio: "0 \<le> a / b" "a / b \<le> 1" using assms(3-5) by simp_all
  have "p / q - a / b = ((p - a) - a / b * (q - b)) / q"
    using q assms(5) by (simp add: field_simps)
  then have "\<bar>p / q - a / b\<bar> = \<bar>(p - a) - a / b * (q - b)\<bar> / q" using q by simp
  also have "\<dots> \<le> (\<bar>p - a\<bar> + \<bar>q - b\<bar>) / q"
  proof (rule divide_right_mono)
    have "\<bar>a / b * (q - b)\<bar> \<le> \<bar>q - b\<bar>"
      using ratio(1) mult_right_mono[OF ratio(2), of "\<bar>q - b\<bar>"] by (simp only: abs_mult abs_of_nonneg) simp
    then show "\<bar>(p - a) - a / b * (q - b)\<bar> \<le> \<bar>p - a\<bar> + \<bar>q - b\<bar>" by linarith
  qed (use q in simp)
  also have "\<dots> \<le> (\<bar>p - a\<bar> + \<bar>q - b\<bar>) * 4"
  proof -
    have "inverse q \<le> 4" using q by (simp add: inverse_eq_divide divide_le_eq)
    then show ?thesis unfolding divide_inverse by (rule mult_left_mono) simp
  qed
  also have "\<dots> \<le> (of_nat k * ulp + of_nat l * ulp) * 4" using x(3) y(3) by simp
  finally have e: "\<bar>p / q - a / b\<bar> \<le> of_nat (4 * (k + l)) * ulp" by (simp add: algebra_simps)
  with small ratio have "p / q \<le> 4" by (simp add: algebra_simps)
  from close_rnd[OF _ this e] x y q show ?thesis by simp
qed

section \<open>The exact score\<close>

lemma ratio_close:
  assumes "0 \<le> a" "a \<le> b" "0 < b"
  shows "close 1 (f64_div (Fin a) (Fin b)) (a / b)"
proof -
  have "a / b \<le> 4" using assms by (simp add: divide_le_eq)
  with close_rnd[of "a / b" "a / b" 0] assms show ?thesis by simp
qed

lemma half_close: "close 1 (rnd (1 / 2)) (1 / 2)"
  using close_rnd[of "1 / 2" "1 / 2" 0] by simp

lemma latency_close:
  assumes "in_latency_ema_ms g = Fin m" "0 \<le> m" "m \<le> 2 ^ 52"
  shows "close 2 (latency_score g) (exact_latency_score g)"
proof (cases "m = 0")
  case True
  with assms(1) close_mono[OF half_close] show ?thesis by (simp add: latency_score_def exact_latency_score_def)
next
  case False
  let ?y = "200 + m"
  obtain a where a: "rnd ?y = Fin a" "\<bar>a - ?y\<bar> \<le> ?y / 2 ^ 53"
    using rnd_near_relative[of ?y] assms(2,3) by auto
  have "?y / 2 ^ 53 \<le> 1" using assms(3) by simp
  with a(2) assms(2) have "199 \<le> a" by linarith
  have "200 / a - 200 / ?y = 200 / (a * ?y) * (?y - a)"
    using \<open>199 \<le> a\<close> assms(2) by (simp add: field_simps)
  moreover have "0 \<le> 200 / (a * ?y)" using \<open>199 \<le> a\<close> assms(2) by simp
  ultimately have "\<bar>200 / a - 200 / ?y\<bar> = 200 / (a * ?y) * \<bar>a - ?y\<bar>"
    by (simp only: abs_mult abs_of_nonneg abs_minus_commute)
  also have "\<dots> \<le> 200 / (a * ?y) * (?y / 2 ^ 53)"
    using \<open>199 \<le> a\<close> assms(2) by (intro mult_left_mono a(2)) simp
  also have "\<dots> = 200 / a / 2 ^ 53"
  proof -
    have "c / (a * y) * (y / e) = c / a / e" if "y \<noteq> 0" for c y e :: rat using that by simp
    from this[of ?y 200 "2 ^ 53"] show ?thesis using assms(2) by linarith
  qed
  also have "\<dots> \<le> 4 / 2 ^ 53" using \<open>199 \<le> a\<close> by (intro divide_right_mono) (simp_all add: divide_le_eq)
  finally have "\<bar>200 / a - 200 / ?y\<bar> \<le> of_nat 1 * ulp" by (simp add: ulp_def)
  moreover have "200 / a \<le> 4" using \<open>199 \<le> a\<close> by (simp add: divide_le_eq)
  ultimately have "close 2 (rnd (200 / a)) (200 / ?y)" using close_rnd[of "200 / a" _ 1] \<open>199 \<le> a\<close> by (simp add: numeral_2_eq_2)
  with False assms(1) a(1) \<open>199 \<le> a\<close> show ?thesis by (simp add: latency_score_def exact_latency_score_def)
qed

lemma rate_close:
  assumes "window_small g"
  shows "close 1 (error_rate g) (exact_error_rate g)" "0 \<le> exact_error_rate g" "exact_error_rate g \<le> 1"
proof -
  let ?n = "length (in_window g)" and ?k = "length (filter (\<lambda>(t, s). s \<noteq> Success) (in_window g))"
  have le: "?k \<le> ?n" by simp
  have "?k \<le> 2 ^ 53" "?n \<le> 2 ^ 53" using le assms by (simp_all only: window_small_def order_trans[OF le])
  then have exact: "f64_of_nat ?k = Fin (of_nat ?k)" "f64_of_nat ?n = Fin (of_nat ?n)"
    by (simp_all only: f64_of_nat_exact)
  show "0 \<le> exact_error_rate g" "exact_error_rate g \<le> 1"
    using le by (simp_all add: exact_error_rate_def divide_le_eq_1)
  show "close 1 (error_rate g) (exact_error_rate g)"
  proof (cases "in_window g = []")
    case True
    then show ?thesis using close_mono[OF close_exact[of 0]] by (simp add: error_rate_def exact_error_rate_def)
  next
    case False
    then show ?thesis
      using ratio_close[of "of_nat ?k" "of_nat ?n"] le by (simp add: error_rate_def exact_error_rate_def exact)
  qed
qed

lemma one_minus_close:
  assumes "close k x a" "f64_unit x"
  shows "close (k + 1) (f64_sub (Fin 1) x) (1 - a)"
proof -
  obtain p where "x = Fin p" "0 \<le> p" "\<bar>p - a\<bar> \<le> of_nat k * ulp" "p \<le> 1" using assms by (auto simp: close_def)
  moreover from this have "\<bar>(1 - p) - (1 - a)\<bar> \<le> of_nat k * ulp" by (simp add: abs_minus_commute)
  ultimately show ?thesis using close_rnd[of "1 - p" "1 - a" k] by (simp add: f64_sub_def)
qed

lemma slot_close:
  assumes "hc_slot_drift_threshold cfg = 0 \<longrightarrow> worst_drift g tips \<noteq> Some 0" "unat (hc_slot_drift_threshold cfg) \<le> 2 ^ 52"
    "pred_option (\<lambda>d. unat d \<le> 2 ^ 52) (worst_drift g tips)"
  shows "close 1 (slot_score g tips cfg) (exact_slot_score g tips cfg)" "0 \<le> exact_slot_score g tips cfg"
    "exact_slot_score g tips cfg \<le> 1"
proof -
  let ?t = "unat (hc_slot_drift_threshold cfg)"
  have pos: "0 < (of_nat ?t + of_nat (unat d) :: rat)" if "worst_drift g tips = Some d" for d
  proof -
    have "?t \<noteq> 0 \<or> unat d \<noteq> 0" using assms(1) that by (auto simp: unat_eq_0)
    then have "0 < ?t + unat d" by linarith
    then show ?thesis by (metis of_nat_add of_nat_0_less_iff)
  qed
  show "0 \<le> exact_slot_score g tips cfg" "exact_slot_score g tips cfg \<le> 1"
    using pos by (auto simp: exact_slot_score_def Let_def divide_le_eq_1 simp del: of_nat_unat split: option.split)
  show "close 1 (slot_score g tips cfg) (exact_slot_score g tips cfg)"
  proof (cases "worst_drift g tips")
    case None
    then show ?thesis using half_close by (simp add: slot_score_def exact_slot_score_def)
  next
    case (Some d)
    then have "unat d \<le> 2 ^ 52" using assms(3) by simp
    with assms(2) have "?t + unat d \<le> 2 ^ 53" by simp
    then have "f64_of_nat ?t = Fin (of_nat ?t)" "f64_of_nat (unat d) = Fin (of_nat (unat d))"
      "rnd (of_nat ?t + of_nat (unat d)) = Fin (of_nat ?t + of_nat (unat d))"
      using f64_of_nat_exact[of "?t + unat d"] by (simp_all add: f64_of_nat_exact f64_of_nat_def[of "_ + _"])
    moreover note pos[OF Some]
    ultimately show ?thesis
      using Some ratio_close[of "of_nat ?t" "of_nat ?t + of_nat (unat d)"]
      by (simp add: slot_score_def exact_slot_score_def Let_def del: of_nat_unat)
  qed
qed

lemma weight_cases:
  assumes "weight_ok w"
  obtains a where "w = Fin a" "0 \<le> a" "a \<le> 1"
  using assms by (cases w) (auto simp: weight_ok_def)

text \<open>Sums of four weights, and of four weighted components.\<close>

lemma sum4_close:
  assumes "close k x1 a1" "close k x2 a2" "close k x3 a3" "close k x4 a4" "k \<le> 100"
    and "a1 + a2 \<le> 3" "a1 + a2 + a3 \<le> 3" "a1 + a2 + a3 + a4 \<le> 3"
  shows "close (4 * k + 3) (f64_add (f64_add (f64_add x1 x2) x3) x4) (a1 + a2 + a3 + a4)"
proof -
  have "close (k + k + 1) (f64_add x1 x2) (a1 + a2)" using assms by (intro close_add) auto
  then have "close (k + k + 1 + k + 1) (f64_add (f64_add x1 x2) x3) (a1 + a2 + a3)" using assms by (intro close_add) auto
  then have "close (k + k + 1 + k + 1 + k + 1) (f64_add (f64_add (f64_add x1 x2) x3) x4) (a1 + a2 + a3 + a4)"
    using assms by (intro close_add) auto
  then show ?thesis by (simp add: algebra_simps eval_nat_numeral)
qed

lemma mean_near:
  assumes "scorable g tips cfg" "in_circuit g \<noteq> Open"
  shows "\<exists>b. score g tips cfg = Fin b \<and> \<bar>b - exact_mean g tips cfg\<bar> \<le> 1 / 2 ^ 44"
proof -
  obtain m where m: "in_latency_ema_ms g = Fin m" "0 \<le> m" "m \<le> 2 ^ 52"
    using assms(1) by (cases "in_latency_ema_ms g") (auto simp: scorable_def)
  obtain wl we ws wu where w: "hc_w_latency cfg = Fin wl" "hc_w_error cfg = Fin we" "hc_w_slot cfg = Fin ws"
      "hc_w_success cfg = Fin wu"
    and w0: "0 \<le> wl" "wl \<le> 1" "0 \<le> we" "we \<le> 1" "0 \<le> ws" "ws \<le> 1" "0 \<le> wu" "wu \<le> 1"
    using assms(1) by (auto simp: scorable_def elim!: weight_cases)
  define l r s where "l = exact_latency_score g" and "r = exact_error_rate g" and "s = exact_slot_score g tips cfg"
  have W: "exact_weight cfg = wl + we + ws + wu" by (simp add: exact_weight_def w)
  have sum: "1 / 2 \<le> wl + we + ws + wu" "wl + we + ws + wu \<le> 3" using assms(1) by (simp_all add: scorable_def W)
  have l: "close 2 (latency_score g) l" "0 \<le> l" "l \<le> 1"
    using latency_close[OF m] m by (simp_all add: l_def exact_latency_score_def Let_def)
  have r: "close 1 (error_rate g) r" "0 \<le> r" "r \<le> 1" "f64_unit (error_rate g)"
    using assms(1) rate_close[of g] error_rate_unit[of g] by (simp_all add: r_def scorable_def)
  have s: "close 1 (slot_score g tips cfg) s" "0 \<le> s" "s \<le> 1"
    using assms(1) slot_close[of cfg g tips] by (simp_all add: s_def scorable_def)
  have e: "close 2 (f64_sub (Fin 1) (error_rate g)) (1 - r)" using one_minus_close[OF r(1,4)] by (simp add: numeral_2_eq_2)
  have below: "wl * l \<le> wl" "we * (1 - r) \<le> we" "ws * s \<le> ws" "wu * (1 - r) \<le> wu"
    using w0 l r s by (simp_all add: mult_left_le)
  have above: "0 \<le> wl * l" "0 \<le> we * (1 - r)" "0 \<le> ws * s" "0 \<le> wu * (1 - r)"
    using w0 l r s by simp_all
  let ?n = "f64_add (f64_add (f64_add (f64_mul (Fin wl) (latency_score g)) (f64_mul (Fin we) (f64_sub (Fin 1) (error_rate g))))
      (f64_mul (Fin ws) (slot_score g tips cfg))) (f64_mul (Fin wu) (f64_sub (Fin 1) (error_rate g)))"
  have "close (4 * 3 + 3) ?n (wl * l + we * (1 - r) + ws * s + wu * (1 - r))"
  proof (rule sum4_close)
    show "close 3 (f64_mul (Fin wl) (latency_score g)) (wl * l)" using close_mul[OF w0(1,2) l(1,3)] by simp
    show "close 3 (f64_mul (Fin we) (f64_sub (Fin 1) (error_rate g))) (we * (1 - r))"
      using close_mul[OF w0(3,4) e] r(2) by simp
    show "close 3 (f64_mul (Fin ws) (slot_score g tips cfg)) (ws * s)"
      using close_mono[OF close_mul[OF w0(5,6) s(1,3)], of 3] by simp
    show "close 3 (f64_mul (Fin wu) (f64_sub (Fin 1) (error_rate g))) (wu * (1 - r))"
      using close_mul[OF w0(7,8) e] r(2) by simp
  qed (use below above sum w0 in linarith)+
  moreover have total: "close 3 (total_weight cfg) (wl + we + ws + wu)"
    using sum4_close[OF close_exact[OF w0(1)] close_exact[OF w0(3)] close_exact[OF w0(5)] close_exact[OF w0(7)]] sum w0
    by (simp add: total_weight_def w)
  ultimately have "close (4 * (4 * 3 + 3 + 3) + 1) (f64_div ?n (total_weight cfg))
      ((wl * l + we * (1 - r) + ws * s + wu * (1 - r)) / (wl + we + ws + wu))"
    using below above sum by (intro close_div) auto
  moreover have "\<not> f64_le (total_weight cfg) (Fin 0)"
  proof -
    obtain t where "total_weight cfg = Fin t" "\<bar>t - (wl + we + ws + wu)\<bar> \<le> of_nat 3 * ulp"
      using total by (auto simp: close_def)
    moreover have "of_nat 3 * ulp \<le> 1 / 4" by (simp add: ulp_def)
    ultimately show ?thesis using sum(1) by (auto simp: abs_le_iff)
  qed
  moreover note assms(2)
  ultimately have "close 73 (score g tips cfg) (exact_mean g tips cfg)"
    by (simp add: score_def exact_mean_def Let_def w W l_def r_def s_def)
  moreover have "of_nat 73 * ulp \<le> 1 / 2 ^ 44" by (simp add: ulp_def)
  ultimately show ?thesis by (force simp: close_def)
qed

lemma score_near:
  assumes "scorable g tips cfg"
  shows "\<exists>b. score g tips cfg = Fin b \<and> \<bar>b - exact_score g tips cfg\<bar> \<le> 1 / 2 ^ 44"
proof (cases "in_circuit g = Open")
  case True
  then show ?thesis by (simp add: score_def exact_score_def)
next
  case False
  then show ?thesis using mean_near[OF assms] by (simp add: exact_score_def)
qed

text \<open>So an exact advantage, however small, above the error is an advantage of the computed scores.\<close>

lemma exact_gap:
  assumes "scorable g tips cfg" "scorable g' tips' cfg'" "exact_score g' tips' cfg' + 1 / 2 ^ 40 \<le> exact_score g tips cfg"
  shows "f64_lt (score g' tips' cfg') (score g tips cfg)"
proof -
  obtain a b where a: "score g tips cfg = Fin a" "\<bar>a - exact_score g tips cfg\<bar> \<le> 1 / 2 ^ 44"
    and b: "score g' tips' cfg' = Fin b" "\<bar>b - exact_score g' tips' cfg'\<bar> \<le> 1 / 2 ^ 44"
    using score_near[OF assms(1)] score_near[OF assms(2)] by blast
  have gap: "b < a" if "\<bar>a - x\<bar> \<le> e" "\<bar>b - y\<bar> \<le> e" "e + e < d" "y + d \<le> x" for e d x y
    using that by linarith
  have "b < a" by (rule gap[OF a(2) b(2) _ assms(3)]) simp
  then show ?thesis by (simp add: a(1) b(1))
qed

section \<open>The default weights\<close>

lemma default_weight_values:
  assumes "default_weights cfg"
  obtains wl we ws wu where "hc_w_latency cfg = Fin wl" "hc_w_error cfg = Fin we" "hc_w_slot cfg = Fin ws"
    "hc_w_success cfg = Fin wu" "\<bar>wl - 4 / 10\<bar> \<le> ulp" "\<bar>we - 3 / 10\<bar> \<le> ulp" "\<bar>ws - 2 / 10\<bar> \<le> ulp" "\<bar>wu - 1 / 10\<bar> \<le> ulp"
proof -
  obtain wl where "rnd (4 / 10) = Fin wl" "\<bar>wl - 4 / 10\<bar> \<le> ulp" by (rule rnd_near_4[of "4 / 10"]) simp_all
  moreover obtain we where "rnd (3 / 10) = Fin we" "\<bar>we - 3 / 10\<bar> \<le> ulp" by (rule rnd_near_4[of "3 / 10"]) simp_all
  moreover obtain ws where "rnd (2 / 10) = Fin ws" "\<bar>ws - 2 / 10\<bar> \<le> ulp" by (rule rnd_near_4[of "2 / 10"]) simp_all
  moreover obtain wu where "rnd (1 / 10) = Fin wu" "\<bar>wu - 1 / 10\<bar> \<le> ulp" by (rule rnd_near_4[of "1 / 10"]) simp_all
  ultimately show ?thesis using that assms by (simp add: default_weights_def)
qed

lemma default_weights_range:
  assumes "default_weights cfg"
  shows "list_all weight_ok [hc_w_latency cfg, hc_w_error cfg, hc_w_slot cfg, hc_w_success cfg]"
    "1 / 2 \<le> exact_weight cfg" "exact_weight cfg \<le> 3"
proof -
  have "ulp \<le> 1 / 100" by (simp add: ulp_def)
  with assms show "list_all weight_ok [hc_w_latency cfg, hc_w_error cfg, hc_w_slot cfg, hc_w_success cfg]"
    "1 / 2 \<le> exact_weight cfg" "exact_weight cfg \<le> 3"
    by (auto elim!: default_weight_values simp: weight_ok_def exact_weight_def abs_le_iff)
qed

text \<open>With the default weights a provider that is nowhere worse and somewhere better by a hundredth scores higher.\<close>

lemma default_better:
  assumes "default_weights cfg" "scorable g tips cfg" "scorable g' tips' cfg"
    and "exact_latency_score g' \<le> exact_latency_score g" "exact_error_rate g \<le> exact_error_rate g'"
      "exact_slot_score g' tips' cfg \<le> exact_slot_score g tips cfg"
    and "1 / 100 \<le> (exact_latency_score g - exact_latency_score g') + (exact_error_rate g' - exact_error_rate g) +
      (exact_slot_score g tips cfg - exact_slot_score g' tips' cfg)"
    and "in_circuit g \<noteq> Open" "in_circuit g' \<noteq> Open"
  shows "f64_lt (score g' tips' cfg) (score g tips cfg)"
proof (rule exact_gap[OF assms(2,3)])
  obtain wl we ws wu where w: "hc_w_latency cfg = Fin wl" "hc_w_error cfg = Fin we" "hc_w_slot cfg = Fin ws"
      "hc_w_success cfg = Fin wu"
    and near: "\<bar>wl - 4 / 10\<bar> \<le> ulp" "\<bar>we - 3 / 10\<bar> \<le> ulp" "\<bar>ws - 2 / 10\<bar> \<le> ulp" "\<bar>wu - 1 / 10\<bar> \<le> ulp"
    using default_weight_values[OF assms(1)] .
  have "ulp \<le> 1 / 100" by (simp add: ulp_def)
  with near have w5: "1 / 20 \<le> wl" "1 / 20 \<le> we" "1 / 20 \<le> ws" "0 \<le> wu" by linarith+
  let ?l = "exact_latency_score g - exact_latency_score g'" and ?r = "exact_error_rate g' - exact_error_rate g"
    and ?s = "exact_slot_score g tips cfg - exact_slot_score g' tips' cfg" and ?W = "wl + we + ws + wu"
  have "1 / 20 * ?l \<le> wl * ?l" "1 / 20 * ?r \<le> we * ?r" "1 / 20 * ?s \<le> ws * ?s" "0 \<le> wu * ?r"
    using w5 assms(4-6) by (intro mult_right_mono mult_nonneg_nonneg; simp)+
  note parts = this
  have "1 / 2000 \<le> A + B + C + D" if "1 / 100 \<le> x + y + z" "1 / 20 * x \<le> A" "1 / 20 * y \<le> B" "1 / 20 * z \<le> C" "0 \<le> D"
    for x y z A B C D :: rat
    using that by linarith
  from this[OF assms(7) parts] have "1 / 2000 \<le> wl * ?l + we * ?r + ws * ?s + wu * ?r" .
  moreover have W: "exact_weight cfg = ?W" by (simp add: exact_weight_def w)
  have "0 < ?W" "?W \<le> 3" using default_weights_range(2,3)[OF assms(1)] by (simp_all add: W)
  ultimately have "1 / 2000 / 3 \<le> (wl * ?l + we * ?r + ws * ?s + wu * ?r) / ?W"
    by (intro frac_le) auto
  moreover have "exact_score g tips cfg - exact_score g' tips' cfg = (wl * ?l + we * ?r + ws * ?s + wu * ?r) / ?W"
    by (simp add: exact_score_def exact_mean_def assms(8,9) W w diff_divide_distrib[symmetric] algebra_simps)
  moreover have "(1 / 2 ^ 40 :: rat) \<le> 1 / 2000 / 3" by simp
  ultimately show "exact_score g' tips' cfg + 1 / 2 ^ 40 \<le> exact_score g tips cfg" by linarith
qed

section \<open>The property\<close>

text \<open>C40. The score computed in IEEE doubles is within 2^-44 of the exact one: the weighted mean of its
components in rational arithmetic, and 0 for an open circuit. This holds if the weights are at most
1 with a sum between a half and 3, the inputs are numbers that a double holds exactly, and the
provider is not at the tip with a drift threshold of 0, where the score is 0/0.\<close>

theorem score_accurate:
  assumes "scorable g tips cfg"
  shows "\<exists>b. score g tips cfg = Fin b \<and> \<bar>b - exact_score g tips cfg\<bar> \<le> 1 / 2 ^ 44"
  using assms by (rule score_near)

theorem score_accurate_witness:
  "let g = inner_new\<lparr>in_latency_ema_ms := Fin 120, in_window := [(0, Success), (1, Failure)],
         in_slots := (in_slots inner_new)\<lparr>cs_processed := Some 95\<rparr>\<rparr>;
       t = tip_of_latest \<lparr>st_processed = 100, st_confirmed = 100, st_finalized = 100\<rparr> in
   \<exists>b. score g t default_health = Fin b \<and> \<bar>b - exact_score g t default_health\<bar> \<le> 1 / 2 ^ 44"
  unfolding Let_def
proof (rule score_accurate)
  let ?g = "inner_new\<lparr>in_latency_ema_ms := Fin 120, in_window := [(0, Success), (1, Failure)],
      in_slots := (in_slots inner_new)\<lparr>cs_processed := Some 95\<rparr>\<rparr>"
    and ?t = "tip_of_latest \<lparr>st_processed = 100, st_confirmed = 100, st_finalized = 100\<rparr>"
  have "default_weights default_health" by (simp add: default_weights_def default_health_def)
  note default_weights_range[OF this]
  moreover have "worst_drift ?g ?t = Some 5"
    by (simp add: worst_drift_def drift_def inner_new_def cs_default_def tip_of_latest_def commitment_ALL_def u64_saturating_sub_def)
  ultimately show "scorable ?g ?t default_health"
    by (simp add: scorable_def window_small_def inner_new_def default_health_def)
qed

end
