(* ===== verification/ScoreTests.thy ===== *)
theory ScoreTests
  imports HealthTests Accuracy
begin

text \<open>
  The unit tests of \<open>health.rs\<close> that compare scores, error rates and smoothed latencies, the long window, the probe
  clock and the partial refill, read as statements about the model. Scores are compared through their exact values
  (\<open>Accuracy\<close>). Clock readings within one test are equal unless the test moves them.
\<close>

section \<open>Tests that compare scores\<close>

definition nearly :: "f64 \<Rightarrow> f64 \<Rightarrow> f64 \<Rightarrow> bool" where
  "nearly eps x y = (case f64_sub x y of Fin d \<Rightarrow> f64_lt (Fin \<bar>d\<bar>) eps | _ \<Rightarrow> False)"

definition score_unknown_provider_is_midpoint :: bool where
  "score_unknown_provider_is_midpoint \<longleftrightarrow>
     f64_lt (Fin 0) (score inner_new (tips 0) default_health) \<and> f64_lt (score inner_new (tips 0) default_health) (Fin 1)"

definition score_increases_with_good_latency :: bool where
  "score_increases_with_good_latency \<longleftrightarrow>
     f64_lt (score (inner_new\<lparr>in_latency_ema_ms := Fin 800\<rparr>) (tips 100) default_health)
       (score (inner_new\<lparr>in_latency_ema_ms := Fin 20\<rparr>) (tips 100) default_health)"

definition score_decreases_with_slot_drift :: bool where
  "score_decreases_with_slot_drift \<longleftrightarrow>
     f64_lt (score (update_slot 950 inner_new) (tips 1000) default_health)
       (score (update_slot 1000 inner_new) (tips 1000) default_health)"

definition error_rate_counts_failures :: bool where
  "error_rate_counts_failures \<longleftrightarrow>
     (let w = hc_window_secs default_health;
          inner = push_now False (Fin 0) True w (push_now False (Fin 0) True w (push_now True (Fin 50) True w inner_new)) in
      nearly (rnd (1 / 10 ^ 9)) (error_rate inner) (f64_div (Fin 2) (Fin 3)))"

definition latency_ema_applies_smoothing :: bool where
  "latency_ema_applies_smoothing \<longleftrightarrow>
     (let inner = push_now True (Fin 200) True 60 (push_now True (Fin 100) True 60 inner_new);
          expected = f64_add (f64_mul (rnd (85 / 100)) (Fin 100)) (f64_mul (rnd (15 / 100)) (Fin 200)) in
      nearly (rnd (1 / 10 ^ 9)) (in_latency_ema_ms inner) expected)"

definition score_worse_with_all_failures_than_all_successes :: bool where
  "score_worse_with_all_failures_than_all_successes \<longleftrightarrow>
     (let w = hc_window_secs default_health;
          bad = (push_now False (Fin 0) True w ^^ 10) inner_new;
          good = (push_now True (Fin 50) True w ^^ 10) inner_new in
      f64_lt (score bad (tips 100) default_health) (score good (tips 100) default_health))"

definition throttle_demotes_score_without_opening_circuit :: bool where
  "throttle_demotes_score_without_opening_circuit \<longleftrightarrow>
     (let cfg = default_health\<lparr>hc_circuit_open_failures := 3, hc_circuit_error_threshold := rnd (1 / 2)\<rparr>;
          ts = snapshot ''throttled'' ((throttle_now (Fin 0) cfg ^^ 10) inner_new) (tips 0) cfg;
          clean = snapshot ''clean'' ((rec_now True (Fin 50) True cfg ^^ 10) inner_new) (tips 0) cfg in
      hs_circuit ts = Closed \<and> is_available ts \<and> f64_lt (hs_score ts) (hs_score clean))"

definition finalized_stall_demotes_score_and_flags_drift :: bool where
  "finalized_stall_demotes_score_and_flags_drift \<longleftrightarrow>
     (let t = tip_of_latest \<lparr>st_processed = 1000, st_confirmed = 0, st_finalized = 999\<rparr>;
          probed_at = (\<lambda>finalized. \<lparr>cs_processed = Some 1000, cs_confirmed = None, cs_finalized = Some finalized\<rparr>);
          hs = snapshot ''healthy'' (update_slots (probed_at 999) inner_new) t default_health;
          ss = snapshot ''stalled'' (update_slots (probed_at 950) inner_new) t default_health in
      \<not> hs_is_drifting hs \<and> hs_slot_drift ss = 49 \<and> hs_is_drifting ss \<and> f64_lt (hs_score ss) (hs_score hs) \<and>
      ch_slot (hs_confirmed ss) = None \<and> ch_drift (hs_confirmed ss) = 0)"

definition confirmed_stall_demotes_score_and_flags_drift :: bool where
  "confirmed_stall_demotes_score_and_flags_drift \<longleftrightarrow>
     (let t = tip_of_latest \<lparr>st_processed = 1000, st_confirmed = 1000, st_finalized = 968\<rparr>;
          hs = snapshot ''healthy'' (update_slots (all_slots 1000 999 968) inner_new) t default_health;
          ss = snapshot ''stalled'' (update_slots (all_slots 1000 960 968) inner_new) t default_health in
      \<not> hs_is_drifting hs \<and> ch_is_drifting (hs_confirmed ss) \<and> hs_is_drifting ss \<and> hs_slot_drift ss = 40 \<and>
      f64_lt (hs_score ss) (hs_score hs))"

section \<open>Tests of the window, the probe clock and the refill\<close>

definition window_length_bounded_by_time_not_call_count :: bool where
  "window_length_bounded_by_time_not_call_count \<longleftrightarrow>
     (let inner = fold (\<lambda>i. push_now (i mod 2 = 0) (Fin 50) True 60) [0..<1000] inner_new in
      length (in_window inner) = 1000 \<and> f64_le (Fin 0) (error_rate inner) \<and> f64_le (error_rate inner) (Fin 1))"

text \<open>The first ticker is made when the clock is; \<open>now\<close> is when the late tick is looked at.\<close>

definition probe_clock_ticks_on_a_shared_grid :: "instant \<Rightarrow> instant \<Rightarrow> bool" where
  "probe_clock_ticks_on_a_shared_grid t now \<longleftrightarrow>
     (let clock = clock_new t 1000; ms = (\<lambda>n. int (duration_from_millis n)); tick = clock_ticker clock t in
      clock_round clock t = 0 \<and> clock_round clock (t + ms 999) = 0 \<and> clock_round clock (t + ms 1000) = 1 \<and>
      clock_round clock (t + ms 2500) = 2 \<and> tick = pc_start clock \<and> on_grid_round clock t tick = Some 0 \<and>
      on_grid_round clock now (now - ms 500) = None)"

definition token_bucket_refills_over_time :: bool where
  "token_bucket_refills_over_time \<longleftrightarrow>
     (let b = (bucket_new 0 10)\<lparr>tk_tokens := Fin 0, tk_last := 0 - int (duration_from_millis 200)\<rparr> in
      case bucket_try_acquire 0 b of (granted, b) \<Rightarrow> granted \<and> fst (bucket_has_capacity 0 b))"

text \<open>What a score depends on: the smoothed latency, the bad ones among the samples, and the worst drift.\<close>

definition seen :: "inner \<Rightarrow> tip_source \<Rightarrow> rat \<Rightarrow> nat \<Rightarrow> nat \<Rightarrow> nat option \<Rightarrow> bool" where
  "seen g t ema bad n d \<longleftrightarrow> in_circuit g = Closed \<and> in_latency_ema_ms g = Fin ema \<and> length (in_window g) = n \<and>
     length (filter (\<lambda>(t, s). s \<noteq> Success) (in_window g)) = bad \<and> map_option unat (worst_drift g t) = d"

definition usual :: "health_config \<Rightarrow> bool" where
  "usual cfg \<longleftrightarrow> default_weights cfg \<and> hc_slot_drift_threshold cfg = 10"

section \<open>They hold of the model\<close>

lemma default_weights_default: "default_weights default_health"
  by (simp add: default_weights_def default_health_def)

lemma seen_scorable:
  assumes "usual cfg" "seen g t ema bad n d" "0 \<le> ema" "ema \<le> 1000" "n \<le> 1000" "pred_option (\<lambda>d. d \<le> 1000) d"
  shows "scorable g t cfg"
  using assms default_weights_range[of cfg]
  by (cases "worst_drift g t") (auto simp: scorable_def window_small_def seen_def usual_def)

lemma seen_exact:
  assumes "usual cfg" "seen g t ema bad n d"
  shows "exact_latency_score g = (if ema = 0 then 1 / 2 else 200 / (200 + ema))"
    "exact_error_rate g = (if n = 0 then 0 else of_nat bad / of_nat n)"
    "exact_slot_score g t cfg = (case d of None \<Rightarrow> 1 / 2 | Some d \<Rightarrow> 10 / (10 + of_nat d))"
proof -
  show "exact_latency_score g = (if ema = 0 then 1 / 2 else 200 / (200 + ema))"
    using assms by (simp add: seen_def exact_latency_score_def)
  show "exact_error_rate g = (if n = 0 then 0 else of_nat bad / of_nat n)"
    using assms by (cases "in_window g") (auto simp: seen_def exact_error_rate_def)
  show "exact_slot_score g t cfg = (case d of None \<Rightarrow> 1 / 2 | Some d \<Rightarrow> 10 / (10 + of_nat d))"
    using assms by (cases "worst_drift g t") (auto simp: seen_def usual_def exact_slot_score_def)
qed

lemma seen_less:
  assumes "usual cfg" "seen g t e b n d" "seen g' t' e' b' n' d'"
    and "0 \<le> e" "e \<le> 1000" "0 \<le> e'" "e' \<le> 1000" "n \<le> 1000" "n' \<le> 1000"
      "pred_option (\<lambda>d. d \<le> 1000) d" "pred_option (\<lambda>d. d \<le> 1000) d'"
    and "l' = (if e' = 0 then 1 / 2 else 200 / (200 + e'))" "l = (if e = 0 then 1 / 2 else 200 / (200 + e))"
      "r' = (if n' = 0 then 0 else of_nat b' / of_nat n')" "r = (if n = 0 then 0 else of_nat b / of_nat n)"
      "s' = (case d' of None \<Rightarrow> 1 / 2 | Some d \<Rightarrow> 10 / (10 + of_nat d))"
      "s = (case d of None \<Rightarrow> 1 / 2 | Some d \<Rightarrow> 10 / (10 + of_nat d))"
    and "l' \<le> l" "r \<le> r'" "s' \<le> s" "1 / 100 \<le> (l - l') + (r' - r) + (s - s')"
  shows "f64_lt (score g' t' cfg) (score g t cfg)"
proof (rule default_better)
  show "default_weights cfg" using assms(1) by (simp add: usual_def)
  show "scorable g t cfg" "scorable g' t' cfg" using assms(1-11) by (blast intro: seen_scorable)+
  show "in_circuit g \<noteq> Open" "in_circuit g' \<noteq> Open" using assms(2,3) by (simp_all add: seen_def)
qed (use assms(12-) in \<open>simp_all only: seen_exact[OF assms(1,2)] seen_exact[OF assms(1,3)]\<close>)

lemma usual_default: "usual default_health"
    "usual (default_health\<lparr>hc_circuit_open_failures := x, hc_circuit_error_threshold := y\<rparr>)"
  by (simp_all add: usual_def default_weights_def default_health_def)

lemma no_slots: "worst_drift (probed c opened n e ss) t = None"
  by (simp add: worst_drift_def drift_def probed_def cs_default_def commitment_ALL_def List.map_filter_def)

lemma seen_probed:
  "seen (probed Closed opened n (Fin ema) ss) t ema (length (filter (\<lambda>s. s \<noteq> Success) ss)) (length ss) None"
  by (simp add: seen_def no_slots filter_map comp_def)

lemma unknown_provider_score: "score_unknown_provider_is_midpoint"
proof -
  let ?g = inner_new and ?t = "tips 0"
  have g: "seen ?g ?t 0 0 0 None" using seen_probed[of None 0 0 "[]"] by (simp add: inner_new_probed)
  from seen_scorable[OF usual_default(1) this] obtain b where b: "score ?g ?t default_health = Fin b"
    "\<bar>b - exact_score ?g ?t default_health\<bar> \<le> 1 / 2 ^ 44" using score_near[of ?g ?t default_health] by auto
  obtain wl we ws wu where v: "hc_w_latency default_health = Fin wl" "hc_w_error default_health = Fin we"
      "hc_w_slot default_health = Fin ws" "hc_w_success default_health = Fin wu"
    and near: "\<bar>wl - 4 / 10\<bar> \<le> ulp" "\<bar>we - 3 / 10\<bar> \<le> ulp" "\<bar>ws - 2 / 10\<bar> \<le> ulp" "\<bar>wu - 1 / 10\<bar> \<le> ulp"
    using default_weight_values[of default_health, OF usual_default(1)[unfolded usual_def, THEN conjunct1]] .
  have "ulp \<le> 1 / 100" by (simp add: ulp_def)
  with near have w: "39 / 100 \<le> wl" "wl \<le> 41 / 100" "29 / 100 \<le> we" "we \<le> 31 / 100" "19 / 100 \<le> ws" "ws \<le> 21 / 100"
    "9 / 100 \<le> wu" "wu \<le> 11 / 100" by linarith+
  have "in_circuit ?g \<noteq> Open" using g by (simp add: seen_def)
  then have x: "exact_score ?g ?t default_health = (wl / 2 + we + ws / 2 + wu) / (wl + we + ws + wu)"
    by (simp add: exact_score_def exact_mean_def exact_weight_def v seen_exact[OF usual_default(1) g])
  have "1 / 2 \<le> exact_score ?g ?t default_health" "exact_score ?g ?t default_health \<le> 9 / 10"
    unfolding x using w by (simp_all add: le_divide_eq divide_le_eq)
  moreover have "0 < b" "b < 1" if "\<bar>b - y\<bar> \<le> e" "e < 1 / 100" "1 / 2 \<le> y" "y \<le> 9 / 10" for y e using that by linarith+
  ultimately have "0 < b" "b < 1" using b(2) by force+
  then show ?thesis by (simp add: score_unknown_provider_is_midpoint_def b(1))
qed

lemma latency_comparison: "score_increases_with_good_latency"
proof -
  have "inner_new\<lparr>in_latency_ema_ms := Fin m\<rparr> = probed Closed None 0 (Fin m) []" for m
    by (simp add: inner_new_def probed_def)
  moreover have "f64_lt (score (probed Closed None 0 (Fin 800) []) (tips 100) default_health)
      (score (probed Closed None 0 (Fin 20) []) (tips 100) default_health)"
    by (rule seen_less[OF usual_default(1) seen_probed seen_probed _ _ _ _ _ _ _ _ refl refl refl refl refl refl]) simp_all
  ultimately show ?thesis by (simp add: score_increases_with_good_latency_def)
qed

text \<open>Repeated outcomes: the smoothed latency of samples of 50 ms stays below 60 ms, whatever the rounding.\<close>

lemma ema_below_60:
  assumes "0 \<le> a" "a \<le> 60"
  shows "\<exists>e. ema_update (Fin a) (Fin 50) = Fin e \<and> 0 \<le> e \<and> e \<le> 60"
proof (cases "a = 0")
  case True
  then show ?thesis by (simp add: ema_update_def)
next
  case False
  obtain u where u: "rnd (85 / 100) = Fin u" "\<bar>u - 85 / 100\<bar> \<le> ulp" "0 \<le> u" by (rule rnd_near_4[of "85 / 100"]) simp_all
  obtain v where v: "rnd (15 / 100) = Fin v" "\<bar>v - 15 / 100\<bar> \<le> ulp" "0 \<le> v" by (rule rnd_near_4[of "15 / 100"]) simp_all
  have "ulp \<le> 1 / 100" by (simp add: ulp_def)
  with u v have uv: "u \<le> 86 / 100" "v \<le> 16 / 100" by linarith+
  have "u * a \<le> 86 / 100 * 60" using assms uv u(3) by (intro mult_mono) auto
  then have "u * a \<le> of_nat 52" by simp
  then obtain p where p: "rnd (u * a) = Fin p" "0 \<le> p" "p \<le> of_nat 52"
    using binary64.r_below_nat[of "u * a" 52] u(3) assms(1) by auto
  have "v * 50 \<le> of_nat 8" using uv by simp
  then obtain q where q: "rnd (v * 50) = Fin q" "0 \<le> q" "q \<le> of_nat 8"
    using binary64.r_below_nat[of "v * 50" 8] v(3) by auto
  obtain e where "rnd (p + q) = Fin e" "0 \<le> e" "e \<le> of_nat 60"
    using binary64.r_below_nat[of "p + q" 60] p q by auto
  with False u(1) v(1) p(1) q(1) show ?thesis by (simp add: ema_update_def)
qed

lemma repeated_success:
  assumes "\<And>e k. k < 10 \<Longrightarrow> f (probed Closed None 0 (Fin e) (replicate k Success)) =
      probed Closed None 0 (ema_update (Fin e) (Fin 50)) (replicate (Suc k) Success)" "k \<le> 10"
  shows "\<exists>e. (f ^^ k) inner_new = probed Closed None 0 (Fin e) (replicate k Success) \<and> 0 \<le> e \<and> e \<le> 60"
  using assms(2)
proof (induction k)
  case (Suc k)
  then obtain e where "(f ^^ k) inner_new = probed Closed None 0 (Fin e) (replicate k Success)" "0 \<le> e" "e \<le> 60" by auto
  with ema_below_60[of e] assms(1)[of k e] Suc.prems show ?case by (auto simp del: replicate_Suc)
qed (auto intro!: exI[of _ 0] simp: inner_new_probed)

lemma good_beats_bad:
  assumes "usual cfg" "0 \<le> e" "e \<le> 60" "filter (\<lambda>s. s \<noteq> Success) ss = ss" "length ss = 10"
  shows "f64_lt (score (probed Closed op' n' (Fin 0) ss) t' cfg) (score (probed Closed op n (Fin e) (replicate 10 Success)) t cfg)"
proof -
  have "1 / 2 \<le> (if e = 0 then 1 / 2 else 200 / (200 + e))" using assms(2,3) by (simp add: le_divide_eq)
  with assms show ?thesis
    by (intro seen_less[OF assms(1) seen_probed seen_probed _ _ _ _ _ _ _ _ refl refl refl refl refl refl])
      (simp_all add: filter_replicate)
qed

lemma all_failures_comparison: "score_worse_with_all_failures_than_all_successes"
proof -
  let ?bad = "push_now False (Fin 0) True (hc_window_secs default_health)"
    and ?good = "push_now True (Fin 50) True (hc_window_secs default_health)"
  have "(?bad ^^ k) inner_new = probed Closed None (of_nat k) (Fin 0) (replicate k Failure)" for k
    by (induction k) (simp_all add: inner_new_probed push_now_def push_probed replicate_append_same add.commute)
  moreover obtain e where "(?good ^^ 10) inner_new = probed Closed None 0 (Fin e) (replicate 10 Success)" "0 \<le> e" "e \<le> 60"
    using repeated_success[of ?good 10] by (auto simp: push_now_def push_probed replicate_append_same)
  ultimately show ?thesis
    using good_beats_bad[OF usual_default(1), of e "replicate 10 Failure"]
    by (simp add: score_worse_with_all_failures_than_all_successes_def filter_replicate)
qed

lemma throttle_comparison: "throttle_demotes_score_without_opening_circuit"
proof -
  let ?cfg = "default_health\<lparr>hc_circuit_open_failures := 3, hc_circuit_error_threshold := rnd (1 / 2)\<rparr>"
  have 1: "throttle_now (Fin 0) ?cfg (probed Closed None 0 (Fin 0) (replicate k Throttle)) =
      probed Closed None 0 (Fin 0) (replicate (Suc k) Throttle)" if "k < 100" for k
    using that by (simp add: probed_step test_rates default_health_def replicate_append_same)
  have bad: "(throttle_now (Fin 0) ?cfg ^^ k) inner_new = probed Closed None 0 (Fin 0) (replicate k Throttle)" if "k \<le> 100" for k
    using that
  proof (induction k)
    case (Suc k)
    then show ?case by (simp add: 1 del: replicate_Suc)
  qed (simp add: inner_new_probed)
  have "rec_now True (Fin 50) True ?cfg (probed Closed None 0 (Fin e) (replicate k Success)) =
      probed Closed None 0 (ema_update (Fin e) (Fin 50)) (replicate (Suc k) Success)" if "k < 10" for k e
    using that by (simp add: probed_step test_rates default_health_def replicate_append_same)
  from repeated_success[of "rec_now True (Fin 50) True ?cfg", OF this, of 10] obtain e
    where "(rec_now True (Fin 50) True ?cfg ^^ 10) inner_new = probed Closed None 0 (Fin e) (replicate 10 Success)" "0 \<le> e" "e \<le> 60"
    by auto
  with bad[of 10] show ?thesis
    using good_beats_bad[OF usual_default(2), where e = e and ss = "replicate 10 Throttle"]
    by (simp add: throttle_demotes_score_without_opening_circuit_def snapshot_def is_available_def filter_replicate Let_def)
qed

lemma seen_slots:
  assumes "in_circuit g = Closed" "in_latency_ema_ms g = Fin 0" "in_window g = []" "worst_drift g t = Some d"
  shows "seen g t 0 0 0 (Some (unat d))"
  using assms by (simp add: seen_def)

lemma drift_comparison:
  assumes "seen g t 0 0 0 (Some d)" "seen g' t' 0 0 0 (Some d')" "d \<le> 2" "30 \<le> d'" "d' \<le> 1000"
  shows "f64_lt (score g' t' default_health) (score g t default_health)"
proof -
  define a b where "a = 10 / (10 + of_nat d' :: rat)" and "b = 10 / (10 + of_nat d :: rat)"
  have "a \<le> 1 / 4" "10 / 12 \<le> b"
    using assms(3,4) by (simp_all add: a_def b_def divide_le_eq le_divide_eq)
  then have "a \<le> b" "1 / 100 \<le> b - a" by simp_all
  then show ?thesis
    using assms by (intro seen_less[OF usual_default(1) assms(1,2) _ _ _ _ _ _ _ _ refl refl refl refl refl refl])
      (simp_all add: a_def[symmetric] b_def[symmetric])
qed

lemmas slot_test_defs = test_slot_defs worst_drift_def commitment_ALL_def List.map_filter_def cs_default_def cr_default_def
  ch_default_def cs_merge_def cr_stamp_def max_def word_le_nat_alt Let_def

lemma slot_comparison: "score_decreases_with_slot_drift"
proof -
  have "seen (update_slot 1000 inner_new) (tips 1000) 0 0 0 (Some 0)" "seen (update_slot 950 inner_new) (tips 1000) 0 0 0 (Some 50)"
    by (simp_all add: seen_def slot_test_defs)
  from drift_comparison[OF this] show ?thesis by (simp add: score_decreases_with_slot_drift_def)
qed

lemma finalized_comparison: "finalized_stall_demotes_score_and_flags_drift"
proof -
  let ?t = "tip_of_latest \<lparr>st_processed = 1000, st_confirmed = 0, st_finalized = 999\<rparr>"
    and ?g = "\<lambda>f. update_slots \<lparr>cs_processed = Some 1000, cs_confirmed = None, cs_finalized = Some f\<rparr> inner_new"
  have "seen (?g 999) ?t 0 0 0 (Some 0)" "seen (?g 950) ?t 0 0 0 (Some 49)"
    by (simp_all add: seen_def slot_test_defs)
  from drift_comparison[OF this] have "f64_lt (score (?g 950) ?t default_health) (score (?g 999) ?t default_health)" by simp
  then show ?thesis unfolding finalized_stall_demotes_score_and_flags_drift_def
    by (simp add: snapshot_def Let_def) (simp add: slot_test_defs default_health_def)
qed

lemma confirmed_comparison: "confirmed_stall_demotes_score_and_flags_drift"
proof -
  let ?t = "tip_of_latest \<lparr>st_processed = 1000, st_confirmed = 1000, st_finalized = 968\<rparr>"
    and ?g = "\<lambda>c. update_slots (all_slots 1000 c 968) inner_new"
  have "seen (?g 999) ?t 0 0 0 (Some 1)" "seen (?g 960) ?t 0 0 0 (Some 40)"
    by (simp_all add: seen_def slot_test_defs)
  from drift_comparison[OF this] have "f64_lt (score (?g 960) ?t default_health) (score (?g 999) ?t default_health)" by simp
  then show ?thesis unfolding confirmed_stall_demotes_score_and_flags_drift_def
    by (simp add: snapshot_def Let_def) (simp add: slot_test_defs default_health_def)
qed

lemma nearly_refl: "nearly (rnd (1 / 10 ^ 9)) (Fin a) (Fin a)"
proof -
  obtain x where "rnd (1 / 10 ^ 9) = Fin x" "0 < x"
    using rnd_positive[of "- 30" "1 / 10 ^ 9"] by (auto simp: power_int_def power_one_over)
  then show ?thesis by (simp add: nearly_def f64_sub_def binary64.r_0)
qed

lemma error_rate_test: "error_rate_counts_failures"
proof -
  obtain a where "rnd (2 / 3) = Fin a" by (rule rnd_near_4[of "2 / 3"]) simp_all
  moreover have "error_rate (push_now False (Fin 0) True w (push_now False (Fin 0) True w (push_now True (Fin 50) True w inner_new))) =
      f64_div (Fin 2) (Fin 3)" for w
    by (simp add: inner_new_probed push_now_def push_probed rate_probed f64_of_nat_exact)
  ultimately show ?thesis using nearly_refl[of a] by (simp add: error_rate_counts_failures_def)
qed

lemma smoothing_test: "latency_ema_applies_smoothing"
proof -
  have "in_latency_ema_ms (push_now True (Fin 200) True 60 (push_now True (Fin 100) True 60 inner_new)) =
      f64_add (f64_mul (rnd (85 / 100)) (Fin 100)) (f64_mul (rnd (15 / 100)) (Fin 200))"
    by (simp add: inner_new_probed push_now_def push_probed ema_update_def)
  moreover have "\<exists>a. f64_add (f64_mul (rnd (85 / 100)) (Fin 100)) (f64_mul (rnd (15 / 100)) (Fin 200)) = Fin a"
  proof -
    obtain u v where uv: "rnd (85 / 100) = Fin u" "0 \<le> u" "u \<le> 1" "rnd (15 / 100) = Fin v" "0 \<le> v" "v \<le> 1"
      using binary64.r_unit[of "85 / 100"] binary64.r_unit[of "15 / 100"]
      by (cases "rnd (85 / 100)"; cases "rnd (15 / 100)") auto
    obtain p where p: "rnd (u * 100) = Fin p" "0 \<le> p" "p \<le> of_nat 100"
      by (rule binary64.r_below_nat[of "u * 100" 100]) (use uv in simp_all)
    obtain q where q: "rnd (v * 200) = Fin q" "0 \<le> q" "q \<le> of_nat 200"
      by (rule binary64.r_below_nat[of "v * 200" 200]) (use uv in simp_all)
    obtain e where "rnd (p + q) = Fin e"
      by (rule binary64.r_below_nat[of "p + q" 300]) (use p q in simp_all)
    with p q uv show ?thesis by simp
  qed
  ultimately show ?thesis using nearly_refl by (auto simp: latency_ema_applies_smoothing_def)
qed

lemma burst_window:
  "\<exists>n e ss. fold (\<lambda>i. push_now (i mod 2 = 0) (Fin 50) True 60) xs (probed Closed None n0 e0 ss0) = probed Closed None n e ss \<and>
     length ss = length ss0 + length xs"
proof (induction xs arbitrary: n0 e0 ss0)
  case (Cons x xs)
  show ?case
    using Cons.IH[of "if x mod 2 = 0 then 0 else n0 + 1" "if x mod 2 = 0 then ema_update e0 (Fin 50) else e0"
        "ss0 @ [if x mod 2 = 0 then Success else Failure]"]
    by (simp add: push_now_def push_probed)
qed auto

lemma burst_test: "window_length_bounded_by_time_not_call_count"
proof -
  let ?g = "fold (\<lambda>i. push_now (i mod 2 = 0) (Fin 50) True 60) [0..<1000] inner_new"
  obtain n e ss where g: "?g = probed Closed None n e ss" "length ss = 1000"
    using burst_window[of "[0..<1000]" 0 "Fin 0" "[]"] by (auto simp: inner_new_probed)
  then have "window_small ?g" by (simp add: window_small_def)
  then have "f64_unit (error_rate ?g)" by (rule error_rate_unit)
  then obtain r where "error_rate ?g = Fin r" "0 \<le> r" "r \<le> 1" by (cases "error_rate ?g") auto
  with g show ?thesis
    unfolding window_length_bounded_by_time_not_call_count_def Let_def by simp
qed

lemma clock_test: "probe_clock_ticks_on_a_shared_grid t now"
  by (simp add: probe_clock_ticks_on_a_shared_grid_def clock_new_def clock_round_def clock_ticker_def on_grid_round_def
      on_grid_slack_def duration_from_millis_def saturating_duration_since_def max_def word_le_nat_alt Let_def)

lemma refill_test: "token_bucket_refills_over_time"
proof -
  let ?a = "7205759403792794 / 2 ^ 55 :: rat"
  have a: "rnd (1 / 5) = Fin ?a"
    using rnd_nearest[of "- 3" "1 / 5" 7205759403792794] by (simp add: power_int_def power_one_over)
  have "is_f64 (rnd (1 / 5))" by simp
  then have fixed: "rnd ?a = Fin ?a" unfolding a by simp
  have secs: "as_secs_f64 200000000 = Fin ?a"
    using fixed by (simp add: as_secs_f64_def f64_of_nat_exact a)
  obtain b where b: "rnd (?a * 10) = Fin b" "\<bar>b - ?a * 10\<bar> \<le> ulp" by (rule rnd_near_4[of "?a * 10"]) simp_all
  have "f64_le (rnd 2) (rnd (?a * 10))" by (rule rnd_mono) simp
  then have b2: "2 \<le> b" unfolding b(1) using rnd_int[of 2] by simp
  have "ulp \<le> 1 / 2" by (simp add: ulp_def)
  moreover have "?a * 10 \<le> 5 / 2" by simp
  moreover have "b \<le> 3" if "\<bar>b - y\<bar> \<le> e" "e \<le> 1 / 2" "y \<le> 5 / 2" for y e using that by linarith
  ultimately have b3: "b \<le> 3" using b(2) by blast
  have "is_f64 (rnd (?a * 10))" by (rule is_f64_rnd)
  then have bb: "rnd b = Fin b" unfolding b(1) by simp
  obtain c where c: "rnd (b - 1) = Fin c" "1 \<le> c"
  proof -
    have "f64_le (rnd 1) (rnd (b - 1))" using b2 by (intro rnd_mono) simp
    moreover obtain c where "rnd (b - 1) = Fin c" by (rule rnd_near_4[of "b - 1"]) (use b2 b3 in simp_all)
    ultimately show ?thesis using that by (simp add: binary64.r_1)
  qed
  have still: "as_secs_f64 0 = Fin 0"
    by (simp add: as_secs_f64_def f64_of_nat_exact binary64.r_0)
  have "refill 0 ((bucket_new 0 10)\<lparr>tk_tokens := Fin 0, tk_last := 0 - int (duration_from_millis 200)\<rparr>) =
      (bucket_new 0 10)\<lparr>tk_tokens := Fin b, tk_last := 0\<rparr>"
    using b2 b3 by (simp add: refill_def bucket_new_def saturating_duration_since_def duration_from_millis_def secs
        f64_of_nat_exact b(1)[simplified] bb f64_min_def Let_def)
  note first = this
  have tried: "bucket_try_acquire 0 ((bucket_new 0 10)\<lparr>tk_tokens := Fin 0, tk_last := 0 - int (duration_from_millis 200)\<rparr>) =
      (True, (bucket_new 0 10)\<lparr>tk_tokens := Fin c, tk_last := 0\<rparr>)"
    unfolding bucket_try_acquire_def first using b2 c by (simp add: f64_sub_def Let_def)
  have "refill 0 ((bucket_new 0 10)\<lparr>tk_tokens := Fin c, tk_last := 0\<rparr>) = (bucket_new 0 10)\<lparr>tk_tokens := Fin c, tk_last := 0\<rparr>"
    by (simp add: refill_def saturating_duration_since_def still Let_def)
  with c have "fst (bucket_has_capacity 0 ((bucket_new 0 10)\<lparr>tk_tokens := Fin c, tk_last := 0\<rparr>))"
    by (simp add: bucket_has_capacity_def Let_def)
  then show ?thesis unfolding token_bucket_refills_over_time_def Let_def tried by simp
qed

end
