(* ===== verification/Spec2Isabelle.thy ===== *)
theory Spec2Isabelle
  imports Config Decode RateLimit Health Router Tx Metrics Telemetry Monitor Historical Proxy Sequential Broadcast Reload
    System Execution Shutdown Serving Status Wire Tools RouterTests HealthTests TxTests RequestTests ConfigTests TelemetryTests
    MetricsTests HistoricalTests Accuracy ScoreTests
begin

text \<open>
  \<^bold>\<open>A verification library for rpc-plane\<close>, the Solana JSON-RPC proxy of this repository (\<open>src/src\<close>).

  \<^bold>\<open>The program.\<close> A client posts a JSON-RPC body to the proxy. \<open>handle_rpc\<close> (\<open>proxy.rs\<close>) classifies it, takes a
  snapshot of the health of all providers (\<open>health.rs\<close>), asks the router (\<open>router.rs\<close>) for an ordered list of
  providers, and forwards the body one provider at a time (\<open>sequential\<close>) or to all of them at once
  (\<open>broadcast\<close>). Every forwarded leg is recorded in the metrics (\<open>metrics.rs\<close>), the telemetry aggregator
  (\<open>telemetry.rs\<close>) and the provider's health, which drives its score and its circuit breaker. Background tasks
  probe the slots of the providers, flush telemetry, decode submitted transactions (\<open>tx.rs\<close>), analyse repeated
  \<open>getTransaction\<close> calls (\<open>historical.rs\<close>), and reload the configuration (\<open>config.rs\<close>, \<open>main.rs\<close>) while requests are
  being served.

  \<^bold>\<open>Theories, in the order in which the code builds on itself.\<close>

  \<^item> \<open>Prelude\<close>: machine integers, clock readings, the stable sort (locale \<open>comparison\<close>), bounded channels (locale
    \<open>bounded_channel\<close>), generic lemmas.
  \<^item> \<open>F64\<close>: IEEE binary64 as rationals, infinities and NaN with rounding to nearest even (locale \<open>rounding\<close>,
    interpreted on the rounding function); the two zeros are identified.
  \<^item> \<open>Slots\<close>: commitments, per-commitment slots, the shared probe grid, the ring of round tips (\<open>health.rs\<close>). The
    ring refines the specification that a lookup gives the maximum observed in a round.
  \<^item> \<open>Config\<close>: the configuration records, their defaults, \<open>validate\<close> with one error per check, environment
    expansion and \<open>load\<close>. \<open>validate\<close> is equivalent to a declarative specification.
  \<^item> \<open>Decode\<close>: the readers serde derives for the configuration and for the early look at the thread count
    (\<open>main.rs\<close>), on the tree of a TOML document. Every configuration is read back from each of its documents (locale
    \<open>value_codec\<close>, one interpretation per scalar type, one codec per section), unknown keys change nothing.
  \<^item> \<open>RateLimit\<close>: \<open>TokenBucket\<close> in binary64. The cap holds over any sequence of calls up to rounding.
  \<^item> \<open>Health\<close>: \<open>ProviderHealth\<close>, its window, score and circuit. Scores lie between 0 and 1 unless
    the weights overflow or the drift threshold is 0, an open circuit stays
    open until the cooldown, recovers after it, and 429 replies alone never open it; the window equals its
    reference definition.
  \<^item> \<open>Json\<close>: the JSON values and the typed and untyped readers the code derives or calls.
  \<^item> \<open>Router\<close>: method classes, the error-code taxonomy and \<open>route\<close> with its strategies (interprets \<open>comparison\<close>).
  \<^item> \<open>Tx\<close>: the transaction decoder; decoding inverts the wire encoding of each version (locale \<open>codec\<close>).
  \<^item> \<open>Metrics\<close>: the metric families as they are registered (kind, name, labels, buckets) and the recording
    operations as calls on them. Registration cannot panic, and no call passes a wrong number of labels.
  \<^item> \<open>Telemetry\<close>: events, aggregator, percentiles, and \<open>RemoteReporter\<close> with its flush task as a state machine.
    Accepted events are delivered once and in order; call volume is conserved.
  \<^item> \<open>Monitor\<close>: \<open>HealthMonitor\<close> with its entries, shared records, stop flags and probe loops as a state machine. A probe
    loop is cut at its wait for the reply and at every lock it takes (type \<open>probe_stage\<close>).
  \<^item> \<open>Historical\<close>: the analyzer, its byte budget and worker. Memory is bounded and indexed, aggregates add up, no
    call is lost.
  \<^item> \<open>Proxy\<close>: the request path: shared state, classification, outcome of a leg, transaction queue, \<open>sequential\<close>,
    \<open>broadcast\<close> and the handlers. \<open>Sequential\<close> and \<open>Broadcast\<close> hold the theorems on the two forwarding paths.
  \<^item> \<open>Reload\<close>: \<open>watch_config\<close>, \<open>client_rebuild_reason\<close>, the telemetry tick and the \<open>check\<close> command. A reload is the
    list of the locked operations it makes; an abstraction to deployments shows what it installs, keeps and
    resets. A deployment says of every loop task whether it is still running: the task of a provider that could not
    answer \<open>getSlot\<close> when it was deployed has ended at once.
  \<^item> \<open>System\<close>: the whole process as a step relation. A step is one \<open>action\<close> of any task: a metric call with the
    arguments its caller passes, an operation of the monitor, the reporter or the analyzer, a send on a queue, a turn of
    a worker; the configuration watcher runs between the steps. A snapshot and a turn of a worker are one step
    each although they take several locks. The locale \<open>request_invariant\<close> states what the handlers need of an
    invariant of the shared state; \<open>step_invariant\<close> is the same for single steps and a sublocale of it. It is
    interpreted on reachability, on the invariant \<open>proxy_ok\<close>, and on the frame of the deployment.
  \<^item> \<open>Execution\<close>: what a handled request does, as a list of its own actions and its waits: which actions for which
    leg, in which order, with which outcome, what is handed to the analyzers, and what the drain adds after the
    answer (\<open>handler_is_a_run\<close>). It is a run of \<open>System\<close> if the other tasks' part of it is (\<open>handler_reaches\<close>).
  \<^item> \<open>Shutdown\<close>: the end of \<open>run\<close>: the flushes of analyzer, decode queue and reporter, interleaved with every
    background task. What was accepted is handed over, and completion stays reachable.
  \<^item> \<open>Serving\<close>: the command line, the start of \<open>run\<close>, listeners, the unix socket file, the descriptor limit, \<open>init\<close>,
    the routes and the accept loop of \<open>serve_unix\<close>. A successful start is a start state of \<open>System\<close> and of \<open>Shutdown\<close>.
    When the graceful shutdown of hyper_util has ended is a parameter.
  \<^item> \<open>Status\<close>: the JSON document of \<open>/health\<close> and the table of the \<open>status\<close> command, which shows the snapshots;
    what the reader of JSON numbers makes of a printed double is not assumed.
  \<^item> \<open>Wire\<close>: the JSON form of the telemetry events and the upload of a batch. What an endpoint reads is what was sent,
    field by field, and the raw events of it are those the reporter accepted, in order.
  \<^item> \<open>Tools\<close>: the load test (\<open>tools/load-test\<close>) and the dummy server (\<open>tools/dummy-rpc\<close>). A batch ends; its
    counters are those of the results its target makes of the exchanges, in every interleaving; the report leaves the
    warm-up out, percentiles are in order (interprets \<open>comparison\<close>).
  \<^item> \<open>Accuracy\<close>: the scores of \<open>Health\<close> against the same formulas in exact arithmetic. A score computed in doubles is
    within 2^-44 of the exact weighted mean of its components, and an open circuit scores 0 in both.
  \<^item> \<open>RouterTests\<close>, \<open>HealthTests\<close>, \<open>ScoreTests\<close>, \<open>TxTests\<close>, \<open>RequestTests\<close>, \<open>ConfigTests\<close>, \<open>TelemetryTests\<close>,
    \<open>MetricsTests\<close>, \<open>HistoricalTests\<close>: the unit tests of the modules of \<open>src/src\<close>, named as in the source, as
    statements about the model, and the lemmas that they hold. They check the definitions against the expectations the authors wrote down, the transactions serialized by
    the Solana library among them.

  \<^bold>\<open>State and operations.\<close> A struct is a record with a field prefix of its own (\<open>ps_\<close> for \<open>ProxyState\<close>, \<open>mo_\<close> for
  \<open>HealthMonitor\<close>, \<open>in_\<close> for \<open>Inner\<close>, \<open>rm_\<close> for \<open>RemoteReporter\<close>, \<open>hn_\<close> for \<open>HistoricalAnalytics\<close>), an enum is a
  datatype, a method that takes one lock is one function on the record. An object shared between a map and a
  running task is a cell of a store, addressed by index. Integers are words of their width with the wrap-around
  of a release build; text is a list of UTF-8 bytes as characters. Clock readings, the random roll, HTTP replies,
  latencies and the completion order of concurrent legs are inputs. Interference of other tasks with a handler is
  an arbitrary function of the shared state at each of its waits; the step relation of \<open>System\<close> allows it between
  any two actions. \<open>handle_rpc\<close> returns the legs that its broadcast left to the drain, and the theorems on it say what the
  drain then does.

  \<^bold>\<open>Third-party code\<close> is a parameter: the JSON parser and printer, the TOML parser from text to tree and
  two choices of its crate (record \<open>toml_crate\<close>), the scanner of shellexpand, base58 and base64, the keyed hashers. No theorem assumes more of them than its hypotheses say.

  \<^bold>\<open>Bounds and fuel.\<close> The two eviction loops of the analyzer run with the number of entries as fuel, which is
  enough because every turn removes one (\<open>expiry_exact\<close>, \<open>memory_bounded_and_indexed\<close>); the fail-over loop and the race
  recurse on the list of providers; the decoder's loops are bounded by their input. Theorems over histories that
  count in 64-bit counters state the bound on the history they need.

  \<^bold>\<open>Limits.\<close> A snapshot reads the records of the providers one lock after the other; here it sees them at one point
  in time. Clock arithmetic is that of Linux, where an \<open>Instant\<close> counts signed seconds, so that the cutoff of the
  health window never underflows.

  \<^bold>\<open>Not modelled.\<close> The build script, which writes environment variables for the compiler; the benchmarks and the
  integration tests, which call what is modelled; the unit tests of text that external crates print or parse (base58
  addresses, base64 fixtures, rendered metrics); the text of \<open>/metrics\<close>, which the prometheus crate renders, and the
  help texts of the families; the parsing of arguments by clap; tracing. What sockets, signals and the file system
  answer is an input of \<open>Serving\<close>.
\<close>

end
